(* ===== verification/CoPrelude.thy ===== *)
theory CoPrelude
  imports Main "HOL-Library.Word" "HOL-Library.Monad_Syntax"
begin

text \<open>
  The prelude of the development: the machine types of the i386 build (a C \<open>long\<close> and a
  pointer have 32 bits), the collections of rewrite rules the component theories share, and the
  generic lemmas on lists, options and words they use.

  Conventions. An operation that the code writes with in and out parameters takes and returns the
  state explicitly. A C expression whose evaluation would leave the bounds of its object, follow a
  null pointer or be undefined in another way makes the model return \<open>None\<close>; a theorem that a
  call returns \<open>Some\<close> says that the code stays inside its objects.
\<close>

unbundle bit_operations_syntax

type_synonym u8 = "8 word"
type_synonym u16 = "16 word"
type_synonym u32 = "32 word"
type_synonym u64 = "64 word"

text \<open>Collections: equations of the model to unfold, and facts a step keeps.\<close>

named_theorems co_defs
named_theorems co_inv

text \<open>Lists.\<close>

lemma take_Suc_snoc_nth: "n < length xs \<Longrightarrow> take (Suc n) xs = take n xs @ [xs ! n]"
  by (rule take_Suc_conv_app_nth)

lemma last_conv_rev_hd: "xs \<noteq> [] \<Longrightarrow> last xs = hd (rev xs)"
  by (simp add: hd_rev)

lemma list_update_same_length [simp]: "length (xs[i := x]) = length xs"
  by simp

text \<open>Options.\<close>

lemma bind_Some_iff: "(x \<bind> f = Some y) \<longleftrightarrow> (\<exists>z. x = Some z \<and> f z = Some y)"
  by (cases x) auto

lemma bind_None_iff: "(x \<bind> f = None) \<longleftrightarrow> (x = None \<or> (\<exists>z. x = Some z \<and> f z = None))"
  by (cases x) auto

text \<open>Words: bounds of a masked value, and reading bit fields.\<close>

end
