(* ===== verification/CoErrors.thy ===== *)
theory CoErrors
  imports CoPrelude
begin

text \<open>
  The return codes of \<open>src/colinux/common/common_base.h\<close>. A \<open>co_rc_t\<close> is a 32-bit
  signed value that packs an error code (10 bits), the source line (11 bits), a file id (10 bits)
  and a sign bit; \<open>CO_RC(name)\<close> builds it, \<open>CO_OK\<close> tests the sign and \<open>CO_RC_GET_*\<close> read the
  fields. The theorems say that the fields read back, that \<open>CO_OK\<close> is exactly "no error",
  and therefore that the other components may speak of the symbolic code alone.
\<close>

datatype co_rc =
    RC_OK | RC_ERROR | RC_PAE_ENABLED | RC_VERSION_MISMATCHED | RC_OUT_OF_MEMORY
  | RC_OUT_OF_PAGES | RC_NOT_FOUND | RC_CANT_OPEN_VMLINUX_FILE | RC_CANT_STAT_VMLINUX_FILE
  | RC_ERROR_READING_VMLINUX_FILE | RC_ERROR_INSTALLING_DRIVER | RC_ERROR_REMOVING_DRIVER
  | RC_ERROR_STARTING_DRIVER | RC_ERROR_STOPPING_DRIVER | RC_ERROR_ACCESSING_DRIVER
  | RC_TRANSFER_OFF_BOUNDS | RC_MONITOR_NOT_LOADED | RC_BROKEN_PIPE | RC_TIMEOUT
  | RC_ACCESS_DENIED | RC_COMPILER_MISMATCHED | RC_INVALID_PARAMETER
  | RC_HOSTMEM_USE_LIMIT_REACHED | RC_INSTANCE_TERMINATED

text \<open>\<open>co_error_value_t\<close>: the position in \<open>CO_ERRORS_X_MACRO\<close>, counted from 1; 0 is no error.\<close>

fun co_error_value :: "co_rc \<Rightarrow> nat" where
  "co_error_value RC_OK = 0"
| "co_error_value RC_ERROR = 1"
| "co_error_value RC_PAE_ENABLED = 2"
| "co_error_value RC_VERSION_MISMATCHED = 3"
| "co_error_value RC_OUT_OF_MEMORY = 4"
| "co_error_value RC_OUT_OF_PAGES = 5"
| "co_error_value RC_NOT_FOUND = 6"
| "co_error_value RC_CANT_OPEN_VMLINUX_FILE = 7"
| "co_error_value RC_CANT_STAT_VMLINUX_FILE = 8"
| "co_error_value RC_ERROR_READING_VMLINUX_FILE = 9"
| "co_error_value RC_ERROR_INSTALLING_DRIVER = 10"
| "co_error_value RC_ERROR_REMOVING_DRIVER = 11"
| "co_error_value RC_ERROR_STARTING_DRIVER = 12"
| "co_error_value RC_ERROR_STOPPING_DRIVER = 13"
| "co_error_value RC_ERROR_ACCESSING_DRIVER = 14"
| "co_error_value RC_TRANSFER_OFF_BOUNDS = 15"
| "co_error_value RC_MONITOR_NOT_LOADED = 16"
| "co_error_value RC_BROKEN_PIPE = 17"
| "co_error_value RC_TIMEOUT = 18"
| "co_error_value RC_ACCESS_DENIED = 19"
| "co_error_value RC_COMPILER_MISMATCHED = 20"
| "co_error_value RC_INVALID_PARAMETER = 21"
| "co_error_value RC_HOSTMEM_USE_LIMIT_REACHED = 22"
| "co_error_value RC_INSTANCE_TERMINATED = 23"

text \<open>\<open>co_rc_value_t\<close>: the negated error values.\<close>

definition co_rc_value :: "co_rc \<Rightarrow> int" where
  "co_rc_value name = - int (co_error_value name)"

text \<open>\<open>CO_BITS_BUILD\<close> and \<open>CO_BITS_GET\<close>, with the field's offset and width as arguments.\<close>

definition co_bits_build :: "nat \<Rightarrow> nat \<Rightarrow> int \<Rightarrow> u32" where
  "co_bits_build off cnt v = push_bit off (word_of_int v AND mask cnt)"

definition co_bits_get :: "nat \<Rightarrow> nat \<Rightarrow> u32 \<Rightarrow> int" where
  "co_bits_get off cnt v = uint (signed_drop_bit off v AND mask cnt)"

text \<open>\<open>CO_RC(name)\<close> expands to \<open>CO_RC_NEG_WRAPPER\<close> with \<open>__LINE__\<close> and \<open>COLINUX_FILE_ID\<close>.\<close>

definition CO_RC :: "co_rc \<Rightarrow> int \<Rightarrow> int \<Rightarrow> u32" where
  "CO_RC name line file_id =
     (let v = co_rc_value name in
      co_bits_build 31 1 (if v < 0 then 1 else 0) OR
      co_bits_build 0 10 (if v < 0 then - v else v) OR
      co_bits_build 10 11 line OR
      co_bits_build 21 10 file_id)"

definition CO_OK :: "u32 \<Rightarrow> bool" where
  "CO_OK rc \<longleftrightarrow> 0 \<le> sint rc"

definition CO_RC_GET_CODE :: "u32 \<Rightarrow> int" where
  "CO_RC_GET_CODE v = (if sint v < 0 then - co_bits_get 0 10 v else co_bits_get 0 10 v)"

definition CO_RC_GET_LINE :: "u32 \<Rightarrow> int" where
  "CO_RC_GET_LINE v = co_bits_get 10 11 v"

definition CO_RC_GET_FILE_ID :: "u32 \<Rightarrow> int" where
  "CO_RC_GET_FILE_ID v = co_bits_get 21 10 v"

text \<open>The test the components use on a symbolic code.\<close>

definition rc_ok :: "co_rc \<Rightarrow> bool" where
  "rc_ok name \<longleftrightarrow> name = RC_OK"

lemma rc_ok_simps [simp]:
  "rc_ok RC_OK" "\<not> rc_ok RC_ERROR" "\<not> rc_ok RC_OUT_OF_MEMORY" "\<not> rc_ok RC_INVALID_PARAMETER"
  by (simp_all add: rc_ok_def)

text \<open>Each bit of a built code comes from exactly one field.\<close>

lemma co_error_value_0_iff: "co_error_value name = 0 \<longleftrightarrow> name = RC_OK"
  by (cases name) simp_all

lemma co_error_value_less: "co_error_value name < 2 ^ 10"
  by (cases name) simp_all

lemma bit_co_bits_build:
  "bit (co_bits_build off cnt v) n \<longleftrightarrow> n < 32 \<and> off \<le> n \<and> n < off + cnt \<and> bit v (n - off)"
  by (auto simp: co_bits_build_def bit_simps)

lemma bit_CO_RC:
  "n < 32 \<Longrightarrow> bit (CO_RC name line fid) n \<longleftrightarrow>
   (if n < 10 then bit (int (co_error_value name)) n
    else if n < 21 then bit line (n - 10)
    else if n < 31 then bit fid (n - 21)
    else name \<noteq> RC_OK)"
  using co_error_value_0_iff [of name]
  by (auto simp: CO_RC_def co_rc_value_def Let_def bit_or_iff bit_co_bits_build bit_1_iff)

lemma bit_co_bits_get:
  "off + cnt \<le> 31 \<Longrightarrow> bit (co_bits_get off cnt v) n \<longleftrightarrow> n < cnt \<and> bit v (off + n)"
  by (auto simp: co_bits_get_def bit_simps min_def)

lemma sint_CO_RC_neg: "sint (CO_RC name line fid) < 0 \<longleftrightarrow> name \<noteq> RC_OK"
  using bit_CO_RC [of 31 name line fid] bit_last_iff [of "CO_RC name line fid"] by simp

lemma co_bits_get_line: "co_bits_get 10 11 (CO_RC name line fid) = take_bit 11 line"
  by (rule bit_eqI) (auto simp: bit_co_bits_get bit_CO_RC bit_take_bit_iff)

lemma co_bits_get_file: "co_bits_get 21 10 (CO_RC name line fid) = take_bit 10 fid"
  by (rule bit_eqI) (auto simp: bit_co_bits_get bit_CO_RC bit_take_bit_iff)

lemma co_bits_get_code: "co_bits_get 0 10 (CO_RC name line fid) = int (co_error_value name)"
proof -
  have "co_bits_get 0 10 (CO_RC name line fid) = take_bit 10 (int (co_error_value name))"
    by (rule bit_eqI) (auto simp: bit_co_bits_get bit_CO_RC bit_take_bit_iff)
  then show ?thesis
    using co_error_value_less [of name] by (simp add: take_bit_eq_mod)
qed

text \<open>packing an error code, a line number and a file id into a \<open>co_rc_t\<close> and reading the
  fields back returns the code, the line modulo 2048 and the file id modulo 1024, and \<open>CO_OK\<close> holds
  exactly of the values built from \<open>OK\<close>, whatever line and file id they carry.\<close>

theorem CO_RC_fields:
  "CO_RC_GET_CODE (CO_RC name line fid) = co_rc_value name \<and>
   CO_RC_GET_LINE (CO_RC name line fid) = line mod 2 ^ 11 \<and>
   CO_RC_GET_FILE_ID (CO_RC name line fid) = fid mod 2 ^ 10 \<and>
   (CO_OK (CO_RC name line fid) \<longleftrightarrow> rc_ok name)"
  by (auto simp: CO_RC_GET_CODE_def CO_RC_GET_LINE_def CO_RC_GET_FILE_ID_def CO_OK_def rc_ok_def
      co_bits_get_line co_bits_get_file co_bits_get_code sint_CO_RC_neg co_rc_value_def
      take_bit_eq_mod co_error_value_0_iff simp flip: not_less)

end
