(* ===== verification/CoLibc.thy ===== *)
theory CoLibc
  imports CoPrelude
begin

text \<open>
  The string comparisons of \<open>src/colinux/common/libc.c\<close> and the 64 by 32 bit division of
  \<open>src/colinux/common/common.h\<close>. A C string is the list of its characters up to the
  terminating NUL, which the model reads at the end of the list. The theorems say that the
  comparisons return 0 exactly for equal strings (for equal prefixes), and that the shift and
  subtract division returns quotient and remainder.
\<close>

text \<open>The character a pointer into a string reads: the NUL at its end.\<close>

definition c_char :: "string \<Rightarrow> char" where
  "c_char s = (case s of [] \<Rightarrow> CHR 0x00 | c # _ \<Rightarrow> c)"

lemma c_char_simps [simp]: "c_char [] = CHR 0x00" "c_char (c # s) = c"
  by (simp_all add: c_char_def)

text \<open>A string in the sense of C: no NUL before its end.\<close>

definition c_string :: "string \<Rightarrow> bool" where
  "c_string s \<longleftrightarrow> CHR 0x00 \<notin> set s"

lemma c_string_simps [simp]:
  "c_string []" "c_string (c # s) \<longleftrightarrow> c \<noteq> CHR 0x00 \<and> c_string s"
  by (auto simp: c_string_def)

text \<open>Conversion of an \<open>int\<close> to \<open>signed char\<close>.\<close>

definition to_schar :: "int \<Rightarrow> int" where
  "to_schar i = signed_take_bit 7 i"

function co_strlen :: "string \<Rightarrow> int" where
  "co_strlen s = (if c_char s = CHR 0x00 then 0 else 1 + co_strlen (tl s))"
  by pat_completeness auto
termination
  by (relation "measure length") (auto simp: c_char_def split: list.splits)

declare co_strlen.simps [simp del]

function internal_strcmp :: "string \<Rightarrow> string \<Rightarrow> int" where
  "internal_strcmp cs ct =
     (let res = to_schar (of_char (c_char cs) - of_char (c_char ct)) in
      if res \<noteq> 0 \<or> c_char cs = CHR 0x00 then res else internal_strcmp (tl cs) (tl ct))"
  by pat_completeness auto
termination
  by (relation "measure (\<lambda>(cs, ct). length cs)") (auto simp: c_char_def split: list.splits)

declare internal_strcmp.simps [simp del]

definition co_strcmp :: "string \<Rightarrow> string \<Rightarrow> int" where
  "co_strcmp s1 s2 = internal_strcmp s1 s2"

fun internal_strncmp :: "string \<Rightarrow> string \<Rightarrow> nat \<Rightarrow> int" where
  "internal_strncmp cs ct 0 = 0"
| "internal_strncmp cs ct (Suc count) =
     (let res = to_schar (of_char (c_char cs) - of_char (c_char ct)) in
      if res \<noteq> 0 \<or> c_char cs = CHR 0x00 then res else internal_strncmp (tl cs) (tl ct) count)"

text \<open>The \<open>int\<close> count becomes a 32-bit \<open>size_t\<close>.\<close>

definition co_strncmp :: "string \<Rightarrow> string \<Rightarrow> int \<Rightarrow> int" where
  "co_strncmp s1 s2 n = internal_strncmp s1 s2 (nat (n mod 2 ^ 32))"

text \<open>
  \<open>co_div64_32\<close>: \<open>*n\<close> is divided by \<open>base\<close>. The result is the quotient, which the code
  stores in \<open>*n\<close>, and the remainder, which it returns. A zero base traps in \<open>high /= base\<close>.
\<close>

lemma sint_pos_u64:
  assumes "0 < sint (b :: u64)"
  shows "0 < unat b" and "unat b < 2 ^ 63"
proof -
  have "sint b < 2 ^ 63"
    using sint_lt [of b] by simp
  with assms have "uint b = sint b"
    by (simp add: uint_sint take_bit_int_eq_self)
  with assms \<open>sint b < 2 ^ 63\<close> show "0 < unat b" and "unat b < 2 ^ 63"
    by (simp_all add: unat_eq_nat_uint nat_less_iff)
qed

lemma sint_nonpos_u64:
  assumes "\<not> 0 < sint (b :: u64)" "0 < unat b"
  shows "2 ^ 63 \<le> unat b"
proof -
  have "sint b \<noteq> 0"
    using assms(2) by (metis less_irrefl sint_0 signed_eq_0_iff unsigned_0)
  with assms have "- (2 ^ 63) \<le> sint b" "sint b < 0"
    using sint_ge [of b] by simp_all
  then have "uint b = sint b + 2 ^ 64"
    by (simp add: uint_sint take_bit_int_eq_self_iff take_bit_eq_mod mod_pos_geq)
      (smt (verit) mod_add_self2 mod_pos_pos_trivial)
  with \<open>- (2 ^ 63) \<le> sint b\<close> show ?thesis
    by (simp add: unat_eq_nat_uint le_nat_iff)
qed

lemma unat_double_u64: "unat b < 2 ^ 63 \<Longrightarrow> unat (2 * b) = 2 * unat b" for b :: u64
  by (simp add: unat_word_ariths)

lemma drop_bit_1_less_u64: "drop_bit 1 d \<noteq> 0 \<Longrightarrow> unat (drop_bit 1 d) < unat d" for d :: u64
  by (cases "d = 0") (auto simp: drop_bit_eq_div unat_div unat_gt_0)

function div64_scale :: "u64 \<Rightarrow> u64 \<Rightarrow> u64 \<Rightarrow> u64 \<times> u64" where
  "div64_scale rem b d =
     (if 0 < sint b \<and> b < rem then div64_scale rem (b + b) (d + d) else (b, d))"
  by pat_completeness auto
termination
  by (relation "measure (\<lambda>(rem, b, d). 2 ^ 64 - unat b)")
    (use sint_pos_u64 unat_double_u64 in \<open>auto intro!: diff_less_mono2 simp: unsigned_less [where ?'b = 64, simplified]\<close>)

declare div64_scale.simps [simp del]

function div64_subtract :: "u64 \<Rightarrow> u64 \<Rightarrow> u64 \<Rightarrow> u64 \<Rightarrow> u64 \<times> u64" where
  "div64_subtract rem b res d =
     (let (rem, res) = (if b \<le> rem then (rem - b, res + d) else (rem, res));
          b = drop_bit 1 b; d = drop_bit 1 d
      in if d \<noteq> 0 then div64_subtract rem b res d else (rem, res))"
  by pat_completeness auto
termination
  by (relation "measure (\<lambda>(rem, b, res, d). unat d)") 
    (use drop_bit_1_less_u64 in auto)

declare div64_subtract.simps [simp del]

definition co_div64_32 :: "u64 \<Rightarrow> u32 \<Rightarrow> (u64 \<times> u32) option" where
  "co_div64_32 n base =
     (let rem = n; b = ucast base :: u64; d = 1; res = 0;
          high = ucast (drop_bit 32 rem) :: u32
      in if base \<le> high \<and> base = 0 then None
         else
           let (res, rem) =
                 (if base \<le> high
                  then let high = high div base
                       in (push_bit 32 (ucast high), rem - push_bit 32 (ucast (high * base)))
                  else (res, rem));
               (b, d) = div64_scale rem b d;
               (rem, res) = div64_subtract rem b res d
           in Some (res, ucast rem))"

text \<open>The comparisons: the truncated difference of two characters is 0 only for equal ones.\<close>

lemma c_char_0_iff: "c_string s \<Longrightarrow> c_char s = CHR 0x00 \<longleftrightarrow> s = []"
  by (cases s) auto
lemma c_string_tl: "c_string s \<Longrightarrow> c_string (tl s)"
  by (cases s) auto
lemma co_strlen_eq: "c_string s \<Longrightarrow> co_strlen s = int (length s)"
  by (induction s) (simp_all add: co_strlen.simps)

lemma to_schar_diff_0_iff:
  "to_schar (of_char c - of_char d) = 0 \<longleftrightarrow> c = d"
proof -
  have "to_schar (of_char c - of_char d) = 0 \<longleftrightarrow> take_bit 8 (of_char c - of_char d :: int) = 0"
    using signed_take_bit_eq_iff_take_bit_eq [of 7 "of_char c - of_char d :: int" 0]
    by (simp add: to_schar_def numeral_eq_Suc)
  also have "\<dots> \<longleftrightarrow> (of_char c - of_char d :: int) mod 256 = 0"
    by (simp add: take_bit_eq_mod)
  also have "\<dots> \<longleftrightarrow> of_char c mod 256 = (of_char d mod 256 :: int)"
    by (metis dvd_eq_mod_eq_0 mod_eq_dvd_iff)
  also have "\<dots> \<longleftrightarrow> c = d"
    using of_char_eq_iff by auto
  finally show ?thesis .
qed

lemma to_schar_NUL:
  "to_schar (of_char c) = 0 \<longleftrightarrow> c = CHR 0x00" "to_schar (- of_char c) = 0 \<longleftrightarrow> c = CHR 0x00"
  using to_schar_diff_0_iff [of c "CHR 0x00"] to_schar_diff_0_iff [of "CHR 0x00" c] by auto

lemma to_schar_0 [simp]: "to_schar 0 = 0"
  by (simp add: to_schar_def)

lemmas to_schar_iffs = to_schar_diff_0_iff to_schar_NUL

lemma internal_strcmp_0_iff:
  "c_string s \<Longrightarrow> c_string t \<Longrightarrow> internal_strcmp s t = 0 \<longleftrightarrow> s = t"
proof (induction s arbitrary: t)
  case Nil
  then show ?case
    by (subst internal_strcmp.simps) (cases t; simp add: Let_def to_schar_iffs)
next
  case (Cons c s)
  then show ?case
    by (subst internal_strcmp.simps) (cases t; auto simp: Let_def to_schar_iffs)
qed

lemma internal_strncmp_0_iff:
  "c_string s \<Longrightarrow> c_string t \<Longrightarrow> internal_strncmp s t n = 0 \<longleftrightarrow> take n s = take n t"
proof (induction n arbitrary: s t)
  case (Suc n)
  then show ?case
    by (cases s; cases t) (auto simp: Let_def to_schar_iffs)
qed simp

text \<open>\<open>co_strcmp\<close> returns 0 exactly for equal strings and \<open>co_strncmp\<close> exactly when the first
  \<open>n\<close> characters agree, although both truncate the difference of two characters to a signed
  char.\<close>

theorem co_strcmp_equality:
  assumes "c_string s" "c_string t" "0 \<le> n" "n < 2 ^ 32"
  shows "(co_strcmp s t = 0 \<longleftrightarrow> s = t) \<and>
         (co_strncmp s t n = 0 \<longleftrightarrow> take (nat n) s = take (nat n) t)"
  using assms by (simp add: co_strcmp_def co_strncmp_def internal_strcmp_0_iff internal_strncmp_0_iff)

theorem co_strcmp_equality_witness:
  "(co_strcmp ''cobd1'' ''cobd2'' = 0 \<longleftrightarrow> ''cobd1'' = ''cobd2'') \<and>
   (co_strncmp ''cobd1'' ''cobd2'' 4 = 0 \<longleftrightarrow> take (nat 4) ''cobd1'' = take (nat 4) ''cobd2'')"
  by (rule co_strcmp_equality) simp_all

text \<open>The division: scaling keeps the multiple of the base, subtracting keeps the sum.\<close>

lemma div64_scale_result:
  assumes "unat b = base * 2 ^ k" "unat d = 2 ^ k" "0 < base" 
  shows "\<exists>k' b' d'. div64_scale rem b d = (b', d') \<and> unat b' = base * 2 ^ k' \<and> unat d' = 2 ^ k' \<and>
          unat rem < 2 * unat b'"
  using assms
proof (induction rem b d arbitrary: k rule: div64_scale.induct)
  case (1 rem b d)
  show ?case
  proof (cases "0 < sint b \<and> b < rem")
    case True
    then have b: "unat b < 2 ^ 63" using sint_pos_u64(2) by blast
    have "unat d \<le> unat b" using 1 by simp
    with b have "unat d < 2 ^ 63" by linarith
    with b have "unat (b + b) = base * 2 ^ Suc k" "unat (d + d) = 2 ^ Suc k"
      using 1(2,3) by (simp_all add: unat_double_u64)
    from 1(1) [OF True this 1(4)] True show ?thesis
      by (subst div64_scale.simps) simp
  next
    case False
    have "0 < unat b" using 1 by simp
    then have "unat rem < 2 * unat b"
      using False sint_nonpos_u64 [of b] unsigned_less [of rem, where 'a = nat]
      by (cases "0 < sint b") (auto simp: word_less_nat_alt)
    with 1 False show ?thesis by (subst div64_scale.simps) auto
  qed
qed


lemma div64_subtract_once:
  fixes b d rem res :: u64
  assumes "unat b = base * 2 ^ k" "unat d = 2 ^ k" "0 < base" "unat rem < 2 * unat b"
    and "unat res * base + unat rem = n" "n < 2 ^ 64"
  obtains rem1 res1 where "(if b \<le> rem then (rem - b, res + d) else (rem, res)) = (rem1, res1)"
    and "unat rem1 < base * 2 ^ k" and "unat res1 * base + unat rem1 = n"
proof (cases "b \<le> rem")
  case True
  then have rem: "unat (rem - b) = unat rem - base * 2 ^ k" "base * 2 ^ k \<le> unat rem"
    using assms by (simp_all add: unat_sub word_le_nat_alt)
  then have sum: "(unat res + 2 ^ k) * base + unat (rem - b) = n"
    using assms(5) by (simp add: algebra_simps)
  then have "unat res + 2 ^ k < 2 ^ 64"
    using assms(3,6) by (metis add_lessD1 dual_order.strict_trans2 le_square less_one mult.commute mult_le_cancel1 nat_mult_1_right not_le)
  then have "unat (res + d) = unat res + 2 ^ k"
    using assms(2) by (simp add: unat_word_ariths)
  with True rem sum assms that [of "rem - b" "res + d"] show ?thesis
    by simp
next
  case False
  with assms that [of rem res] show ?thesis
    by (simp add: word_le_nat_alt)
qed

lemma div64_subtract_result:
  assumes "unat b = base * 2 ^ k" "unat d = 2 ^ k" "0 < base" "unat rem < 2 * unat b"
    and "unat res * base + unat rem = n" "n < 2 ^ 64"
  shows "\<exists>rem' res'. div64_subtract rem b res d = (rem', res') \<and>
           unat rem' = n mod base \<and> unat res' = n div base"
  using assms
proof (induction k arbitrary: rem b res d)
  case 0
  obtain rem1 res1 where 1: "(if b \<le> rem then (rem - b, res + d) else (rem, res)) = (rem1, res1)"
    "unat rem1 < base * 2 ^ 0" "unat res1 * base + unat rem1 = n"
    using div64_subtract_once [OF 0] by metis
  have "drop_bit 1 d = 0"
    using 0 by (simp add: unat_eq_zero [symmetric] drop_bit_eq_div unat_div)
  with 1 have "div64_subtract rem b res d = (rem1, res1)"
    by (subst div64_subtract.simps) (simp add: Let_def)
  moreover have "unat res1 = n div base" "unat rem1 = n mod base"
    using 1 by (auto simp flip: 1(3))
  ultimately show ?case by blast
next
  case (Suc k)
  obtain rem1 res1 where 1: "(if b \<le> rem then (rem - b, res + d) else (rem, res)) = (rem1, res1)"
    "unat rem1 < base * 2 ^ Suc k" "unat res1 * base + unat rem1 = n"
    using div64_subtract_once [OF Suc.prems] by metis
  have b: "unat (drop_bit 1 b) = base * 2 ^ k" and d: "unat (drop_bit 1 d) = 2 ^ k"
    using Suc.prems by (simp_all add: drop_bit_eq_div unat_div)
  from d have "drop_bit 1 d \<noteq> 0" by auto
  with 1 have "div64_subtract rem b res d = div64_subtract rem1 (drop_bit 1 b) res1 (drop_bit 1 d)"
    by (subst div64_subtract.simps) (simp add: Let_def)
  with Suc.IH [OF b d Suc.prems(3) _ 1(3) Suc.prems(6)] 1(2) b show ?case
    by simp
qed

lemma div64_loops:
  assumes "0 < base" "unat b = base" "unat res * base + unat rem = n" "n < 2 ^ 64"
  shows "\<exists>b' d' rem' res'. div64_scale rem b 1 = (b', d') \<and> div64_subtract rem b' res d' = (rem', res') \<and>
           unat rem' = n mod base \<and> unat res' = n div base"
proof -
  obtain k b' d' where "div64_scale rem b 1 = (b', d')" "unat b' = base * 2 ^ k" "unat d' = 2 ^ k"
    "unat rem < 2 * unat b'"
    using div64_scale_result [of b base 0 1 rem] assms by auto
  with div64_subtract_result [of b' base k d' rem res n] assms show ?thesis
    by blast
qed

lemma unat_shift32: "unat (push_bit 32 (ucast (h :: u32)) :: u64) = unat h * 2 ^ 32"
proof -
  have "unat h < 2 ^ 32" using unsigned_less [of h, where 'a = nat] by simp
  then show ?thesis
    by (simp add: push_bit_eq_mult unat_mult_lem unsigned_ucast_eq take_bit_eq_mod unat_word_ariths)
qed

text \<open>C22: for every nonzero base \<open>co_div64_32\<close> terminates with the quotient of the 64-bit value in
  \<open>*n\<close> and returns the remainder.\<close>

theorem co_div64_32_correct:
  assumes "base \<noteq> 0"
  shows "\<exists>q r. co_div64_32 n base = Some (q, r) \<and> unat q = unat n div unat base \<and>
                unat r = unat n mod unat base"
proof -
  define high :: u32 where "high = ucast (drop_bit 32 n)"
  have n: "unat n < 2 ^ 64" using unsigned_less [of n, where 'a = nat] by simp
  have b0: "0 < unat base" using assms by (simp add: unat_gt_0)
  have b: "unat (ucast base :: u64) = unat base"
    using unsigned_less [of base, where 'a = nat] by (simp add: unsigned_ucast_eq take_bit_nat_eq_self)
  have high: "unat high = unat n div 2 ^ 32"
    using n by (simp add: high_def unsigned_ucast_eq drop_bit_eq_div unat_div take_bit_eq_mod)
  have r: "unat (ucast r :: u32) = unat r" if "unat r = unat n mod unat base" for r :: u64
  proof -
    have "unat r < 2 ^ 32"
      using that b0 unsigned_less [of base, where 'a = nat] mod_less_divisor [OF b0, of "unat n"]
      by simp
    then show ?thesis by (simp add: unsigned_ucast_eq take_bit_nat_eq_self)
  qed
  show ?thesis
  proof (cases "base \<le> high")
    case True
    let ?h = "high div base"
    have h: "unat ?h * unat base \<le> unat high"
      by (simp add: unat_div)
    then have hb: "unat (?h * base) = unat ?h * unat base"
      using unsigned_less [of high, where 'a = nat] by (simp add: unat_word_ariths)
    have "unat high * 2 ^ 32 \<le> unat n"
      by (simp add: high)
    with h have le: "unat ?h * unat base * 2 ^ 32 \<le> unat n"
      by (meson le_trans mult_le_mono1)
    then have "unat (n - push_bit 32 (ucast (?h * base))) = unat n - unat ?h * unat base * 2 ^ 32"
      using hb by (simp add: unat_sub word_le_nat_alt unat_shift32)
    then have "unat (push_bit 32 (ucast ?h) :: u64) * unat base + unat (n - push_bit 32 (ucast (?h * base))) = unat n"
      using le by (simp add: unat_shift32)
    from div64_loops [OF b0 b this n] r True assms show ?thesis
      by (auto simp: co_div64_32_def Let_def high_def)
  next
    case False
    have "unat (0 :: u64) * unat base + unat n = unat n" by simp
    from div64_loops [OF b0 b this n] r False assms show ?thesis
      by (auto simp: co_div64_32_def Let_def high_def)
  qed
qed

theorem co_div64_32_correct_witness:
  "\<exists>q r. co_div64_32 1000000000007 (10 :: u32) = Some (q, r) \<and>
     unat q = unat (1000000000007 :: u64) div unat (10 :: u32) \<and>
     unat r = unat (1000000000007 :: u64) mod unat (10 :: u32)"
  by (rule co_div64_32_correct) simp

end
