(* ===== verification/CoList.thy ===== *)
theory CoList
  imports CoErrors
begin

text \<open>
  The circular doubly linked lists of \<open>src/colinux/common/list.h\<close>, at the level of their
  pointers. The store maps the address of a \<open>co_list_t\<close> to its two fields; a field of a node
  that was allocated and not yet written reads as undefined. The representation predicate \<open>dll\<close>
  says that the nodes reachable from a head are a given list, linked in both directions; each
  operation keeps it and does to the list what its name says.
\<close>

type_synonym ptr = u32

record co_list =
  list_next :: "ptr option"
  list_prev :: "ptr option"

type_synonym nodes = "ptr \<rightharpoonup> co_list"

text \<open>Reading and writing \<open>p->next\<close> and \<open>p->prev\<close>.\<close>

definition get_next :: "nodes \<Rightarrow> ptr \<Rightarrow> ptr option" where
  "get_next h p = h p \<bind> list_next"

definition get_prev :: "nodes \<Rightarrow> ptr \<Rightarrow> ptr option" where
  "get_prev h p = h p \<bind> list_prev"

definition set_next :: "ptr \<Rightarrow> ptr \<Rightarrow> nodes \<Rightarrow> nodes option" where
  "set_next p v h = do { n \<leftarrow> h p; Some (h(p \<mapsto> n\<lparr>list_next := Some v\<rparr>)) }"

definition set_prev :: "ptr \<Rightarrow> ptr \<Rightarrow> nodes \<Rightarrow> nodes option" where
  "set_prev p v h = do { n \<leftarrow> h p; Some (h(p \<mapsto> n\<lparr>list_prev := Some v\<rparr>)) }"

text \<open>The operations of \<open>list.h\<close>.\<close>

definition co_list_init :: "ptr \<Rightarrow> nodes \<Rightarrow> nodes option" where
  "co_list_init list h = do {
     h \<leftarrow> set_next list list h;
     set_prev list list h }"

definition co_list_empty :: "ptr \<Rightarrow> nodes \<Rightarrow> bool option" where
  "co_list_empty list h = do { n \<leftarrow> get_next h list; Some (n = list) }"

definition co_list_add :: "ptr \<Rightarrow> ptr \<Rightarrow> ptr \<Rightarrow> nodes \<Rightarrow> nodes option" where
  "co_list_add newp prevp nextp h = do {
     h \<leftarrow> set_prev nextp newp h;
     h \<leftarrow> set_next newp nextp h;
     h \<leftarrow> set_prev newp prevp h;
     set_next prevp newp h }"

definition co_list_add_head :: "ptr \<Rightarrow> ptr \<Rightarrow> nodes \<Rightarrow> nodes option" where
  "co_list_add_head newp head h = do {
     n \<leftarrow> get_next h head;
     co_list_add newp head n h }"

definition co_list_add_tail :: "ptr \<Rightarrow> ptr \<Rightarrow> nodes \<Rightarrow> nodes option" where
  "co_list_add_tail newp head h = do {
     p \<leftarrow> get_prev h head;
     co_list_add newp p head h }"

definition co_list_unlink :: "ptr \<Rightarrow> ptr \<Rightarrow> nodes \<Rightarrow> nodes option" where
  "co_list_unlink prevp nextp h = do {
     h \<leftarrow> set_prev nextp prevp h;
     set_next prevp nextp h }"

definition co_list_del :: "ptr \<Rightarrow> nodes \<Rightarrow> nodes option" where
  "co_list_del entry h = do {
     p \<leftarrow> get_prev h entry;
     n \<leftarrow> get_next h entry;
     co_list_unlink p n h }"

text \<open>\<open>co_list_each_entry\<close>: the nodes the loop visits, at most \<open>fuel\<close> of them.\<close>

fun co_list_each :: "nat \<Rightarrow> ptr \<Rightarrow> ptr \<Rightarrow> nodes \<Rightarrow> ptr list option" where
  "co_list_each 0 pos head h = None"
| "co_list_each (Suc fuel) pos head h =
     (if pos = head then Some []
      else do { n \<leftarrow> get_next h pos; ps \<leftarrow> co_list_each fuel n head h; Some (pos # ps) })"

text \<open>The representation: a segment of nodes linked in both directions, and the ring at a head.\<close>

fun dlseg :: "nodes \<Rightarrow> ptr \<Rightarrow> ptr list \<Rightarrow> ptr \<Rightarrow> bool" where
  "dlseg h p [] q \<longleftrightarrow> get_next h p = Some q \<and> get_prev h q = Some p"
| "dlseg h p (x # xs) q \<longleftrightarrow> get_next h p = Some x \<and> get_prev h x = Some p \<and> dlseg h x xs q"

definition dll :: "nodes \<Rightarrow> ptr \<Rightarrow> ptr list \<Rightarrow> bool" where
  "dll h head xs \<longleftrightarrow> distinct (head # xs) \<and> dlseg h head xs head"

lemma set_next_Some:
  "p \<in> dom h \<Longrightarrow> \<exists>h'. set_next p v h = Some h' \<and> dom h' = dom h \<and>
     get_next h' = (get_next h)(p \<mapsto> v) \<and> get_prev h' = get_prev h \<and> (\<forall>x. x \<noteq> p \<longrightarrow> h' x = h x)"
  by (rule exI [of _ "h(p \<mapsto> (the (h p))\<lparr>list_next := Some v\<rparr>)"])
    (auto simp: set_next_def get_next_def get_prev_def fun_eq_iff)

lemma set_prev_Some:
  "p \<in> dom h \<Longrightarrow> \<exists>h'. set_prev p v h = Some h' \<and> dom h' = dom h \<and>
     get_prev h' = (get_prev h)(p \<mapsto> v) \<and> get_next h' = get_next h \<and> (\<forall>x. x \<noteq> p \<longrightarrow> h' x = h x)"
  by (rule exI [of _ "h(p \<mapsto> (the (h p))\<lparr>list_prev := Some v\<rparr>)"])
    (auto simp: set_prev_def get_next_def get_prev_def fun_eq_iff)

lemma co_list_add_Some:
  assumes "n \<in> dom h" "p \<in> dom h" "q \<in> dom h"
  shows "\<exists>h'. co_list_add n p q h = Some h' \<and> dom h' = dom h \<and>
    get_next h' = (get_next h)(n \<mapsto> q, p \<mapsto> n) \<and> get_prev h' = (get_prev h)(q \<mapsto> n, n \<mapsto> p) \<and>
    (\<forall>x. x \<notin> {n, p, q} \<longrightarrow> h' x = h x)"
proof -
  obtain h1 where 1: "set_prev q n h = Some h1" "dom h1 = dom h" "get_prev h1 = (get_prev h)(q \<mapsto> n)"
    "get_next h1 = get_next h" "\<forall>x. x \<noteq> q \<longrightarrow> h1 x = h x"
    using set_prev_Some [OF assms(3)] by blast
  obtain h2 where 2: "set_next n q h1 = Some h2" "dom h2 = dom h1" "get_next h2 = (get_next h1)(n \<mapsto> q)"
    "get_prev h2 = get_prev h1" "\<forall>x. x \<noteq> n \<longrightarrow> h2 x = h1 x"
    using set_next_Some [of n h1] assms 1 by blast
  obtain h3 where 3: "set_prev n p h2 = Some h3" "dom h3 = dom h2" "get_prev h3 = (get_prev h2)(n \<mapsto> p)"
    "get_next h3 = get_next h2" "\<forall>x. x \<noteq> n \<longrightarrow> h3 x = h2 x"
    using set_prev_Some [of n h2] assms 1 2 by blast
  obtain h4 where 4: "set_next p n h3 = Some h4" "dom h4 = dom h3" "get_next h4 = (get_next h3)(p \<mapsto> n)"
    "get_prev h4 = get_prev h3" "\<forall>x. x \<noteq> p \<longrightarrow> h4 x = h3 x"
    using set_next_Some [of p h3] assms 1 2 3 by blast
  from 1 2 3 4 show ?thesis
    by (simp add: co_list_add_def)
qed

lemma co_list_unlink_Some:
  assumes "p \<in> dom h" "q \<in> dom h"
  shows "\<exists>h'. co_list_unlink p q h = Some h' \<and> dom h' = dom h \<and>
    get_next h' = (get_next h)(p \<mapsto> q) \<and> get_prev h' = (get_prev h)(q \<mapsto> p) \<and>
    (\<forall>x. x \<notin> {p, q} \<longrightarrow> h' x = h x)"
proof -
  obtain h1 where 1: "set_prev q p h = Some h1" "dom h1 = dom h" "get_prev h1 = (get_prev h)(q \<mapsto> p)"
    "get_next h1 = get_next h" "\<forall>x. x \<noteq> q \<longrightarrow> h1 x = h x"
    using set_prev_Some [OF assms(2)] by blast
  obtain h2 where 2: "set_next p q h1 = Some h2" "dom h2 = dom h1" "get_next h2 = (get_next h1)(p \<mapsto> q)"
    "get_prev h2 = get_prev h1" "\<forall>x. x \<noteq> p \<longrightarrow> h2 x = h1 x"
    using set_next_Some [of p h1] assms 1 by blast
  from 1 2 show ?thesis
    by (simp add: co_list_unlink_def)
qed

lemma get_next_dom: "get_next h p = Some q \<Longrightarrow> p \<in> dom h"
  by (auto simp: get_next_def bind_Some_iff)

lemma get_prev_dom: "get_prev h p = Some q \<Longrightarrow> p \<in> dom h"
  by (auto simp: get_prev_def bind_Some_iff)

lemma dlseg_append:
  "dlseg h p (xs @ y # ys) q \<longleftrightarrow> dlseg h p xs y \<and> dlseg h y ys q"
  by (induction xs arbitrary: p) auto

lemma dlseg_cong:
  assumes "dlseg h p xs q" "\<And>x. x \<in> set (p # xs) \<Longrightarrow> get_next h' x = get_next h x"
    and "\<And>x. x \<in> set (q # xs) \<Longrightarrow> get_prev h' x = get_prev h x"
  shows "dlseg h' p xs q"
  using assms by (induction xs arbitrary: p) auto

lemma dlseg_dom: "dlseg h p xs q \<Longrightarrow> set (p # q # xs) \<subseteq> dom h"
  by (induction xs arbitrary: p) (auto dest: get_next_dom get_prev_dom)

lemma dlseg_next: "dlseg h p xs q \<Longrightarrow> get_next h p = Some (hd (xs @ [q]))"
  by (cases xs) auto

lemma dlseg_prev: "dlseg h p xs q \<Longrightarrow> get_prev h q = Some (last (p # xs))"
  by (induction xs arbitrary: p) auto

lemma dll_dom: "dll h head xs \<Longrightarrow> set (head # xs) \<subseteq> dom h"
  using dlseg_dom by (fastforce simp: dll_def)

lemma dll_next: "dll h head xs \<Longrightarrow> get_next h head = Some (hd (xs @ [head]))"
  by (simp add: dll_def dlseg_next)

lemma dll_prev: "dll h head xs \<Longrightarrow> get_prev h head = Some (last (head # xs))"
  by (simp only: dll_def dlseg_prev)

lemma dll_cong:
  assumes "dll h head xs" "\<And>x. x \<in> set (head # xs) \<Longrightarrow> h' x = h x"
  shows "dll h' head xs"
  using assms dlseg_cong [of h head xs head h'] by (auto simp: dll_def get_next_def get_prev_def)

text \<open>A new node between two neighbours of the ring, and a node of it taken out.\<close>

lemma dlseg_add_front:
  assumes "dlseg h p ys q" "distinct (p # ys)" "q \<notin> set ys" "n \<notin> set (p # q # ys)"
    and "get_next h' = (get_next h)(n \<mapsto> hd (ys @ [q]), p \<mapsto> n)"
    and "get_prev h' = (get_prev h)(hd (ys @ [q]) \<mapsto> n, n \<mapsto> p)"
  shows "dlseg h' p (n # ys) q"
proof (cases ys)
  case (Cons y ys')
  have "dlseg h' y ys' q"
    by (rule dlseg_cong [of h]) (use assms Cons in auto)
  then show ?thesis using assms Cons by auto
qed (use assms in auto)

lemma dll_add:
  assumes "dll h head (xs @ ys)" "n \<notin> set (head # xs @ ys)" "n \<in> dom h"
  shows "\<exists>h'. co_list_add n (last (head # xs)) (hd (ys @ [head])) h = Some h' \<and>
    dll h' head (xs @ n # ys) \<and> dom h' = dom h \<and> (\<forall>x. x \<notin> set (n # head # xs @ ys) \<longrightarrow> h' x = h x)"
proof -
  let ?p = "last (head # xs)" and ?q = "hd (ys @ [head])"
  have pq: "?p \<in> set (head # xs)" "?q \<in> set (head # ys)"
    by (rule last_in_set, simp) (cases ys; simp)
  note pq' = set_mp [OF dll_dom [OF assms(1)]]
  have "?p \<in> dom h" "?q \<in> dom h"
    by (rule pq', rule set_mp [OF _ pq(1)], force) (rule pq', rule set_mp [OF _ pq(2)], force)
  from co_list_add_Some [OF assms(3) this] obtain h' where
    h': "co_list_add n ?p ?q h = Some h'" "dom h' = dom h"
    "get_next h' = (get_next h)(n \<mapsto> ?q, ?p \<mapsto> n)" "get_prev h' = (get_prev h)(?q \<mapsto> n, n \<mapsto> ?p)"
    "\<forall>x. x \<notin> {n, ?p, ?q} \<longrightarrow> h' x = h x"
    by blast
  have "dlseg h' head (xs @ n # ys) head"
  proof (cases xs rule: rev_cases)
    case Nil
    with assms have "dlseg h head ys head" "distinct (head # ys)" "head \<notin> set ys" "n \<notin> set (head # head # ys)"
      by (simp_all add: dll_def)
    then have "dlseg h' head (n # ys) head"
      by (rule dlseg_add_front) (use Nil h'(3,4) in simp_all)
    with Nil show ?thesis by simp
  next
    case (snoc xs' x)
    with assms(1) have seg: "dlseg h head xs' x" "dlseg h x ys head"
      by (simp_all add: dll_def dlseg_append)
    have "dlseg h' head xs' x"
      by (rule dlseg_cong [OF seg(1)]) (use assms(1,2) h'(3,4) snoc pq(2) in \<open>auto simp: dll_def\<close>)
    moreover have "dlseg h' x (n # ys) head"
      by (rule dlseg_add_front [OF seg(2)]) (use assms(1,2) h'(3,4) snoc in \<open>auto simp: dll_def\<close>)
    ultimately show ?thesis
      using snoc by (simp add: dlseg_append)
  qed
  then have "dll h' head (xs @ n # ys)"
    using assms by (auto simp: dll_def)
  moreover have "\<forall>x. x \<notin> set (n # head # xs @ ys) \<longrightarrow> h' x = h x"
  proof (intro allI impI)
    fix x assume x: "x \<notin> set (n # head # xs @ ys)"
    with pq have "x \<noteq> ?p" "x \<noteq> ?q" by (metis Un_iff list.set_intros set_ConsD set_append)+
    with x h'(5) show "h' x = h x" by simp
  qed
  ultimately show ?thesis using h' by blast
qed

lemma co_list_add_head_dll:
  assumes "dll h head xs" "n \<notin> set (head # xs)" "n \<in> dom h"
  shows "\<exists>h'. co_list_add_head n head h = Some h' \<and> dll h' head (n # xs) \<and> dom h' = dom h \<and>
    (\<forall>x. x \<notin> set (n # head # xs) \<longrightarrow> h' x = h x)"
  using dll_add [of h head "[]" xs n] dll_next [OF assms(1)] assms
  by (simp add: co_list_add_head_def)

lemma co_list_add_tail_dll:
  assumes "dll h head xs" "n \<notin> set (head # xs)" "n \<in> dom h"
  shows "\<exists>h'. co_list_add_tail n head h = Some h' \<and> dll h' head (xs @ [n]) \<and> dom h' = dom h \<and>
    (\<forall>x. x \<notin> set (n # head # xs) \<longrightarrow> h' x = h x)"
  using dll_add [of h head xs "[]" n] dll_prev [OF assms(1)] assms
  by (simp add: co_list_add_tail_def del: last.simps)

lemma dlseg_unlink_front:
  assumes "dlseg h p (e # ys) q" "distinct (p # e # ys)" "q \<notin> set (e # ys)"
    and "get_next h' = (get_next h)(p \<mapsto> hd (ys @ [q]))"
    and "get_prev h' = (get_prev h)(hd (ys @ [q]) \<mapsto> p)"
  shows "dlseg h' p ys q"
proof (cases ys)
  case (Cons y ys')
  have "dlseg h' y ys' q"
    by (rule dlseg_cong [of h]) (use assms Cons in auto)
  then show ?thesis using assms Cons by auto
qed (use assms in auto)

lemma co_list_del_dll:
  assumes "dll h head (xs @ e # ys)"
  shows "\<exists>h'. co_list_del e h = Some h' \<and> dll h' head (xs @ ys) \<and> dom h' = dom h \<and>
    (\<forall>x. x \<notin> set (head # xs @ ys) \<longrightarrow> h' x = h x)"
proof -
  let ?p = "last (head # xs)" and ?q = "hd (ys @ [head])"
  have pq: "?p \<in> set (head # xs)" "?q \<in> set (head # ys)"
    by (rule last_in_set, simp) (cases ys; simp)
  note pq' = set_mp [OF dll_dom [OF assms(1)]]
  have dom: "?p \<in> dom h" "?q \<in> dom h"
    by (rule pq', rule set_mp [OF _ pq(1)], force) (rule pq', rule set_mp [OF _ pq(2)], force)
  have "dlseg h head xs e" "dlseg h e ys head"
    using assms by (simp_all add: dll_def dlseg_append)
  then have e: "get_prev h e = Some ?p" "get_next h e = Some ?q"
    by (simp_all add: dlseg_prev dlseg_next del: last.simps)
  from co_list_unlink_Some [OF dom] obtain h' where
    h': "co_list_unlink ?p ?q h = Some h'" "dom h' = dom h"
    "get_next h' = (get_next h)(?p \<mapsto> ?q)" "get_prev h' = (get_prev h)(?q \<mapsto> ?p)"
    "\<forall>x. x \<notin> {?p, ?q} \<longrightarrow> h' x = h x"
    by blast
  have "dlseg h' head (xs @ ys) head"
  proof (cases xs rule: rev_cases)
    case Nil
    with assms have "dlseg h head (e # ys) head" "distinct (head # e # ys)" "head \<notin> set (e # ys)"
      by (simp_all add: dll_def)
    then have "dlseg h' head ys head"
      by (rule dlseg_unlink_front) (use Nil h'(3,4) in simp_all)
    with Nil show ?thesis by simp
  next
    case (snoc xs' x)
    with assms(1) have seg: "dlseg h head xs' x" "dlseg h x (e # ys) head"
      by (simp_all add: dll_def dlseg_append)
    have "dlseg h' head xs' x"
      by (rule dlseg_cong [OF seg(1)]) (use assms(1) h'(3,4) snoc pq(2) in \<open>auto simp: dll_def\<close>)
    moreover have "dlseg h' x ys head"
      by (rule dlseg_unlink_front [OF seg(2)]) (use assms(1) h'(3,4) snoc in \<open>auto simp: dll_def\<close>)
    ultimately show ?thesis
      using snoc by (simp add: dlseg_append)
  qed
  then have "dll h' head (xs @ ys)"
    using assms by (auto simp: dll_def)
  moreover have "\<forall>x. x \<notin> set (head # xs @ ys) \<longrightarrow> h' x = h x"
  proof (intro allI impI)
    fix x assume x: "x \<notin> set (head # xs @ ys)"
    with pq have "x \<noteq> ?p" "x \<noteq> ?q" by (metis Un_iff list.set_intros set_ConsD set_append)+
    with x h'(5) show "h' x = h x" by simp
  qed
  ultimately show ?thesis using h' e by (simp add: co_list_del_def del: last.simps)
qed

lemma co_list_init_dll:
  assumes "head \<in> dom h"
  shows "\<exists>h'. co_list_init head h = Some h' \<and> dll h' head [] \<and> dom h' = dom h \<and>
    (\<forall>x. x \<noteq> head \<longrightarrow> h' x = h x)"
proof -
  obtain h1 where 1: "set_next head head h = Some h1" "dom h1 = dom h"
    "get_next h1 = (get_next h)(head \<mapsto> head)" "\<forall>x. x \<noteq> head \<longrightarrow> h1 x = h x"
    using set_next_Some [OF assms] by blast
  obtain h2 where 2: "set_prev head head h1 = Some h2" "dom h2 = dom h1"
    "get_prev h2 = (get_prev h1)(head \<mapsto> head)" "get_next h2 = get_next h1"
    "\<forall>x. x \<noteq> head \<longrightarrow> h2 x = h1 x"
    using set_prev_Some [of head h1] assms 1 by blast
  from 1 2 show ?thesis
    by (simp add: co_list_init_def dll_def)
qed

lemma co_list_empty_dll: "dll h head xs \<Longrightarrow> co_list_empty head h = Some (xs = [])"
  using dll_next [of h head xs] by (cases xs) (auto simp: co_list_empty_def dll_def)

lemma co_list_each_dlseg:
  assumes "dlseg h p xs head" "head \<notin> set xs" "length xs < fuel"
  shows "co_list_each fuel (hd (xs @ [head])) head h = Some xs"
  using assms
proof (induction xs arbitrary: p fuel)
  case Nil
  then show ?case by (cases fuel) simp_all
next
  case (Cons x xs)
  then obtain fuel' where "fuel = Suc fuel'" by (cases fuel) auto
  with Cons show ?case by (auto simp: dlseg_next)
qed

lemma co_list_each_dll:
  assumes "dll h head xs" "length xs < fuel"
  shows "(do { n \<leftarrow> get_next h head; co_list_each fuel n head h }) = Some xs"
  using assms co_list_each_dlseg [of h head xs head fuel] by (auto simp: dll_def dll_next dlseg_next)

text \<open>C23: on a ring of nodes, empty or not, the list operations follow every pointer inside the store and do to
  the sequence of its nodes what their names say: a node that is not in the ring and is added at the head comes
  first, one added at the tail comes last, deleting any node removes exactly it and keeps the order of the others,
  the empty test answers whether there are no nodes, a walk with \<open>co_list_each_entry\<close> ends and visits the nodes in
  order, and \<open>co_list_init\<close> makes a free node the head of an empty ring.\<close>

theorem co_list_operations:
  assumes "dll h head xs" "n \<in> dom h" "n \<notin> set (head # xs)"
  shows "(\<exists>h'. co_list_add_head n head h = Some h' \<and> dll h' head (n # xs)) \<and>
         (\<exists>h'. co_list_add_tail n head h = Some h' \<and> dll h' head (xs @ [n])) \<and>
         (\<forall>as e bs. xs = as @ e # bs \<longrightarrow> (\<exists>h'. co_list_del e h = Some h' \<and> dll h' head (as @ bs))) \<and>
         co_list_empty head h = Some (xs = []) \<and>
         (do { p \<leftarrow> get_next h head; co_list_each (Suc (length xs)) p head h }) = Some xs \<and>
         (\<exists>h'. co_list_init n h = Some h' \<and> dll h' n [] \<and> dll h' head xs)"
proof -
  obtain h' where i: "co_list_init n h = Some h'" "dll h' n []" "\<forall>x. x \<noteq> n \<longrightarrow> h' x = h x"
    using co_list_init_dll [OF assms(2)] by blast
  have "dll h' head xs" by (rule dll_cong [OF assms(1)]) (use i(3) assms(3) in auto)
  moreover have "\<forall>as e bs. xs = as @ e # bs \<longrightarrow> (\<exists>h'. co_list_del e h = Some h' \<and> dll h' head (as @ bs))"
    using co_list_del_dll [of h head] assms(1) by blast
  moreover have "co_list_each (Suc (length xs)) (hd (xs @ [head])) head h = Some xs"
    using co_list_each_dll [OF assms(1), of "Suc (length xs)"] dll_next [OF assms(1)] by simp
  ultimately show ?thesis
    using co_list_add_head_dll [OF assms(1,3,2)] co_list_add_tail_dll [OF assms(1,3,2)] i(1,2)
      co_list_empty_dll [OF assms(1)] dll_next [OF assms(1)]
    by (intro conjI) auto
qed

text \<open>A concrete ring of a head and two nodes, and a free node.\<close>

definition ring_example :: nodes where
  "ring_example = [0x10 \<mapsto> \<lparr>list_next = Some 0x20, list_prev = Some 0x30\<rparr>,
     0x20 \<mapsto> \<lparr>list_next = Some 0x30, list_prev = Some 0x10\<rparr>,
     0x30 \<mapsto> \<lparr>list_next = Some 0x10, list_prev = Some 0x20\<rparr>,
     0x40 \<mapsto> \<lparr>list_next = None, list_prev = None\<rparr>]"

lemma ring_example_dll: "dll ring_example 0x10 ([0x20] @ 0x30 # [])" "0x40 \<in> dom ring_example"
  by (simp_all add: ring_example_def dll_def get_next_def get_prev_def)

theorem co_list_operations_witness:
  "(\<exists>h'. co_list_add_head 0x40 0x10 ring_example = Some h' \<and> dll h' 0x10 [0x40, 0x20, 0x30]) \<and>
   (\<exists>h'. co_list_add_tail 0x40 0x10 ring_example = Some h' \<and> dll h' 0x10 [0x20, 0x30, 0x40]) \<and>
   (\<exists>h'. co_list_del 0x20 ring_example = Some h' \<and> dll h' 0x10 [0x30]) \<and>
   co_list_empty 0x10 ring_example = Some False \<and>
   (do { p \<leftarrow> get_next ring_example 0x10; co_list_each 3 p 0x10 ring_example }) = Some [0x20, 0x30] \<and>
   (\<exists>h'. co_list_init 0x40 ring_example = Some h' \<and> dll h' 0x40 [] \<and> dll h' 0x10 [0x20, 0x30])"
proof -
  have all: "(\<exists>h'. co_list_add_head 0x40 0x10 ring_example = Some h' \<and> dll h' 0x10 (0x40 # [0x20, 0x30])) \<and>
    (\<exists>h'. co_list_add_tail 0x40 0x10 ring_example = Some h' \<and> dll h' 0x10 ([0x20, 0x30] @ [0x40])) \<and>
    (\<forall>as e bs. [0x20, 0x30] = as @ e # bs \<longrightarrow>
      (\<exists>h'. co_list_del e ring_example = Some h' \<and> dll h' 0x10 (as @ bs))) \<and>
    co_list_empty 0x10 ring_example = Some ([0x20, 0x30 :: ptr] = []) \<and>
    (do { p \<leftarrow> get_next ring_example 0x10; co_list_each (Suc (length [0x20, 0x30 :: ptr])) p 0x10 ring_example })
      = Some [0x20, 0x30] \<and>
    (\<exists>h'. co_list_init 0x40 ring_example = Some h' \<and> dll h' 0x40 [] \<and> dll h' 0x10 [0x20, 0x30])"
    by (rule co_list_operations) (use ring_example_dll in simp_all)
  note del = all [THEN conjunct2, THEN conjunct2, THEN conjunct1, rule_format, of "[]" "0x20" "[0x30]"]
  show ?thesis
    using all del by (simp add: numeral_3_eq_3)
qed

end
