(* ===== verification/CoQueue.thy ===== *)
theory CoQueue
  imports CoList
begin

text \<open>
  The queues of \<open>src/colinux/common/queue.c\<close>: items allocated with \<open>co_queue_malloc\<close>, a
  \<open>co_list_t\<close> node in front of the payload, linked into the ring of the queue's head. A pointer the
  caller holds points to the payload, 8 bytes behind the node. The store holds the nodes and, for
  each allocated item, its payload (\<open>None\<close> before it is written); freeing an item that is not
  allocated gives \<open>None\<close>. What \<open>co_os_malloc\<close> answers is an argument. The operations refine those
  of a list: \<open>queue_rep q m xs\<close> says that the queue holds the items \<open>xs\<close>, head first. The locale
  \<open>fifo\<close> is the contract the message layers use.
\<close>

record 'a qmem =
  nodes :: nodes
  items :: "ptr \<rightharpoonup> 'a option"

record co_queue =
  queue_head :: ptr
  items_count :: int

text \<open>\<open>sizeof(co_queue_item_t)\<close> is \<open>sizeof(co_list_t)\<close>: two pointers.\<close>

abbreviation sizeof_queue_item :: ptr where
  "sizeof_queue_item \<equiv> 8"

definition co_queue_init :: "co_queue \<Rightarrow> 'a qmem \<Rightarrow> (co_rc \<times> co_queue \<times> 'a qmem) option" where
  "co_queue_init q m = do {
     ns \<leftarrow> co_list_init (queue_head q) (nodes m);
     Some (RC_OK, q\<lparr>items_count := 0\<rparr>, m\<lparr>nodes := ns\<rparr>) }"

definition co_queue_size :: "co_queue \<Rightarrow> int" where
  "co_queue_size q = items_count q"

definition co_queue_free :: "ptr \<Rightarrow> 'a qmem \<Rightarrow> (co_rc \<times> 'a qmem) option" where
  "co_queue_free p m =
     (let item = p - sizeof_queue_item in
      if item \<in> dom (items m)
      then Some (RC_OK, m\<lparr>nodes := (nodes m)(item := None), items := (items m)(item := None)\<rparr>)
      else None)"

definition co_queue_malloc :: "ptr option \<Rightarrow> 'a qmem \<Rightarrow> co_rc \<times> ptr option \<times> 'a qmem" where
  "co_queue_malloc block m =
     (case block of
        None \<Rightarrow> (RC_OUT_OF_MEMORY, None, m)
      | Some item \<Rightarrow>
          (RC_OK, Some (item + sizeof_queue_item),
           m\<lparr>nodes := (nodes m)(item \<mapsto> \<lparr>list_next = None, list_prev = None\<rparr>),
             items := (items m)(item \<mapsto> None)\<rparr>))"

text \<open>Reading and writing the payload behind a pointer the caller holds.\<close>

definition payload :: "ptr \<Rightarrow> 'a qmem \<Rightarrow> 'a option" where
  "payload p m = do { d \<leftarrow> items m (p - sizeof_queue_item); d }"

definition set_payload :: "ptr \<Rightarrow> 'a \<Rightarrow> 'a qmem \<Rightarrow> 'a qmem option" where
  "set_payload p v m =
     (if p - sizeof_queue_item \<in> dom (items m)
      then Some (m\<lparr>items := (items m)(p - sizeof_queue_item \<mapsto> Some v)\<rparr>) else None)"

definition co_queue_malloc_copy ::
    "'a \<Rightarrow> ptr option \<Rightarrow> 'a qmem \<Rightarrow> (co_rc \<times> ptr option \<times> 'a qmem) option" where
  "co_queue_malloc_copy from block m =
     (let (rc, p, m) = co_queue_malloc block m in
      if \<not> rc_ok rc then Some (rc, p, m)
      else do { a \<leftarrow> p; m \<leftarrow> set_payload a from m; Some (rc, p, m) })"

definition co_queue_add_head :: "ptr \<Rightarrow> co_queue \<Rightarrow> 'a qmem \<Rightarrow> (co_queue \<times> 'a qmem) option" where
  "co_queue_add_head p q m = do {
     ns \<leftarrow> co_list_add_head (p - sizeof_queue_item) (queue_head q) (nodes m);
     Some (q\<lparr>items_count := items_count q + 1\<rparr>, m\<lparr>nodes := ns\<rparr>) }"

definition co_queue_add_tail :: "ptr \<Rightarrow> co_queue \<Rightarrow> 'a qmem \<Rightarrow> (co_queue \<times> 'a qmem) option" where
  "co_queue_add_tail p q m = do {
     ns \<leftarrow> co_list_add_tail (p - sizeof_queue_item) (queue_head q) (nodes m);
     Some (q\<lparr>items_count := items_count q + 1\<rparr>, m\<lparr>nodes := ns\<rparr>) }"

text \<open>A result \<open>None\<close> in the place of the pointer: \<open>*ptr\<close> is not written.\<close>

definition co_queue_get_tail :: "co_queue \<Rightarrow> 'a qmem \<Rightarrow> (co_rc \<times> ptr option) option" where
  "co_queue_get_tail q m =
     (if items_count q = 0 then Some (RC_ERROR, None)
      else do {
        item \<leftarrow> get_prev (nodes m) (queue_head q);
        Some (RC_OK, Some (item + sizeof_queue_item)) })"

definition co_queue_get_prev :: "ptr \<Rightarrow> co_queue \<Rightarrow> 'a qmem \<Rightarrow> (co_rc \<times> ptr) option" where
  "co_queue_get_prev p q m = do {
     prev \<leftarrow> get_prev (nodes m) (p - 8);
     if prev = queue_head q then Some (RC_ERROR, p)
     else Some (RC_OK, prev + sizeof_queue_item) }"

definition co_queue_pop_tail ::
    "co_queue \<Rightarrow> 'a qmem \<Rightarrow> (co_rc \<times> ptr option \<times> co_queue \<times> 'a qmem) option" where
  "co_queue_pop_tail q m =
     (if items_count q = 0 then Some (RC_ERROR, None, q, m)
      else do {
        let q = q\<lparr>items_count := items_count q - 1\<rparr>;
        item \<leftarrow> get_prev (nodes m) (queue_head q);
        ns \<leftarrow> co_list_del item (nodes m);
        Some (RC_OK, Some (item + sizeof_queue_item), q, m\<lparr>nodes := ns\<rparr>) })"

definition co_queue_peek_tail :: "co_queue \<Rightarrow> 'a qmem \<Rightarrow> (co_rc \<times> ptr option) option" where
  "co_queue_peek_tail q m =
     (if items_count q = 0 then Some (RC_ERROR, None)
      else do {
        item \<leftarrow> get_prev (nodes m) (queue_head q);
        Some (RC_OK, Some (item + sizeof_queue_item)) })"

partial_function (option) co_queue_flush ::
    "co_queue \<Rightarrow> 'a qmem \<Rightarrow> (co_rc \<times> co_queue \<times> 'a qmem) option" where
  "co_queue_flush q m = do {
     (rc, p, q, m) \<leftarrow> co_queue_pop_tail q m;
     if \<not> rc_ok rc then Some (rc, q, m)
     else do {
       a \<leftarrow> p;
       (rc', m) \<leftarrow> co_queue_free a m;
       co_queue_flush q m } }"

text \<open>The representation.\<close>

definition queue_rep :: "co_queue \<Rightarrow> 'a qmem \<Rightarrow> ptr list \<Rightarrow> bool" where
  "queue_rep q m xs \<longleftrightarrow> dll (nodes m) (queue_head q) xs \<and> items_count q = int (length xs) \<and>
     queue_head q \<notin> dom (items m) \<and> set xs \<subseteq> dom (items m) \<and> dom (items m) \<subseteq> dom (nodes m)"

lemma queue_rep_dll: "queue_rep q m xs \<Longrightarrow> dll (nodes m) (queue_head q) xs"
  and queue_rep_count: "queue_rep q m xs \<Longrightarrow> items_count q = int (length xs)"
  and queue_rep_items: "queue_rep q m xs \<Longrightarrow> set xs \<subseteq> dom (items m)"
  and queue_rep_nodes: "queue_rep q m xs \<Longrightarrow> dom (items m) \<subseteq> dom (nodes m)"
  and queue_rep_head: "queue_rep q m xs \<Longrightarrow> queue_head q \<notin> dom (items m)"
  by (simp_all add: queue_rep_def)

lemma co_queue_init_rep:
  assumes "queue_head q \<in> dom (nodes m)" "queue_head q \<notin> dom (items m)" "dom (items m) \<subseteq> dom (nodes m)"
  shows "\<exists>q' m'. co_queue_init q m = Some (RC_OK, q', m') \<and> queue_rep q' m' [] \<and> items m' = items m"
  using co_list_init_dll [OF assms(1)] assms
  by (auto simp: co_queue_init_def queue_rep_def dest!: sym [of "dom _" "dom (nodes m)"])

lemma co_queue_add_head_rep:
  assumes "queue_rep q m xs" "p - 8 \<in> dom (items m)" "p - 8 \<notin> set xs"
  shows "\<exists>q' m'. co_queue_add_head p q m = Some (q', m') \<and> queue_rep q' m' ((p - 8) # xs) \<and>
    items m' = items m \<and> queue_head q' = queue_head q"
proof -
  have "p - 8 \<notin> set (queue_head q # xs)" "p - 8 \<in> dom (nodes m)"
    using assms by (auto simp: queue_rep_def)
  from co_list_add_head_dll [OF queue_rep_dll [OF assms(1)] this] obtain ns where
    "co_list_add_head (p - 8) (queue_head q) (nodes m) = Some ns" "dll ns (queue_head q) ((p - 8) # xs)"
    "dom ns = dom (nodes m)"
    by blast
  then show ?thesis
    using assms by (simp add: co_queue_add_head_def queue_rep_def)
qed

lemma co_queue_add_tail_rep:
  assumes "queue_rep q m xs" "p - 8 \<in> dom (items m)" "p - 8 \<notin> set xs"
  shows "\<exists>q' m'. co_queue_add_tail p q m = Some (q', m') \<and> queue_rep q' m' (xs @ [p - 8]) \<and>
    items m' = items m \<and> queue_head q' = queue_head q"
proof -
  have "p - 8 \<notin> set (queue_head q # xs)" "p - 8 \<in> dom (nodes m)"
    using assms by (auto simp: queue_rep_def)
  from co_list_add_tail_dll [OF queue_rep_dll [OF assms(1)] this] obtain ns where
    "co_list_add_tail (p - 8) (queue_head q) (nodes m) = Some ns" "dll ns (queue_head q) (xs @ [p - 8])"
    "dom ns = dom (nodes m)"
    by blast
  then show ?thesis
    using assms by (simp add: co_queue_add_tail_def queue_rep_def)
qed

lemma co_queue_pop_tail_rep_empty:
  "queue_rep q m [] \<Longrightarrow> co_queue_pop_tail q m = Some (RC_ERROR, None, q, m)"
  by (simp add: co_queue_pop_tail_def queue_rep_count)

lemma co_queue_pop_tail_rep:
  assumes "queue_rep q m (xs @ [x])"
  shows "\<exists>q' m'. co_queue_pop_tail q m = Some (RC_OK, Some (x + 8), q', m') \<and> queue_rep q' m' xs \<and>
    items m' = items m \<and> queue_head q' = queue_head q"
proof -
  have prev: "get_prev (nodes m) (queue_head q) = Some x"
    using dll_prev [OF queue_rep_dll [OF assms]] by simp
  obtain ns where "co_list_del x (nodes m) = Some ns" "dll ns (queue_head q) xs" "dom ns = dom (nodes m)"
    using co_list_del_dll [OF queue_rep_dll [OF assms]] by auto
  with assms prev show ?thesis
    by (simp add: co_queue_pop_tail_def queue_rep_def)
qed

lemma co_queue_peek_tail_rep:
  "queue_rep q m (xs @ [x]) \<Longrightarrow> co_queue_peek_tail q m = Some (RC_OK, Some (x + 8))"
  "queue_rep q m [] \<Longrightarrow> co_queue_peek_tail q m = Some (RC_ERROR, None)"
  "co_queue_get_tail q m = co_queue_peek_tail q m"
  using dll_prev [OF queue_rep_dll]
  by (fastforce simp: co_queue_peek_tail_def co_queue_get_tail_def queue_rep_count)+

lemma co_queue_get_prev_rep:
  assumes "queue_rep q m (xs @ x # ys)"
  shows "co_queue_get_prev (x + 8) q m =
    Some (if xs = [] then (RC_ERROR, x + 8) else (RC_OK, last xs + 8))"
proof -
  have seg: "dlseg (nodes m) (queue_head q) xs x" and ne: "queue_head q \<notin> set xs"
    using queue_rep_dll [OF assms] by (auto simp: dll_def dlseg_append)
  from ne have "xs \<noteq> [] \<Longrightarrow> last xs \<noteq> queue_head q" by (metis last_in_set)
  with dlseg_prev [OF seg] show ?thesis by (simp add: co_queue_get_prev_def)
qed

lemma co_queue_free_rep:
  assumes "queue_rep q m xs" "p - 8 \<in> dom (items m)" "p - 8 \<notin> set xs"
  shows "\<exists>m'. co_queue_free p m = Some (RC_OK, m') \<and> queue_rep q m' xs \<and>
    items m' = (items m)(p - 8 := None)"
proof -
  let ?ns = "(nodes m)(p - 8 := None)"
  have "dll ?ns (queue_head q) xs"
    by (rule dll_cong [OF queue_rep_dll [OF assms(1)]]) (use assms in \<open>auto simp: queue_rep_def\<close>)
  with assms show ?thesis
    by (simp add: co_queue_free_def queue_rep_def Let_def) auto
qed

lemma co_queue_malloc_rep:
  assumes "queue_rep q m xs" "b \<notin> dom (nodes m)"
  shows "\<exists>m'. co_queue_malloc (Some b) m = (RC_OK, Some (b + 8), m') \<and> queue_rep q m' xs \<and>
    items m' = (items m)(b \<mapsto> None) \<and> b \<notin> set xs"
proof -
  let ?ns = "(nodes m)(b \<mapsto> \<lparr>list_next = None, list_prev = None\<rparr>)"
  have b: "b \<notin> set (queue_head q # xs)"
    using assms dll_dom [OF queue_rep_dll [OF assms(1)]] by auto
  have "dll ?ns (queue_head q) xs"
    by (rule dll_cong [OF queue_rep_dll [OF assms(1)]]) (use b in auto)
  with assms b show ?thesis
    by (auto simp: co_queue_malloc_def queue_rep_def)
qed

lemma co_queue_flush_rep:
  assumes "queue_rep q m xs"
  shows "\<exists>q' m'. co_queue_flush q m = Some (RC_ERROR, q', m') \<and> queue_rep q' m' [] \<and>
    items m' = (items m) |` (- set xs)"
  using assms
proof (induction xs arbitrary: q m rule: rev_induct)
  case Nil
  then show ?case
    by (subst co_queue_flush.simps) (simp add: co_queue_pop_tail_rep_empty restrict_map_def)
next
  case (snoc x xs)
  obtain q1 m1 where 1: "co_queue_pop_tail q m = Some (RC_OK, Some (x + 8), q1, m1)"
    "queue_rep q1 m1 xs" "items m1 = items m"
    using co_queue_pop_tail_rep [OF snoc.prems] by blast
  have "x \<notin> set xs" "x \<in> dom (items m)"
    using queue_rep_dll [OF snoc.prems] queue_rep_items [OF snoc.prems] by (auto simp: dll_def)
  with co_queue_free_rep [OF 1(2), of "x + 8"] 1 obtain m2 where
    2: "co_queue_free (x + 8) m1 = Some (RC_OK, m2)" "queue_rep q1 m2 xs"
    "items m2 = (items m)(x := None)"
    by auto
  have "items m2 |` (- set xs) = items m |` (- set (xs @ [x]))"
    using 2(3) by (auto simp: restrict_map_def)
  with snoc.IH [OF 2(2)] 1(1) 2(1) show ?case
    by (subst co_queue_flush.simps) auto
qed

text \<open>The contract: what is put in at the head leaves at the tail, oldest first.\<close>

locale fifo =
  fixes rep :: "'s \<Rightarrow> 'i list \<Rightarrow> bool"
    and ready :: "'i \<Rightarrow> 's \<Rightarrow> bool"
    and enq :: "'i \<Rightarrow> 's \<Rightarrow> 's option"
    and deq :: "'s \<Rightarrow> ('i option \<times> 's) option"
  assumes enq: "rep s xs \<Longrightarrow> ready i s \<Longrightarrow> i \<notin> set xs \<Longrightarrow>
      \<exists>s'. enq i s = Some s' \<and> rep s' (i # xs) \<and> (\<forall>j. ready j s \<longrightarrow> ready j s')"
    and deq_empty: "rep s [] \<Longrightarrow> deq s = Some (None, s)"
    and deq: "rep s (xs @ [i]) \<Longrightarrow> \<exists>s'. deq s = Some (Some i, s') \<and> rep s' xs"

fun enq_all :: "('i \<Rightarrow> 's \<Rightarrow> 's option) \<Rightarrow> 'i list \<Rightarrow> 's \<Rightarrow> 's option" where
  "enq_all f [] s = Some s"
| "enq_all f (i # is) s = do { s \<leftarrow> f i s; enq_all f is s }"

fun deq_upto :: "('s \<Rightarrow> ('i option \<times> 's) option) \<Rightarrow> nat \<Rightarrow> 's \<Rightarrow> ('i list \<times> 's) option" where
  "deq_upto f 0 s = Some ([], s)"
| "deq_upto f (Suc n) s = do {
     (i, s) \<leftarrow> f s;
     (case i of None \<Rightarrow> Some ([], s)
      | Some i \<Rightarrow> do { (is, s) \<leftarrow> deq_upto f n s; Some (i # is, s) }) }"

context fifo
begin

lemma enq_all:
  assumes "rep s xs" "distinct is" "set is \<inter> set xs = {}" "\<forall>i \<in> set is. ready i s"
  shows "\<exists>s'. enq_all enq is s = Some s' \<and> rep s' (rev is @ xs)"
  using assms
proof (induction "is" arbitrary: s xs)
  case (Cons i "is")
  then obtain s1 where "enq i s = Some s1" "rep s1 (i # xs)" "\<forall>j. ready j s \<longrightarrow> ready j s1"
    using enq [of s xs i] by auto
  with Cons.IH [of s1 "i # xs"] Cons.prems show ?case by auto
qed simp

lemma deq_upto:
  assumes "rep s xs" "length xs \<le> n"
  shows "\<exists>s'. deq_upto deq n s = Some (rev xs, s') \<and> rep s' []"
  using assms
proof (induction xs arbitrary: s n rule: rev_induct)
  case Nil
  then show ?case by (cases n) (auto simp: deq_empty)
next
  case (snoc x xs)
  then obtain n' where n: "n = Suc n'" by (cases n) auto
  obtain s1 where "deq s = Some (Some x, s1)" "rep s1 xs"
    using deq [OF snoc.prems(1)] by blast
  with snoc n show ?case by force
qed

lemma enq_all_deq_upto:
  assumes "rep s xs" "distinct is" "set is \<inter> set xs = {}" "\<forall>i \<in> set is. ready i s"
    and "length xs + length is \<le> n"
  shows "\<exists>s1 s2. enq_all enq is s = Some s1 \<and> deq_upto deq n s1 = Some (rev xs @ is, s2) \<and> rep s2 []"
proof -
  obtain s1 where "enq_all enq is s = Some s1" "rep s1 (rev is @ xs)"
    using enq_all [OF assms(1-4)] by blast
  with deq_upto [of s1 "rev is @ xs" n] assms(5) show ?thesis by simp
qed

end

text \<open>The queue provides the contract; the state is the queue with the store, the items are the
  pointers the callers hold.\<close>

definition queue_ptrs :: "co_queue \<times> 'a qmem \<Rightarrow> ptr list \<Rightarrow> bool" where
  "queue_ptrs s ps \<longleftrightarrow> queue_rep (fst s) (snd s) (map (\<lambda>p. p - 8) ps)"

definition queue_ready :: "ptr \<Rightarrow> co_queue \<times> 'a qmem \<Rightarrow> bool" where
  "queue_ready p s \<longleftrightarrow> p - 8 \<in> dom (items (snd s))"

definition queue_enq :: "ptr \<Rightarrow> co_queue \<times> 'a qmem \<Rightarrow> (co_queue \<times> 'a qmem) option" where
  "queue_enq p s = co_queue_add_head p (fst s) (snd s)"

definition queue_deq :: "co_queue \<times> 'a qmem \<Rightarrow> (ptr option \<times> co_queue \<times> 'a qmem) option" where
  "queue_deq s = do { (rc, p, s) \<leftarrow> co_queue_pop_tail (fst s) (snd s); Some (p, s) }"

interpretation queue: fifo queue_ptrs queue_ready queue_enq queue_deq
proof unfold_locales
  fix s :: "co_queue \<times> 'a qmem" and ps :: "ptr list" and p :: ptr
  show "\<exists>s'. queue_enq p s = Some s' \<and> queue_ptrs s' (p # ps) \<and> (\<forall>j. queue_ready j s \<longrightarrow> queue_ready j s')"
    if "queue_ptrs s ps" "queue_ready p s" "p \<notin> set ps"
  proof -
    from that(3) have "p - 8 \<notin> set (map (\<lambda>p. p - 8) ps)" by auto
    with co_queue_add_head_rep [of "fst s" "snd s" "map (\<lambda>p. p - 8) ps" p] that
    obtain q' m' where "co_queue_add_head p (fst s) (snd s) = Some (q', m')"
      "queue_rep q' m' ((p - 8) # map (\<lambda>p. p - 8) ps)" "items m' = items (snd s)"
      unfolding queue_ptrs_def queue_ready_def by blast
    then show ?thesis
      by (simp add: queue_ptrs_def queue_ready_def queue_enq_def)
  qed
  show "queue_deq s = Some (None, s)" if "queue_ptrs s []"
    using that by (simp add: queue_ptrs_def queue_deq_def co_queue_pop_tail_rep_empty)
  show "\<exists>s'. queue_deq s = Some (Some p, s') \<and> queue_ptrs s' ps" if "queue_ptrs s (ps @ [p])"
    using co_queue_pop_tail_rep [of "fst s" "snd s" "map (\<lambda>p. p - 8) ps" "p - 8"] that
    by (auto simp: queue_ptrs_def queue_deq_def)
qed

text \<open>C24: the queue is first in, first out: after adding allocated items at the head of a queue, popping
  its tail returns first what the queue held before, oldest first, and then the new items in the
  order they were added; no pop or add leaves the store.\<close>

theorem co_queue_fifo:
  assumes "queue_ptrs (q, m) ps" "distinct new" "set new \<inter> set ps = {}"
    and "\<forall>p \<in> set new. queue_ready p (q, m)" "length ps + length new \<le> n"
  shows "\<exists>s1 s2. enq_all queue_enq new (q, m) = Some s1 \<and>
           deq_upto queue_deq n s1 = Some (rev ps @ new, s2) \<and> queue_ptrs s2 []"
  by (rule queue.enq_all_deq_upto [OF assms])

definition queue_example :: "co_queue \<times> nat qmem" where
  "queue_example = (\<lparr>queue_head = 0x10, items_count = 2\<rparr>,
     \<lparr>nodes = ring_example, items = [0x20 \<mapsto> Some 7, 0x30 \<mapsto> Some 8, 0x40 \<mapsto> None]\<rparr>)"

lemma queue_example_rep: "queue_rep (fst queue_example) (snd queue_example) [0x20, 0x30]"
  using ring_example_dll(1)
  by (simp add: queue_example_def queue_rep_def ring_example_def)

theorem co_queue_fifo_witness:
  "\<exists>s1 s2. enq_all queue_enq [0x48] (fst queue_example, snd queue_example) = Some s1 \<and>
     deq_upto queue_deq 3 s1 = Some (rev [0x28, 0x38] @ [0x48], s2) \<and> queue_ptrs s2 []"
  by (rule co_queue_fifo)
    (use queue_example_rep in \<open>simp_all add: queue_ptrs_def queue_ready_def queue_example_def\<close>)

text \<open>C9: every queue operation refines the list operation it stands for: on a queue that holds the items
  \<open>xs\<close> (head first), \<open>co_queue_add_tail\<close> appends, \<open>co_queue_peek_tail\<close> and \<open>co_queue_get_tail\<close>
  return the last item without removing it, \<open>co_queue_get_prev\<close> steps from any item to the one before it and at the
  first one answers an error and leaves the pointer as it is (\<open>queue.h\<close> says it becomes \<open>NULL\<close>), \<open>co_queue_pop_tail\<close>
  removes the last item, and \<open>items_count\<close> stays the length of the list. The queue holds an item \<open>x\<close>, and the item
  that is added is allocated and not in it.\<close>

theorem co_queue_refines_list:
  assumes "queue_rep q m (xs @ [x])" "p - 8 \<in> dom (items m)" "p - 8 \<notin> set (xs @ [x])"
  shows "(\<exists>q' m'. co_queue_add_tail p q m = Some (q', m') \<and> queue_rep q' m' (xs @ [x, p - 8]) \<and>
            co_queue_size q' = int (length xs + 2)) \<and>
         co_queue_peek_tail q m = Some (RC_OK, Some (x + 8)) \<and>
         co_queue_get_tail q m = Some (RC_OK, Some (x + 8)) \<and>
         (\<forall>as b bs. xs @ [x] = as @ b # bs \<longrightarrow>
            co_queue_get_prev (b + 8) q m = Some (if as = [] then (RC_ERROR, b + 8) else (RC_OK, last as + 8))) \<and>
         (\<exists>q' m'. co_queue_pop_tail q m = Some (RC_OK, Some (x + 8), q', m') \<and> queue_rep q' m' xs \<and>
            co_queue_size q' = int (length xs))"
proof -
  note peek = co_queue_peek_tail_rep(1) [OF assms(1)]
  obtain q1 m1 where 1: "co_queue_add_tail p q m = Some (q1, m1)" "queue_rep q1 m1 (xs @ [x, p - 8])"
    using co_queue_add_tail_rep [OF assms] by auto
  obtain q2 m2 where 2: "co_queue_pop_tail q m = Some (RC_OK, Some (x + 8), q2, m2)" "queue_rep q2 m2 xs"
    using co_queue_pop_tail_rep [OF assms(1)] by blast
  have prev: "co_queue_get_prev (b + 8) q m = Some (if as = [] then (RC_ERROR, b + 8) else (RC_OK, last as + 8))"
    if "xs @ [x] = as @ b # bs" for as b bs
    using co_queue_get_prev_rep [of q m as b bs] assms(1) that by simp
  from 1 2 show ?thesis
    using peek prev assms(1) queue_rep_count [OF 1(2)] queue_rep_count [OF 2(2)]
    by (simp add: co_queue_peek_tail_rep(3) co_queue_size_def)
qed

theorem co_queue_refines_list_witness:
  "(\<exists>q' m'. co_queue_add_tail 0x48 (fst queue_example) (snd queue_example) = Some (q', m') \<and>
      queue_rep q' m' [0x20, 0x30, 0x48 - 8] \<and> co_queue_size q' = 3) \<and>
   co_queue_peek_tail (fst queue_example) (snd queue_example) = Some (RC_OK, Some (0x30 + 8)) \<and>
   co_queue_get_tail (fst queue_example) (snd queue_example) = Some (RC_OK, Some (0x30 + 8)) \<and>
   co_queue_get_prev (0x30 + 8) (fst queue_example) (snd queue_example) = Some (RC_OK, 0x20 + 8) \<and>
   co_queue_get_prev (0x20 + 8) (fst queue_example) (snd queue_example) = Some (RC_ERROR, 0x20 + 8) \<and>
   (\<exists>q' m'. co_queue_pop_tail (fst queue_example) (snd queue_example) = Some (RC_OK, Some (0x30 + 8), q', m') \<and>
      queue_rep q' m' [0x20] \<and> co_queue_size q' = 1)"
proof -
  have 1: "queue_rep (fst queue_example) (snd queue_example) ([0x20] @ [0x30])" using queue_example_rep by simp
  have 2: "0x48 - 8 \<in> dom (items (snd queue_example))" "0x48 - 8 \<notin> set ([0x20] @ [0x30 :: ptr])"
    by (simp_all add: queue_example_def)
  note r = co_queue_refines_list [OF 1 2]
  from r [THEN conjunct2, THEN conjunct2, THEN conjunct2, THEN conjunct1, rule_format, of "[]" "0x20" "[0x30]"]
    r [THEN conjunct2, THEN conjunct2, THEN conjunct2, THEN conjunct1, rule_format, of "[0x20]" "0x30" "[]"] r
  show ?thesis by simp
qed

text \<open>C25: \<open>co_queue_flush\<close> ends for every queue and frees each item of the queue exactly once (freeing one
  twice, or a block that is not allocated, would be \<open>None\<close>), leaves the other allocated items alone and
  the queue empty. The code it returns is always that of the last, failing pop: \<open>CO_RC(ERROR)\<close>.\<close>

theorem co_queue_flush_frees:
  assumes "queue_rep q m xs"
  shows "\<exists>q' m'. co_queue_flush q m = Some (RC_ERROR, q', m') \<and> queue_rep q' m' [] \<and>
           co_queue_size q' = 0 \<and> dom (items m') = dom (items m) - set xs"
proof -
  obtain q' m' where "co_queue_flush q m = Some (RC_ERROR, q', m')" "queue_rep q' m' []"
    "items m' = items m |` (- set xs)"
    using co_queue_flush_rep [OF assms] by blast
  then show ?thesis by (auto simp: co_queue_size_def queue_rep_count)
qed

theorem co_queue_flush_frees_witness:
  "\<exists>q' m'. co_queue_flush (fst queue_example) (snd queue_example) = Some (RC_ERROR, q', m') \<and>
     queue_rep q' m' [] \<and> co_queue_size q' = 0 \<and>
     dom (items m') = dom (items (snd queue_example)) - set [0x20, 0x30]"
  by (rule co_queue_flush_frees [OF queue_example_rep])

end
