(* ===== verification/CoMessages.thy ===== *)
theory CoMessages
  imports CoQueue
begin

text \<open>
  The message queues of \<open>src/colinux/common/messages.c\<close>: a queue item's payload is the pointer to
  a message, and messages are blocks of their own (a 20 byte header and \<open>size\<close> bytes of data). A
  message put in a queue with \<open>co_message_mov_to_queue\<close> is owned by the queue,
  \<open>co_message_dup_to_queue\<close> queues a copy. What \<open>co_os_malloc\<close> answers is an argument of each
  operation.
\<close>

record co_message =
  from_module :: u32
  to_module :: u32
  priority :: u32
  msg_type :: u32
  msg_size :: u32
  msg_data :: "u8 list"

abbreviation sizeof_co_message :: u32 where
  "sizeof_co_message \<equiv> 20"

record message_mem =
  queue_mem :: "ptr qmem"
  messages :: "ptr \<rightharpoonup> co_message"

text \<open>\<open>memcpy\<close> of \<open>sizeof(*message) + message->size\<close> bytes: it must not read beyond the block the
  message lies in, and a size that wraps around would cut the header.\<close>

definition co_message_dup ::
    "ptr \<Rightarrow> ptr option \<Rightarrow> message_mem \<Rightarrow> (co_rc \<times> ptr option \<times> message_mem) option" where
  "co_message_dup message block st = do {
     msg \<leftarrow> messages st message;
     let size = sizeof_co_message + msg_size msg;
     case block of
       None \<Rightarrow> Some (RC_OUT_OF_MEMORY, None, st)
     | Some allocated \<Rightarrow>
         if size < sizeof_co_message \<or> length (msg_data msg) < unat (msg_size msg) then None
         else Some (RC_OK, Some allocated,
           st\<lparr>messages := (messages st)
                (allocated \<mapsto> msg\<lparr>msg_data := take (unat (msg_size msg)) (msg_data msg)\<rparr>)\<rparr>) }"

text \<open>\<open>co_os_free\<close> of a message block.\<close>

definition co_message_free :: "ptr \<Rightarrow> message_mem \<Rightarrow> message_mem option" where
  "co_message_free message st =
     (if message \<in> dom (messages st) then Some (st\<lparr>messages := (messages st)(message := None)\<rparr>) else None)"

definition co_message_dup_to_queue ::
    "ptr \<Rightarrow> co_queue \<Rightarrow> ptr option \<Rightarrow> ptr option \<Rightarrow> message_mem \<Rightarrow> (co_rc \<times> co_queue \<times> message_mem) option" where
  "co_message_dup_to_queue message q block item_block st = do {
     (rc, dup_message, st) \<leftarrow> co_message_dup message block st;
     if rc_ok rc then do {
       dup_message \<leftarrow> dup_message;
       let (rc, queue_item, qm) = co_queue_malloc item_block (queue_mem st);
       let st = st\<lparr>queue_mem := qm\<rparr>;
       if \<not> rc_ok rc then do {
         st \<leftarrow> co_message_free dup_message st;
         Some (rc, q, st) }
       else do {
         queue_item \<leftarrow> queue_item;
         qm \<leftarrow> set_payload queue_item dup_message (queue_mem st);
         (q, qm) \<leftarrow> co_queue_add_head queue_item q qm;
         Some (rc, q, st\<lparr>queue_mem := qm\<rparr>) } }
     else Some (rc, q, st) }"

definition co_message_mov_to_queue ::
    "ptr \<Rightarrow> co_queue \<Rightarrow> ptr option \<Rightarrow> message_mem \<Rightarrow> (co_rc \<times> co_queue \<times> message_mem) option" where
  "co_message_mov_to_queue message q item_block st =
     (let (rc, queue_item, qm) = co_queue_malloc item_block (queue_mem st);
          st = st\<lparr>queue_mem := qm\<rparr>
      in if \<not> rc_ok rc then Some (rc, q, st)
         else do {
           queue_item \<leftarrow> queue_item;
           qm \<leftarrow> set_payload queue_item message (queue_mem st);
           (q, qm) \<leftarrow> co_queue_add_head queue_item q qm;
           Some (RC_OK, q, st\<lparr>queue_mem := qm\<rparr>) })"

text \<open>The messages in a queue, newest first: the payload of every item is a message's address.\<close>

definition message_queue_rep :: "co_queue \<Rightarrow> message_mem \<Rightarrow> ptr list \<Rightarrow> bool" where
  "message_queue_rep q st ms \<longleftrightarrow>
     (\<exists>xs. queue_rep q (queue_mem st) xs \<and> map (items (queue_mem st)) xs = map (Some \<circ> Some) ms) \<and>
     distinct ms \<and> set ms \<subseteq> dom (messages st)"

lemma set_payload_rep:
  assumes "queue_rep q m xs" "p - 8 \<in> dom (items m)"
  shows "\<exists>m'. set_payload p v m = Some m' \<and> queue_rep q m' xs \<and>
    items m' = (items m)(p - 8 \<mapsto> Some v)"
  using assms by (auto simp: set_payload_def queue_rep_def)

lemma map_fun_upd_notin: "x \<notin> set xs \<Longrightarrow> map (f(x := y)) xs = map f xs"
  by (induction xs) auto

text \<open>Queueing one item: the steps the two operations share.\<close>

lemma queue_message_item:
  assumes "message_queue_rep q st ms" "b \<notin> dom (nodes (queue_mem st))"
    and "message \<in> dom (messages st)" "message \<notin> set ms"
  shows "\<exists>q' m1 m2 m3. co_queue_malloc (Some b) (queue_mem st) = (RC_OK, Some (b + 8), m1) \<and>
    set_payload (b + 8) message m1 = Some m2 \<and> co_queue_add_head (b + 8) q m2 = Some (q', m3) \<and>
    message_queue_rep q' (st\<lparr>queue_mem := m3\<rparr>) (message # ms) \<and> items_count q' = items_count q + 1"
proof -
  obtain xs where xs: "queue_rep q (queue_mem st) xs"
    "map (items (queue_mem st)) xs = map (Some \<circ> Some) ms" "distinct ms" "set ms \<subseteq> dom (messages st)"
    using assms(1) unfolding message_queue_rep_def by blast
  obtain m1 where 1: "co_queue_malloc (Some b) (queue_mem st) = (RC_OK, Some (b + 8), m1)"
    "queue_rep q m1 xs" "items m1 = (items (queue_mem st))(b \<mapsto> None)" "b \<notin> set xs"
    using co_queue_malloc_rep [OF xs(1) assms(2)] by blast
  obtain m2 where 2: "set_payload (b + 8) message m1 = Some m2" "queue_rep q m2 xs"
    "items m2 = (items m1)(b \<mapsto> Some message)"
    using set_payload_rep [OF 1(2), of "b + 8" message] 1(3) by auto
  obtain q' m3 where 3: "co_queue_add_head (b + 8) q m2 = Some (q', m3)" "queue_rep q' m3 (b # xs)"
    "items m3 = items m2"
    using co_queue_add_head_rep [OF 2(2), of "b + 8"] 1(4) 2(3) by auto
  have "map (items m3) (b # xs) = map (Some \<circ> Some) (message # ms)"
    using 1(3,4) 2(3) 3(3) xs(2) by (simp add: map_fun_upd_notin)
  then have "message_queue_rep q' (st\<lparr>queue_mem := m3\<rparr>) (message # ms)"
    using 3(2) xs(3,4) assms(3,4) by (auto simp: message_queue_rep_def intro!: exI [of _ "b # xs"])
  moreover have "items_count q' = items_count q + 1"
    using 3(1) by (auto simp: co_queue_add_head_def bind_Some_iff)
  ultimately show ?thesis using 1 2 3 by blast
qed

lemma co_message_mov_to_queue_OK:
  assumes "message_queue_rep q st ms" "b \<notin> dom (nodes (queue_mem st))"
    and "message \<in> dom (messages st)" "message \<notin> set ms"
  shows "\<exists>q' st'. co_message_mov_to_queue message q (Some b) st = Some (RC_OK, q', st') \<and>
    message_queue_rep q' st' (message # ms) \<and> messages st' = messages st"
  using queue_message_item [OF assms]
  by (auto simp: co_message_mov_to_queue_def Let_def)

lemma message_queue_rep_upd:
  "message_queue_rep q st ms \<Longrightarrow> set ms \<subseteq> dom f \<Longrightarrow> message_queue_rep q (st\<lparr>messages := f\<rparr>) ms"
  by (auto simp: message_queue_rep_def)

lemma wrap_size:
  "unat (msg_size msg) + 20 < 2 ^ 32 \<Longrightarrow> \<not> sizeof_co_message + msg_size msg < sizeof_co_message"
  by (simp add: word_less_nat_alt unat_word_ariths)

text \<open>C26: with memory for the copy and for the item, \<open>co_message_dup_to_queue\<close> puts at the head of the queue a
  message equal to the caller's in header and data, in a block of its own, and leaves the caller's
  message and the queued ones untouched.\<close>

theorem co_message_dup_to_queue_copies:
  assumes "message_queue_rep q st ms" "messages st message = Some msg"
    and "length (msg_data msg) = unat (msg_size msg)" "unat (msg_size msg) + 20 < 2 ^ 32"
    and "a \<notin> dom (messages st)" "b \<notin> dom (nodes (queue_mem st))"
  shows "\<exists>q' st'. co_message_dup_to_queue message q (Some a) (Some b) st = Some (RC_OK, q', st') \<and>
           message_queue_rep q' st' (a # ms) \<and> messages st' = (messages st)(a \<mapsto> msg) \<and>
           co_queue_size q' = co_queue_size q + 1"
proof -
  let ?st = "st\<lparr>messages := (messages st)(a \<mapsto> msg)\<rparr>"
  have dup: "co_message_dup message (Some a) st = Some (RC_OK, Some a, ?st)"
    using assms(2-4) wrap_size [OF assms(4)] by (simp add: co_message_dup_def)
  have ms: "set ms \<subseteq> dom (messages st)"
    using assms(1) by (simp add: message_queue_rep_def)
  have "message_queue_rep q ?st ms"
    by (rule message_queue_rep_upd [OF assms(1)]) (use ms in auto)
  moreover have "b \<notin> dom (nodes (queue_mem ?st))" "a \<in> dom (messages ?st)" "a \<notin> set ms"
    using ms assms(5,6) by auto
  ultimately obtain q' m1 m2 m3 where
    "co_queue_malloc (Some b) (queue_mem ?st) = (RC_OK, Some (b + 8), m1)"
    "set_payload (b + 8) a m1 = Some m2" "co_queue_add_head (b + 8) q m2 = Some (q', m3)"
    "message_queue_rep q' (?st\<lparr>queue_mem := m3\<rparr>) (a # ms)" "items_count q' = items_count q + 1"
    using queue_message_item [of q ?st ms b a] by blast
  with dup show ?thesis
    by (simp add: co_message_dup_to_queue_def co_queue_size_def)
qed

text \<open>C27: when \<open>co_os_malloc\<close> fails, whether for the copy or for the queue item, queueing a message
  returns out of memory, keeps the queue as it was and leaks nothing: the set of allocated
  messages and items is unchanged.\<close>

theorem co_message_queue_out_of_memory:
  assumes "messages st message = Some msg" "length (msg_data msg) = unat (msg_size msg)"
    and "unat (msg_size msg) + 20 < 2 ^ 32" "a \<notin> dom (messages st)"
  shows "co_message_dup_to_queue message q None item_block st = Some (RC_OUT_OF_MEMORY, q, st) \<and>
         co_message_dup_to_queue message q (Some a) None st = Some (RC_OUT_OF_MEMORY, q, st) \<and>
         co_message_mov_to_queue message q None st = Some (RC_OUT_OF_MEMORY, q, st)"
proof -
  have "(messages st)(a := None) = messages st"
    using assms(4) by auto
  then show ?thesis
    using assms(1-3) wrap_size [OF assms(3)]
    by (simp add: co_message_dup_to_queue_def co_message_dup_def co_queue_malloc_def Let_def
        co_message_mov_to_queue_def co_message_free_def)
qed

definition message_example :: message_mem where
  "message_example = \<lparr>queue_mem = \<lparr>nodes = ring_example, items = [0x20 \<mapsto> Some 0x100, 0x30 \<mapsto> Some 0x200]\<rparr>,
     messages = [0x100 \<mapsto> \<lparr>from_module = 0, to_module = 6, priority = 0, msg_type = 1, msg_size = 2, msg_data = [1, 2]\<rparr>,
       0x200 \<mapsto> \<lparr>from_module = 0, to_module = 7, priority = 1, msg_type = 0, msg_size = 1, msg_data = [9]\<rparr>,
       0x300 \<mapsto> \<lparr>from_module = 2, to_module = 0, priority = 1, msg_type = 0, msg_size = 1, msg_data = [8]\<rparr>]\<rparr>"

lemma message_example_rep:
  "message_queue_rep (fst queue_example) message_example [0x100, 0x200]"
  using queue_example_rep
  by (auto simp: message_queue_rep_def queue_example_def message_example_def queue_rep_def
      intro!: exI [of _ "[0x20, 0x30]"])

theorem co_message_dup_to_queue_copies_witness:
  "\<exists>q' st'. co_message_dup_to_queue 0x300 (fst queue_example) (Some 0x400) (Some 0x50) message_example =
       Some (RC_OK, q', st') \<and>
     message_queue_rep q' st' (0x400 # [0x100, 0x200]) \<and>
     messages st' = (messages message_example)(0x400 \<mapsto> the (messages message_example 0x300)) \<and>
     co_queue_size q' = co_queue_size (fst queue_example) + 1"
  by (rule co_message_dup_to_queue_copies [OF message_example_rep, of _ "the (messages message_example 0x300)"])
    (simp_all add: message_example_def ring_example_def)

theorem co_message_queue_out_of_memory_witness:
  "co_message_dup_to_queue 0x300 (fst queue_example) None None message_example =
     Some (RC_OUT_OF_MEMORY, fst queue_example, message_example) \<and>
   co_message_dup_to_queue 0x300 (fst queue_example) (Some 0x400) None message_example =
     Some (RC_OUT_OF_MEMORY, fst queue_example, message_example) \<and>
   co_message_mov_to_queue 0x300 (fst queue_example) None message_example =
     Some (RC_OUT_OF_MEMORY, fst queue_example, message_example)"
  by (rule co_message_queue_out_of_memory [of _ _ "the (messages message_example 0x300)"])
    (simp_all add: message_example_def)

end
