(* ===== verification/CoSnprintf.thy ===== *)
theory CoSnprintf
  imports CoLibc CoList
begin

text \<open>
  The formatted printing of \<open>src/colinux/common/snprintf.c\<close> (without the floating point
  conversions, which \<open>SNPRINTF_FLOAT\<close> compiles out). The buffer is modelled by its size and the
  characters written so far, so that \<open>pinsertion - str\<close> is their number; a write at or beyond
  the size is \<open>None\<close>, as are a signed overflow, a missing argument and an overflow of the digit
  stack. \<open>int\<close> and \<open>long\<close> have 32 bits.
\<close>

datatype va_value = VInt u32 | VStr "string option" | VIntPtr ptr

text \<open>The output side: the buffer, \<open>*nmax\<close> and the remaining arguments.\<close>

record sn_out =
  cap :: nat
  out :: string
  nmax :: int
  args :: "va_value list"
  stores :: "(ptr \<times> int) list"

definition c_int :: "int \<Rightarrow> int option" where
  "c_int i = (if - (2 ^ 31) \<le> i \<and> i < 2 ^ 31 then Some i else None)"

text \<open>\<open>memset\<close> and \<open>memcpy\<close> at \<open>*pinsertion\<close>, which then moves; \<open>*nmax\<close> is left to the callers.\<close>

definition sn_write :: "string \<Rightarrow> sn_out \<Rightarrow> sn_out option" where
  "sn_write s v = (if length (out v) + length s \<le> cap v then Some (v\<lparr>out := out v @ s\<rparr>) else None)"

text \<open>One character if there is room for it and a NUL.\<close>

definition sn_put :: "char \<Rightarrow> sn_out \<Rightarrow> sn_out option" where
  "sn_put ch v = (if nmax v > 1 then do { v \<leftarrow> sn_write [ch] v; Some (v\<lparr>nmax := nmax v - 1\<rparr>) } else Some v)"

text \<open>A block of \<open>k\<close> bytes, a negative count being a huge \<open>size_t\<close>, and the update of \<open>*nmax\<close>.\<close>

definition sn_block :: "int \<Rightarrow> (nat \<Rightarrow> string) \<Rightarrow> sn_out \<Rightarrow> sn_out option" where
  "sn_block k s v =
     (if k < 0 then None else do { v \<leftarrow> sn_write (s (nat k)) v; Some (v\<lparr>nmax := nmax v - k\<rparr>) })"

fun next_int :: "sn_out \<Rightarrow> (u32 \<times> sn_out) option" where
  "next_int v = (case args v of VInt i # as \<Rightarrow> Some (i, v\<lparr>args := as\<rparr>) | _ \<Rightarrow> None)"

fun next_str :: "sn_out \<Rightarrow> (string option \<times> sn_out) option" where
  "next_str v = (case args v of VStr s # as \<Rightarrow> Some (s, v\<lparr>args := as\<rparr>) | _ \<Rightarrow> None)"

fun next_int_ptr :: "sn_out \<Rightarrow> (ptr \<times> sn_out) option" where
  "next_int_ptr v = (case args v of VIntPtr p # as \<Rightarrow> Some (p, v\<lparr>args := as\<rparr>) | _ \<Rightarrow> None)"

text \<open>The flags.\<close>

abbreviation FLAG_DEFAULT :: u8 where "FLAG_DEFAULT \<equiv> 0x00"
abbreviation FLAG_LEFT_ALIGN :: u8 where "FLAG_LEFT_ALIGN \<equiv> 0x01"
abbreviation FLAG_SIGNED :: u8 where "FLAG_SIGNED \<equiv> 0x02"
abbreviation FLAG_ZERO_PAD :: u8 where "FLAG_ZERO_PAD \<equiv> 0x04"
abbreviation FLAG_SIGN_PAD :: u8 where "FLAG_SIGN_PAD \<equiv> 0x08"
abbreviation FLAG_HASH :: u8 where "FLAG_HASH \<equiv> 0x10"

definition has_flag :: "u8 \<Rightarrow> u8 \<Rightarrow> bool" where
  "has_flag flags f \<longleftrightarrow> flags AND f \<noteq> 0"

definition pvsnfmt_char :: "sn_out \<Rightarrow> (int \<times> sn_out) option" where
  "pvsnfmt_char v =
     (if nmax v > 1
      then do {
        (i, v) \<leftarrow> next_int v;
        v \<leftarrow> sn_write [char_of (unat i)] v;
        Some (1, v\<lparr>nmax := nmax v - 1\<rparr>) }
      else Some (1, v))"

text \<open>\<open>pstrnlen\<close>: \<open>count\<close> is positive or the loop ends at once.\<close>

fun pstrnlen_loop :: "string \<Rightarrow> nat \<Rightarrow> int" where
  "pstrnlen_loop s 0 = 0"
| "pstrnlen_loop s (Suc count) = (if c_char s = CHR 0x00 then 0 else 1 + pstrnlen_loop (tl s) count)"

definition pstrnlen :: "string \<Rightarrow> int \<Rightarrow> int" where
  "pstrnlen s count = pstrnlen_loop s (nat count)"

text \<open>The output half of \<open>pvsnfmt_str\<close>, then its whole.\<close>

definition emit_str :: "bool \<Rightarrow> char \<Rightarrow> string \<Rightarrow> int \<Rightarrow> int \<Rightarrow> sn_out \<Rightarrow> (int \<times> sn_out) option" where
  "emit_str left padchar str len pad v = do {
     total \<leftarrow> c_int (len + pad);
     if nmax v \<le> 1 then Some (total, v)
     else do {
       v \<leftarrow> (if \<not> left
             then let nprinted = (if nmax v - 1 < pad then nmax v - 1 else pad)
                  in sn_block nprinted (\<lambda>n. replicate n padchar) v
             else Some v);
       let nprinted = (if nmax v \<le> 1 then 0 else if nmax v - 1 < len then nmax v - 1 else len);
       v \<leftarrow> sn_block nprinted (\<lambda>n. take n str) v;
       v \<leftarrow> (if left
             then let nprinted = (if nmax v \<le> 1 then 0 else if nmax v - 1 < pad then nmax v - 1 else pad)
                  in sn_block nprinted (\<lambda>n. replicate n (CHR '' '')) v
             else Some v);
       Some (total, v) } }"

definition pvsnfmt_str :: "u8 \<Rightarrow> int \<Rightarrow> int \<Rightarrow> sn_out \<Rightarrow> (int \<times> sn_out) option" where
  "pvsnfmt_str flags width precision v = do {
     (str, v) \<leftarrow> next_str v;
     (width, flags) \<leftarrow>
       (if width < 0 then do { w \<leftarrow> c_int (- width); Some (w, flags OR FLAG_LEFT_ALIGN) }
        else Some (width, flags));
     let str = (case str of None \<Rightarrow> ''(null)'' | Some s \<Rightarrow> s);
     let len = (if precision < 0 then co_strlen str else pstrnlen str precision);
     let pad = (if width > len then width - len else 0);
     emit_str (has_flag flags FLAG_LEFT_ALIGN)
       (if has_flag flags FLAG_ZERO_PAD then CHR ''0'' else CHR '' '') str len pad v }"

text \<open>\<open>pvsnfmt_int\<close>. The digit stack \<open>numstack[22]\<close>, its top first.\<close>

definition num_push :: "nat \<Rightarrow> nat list \<Rightarrow> nat list option" where
  "num_push x stack = (if length stack < 22 then Some (x # stack) else None)"

function push_digits :: "nat \<Rightarrow> nat \<Rightarrow> nat list \<Rightarrow> nat list option" where
  "push_digits base number stack =
     (if base < 2 then None
      else do {
        stack \<leftarrow> num_push (number mod base) stack;
        (let number = number div base in
         if number \<noteq> 0 then push_digits base number stack else Some stack) })"
  by pat_completeness auto
termination
  by (relation "measure (\<lambda>(base, number, stack). number)") (auto simp: div_greater_zero_iff intro: div_less_dividend)

declare push_digits.simps [simp del]

fun push_zeros :: "nat \<Rightarrow> nat list \<Rightarrow> nat list option" where
  "push_zeros 0 stack = Some stack"
| "push_zeros (Suc n) stack = do { stack \<leftarrow> num_push 0 stack; push_zeros n stack }"

definition digit_char :: "char \<Rightarrow> nat \<Rightarrow> char" where
  "digit_char char10 n = (if n \<le> 9 then char_of (n + 48) else char_of (n - 10 + of_char char10))"

text \<open>The value: \<open>Inl\<close> a signed \<open>number\<close>, \<open>Inr\<close> an \<open>unumber\<close>. With the prefix \<open>l\<close> the
  conversion \<open>p\<close> stores into \<open>unumber\<close> and leaves \<open>numbersigned\<close> set and \<open>number\<close> 0.\<close>

definition fetch_number :: "char \<Rightarrow> char \<Rightarrow> u32 \<Rightarrow> int + nat" where
  "fetch_number prefix fmt i =
     (if prefix = CHR ''h'' then
        (if fmt \<in> {CHR ''d'', CHR ''i''} then Inl (sint (ucast i :: u16))
         else if fmt = CHR ''p'' then Inr (unat i)
         else Inr (unat (ucast i :: u16)))
      else if prefix = CHR ''l'' then
        (if fmt \<in> {CHR ''d'', CHR ''i''} then Inl (sint i)
         else if fmt = CHR ''p'' then Inl 0
         else Inr (unat i))
      else
        (if fmt \<in> {CHR ''d'', CHR ''i''} then Inl (sint i) else Inr (unat i)))"

definition base_of :: "char \<Rightarrow> nat" where
  "base_of fmt =
     (if fmt \<in> {CHR ''d'', CHR ''i'', CHR ''u''} then 10
      else if fmt = CHR ''o'' then 8
      else if fmt \<in> {CHR ''x'', CHR ''X''} then 16 else 0)"

definition char10_of :: "char \<Rightarrow> char" where
  "char10_of fmt = (if fmt = CHR ''X'' then CHR ''A'' else if fmt = CHR ''x'' then CHR ''a'' else CHR 0x00)"

text \<open>The sign character, NUL for none, and the magnitude; negating \<open>LONG_MIN\<close> overflows.\<close>

definition sign_and_magnitude :: "u8 \<Rightarrow> int + nat \<Rightarrow> (char \<times> nat) option" where
  "sign_and_magnitude flags num =
     (case num of
        Inl number \<Rightarrow>
          if number < 0 then do { n \<leftarrow> c_int (- number); Some (CHR ''-'', nat n) }
          else Some (if has_flag flags FLAG_SIGNED then CHR ''+''
                     else if has_flag flags FLAG_SIGN_PAD then CHR '' '' else CHR 0x00, nat number)
      | Inr unumber \<Rightarrow> Some (CHR 0x00, unumber))"

text \<open>"Write sign or 0x".\<close>

definition put_sign :: "int \<Rightarrow> char \<Rightarrow> char \<Rightarrow> sn_out \<Rightarrow> sn_out option" where
  "put_sign addprefix sign fmt v =
     (if addprefix = 2 then do { v \<leftarrow> sn_put (CHR ''0'') v; sn_put fmt v }
      else if addprefix = 1 then sn_put sign v else Some v)"

text \<open>The limit the integer conversion puts on a count: \<open>*nmax + 1\<close> where \<open>*nmax - 1\<close> is meant.\<close>

definition int_limit :: "int \<Rightarrow> int \<Rightarrow> int option" where
  "int_limit room n =
     (if room \<le> 1 then Some 0
      else do { k \<leftarrow> c_int (room + 1); Some (if k < n then room - 1 else n) })"

text \<open>The first half of \<open>pvsnfmt_int\<close>: fetch the value and lay the number out.\<close>

record int_layout =
  il_fmt :: char
  il_flags :: u8
  il_sign :: char
  il_addprefix :: int
  il_stack :: "nat list"
  il_totallen :: int
  il_widthpad :: int

definition lay_out_int :: "char \<Rightarrow> u8 \<Rightarrow> int \<Rightarrow> int \<Rightarrow> char \<Rightarrow> u32 \<Rightarrow> int_layout option" where
  "lay_out_int fmt flags width precision prefix i = do {
     let num = fetch_number prefix fmt i;
     let (fmt, flags) = (if fmt = CHR ''p'' then (CHR ''x'', flags OR FLAG_HASH) else (fmt, flags));
     (sign, number) \<leftarrow> sign_and_magnitude flags num;
     let iszero = (number = 0);
     stack \<leftarrow> push_digits (base_of fmt) number [];
     let len = int (length stack);
     let precision =
       (if fmt = CHR ''o'' \<and> has_flag flags FLAG_HASH \<and> precision \<le> len \<and> precision \<noteq> 0 \<and> \<not> iszero
        then len + 1 else precision);
     let addprefix =
       (if (fmt = CHR ''x'' \<or> fmt = CHR ''X'') \<and> has_flag flags FLAG_HASH \<and> \<not> iszero then 2
        else if sign \<noteq> CHR 0x00 then 1 else 0);
     stack \<leftarrow> push_zeros (nat (precision - len)) stack;
     let len = int (length stack);
     let (totallen, widthpad) =
       (if len + addprefix < width then (width, width - (len + addprefix)) else (len + addprefix, 0));
     Some \<lparr>il_fmt = fmt, il_flags = flags, il_sign = sign, il_addprefix = addprefix, il_stack = stack,
       il_totallen = totallen, il_widthpad = widthpad\<rparr> }"

text \<open>The second half: write as much as \<open>*nmax\<close> is taken to allow.\<close>

definition emit_int :: "int_layout \<Rightarrow> sn_out \<Rightarrow> (int \<times> sn_out) option" where
  "emit_int l v =
     (let flags = il_flags l; put = put_sign (il_addprefix l) (il_sign l) (il_fmt l) in
      if nmax v \<le> 1 then Some (il_totallen l, v)
      else do {
        v \<leftarrow> (if has_flag flags FLAG_ZERO_PAD then put v else Some v);
        v \<leftarrow> (if \<not> has_flag flags FLAG_LEFT_ALIGN
              then do {
                k \<leftarrow> int_limit (nmax v) (il_widthpad l);
                sn_block k (\<lambda>n. replicate n (if has_flag flags FLAG_ZERO_PAD then CHR ''0'' else CHR '' '')) v }
              else Some v);
        v \<leftarrow> (if \<not> has_flag flags FLAG_ZERO_PAD then put v else Some v);
        len \<leftarrow> int_limit (nmax v) (int (length (il_stack l)));
        v \<leftarrow> sn_write (map (digit_char (char10_of (il_fmt l))) (take (nat len) (il_stack l))) v;
        v \<leftarrow> (if has_flag flags FLAG_LEFT_ALIGN
              then do {
                k \<leftarrow> int_limit (nmax v) (il_widthpad l);
                sn_block k (\<lambda>n. replicate n (CHR '' '')) v }
              else Some v);
        Some (il_totallen l, v) })"

definition pvsnfmt_int :: "char \<Rightarrow> u8 \<Rightarrow> int \<Rightarrow> int \<Rightarrow> char \<Rightarrow> sn_out \<Rightarrow> (int \<times> sn_out) option" where
  "pvsnfmt_int fmt flags width precision prefix v = do {
     (i, v) \<leftarrow> next_int v;
     l \<leftarrow> lay_out_int fmt flags width precision prefix i;
     emit_int l v }"

text \<open>What a string conversion and an integer conversion would write with room to spare.\<close>

definition str_text :: "u8 \<Rightarrow> int \<Rightarrow> int \<Rightarrow> string option \<Rightarrow> string" where
  "str_text flags width precision str =
     (let left = has_flag flags FLAG_LEFT_ALIGN \<or> width < 0;
          str = (case str of None \<Rightarrow> ''(null)'' | Some s \<Rightarrow> s);
          text = take (nat (if precision < 0 then co_strlen str else pstrnlen str precision)) str;
          pad = nat (\<bar>width\<bar> - int (length text))
      in if left then text @ replicate pad (CHR '' '')
         else replicate pad (if has_flag flags FLAG_ZERO_PAD then CHR ''0'' else CHR '' '') @ text)"

definition int_text :: "int_layout \<Rightarrow> string" where
  "int_text l =
     (let zero = has_flag (il_flags l) FLAG_ZERO_PAD; left = has_flag (il_flags l) FLAG_LEFT_ALIGN;
          sign = (if il_addprefix l = 2 then [CHR ''0'', il_fmt l]
                  else if il_addprefix l = 1 then [il_sign l] else []);
          pad = (\<lambda>c. replicate (nat (il_widthpad l)) c)
      in (if zero then sign else []) @
         (if \<not> left then pad (if zero then CHR ''0'' else CHR '' '') else []) @
         (if \<not> zero then sign else []) @
         map (digit_char (char10_of (il_fmt l))) (il_stack l) @
         (if left then pad (CHR '' '') else []))"

text \<open>Lengths.\<close>

lemma co_strlen_bounds: "0 \<le> co_strlen s \<and> co_strlen s \<le> int (length s)"
proof (induction s)
  case (Cons c s)
  then show ?case by (subst (1 2) co_strlen.simps) auto
qed (simp add: co_strlen.simps)

lemma pstrnlen_loop_bounds: "0 \<le> pstrnlen_loop s n \<and> pstrnlen_loop s n \<le> int (length s)"
proof (induction n arbitrary: s)
  case (Suc n)
  from Suc [of "tl s"] show ?case by (cases s) auto
qed simp

lemma pstrnlen_bounds: "0 \<le> pstrnlen s n \<and> pstrnlen s n \<le> int (length s)"
  by (simp add: pstrnlen_def pstrnlen_loop_bounds)

lemma pstrnlen_eq: "c_string s \<Longrightarrow> pstrnlen s n = int (min (length s) (nat n))"
proof -
  have "c_string s \<Longrightarrow> pstrnlen_loop s k = int (min (length s) k)" for k and s :: string
  proof (induction k arbitrary: s)
    case (Suc k)
    from Suc(1) [of "tl s"] Suc(2) show ?case by (cases s) auto
  qed simp
  then show "c_string s \<Longrightarrow> pstrnlen s n = int (min (length s) (nat n))"
    by (simp add: pstrnlen_def)
qed

lemma num_push_Some: "num_push x st = Some st' \<longleftrightarrow> length st < 22 \<and> st' = x # st"
  by (auto simp: num_push_def)

lemma push_digits_Some: "push_digits base n st = Some st' \<Longrightarrow> st' \<noteq> []"
proof (induction base n st rule: push_digits.induct)
  case (1 base n st)
  from 1(2) have b: "\<not> base < 2"
    by (subst (asm) push_digits.simps) (simp split: if_splits)
  with 1(2) obtain st1 where st1: "num_push (n mod base) st = Some st1"
    and rec: "(if n div base \<noteq> 0 then push_digits base (n div base) st1 else Some st1) = Some st'"
    by (subst (asm) push_digits.simps) (auto simp: bind_Some_iff Let_def)
  show ?case
  proof (cases "n div base = 0")
    case True
    with st1 rec show ?thesis by (auto simp: num_push_Some)
  next
    case False
    with 1(1) [OF b st1 refl] rec show ?thesis by simp
  qed
qed

lemma push_zeros_Some: "push_zeros n st = Some st' \<Longrightarrow> st' = replicate n 0 @ st"
proof (induction n arbitrary: st)
  case (Suc n)
  then show ?case
    by (auto simp: bind_Some_iff num_push_Some) (metis append_Cons replicate_app_Cons_same)
qed simp

lemma lay_out_int_parts:
  assumes "lay_out_int fmt flags width precision prefix i = Some l"
  obtains f0 fl0 sign number st0 k where
    "(f0, fl0) = (if fmt = CHR ''p'' then (CHR ''x'', flags OR FLAG_HASH) else (fmt, flags))"
    "sign_and_magnitude fl0 (fetch_number prefix fmt i) = Some (sign, number)"
    "push_digits (base_of f0) number [] = Some st0"
    "il_fmt l = f0" "il_flags l = fl0" "il_sign l = sign" "il_stack l = replicate k 0 @ st0"
    "il_addprefix l = (if (f0 = CHR ''x'' \<or> f0 = CHR ''X'') \<and> has_flag fl0 FLAG_HASH \<and> number \<noteq> 0 then 2
        else if sign \<noteq> CHR 0x00 then 1 else 0)"
    "il_widthpad l = (if int (length (il_stack l)) + il_addprefix l < width
       then width - (int (length (il_stack l)) + il_addprefix l) else 0)"
    "il_totallen l = (if int (length (il_stack l)) + il_addprefix l < width then width
       else int (length (il_stack l)) + il_addprefix l)"
    "precision \<le> int (length st0) \<longrightarrow> \<not> (f0 = CHR ''o'' \<and> has_flag fl0 FLAG_HASH) \<longrightarrow> k = 0"
proof -
  obtain f0 fl0 where f0: "(if fmt = CHR ''p'' then (CHR ''x'', flags OR FLAG_HASH) else (fmt, flags)) = (f0, fl0)"
    by fastforce
  obtain sign number where sm: "sign_and_magnitude fl0 (fetch_number prefix fmt i) = Some (sign, number)"
    using assms f0 by (auto simp: lay_out_int_def bind_Some_iff Let_def)
  obtain st0 where st0: "push_digits (base_of f0) number [] = Some st0"
    using assms f0 sm by (auto simp: lay_out_int_def bind_Some_iff Let_def)
  define prec where "prec = (if f0 = CHR ''o'' \<and> has_flag fl0 FLAG_HASH \<and> precision \<le> int (length st0) \<and>
      precision \<noteq> 0 \<and> number \<noteq> 0 then int (length st0) + 1 else precision)"
  obtain st1 where st1: "push_zeros (nat (prec - int (length st0))) st0 = Some st1"
    using assms f0 sm st0 by (auto simp: lay_out_int_def bind_Some_iff Let_def prec_def)
  have st1': "st1 = replicate (nat (prec - int (length st0))) 0 @ st0"
    using push_zeros_Some [OF st1] .
  have "lay_out_int fmt flags width precision prefix i =
    (let addprefix = (if (f0 = CHR ''x'' \<or> f0 = CHR ''X'') \<and> has_flag fl0 FLAG_HASH \<and> number \<noteq> 0 then 2
        else if sign \<noteq> CHR 0x00 then 1 else 0); len = int (length st1);
        (totallen, widthpad) =
       (if len + addprefix < width then (width, width - (len + addprefix)) else (len + addprefix, 0))
     in Some \<lparr>il_fmt = f0, il_flags = fl0, il_sign = sign, il_addprefix = addprefix, il_stack = st1,
       il_totallen = totallen, il_widthpad = widthpad\<rparr>)"
    using f0 sm st0 st1 unfolding lay_out_int_def prec_def Let_def by simp
  with assms have l: "l = \<lparr>il_fmt = f0, il_flags = fl0, il_sign = sign,
     il_addprefix = (if (f0 = CHR ''x'' \<or> f0 = CHR ''X'') \<and> has_flag fl0 FLAG_HASH \<and> number \<noteq> 0 then 2
        else if sign \<noteq> CHR 0x00 then 1 else 0), il_stack = st1, il_totallen = il_totallen l, il_widthpad = il_widthpad l\<rparr>"
    "il_widthpad l = (if int (length (il_stack l)) + il_addprefix l < width
       then width - (int (length (il_stack l)) + il_addprefix l) else 0)"
    "il_totallen l = (if int (length (il_stack l)) + il_addprefix l < width then width
       else int (length (il_stack l)) + il_addprefix l)"
    by (auto simp: Let_def split: if_splits)
  have il: "il_fmt l = f0" "il_flags l = fl0" "il_sign l = sign" "il_stack l = st1"
     "il_addprefix l = (if (f0 = CHR ''x'' \<or> f0 = CHR ''X'') \<and> has_flag fl0 FLAG_HASH \<and> number \<noteq> 0 then 2
        else if sign \<noteq> CHR 0x00 then 1 else 0)"
    by (subst l(1), simp)+
  show thesis
    by (rule that [OF f0 [symmetric] sm st0 il(1,2,3) _ il(5) l(2,3), of "nat (prec - int (length st0))"])
      (auto simp: il st1' prec_def)
qed

lemma lay_out_int_Some:
  assumes "lay_out_int fmt flags width precision prefix i = Some l"
  shows "il_stack l \<noteq> []" "il_addprefix l \<in> {0, 1, 2}" "0 \<le> il_widthpad l"
    "il_totallen l = int (length (il_stack l)) + il_addprefix l + il_widthpad l"
proof -
  show "il_stack l \<noteq> []"
    by (rule lay_out_int_parts [OF assms]) (auto dest: push_digits_Some)
  show "il_addprefix l \<in> {0, 1, 2}"
    by (rule lay_out_int_parts [OF assms]) simp
  show "0 \<le> il_widthpad l"
    by (rule lay_out_int_parts [OF assms]) simp
  show "il_totallen l = int (length (il_stack l)) + il_addprefix l + il_widthpad l"
    by (rule lay_out_int_parts [OF assms]) simp
qed

lemma length_int_text:
  assumes "lay_out_int fmt flags width precision prefix i = Some l"
  shows "int (length (int_text l)) = il_totallen l" "int_text l \<noteq> []"
  using lay_out_int_Some [OF assms] by (auto simp: int_text_def Let_def)

text \<open>The format automaton of \<open>co_vsnprintf\<close>.\<close>

datatype sn_state =
    STATE_NONE | STATE_OPERATOR | STATE_FLAG | STATE_WIDTH | STATE_BEFORE_PRECISION
  | STATE_PRECISION | STATE_PREFIX

abbreviation UNKNOWN_WIDTH :: int where "UNKNOWN_WIDTH \<equiv> 0"
abbreviation VARIABLE_WIDTH :: int where "VARIABLE_WIDTH \<equiv> - 2"
abbreviation UNKNOWN_PRECISION :: int where "UNKNOWN_PRECISION \<equiv> - 1"
abbreviation VARIABLE_PRECISION :: int where "VARIABLE_PRECISION \<equiv> - 2"

record sn_fmt =
  state :: sn_state
  flags :: u8
  width :: int
  precision :: int
  prefix :: char
  ncount :: int

text \<open>The reusable switch cases. Each says whether it has a case for the character.\<close>

definition flag_of :: "char \<Rightarrow> u8 option" where
  "flag_of c =
     (if c = CHR ''-'' then Some FLAG_LEFT_ALIGN else if c = CHR ''+'' then Some FLAG_SIGNED
      else if c = CHR ''0'' then Some FLAG_ZERO_PAD else if c = CHR '' '' then Some FLAG_SIGN_PAD
      else if c = CHR ''#'' then Some FLAG_HASH else None)"

definition digit_value :: "char \<Rightarrow> int option" where
  "digit_value c = (if 48 \<le> (of_char c :: nat) \<and> (of_char c :: nat) \<le> 57 then Some (of_char c - 48) else None)"

definition CHECK_FLAG :: "char \<Rightarrow> sn_fmt \<Rightarrow> sn_fmt option" where
  "CHECK_FLAG c f = do { b \<leftarrow> flag_of c; Some (f\<lparr>flags := flags f OR b, state := STATE_FLAG\<rparr>) }"

definition CHECK_WIDTH :: "char \<Rightarrow> sn_fmt \<Rightarrow> sn_fmt option" where
  "CHECK_WIDTH c f =
     (if c = CHR ''*'' then Some (f\<lparr>width := VARIABLE_WIDTH, state := STATE_WIDTH\<rparr>)
      else if c = CHR ''0'' then None
      else do { d \<leftarrow> digit_value c; Some (f\<lparr>width := d, state := STATE_WIDTH\<rparr>) })"

definition CHECK_PRECISION :: "char \<Rightarrow> sn_fmt \<Rightarrow> sn_fmt option" where
  "CHECK_PRECISION c f =
     (if c = CHR ''.'' then Some (f\<lparr>precision := 0, state := STATE_BEFORE_PRECISION\<rparr>) else None)"

definition CHECK_PREFIX :: "char \<Rightarrow> sn_fmt \<Rightarrow> sn_fmt option" where
  "CHECK_PREFIX c f =
     (if c \<in> {CHR ''h'', CHR ''l'', CHR ''L''} then Some (f\<lparr>prefix := c, state := STATE_PREFIX\<rparr>) else None)"

definition is_int_type :: "char \<Rightarrow> bool" where
  "is_int_type c \<longleftrightarrow> c \<in> {CHR ''d'', CHR ''i'', CHR ''u'', CHR ''o'', CHR ''x'', CHR ''X'', CHR ''p''}"

definition is_type :: "char \<Rightarrow> bool" where
  "is_type c \<longleftrightarrow> is_int_type c \<or> c \<in> {CHR ''c'', CHR ''s'', CHR ''n''}"

definition GET_VARS :: "sn_fmt \<Rightarrow> sn_out \<Rightarrow> (sn_fmt \<times> sn_out) option" where
  "GET_VARS f v = do {
     (f, v) \<leftarrow> (if width f = VARIABLE_WIDTH
                then do { (i, v) \<leftarrow> next_int v; Some (f\<lparr>width := sint i\<rparr>, v) } else Some (f, v));
     (if precision f = VARIABLE_PRECISION
      then do { (i, v) \<leftarrow> next_int v; Some (f\<lparr>precision := sint i\<rparr>, v) } else Some (f, v)) }"

definition convert :: "char \<Rightarrow> sn_fmt \<Rightarrow> sn_out \<Rightarrow> (int \<times> sn_out) option" where
  "convert c f v =
     (if is_int_type c then pvsnfmt_int c (flags f) (width f) (precision f) (prefix f) v
      else if c = CHR ''c'' then pvsnfmt_char v
      else pvsnfmt_str (flags f) (width f) (precision f) v)"

definition CHECK_TYPE :: "char \<Rightarrow> sn_fmt \<Rightarrow> sn_out \<Rightarrow> (sn_fmt \<times> sn_out) option" where
  "CHECK_TYPE c f v =
     (if c = CHR ''n''
      then do {
        (p, v) \<leftarrow> next_int_ptr v;
        Some (f\<lparr>state := STATE_NONE\<rparr>, v\<lparr>stores := stores v @ [(p, ncount f)]\<rparr>) }
      else do {
        (f, v) \<leftarrow> GET_VARS f v;
        (k, v) \<leftarrow> convert c f v;
        n \<leftarrow> c_int (ncount f + k);
        Some (f\<lparr>ncount := n, state := STATE_NONE\<rparr>, v) })"

definition PUTCHAR :: "char \<Rightarrow> sn_fmt \<Rightarrow> sn_out \<Rightarrow> (sn_fmt \<times> sn_out) option" where
  "PUTCHAR c f v = do {
     v \<leftarrow> sn_put c v;
     n \<leftarrow> c_int (ncount f + 1);
     Some (f\<lparr>ncount := n\<rparr>, v) }"

text \<open>The switch over a list of cases that only change the conversion specification.\<close>

fun first_case :: "'a option list \<Rightarrow> 'a option" where
  "first_case [] = None"
| "first_case (x # xs) = (case x of None \<Rightarrow> first_case xs | Some y \<Rightarrow> Some y)"

definition append_digit :: "int \<Rightarrow> int \<Rightarrow> int option" where
  "append_digit n d = do { n \<leftarrow> c_int (n * 10); c_int (n + d) }"

text \<open>What the automaton does with a character: change the conversion specification, print the
  character, or convert an argument.\<close>

datatype sn_action = Change "sn_fmt option" | Put | Convert sn_fmt

definition or_type :: "char \<Rightarrow> sn_fmt \<Rightarrow> sn_action \<Rightarrow> sn_action" where
  "or_type c f otherwise = (if is_type c then Convert f else otherwise)"

definition sn_action :: "char \<Rightarrow> sn_fmt \<Rightarrow> sn_action" where
  "sn_action c f =
     (case state f of
        STATE_NONE \<Rightarrow>
          if c = CHR ''%''
          then Change (Some (f\<lparr>state := STATE_OPERATOR, flags := FLAG_DEFAULT, width := UNKNOWN_WIDTH,
                              precision := UNKNOWN_PRECISION, prefix := CHR 0x00\<rparr>))
          else Put
      | STATE_OPERATOR \<Rightarrow>
          (case first_case [CHECK_FLAG c f, CHECK_WIDTH c f, CHECK_PRECISION c f, CHECK_PREFIX c f] of
             Some f \<Rightarrow> Change (Some f) | None \<Rightarrow> or_type c f Put)
      | STATE_FLAG \<Rightarrow>
          (case first_case [CHECK_FLAG c f, CHECK_WIDTH c f, CHECK_PRECISION c f, CHECK_PREFIX c f] of
             Some f \<Rightarrow> Change (Some f) | None \<Rightarrow> or_type c f (Change (Some f)))
      | STATE_WIDTH \<Rightarrow>
          (case digit_value c of
             Some d \<Rightarrow>
               Change (if width f \<noteq> - 1 then do { w \<leftarrow> append_digit (width f) d; Some (f\<lparr>width := w\<rparr>) }
                       else Some f)
           | None \<Rightarrow>
               (case first_case [CHECK_PRECISION c f, CHECK_PREFIX c f] of
                  Some f \<Rightarrow> Change (Some f) | None \<Rightarrow> or_type c f (Change (Some f))))
      | STATE_BEFORE_PRECISION \<Rightarrow>
          let f = (case digit_value c of
                     Some d \<Rightarrow> f\<lparr>precision := d, state := STATE_PRECISION\<rparr>
                   | None \<Rightarrow> if c = CHR ''*'' then f\<lparr>precision := VARIABLE_PRECISION, state := STATE_PRECISION\<rparr>
                             else f)
          in (case CHECK_PREFIX c f of
                Some f \<Rightarrow> Change (Some f) | None \<Rightarrow> or_type c f (Change (Some f)))
      | STATE_PRECISION \<Rightarrow>
          (case digit_value c of
             Some d \<Rightarrow>
               Change (if precision f \<noteq> - 1
                       then do { p \<leftarrow> append_digit (precision f) d; Some (f\<lparr>precision := p\<rparr>) } else Some f)
           | None \<Rightarrow>
               (case CHECK_PREFIX c f of
                  Some f \<Rightarrow> Change (Some f) | None \<Rightarrow> or_type c f (Change (Some f))))
      | STATE_PREFIX \<Rightarrow> or_type c f (Change (Some f)))"

definition sn_step :: "char \<Rightarrow> sn_fmt \<times> sn_out \<Rightarrow> (sn_fmt \<times> sn_out) option" where
  "sn_step c s =
     (let (f, v) = s in
      case sn_action c f of
        Change f \<Rightarrow> do { f \<leftarrow> f; Some (f, v) }
      | Put \<Rightarrow> do { (f, v) \<leftarrow> PUTCHAR c f v; Some (f\<lparr>state := STATE_NONE\<rparr>, v) }
      | Convert f \<Rightarrow> CHECK_TYPE c f v)"

fun sn_loop :: "string \<Rightarrow> sn_fmt \<times> sn_out \<Rightarrow> (sn_fmt \<times> sn_out) option" where
  "sn_loop [] s = Some s"
| "sn_loop (c # fmt) s = do { s \<leftarrow> sn_step c s; sn_loop fmt s }"

definition sn_start :: "nat \<Rightarrow> int \<Rightarrow> va_value list \<Rightarrow> sn_fmt \<times> sn_out" where
  "sn_start bufsize n ap =
     (\<lparr>state = STATE_NONE, flags = 0, width = 0, precision = 0, prefix = CHR 0x00, ncount = 0\<rparr>,
      \<lparr>cap = bufsize, out = [], nmax = n, args = ap, stores = []\<rparr>)"

text \<open>\<open>co_vsnprintf\<close> on a buffer of \<open>bufsize\<close> bytes: the returned count and the bytes written, with the
  final NUL when there is one.\<close>

definition co_vsnprintf :: "nat \<Rightarrow> int \<Rightarrow> string \<Rightarrow> va_value list \<Rightarrow> (int \<times> string) option" where
  "co_vsnprintf bufsize n format ap = do {
     (f, v) \<leftarrow> sn_loop format (sn_start bufsize n ap);
     v \<leftarrow> (if nmax v > 0 then sn_write [CHR 0x00] v else Some v);
     Some (ncount f, out v) }"

definition co_snprintf :: "nat \<Rightarrow> int \<Rightarrow> string \<Rightarrow> va_value list \<Rightarrow> (int \<times> string) option" where
  "co_snprintf bufsize n format ap = co_vsnprintf bufsize n format ap"

text \<open>The text a format stands for, read off a run that only counts (\<open>nmax\<close> is 0).\<close>

definition convert_text :: "char \<Rightarrow> sn_fmt \<Rightarrow> sn_out \<Rightarrow> string" where
  "convert_text c f v =
     (case args v of
        VInt i # as \<Rightarrow>
          (case lay_out_int c (flags f) (width f) (precision f) (prefix f) i of
             Some l \<Rightarrow> int_text l | None \<Rightarrow> [])
      | VStr s # as \<Rightarrow> str_text (flags f) (width f) (precision f) s
      | _ \<Rightarrow> [])"

definition step_text :: "char \<Rightarrow> sn_fmt \<times> sn_out \<Rightarrow> string" where
  "step_text c s =
     (case sn_action c (fst s) of
        Change f \<Rightarrow> []
      | Put \<Rightarrow> [c]
      | Convert f \<Rightarrow>
          if c = CHR ''n'' then []
          else (case GET_VARS f (snd s) of None \<Rightarrow> [] | Some (f, v) \<Rightarrow> convert_text c f v))"

fun sn_text :: "string \<Rightarrow> sn_fmt \<times> sn_out \<Rightarrow> string" where
  "sn_text [] s = []"
| "sn_text (c # fmt) s = step_text c s @ (case sn_step c s of None \<Rightarrow> [] | Some s \<Rightarrow> sn_text fmt s)"

text \<open>The conversion characters of a format.\<close>

definition blank :: "sn_state \<Rightarrow> sn_fmt" where
  "blank st = \<lparr>state = st, flags = 0, width = 0, precision = 0, prefix = CHR 0x00, ncount = 0\<rparr>"

fun sn_conversions :: "sn_state \<Rightarrow> string \<Rightarrow> string" where
  "sn_conversions st [] = []"
| "sn_conversions st (c # fmt) =
     (case sn_action c (blank st) of
        Change f \<Rightarrow> sn_conversions (case f of None \<Rightarrow> st | Some f \<Rightarrow> state f) fmt
      | Put \<Rightarrow> sn_conversions STATE_NONE fmt
      | Convert f \<Rightarrow> c # sn_conversions STATE_NONE fmt)"


text \<open>Which conversions a format has does not depend on the arguments.\<close>
lemmas sn_action_defs = sn_action_def or_type_def CHECK_FLAG_def CHECK_WIDTH_def CHECK_PRECISION_def CHECK_PREFIX_def
  blank_def

lemma CHECK_state:
  "map_option state (CHECK_FLAG c f) = map_option (\<lambda>_. STATE_FLAG) (flag_of c)"
  "map_option state (CHECK_WIDTH c f) =
     (if c = CHR ''*'' then Some STATE_WIDTH else if c = CHR ''0'' then None
      else map_option (\<lambda>_. STATE_WIDTH) (digit_value c))"
  "map_option state (CHECK_PRECISION c f) = (if c = CHR ''.'' then Some STATE_BEFORE_PRECISION else None)"
  "map_option state (CHECK_PREFIX c f) =
     (if c \<in> {CHR ''h'', CHR ''l'', CHR ''L''} then Some STATE_PREFIX else None)"
  by (cases "flag_of c"; cases "digit_value c";
      simp add: CHECK_FLAG_def CHECK_WIDTH_def CHECK_PRECISION_def CHECK_PREFIX_def)+

lemma map_option_first_case: "map_option g (first_case xs) = first_case (map (map_option g) xs)"
  by (induction xs) (auto split: option.splits)

definition action_shape :: "sn_action \<Rightarrow> nat \<times> sn_state option" where
  "action_shape a = (case a of Change f \<Rightarrow> (0, map_option state f) | Put \<Rightarrow> (1, None) | Convert f \<Rightarrow> (2, None))"

lemma action_shape_simps [simp]:
  "action_shape (Change f) = (0, map_option state f)" "action_shape Put = (1, None)"
  "action_shape (Convert g) = (2, None)"
  "action_shape (if b then a1 else a2) = (if b then action_shape a1 else action_shape a2)"
  "action_shape (or_type c g a) = (if is_type c then (2, None) else action_shape a)"
  by (simp_all add: action_shape_def or_type_def)

lemma shape_case:
  "action_shape (case x of Some f \<Rightarrow> Change (Some f) | None \<Rightarrow> a) =
     (case map_option state x of Some s \<Rightarrow> (0, Some s) | None \<Rightarrow> action_shape a)"
  by (cases x) simp_all

lemma digit_value_bounds:
  assumes "digit_value c = Some d"
  shows "0 \<le> d" "d \<le> 9"
proof -
  have n: "48 \<le> (of_char c :: nat)" "(of_char c :: nat) \<le> 57" and d: "d = of_char c - 48"
    using assms by (simp_all add: digit_value_def split: if_splits)
  have "(48 :: int) \<le> of_char c" "of_char c \<le> (57 :: int)"
    using n by (metis of_nat_le_iff of_nat_numeral of_nat_of_char)+
  with d show "0 \<le> d" "d \<le> 9" by simp_all
qed

lemma action_shape_blank:
  assumes "sn_action c f \<noteq> Change None"
  shows "action_shape (sn_action c (blank (state f))) = action_shape (sn_action c f)"
proof -
  note defs = sn_action_def shape_case map_option_first_case CHECK_state blank_def
  show ?thesis
  proof (cases "state f")
    case STATE_WIDTH
    show ?thesis
    proof (cases "digit_value c")
      case (Some d)
      from digit_value_bounds [OF this] Some STATE_WIDTH assms show ?thesis
        by (auto simp: sn_action_def blank_def append_digit_def c_int_def bind_Some_iff split: if_splits)
    qed (use STATE_WIDTH in \<open>simp add: defs del: first_case.simps; (simp split: option.splits)?\<close>)
  next
    case STATE_PRECISION
    show ?thesis
    proof (cases "digit_value c")
      case (Some d)
      from digit_value_bounds [OF this] Some STATE_PRECISION assms show ?thesis
        by (auto simp: sn_action_def blank_def append_digit_def c_int_def bind_Some_iff split: if_splits)
    qed (use STATE_PRECISION in \<open>simp add: defs del: first_case.simps; (simp split: option.splits)?\<close>)
  next
    case STATE_BEFORE_PRECISION
    with assms show ?thesis
      by (cases "digit_value c") (simp_all add: defs Let_def)
  next
    case STATE_OPERATOR
    then show ?thesis
      by (cases "flag_of c"; cases "digit_value c")
        (simp add: defs del: first_case.simps; (simp split: option.splits)?)+
  next
    case STATE_FLAG
    then show ?thesis
      by (cases "flag_of c"; cases "digit_value c")
        (simp add: defs del: first_case.simps; (simp split: option.splits)?)+
  qed (simp_all add: sn_action_def blank_def)
qed

lemma first_case_mem: "first_case xs = Some y \<Longrightarrow> Some y \<in> set xs"
  by (induction xs) (auto split: option.splits)

lemma CHECK_ncount:
  "CHECK_FLAG c f = Some f' \<Longrightarrow> ncount f' = ncount f"
  "CHECK_WIDTH c f = Some f' \<Longrightarrow> ncount f' = ncount f"
  "CHECK_PRECISION c f = Some f' \<Longrightarrow> ncount f' = ncount f"
  "CHECK_PREFIX c f = Some f' \<Longrightarrow> ncount f' = ncount f"
  by (auto simp: CHECK_FLAG_def CHECK_WIDTH_def CHECK_PRECISION_def CHECK_PREFIX_def bind_Some_iff
      split: if_splits)

lemma first_case_ncount:
  "first_case [CHECK_FLAG c f, CHECK_WIDTH c f, CHECK_PRECISION c f, CHECK_PREFIX c f] = Some f' \<Longrightarrow>
     ncount f' = ncount f"
  "first_case [CHECK_PRECISION c f, CHECK_PREFIX c f] = Some f' \<Longrightarrow> ncount f' = ncount f"
  by (auto dest: CHECK_ncount split: option.splits)

lemma or_type_cases:
  "or_type c f a = Convert g \<longleftrightarrow> (if is_type c then g = f else a = Convert g)"
  "or_type c f a = Change h \<longleftrightarrow> \<not> is_type c \<and> a = Change h"
  by (auto simp: or_type_def)

lemma sn_action_ncount:
  "sn_action c f = Change (Some f') \<Longrightarrow> ncount f' = ncount f"
  "sn_action c f = Convert f' \<Longrightarrow> ncount f' = ncount f \<and> is_type c"
  by (cases "state f"; cases "digit_value c";
      auto simp: sn_action_def or_type_cases bind_Some_iff Let_def dest: first_case_ncount CHECK_ncount
        split: if_splits option.splits simp del: first_case.simps)+

lemma sn_step_conversions:
  assumes "sn_step c (f, v) = Some (f', v')"
  shows "set (sn_conversions (state f') fmt) \<subseteq> set (sn_conversions (state f) (c # fmt))"
    and "sn_action c f = Convert g \<Longrightarrow> c \<in> set (sn_conversions (state f) (c # fmt))"
proof -
  have "sn_action c f \<noteq> Change None"
    using assms by (auto simp: sn_step_def)
  note shape = action_shape_blank [OF this]
  show "set (sn_conversions (state f') fmt) \<subseteq> set (sn_conversions (state f) (c # fmt))"
    using assms shape
    by (auto simp: sn_step_def CHECK_TYPE_def bind_Some_iff action_shape_def split: sn_action.splits if_splits)
  show "sn_action c f = Convert g \<Longrightarrow> c \<in> set (sn_conversions (state f) (c # fmt))"
    using shape by (auto simp: action_shape_def split: sn_action.splits)
qed

text \<open>What the conversions need of a buffer.\<close>

locale sn_room =
  fixes R :: "string \<Rightarrow> sn_out \<Rightarrow> sn_out \<Rightarrow> bool"
    and fits :: "string \<Rightarrow> bool"
  assumes block: "R T v0 v \<Longrightarrow> fits (T @ w) \<Longrightarrow>
      k = (if nmax v \<le> 1 then 0 else if nmax v - 1 < int (length w) then nmax v - 1 else int (length w)) \<Longrightarrow>
      s (nat k) = take (nat k) w \<Longrightarrow> \<exists>v'. sn_block k s v = Some v' \<and> R (T @ w) v0 v'"
    and skip: "R T v0 v \<Longrightarrow> fits (T @ w) \<Longrightarrow> nmax v \<le> 1 \<Longrightarrow> R (T @ w) v0 v"
    and same: "R T v0 v \<Longrightarrow> args v = args v0 \<and> stores v = stores v0"
    and upd: "R T v0 v \<Longrightarrow> R T (v0\<lparr>args := as\<rparr>) (v\<lparr>args := as\<rparr>)"
      "R T v0 v \<Longrightarrow> R T (v0\<lparr>stores := st\<rparr>) (v\<lparr>stores := st\<rparr>)"
    and fits_prefix: "fits (T @ w) \<Longrightarrow> fits T"

lemma has_flag_OR:
  "has_flag (fl OR FLAG_LEFT_ALIGN) FLAG_LEFT_ALIGN"
  "has_flag (fl OR FLAG_LEFT_ALIGN) FLAG_ZERO_PAD = has_flag fl FLAG_ZERO_PAD"
proof -
  have "(fl OR FLAG_LEFT_ALIGN) AND FLAG_LEFT_ALIGN = FLAG_LEFT_ALIGN"
    by (rule bit_eqI) (auto simp: bit_simps)
  then show "has_flag (fl OR FLAG_LEFT_ALIGN) FLAG_LEFT_ALIGN"
    by (simp add: has_flag_def)
  have "(fl OR FLAG_LEFT_ALIGN) AND FLAG_ZERO_PAD = fl AND FLAG_ZERO_PAD"
    by (simp add: word_ao_dist)
  then show "has_flag (fl OR FLAG_LEFT_ALIGN) FLAG_ZERO_PAD = has_flag fl FLAG_ZERO_PAD"
    by (simp add: has_flag_def)
qed

lemma pvsnfmt_str_form:
  assumes "args v = VStr s # as"
    and "left = (has_flag fl FLAG_LEFT_ALIGN \<or> w < 0)"
    and "str = (case s of None \<Rightarrow> ''(null)'' | Some s \<Rightarrow> s)"
    and "len = (if p < 0 then co_strlen str else pstrnlen str p)"
    and "pad = (if \<bar>w\<bar> > len then \<bar>w\<bar> - len else 0)"
  shows "pvsnfmt_str fl w p v = do {
     w' \<leftarrow> (if w < 0 then c_int (- w) else Some w);
     emit_str left (if has_flag fl FLAG_ZERO_PAD then CHR ''0'' else CHR '' '') str len pad
       (v\<lparr>args := as\<rparr>) }"
proof (cases "w < 0")
  case True
  then have "c_int (- w) = None \<or> c_int (- w) = Some (- w)" "pad = (if - w > len then - w - len else 0)" left
    using assms by (auto simp: c_int_def)
  with True assms(1) show ?thesis
    unfolding pvsnfmt_str_def assms(3,4) Let_def
    by (elim disjE) (simp_all add: has_flag_OR)
next
  case False
  with assms show ?thesis
    by (simp add: pvsnfmt_str_def Let_def)
qed

lemma str_text_form:
  assumes "left = (has_flag fl FLAG_LEFT_ALIGN \<or> w < 0)"
    and "str = (case s of None \<Rightarrow> ''(null)'' | Some s \<Rightarrow> s)"
    and "len = (if p < 0 then co_strlen str else pstrnlen str p)"
    and "pad = (if \<bar>w\<bar> > len then \<bar>w\<bar> - len else 0)"
  shows "str_text fl w p s = (if left then take (nat len) str @ replicate (nat pad) (CHR '' '')
     else replicate (nat pad) (if has_flag fl FLAG_ZERO_PAD then CHR ''0'' else CHR '' '') @ take (nat len) str)"
    and "int (length (take (nat len) str)) = len" "0 \<le> pad" "int (length (str_text fl w p s)) = len + pad"
proof -
  have "0 \<le> len" "len \<le> int (length str)"
    using co_strlen_bounds [of str] pstrnlen_bounds [of str p] assms(3) by auto
  then show l: "int (length (take (nat len) str)) = len" by simp
  show "0 \<le> pad" using assms(4) by simp
  have "nat (\<bar>w\<bar> - int (length (take (nat len) str))) = nat pad"
    using l assms(4) by simp
  then show t: "str_text fl w p s = (if left then take (nat len) str @ replicate (nat pad) (CHR '' '')
     else replicate (nat pad) (if has_flag fl FLAG_ZERO_PAD then CHR ''0'' else CHR '' '') @ take (nat len) str)"
    unfolding str_text_def Let_def assms(1) assms(2) [symmetric] assms(3) [symmetric] by (simp only:)
  show "int (length (str_text fl w p s)) = len + pad"
    using l \<open>0 \<le> pad\<close> unfolding t by auto
qed

context sn_room
begin

lemma replicate_block:
  assumes "R T v0 v" "0 \<le> pad" "fits (T @ replicate (nat pad) ch)"
  shows "\<exists>v'. sn_block (if nmax v \<le> 1 then 0 else if nmax v - 1 < pad then nmax v - 1 else pad)
    (\<lambda>n. replicate n ch) v = Some v' \<and> R (T @ replicate (nat pad) ch) v0 v'"
  by (rule block [OF assms(1,3)]) (use assms(2) in \<open>auto simp: min_def\<close>)

lemma take_block:
  assumes "R T v0 v" "int (length (take (nat len) str)) = len" "fits (T @ take (nat len) str)"
  shows "\<exists>v'. sn_block (if nmax v \<le> 1 then 0 else if nmax v - 1 < len then nmax v - 1 else len)
    (\<lambda>n. take n str) v = Some v' \<and> R (T @ take (nat len) str) v0 v'"
  by (rule block [OF assms(1,3)]) (use assms(2) in \<open>auto simp: min_def\<close>)

lemma pvsnfmt_str_room:
  assumes "nmax v0 = 0" "pvsnfmt_str fl w p v0 = Some (k, v0')" "R T v0 v"
  shows "\<exists>s as. args v0 = VStr s # as \<and> k = int (length (str_text fl w p s)) \<and> v0' = v0\<lparr>args := as\<rparr> \<and>
    (fits (T @ str_text fl w p s) \<longrightarrow>
      (\<exists>v'. pvsnfmt_str fl w p v = Some (k, v') \<and> R (T @ str_text fl w p s) v0' v'))"
proof -
  obtain s as where args: "args v0 = VStr s # as"
    using assms(2) by (auto simp: pvsnfmt_str_def bind_Some_iff split: list.splits va_value.splits)
  define left where "left = (has_flag fl FLAG_LEFT_ALIGN \<or> w < 0)"
  define str where "str = (case s of None \<Rightarrow> ''(null)'' | Some s \<Rightarrow> s)"
  define len where "len = (if p < 0 then co_strlen str else pstrnlen str p)"
  define pad where "pad = (if \<bar>w\<bar> > len then \<bar>w\<bar> - len else 0)"
  note defs = left_def str_def len_def pad_def
  note stx = str_text_form [OF defs]
  let ?v = "v\<lparr>args := as\<rparr>" and ?vc = "v0\<lparr>args := as\<rparr>"
  have args': "args v = VStr s # as" using args same [OF assms(3)] by simp
  have R: "R T ?vc ?v" by (rule upd(1) [OF assms(3)])
  from assms(1,2) have ok: "(if w < 0 then c_int (- w) else Some w) \<noteq> None"
    "c_int (len + pad) = Some k" "v0' = ?vc"
    unfolding pvsnfmt_str_form [OF args defs] emit_str_def by (auto simp: bind_Some_iff split: if_splits)
  then obtain w' where w': "(if w < 0 then c_int (- w) else Some w) = Some w'" by auto
  have k: "k = len + pad" using ok(2) by (auto simp: c_int_def split: if_splits)
  have "\<exists>v'. pvsnfmt_str fl w p v = Some (k, v') \<and> R (T @ str_text fl w p s) v0' v'"
    if fits: "fits (T @ str_text fl w p s)"
  proof (cases "nmax v \<le> 1")
    case True
    with skip [OF R fits] show ?thesis
      unfolding pvsnfmt_str_form [OF args' defs] emit_str_def Let_def by (simp add: w' ok)
  next
    case False
    let ?ch = "if has_flag fl FLAG_ZERO_PAD then CHR ''0'' else CHR '' ''"
    show ?thesis
    proof (cases left)
      case True
      let ?t1 = "take (nat len) str" and ?t2 = "replicate (nat pad) (CHR '' '')"
      have fits2: "fits ((T @ ?t1) @ ?t2)" and fits1: "fits (T @ ?t1)"
        using fits True fits_prefix [of "T @ ?t1" ?t2] by (simp_all add: stx(1))
      obtain v1 where 1: "sn_block (if nmax ?v \<le> 1 then 0 else if nmax ?v - 1 < len then nmax ?v - 1 else len)
          (\<lambda>n. take n str) ?v = Some v1" "R (T @ ?t1) ?vc v1"
        using take_block [OF R stx(2) fits1] by blast
      obtain v2 where "sn_block (if nmax v1 \<le> 1 then 0 else if nmax v1 - 1 < pad then nmax v1 - 1 else pad)
          (\<lambda>n. replicate n (CHR '' '')) v1 = Some v2" "R ((T @ ?t1) @ ?t2) ?vc v2"
        using replicate_block [OF 1(2) stx(3) fits2] by blast
      with 1 True False show ?thesis
        unfolding pvsnfmt_str_form [OF args' defs] emit_str_def Let_def by (simp add: w' ok stx(1))
    next
      case False
      let ?t2 = "take (nat len) str" and ?t1 = "replicate (nat pad) ?ch"
      have fits2: "fits ((T @ ?t1) @ ?t2)" and fits1: "fits (T @ ?t1)"
        using fits False fits_prefix [of "T @ ?t1" ?t2] by (simp_all add: stx(1))
      obtain v1 where 1: "sn_block (if nmax ?v - 1 < pad then nmax ?v - 1 else pad)
          (\<lambda>n. replicate n ?ch) ?v = Some v1" "R (T @ ?t1) ?vc v1"
        using replicate_block [OF R stx(3) fits1] \<open>\<not> nmax v \<le> 1\<close> by auto
      obtain v2 where "sn_block (if nmax v1 \<le> 1 then 0 else if nmax v1 - 1 < len then nmax v1 - 1 else len)
          (\<lambda>n. take n str) v1 = Some v2" "R ((T @ ?t1) @ ?t2) ?vc v2"
        using take_block [OF 1(2) stx(2) fits2] by blast
      with 1 False \<open>\<not> nmax v \<le> 1\<close> show ?thesis
        unfolding pvsnfmt_str_form [OF args' defs] emit_str_def Let_def by (simp add: w' ok stx(1))
    qed
  qed
  with args ok k stx(4) show ?thesis by auto
qed

lemma sn_put_room:
  assumes "R T v0 v" "fits (T @ [ch])"
  shows "\<exists>v'. sn_put ch v = Some v' \<and> R (T @ [ch]) v0 v'"
proof (cases "nmax v \<le> 1")
  case True
  with skip [OF assms] show ?thesis by (simp add: sn_put_def)
next
  case False
  with block [OF assms, of 1 "\<lambda>_. [ch]"] show ?thesis
    by (auto simp: sn_put_def sn_block_def)
qed

end

lemma pvsnfmt_int_count:
  assumes "nmax v0 = 0" "pvsnfmt_int c fl w p pre v0 = Some (k, v0')"
  shows "\<exists>i as l. args v0 = VInt i # as \<and> lay_out_int c fl w p pre i = Some l \<and> v0' = v0\<lparr>args := as\<rparr> \<and>
    k = int (length (int_text l))"
proof -
  obtain i as where args: "args v0 = VInt i # as"
    using assms(2) by (auto simp: pvsnfmt_int_def bind_Some_iff split: list.splits va_value.splits)
  with assms(2) obtain l where l: "lay_out_int c fl w p pre i = Some l"
    by (auto simp: pvsnfmt_int_def bind_Some_iff)
  with assms args length_int_text [OF l] show ?thesis
    by (auto simp: pvsnfmt_int_def emit_int_def Let_def)
qed

text \<open>A run in a buffer follows the counting run, as long as the text fits.\<close>

locale sn_sim = sn_room +
  fixes allowed :: "char \<Rightarrow> bool"
  assumes conv_int: "allowed c \<Longrightarrow> is_int_type c \<Longrightarrow> lay_out_int c fl w p pre i = Some l \<Longrightarrow> R T v0 v \<Longrightarrow>
      args v0 = VInt i # as \<Longrightarrow> fits (T @ int_text l) \<Longrightarrow>
      \<exists>v'. pvsnfmt_int c fl w p pre v = Some (il_totallen l, v') \<and> R (T @ int_text l) (v0\<lparr>args := as\<rparr>) v'"
    and no_char: "\<not> allowed (CHR ''c'')"
begin

lemma convert_room:
  assumes "allowed c" "is_type c" "c \<noteq> CHR ''n''" "nmax v0 = 0" "convert c f v0 = Some (k, v0')" "R T v0 v"
  shows "k = int (length (convert_text c f v0)) \<and> nmax v0' = 0 \<and> (fits (T @ convert_text c f v0) \<longrightarrow>
    (\<exists>v'. convert c f v = Some (k, v') \<and> R (T @ convert_text c f v0) v0' v'))"
proof (cases "is_int_type c")
  case True
  with assms(5) have "pvsnfmt_int c (flags f) (width f) (precision f) (prefix f) v0 = Some (k, v0')"
    by (simp add: convert_def)
  from pvsnfmt_int_count [OF assms(4) this] obtain i as l where
    *: "args v0 = VInt i # as" "lay_out_int c (flags f) (width f) (precision f) (prefix f) i = Some l"
    "v0' = v0\<lparr>args := as\<rparr>" "k = int (length (int_text l))"
    by blast
  with conv_int [OF assms(1) True *(2) assms(6) *(1)] True assms(4) length_int_text [OF *(2)]
  show ?thesis by (simp add: convert_def convert_text_def)
next
  case False
  with assms no_char have "c = CHR ''s''" by (auto simp: is_type_def)
  with assms(5) have "pvsnfmt_str (flags f) (width f) (precision f) v0 = Some (k, v0')"
    by (simp add: convert_def is_int_type_def)
  from pvsnfmt_str_room [OF assms(4) this assms(6)] \<open>c = CHR ''s''\<close> assms(4) show ?thesis
    by (auto simp: convert_def convert_text_def is_int_type_def)
qed

lemma next_int_room:
  assumes "R T v0 v" "next_int v0 = Some (i, v0')"
  shows "\<exists>v'. next_int v = Some (i, v') \<and> R T v0' v' \<and> nmax v0' = nmax v0"
  using assms same [OF assms(1)] upd(1) [OF assms(1)] by (auto split: list.splits va_value.splits)

lemma GET_VARS_room:
  assumes "R T v0 v" "GET_VARS f v0 = Some (f', v0')"
  shows "\<exists>v'. GET_VARS f v = Some (f', v') \<and> R T v0' v' \<and> nmax v0' = nmax v0 \<and> ncount f' = ncount f"
proof -
  obtain f1 v1 where 1: "(if width f = VARIABLE_WIDTH
      then do { (i, v) \<leftarrow> next_int v0; Some (f\<lparr>width := sint i\<rparr>, v) } else Some (f, v0)) = Some (f1, v1)"
    and 2: "(if precision f1 = VARIABLE_PRECISION
      then do { (i, v) \<leftarrow> next_int v1; Some (f1\<lparr>precision := sint i\<rparr>, v) } else Some (f1, v1)) = Some (f', v0')"
    using assms(2) unfolding GET_VARS_def by (auto simp: bind_Some_iff simp del: next_int.simps)
  have "\<exists>w1. (if width f = VARIABLE_WIDTH
      then do { (i, v) \<leftarrow> next_int v; Some (f\<lparr>width := sint i\<rparr>, v) } else Some (f, v)) = Some (f1, w1) \<and>
      R T v1 w1 \<and> nmax v1 = nmax v0 \<and> ncount f1 = ncount f"
    using 1 next_int_room [OF assms(1)] assms(1)
    by (force simp: bind_Some_iff simp del: next_int.simps split: if_splits)
  then obtain w1 where w1: "(if width f = VARIABLE_WIDTH
      then do { (i, v) \<leftarrow> next_int v; Some (f\<lparr>width := sint i\<rparr>, v) } else Some (f, v)) = Some (f1, w1)"
    "R T v1 w1" "nmax v1 = nmax v0" "ncount f1 = ncount f" by blast
  have "\<exists>w2. (if precision f1 = VARIABLE_PRECISION
      then do { (i, v) \<leftarrow> next_int w1; Some (f1\<lparr>precision := sint i\<rparr>, v) } else Some (f1, w1)) = Some (f', w2) \<and>
      R T v0' w2 \<and> nmax v0' = nmax v1 \<and> ncount f' = ncount f1"
    using 2 next_int_room [OF w1(2)] w1(2)
    by (force simp: bind_Some_iff simp del: next_int.simps split: if_splits)
  with w1 show ?thesis
    unfolding GET_VARS_def by (auto simp del: next_int.simps)
qed

lemma sn_step_room:
  assumes "nmax v0 = 0" "sn_step c (f, v0) = Some (f', v0')" "R T v0 v"
    and "\<And>g. sn_action c f = Convert g \<Longrightarrow> allowed c \<or> c = CHR ''n''"
    and nc: "\<And>f' . sn_action c f = Change (Some f') \<Longrightarrow> ncount f' = ncount f"
      "\<And>f' . sn_action c f = Convert f' \<Longrightarrow> ncount f' = ncount f \<and> is_type c"
  shows "nmax v0' = 0 \<and> ncount f' = ncount f + int (length (step_text c (f, v0))) \<and>
    (fits (T @ step_text c (f, v0)) \<longrightarrow>
      (\<exists>v'. sn_step c (f, v) = Some (f', v') \<and> R (T @ step_text c (f, v0)) v0' v'))"
proof (cases "sn_action c f")
  case (Change fo)
  with assms(2) obtain f1 where f1: "fo = Some f1" by (auto simp: sn_step_def bind_Some_iff)
  with Change assms show ?thesis by (simp add: sn_step_def step_text_def)
next
  case Put
  with assms(2) have v0': "v0' = v0" and n: "c_int (ncount f + 1) = Some (ncount f')" "f' = f\<lparr>ncount := ncount f', state := STATE_NONE\<rparr>"
    using assms(1) by (auto simp: sn_step_def PUTCHAR_def sn_put_def bind_Some_iff)
  from n(1) have "ncount f' = ncount f + 1" by (auto simp: c_int_def split: if_splits)
  moreover have "\<exists>v'. sn_step c (f, v) = Some (f', v') \<and> R (T @ [c]) v0' v'" if "fits (T @ [c])"
  proof -
    from sn_put_room [OF assms(3) that] obtain v' where "sn_put c v = Some v'" "R (T @ [c]) v0 v'" by blast
    moreover have "PUTCHAR c f v = Some (f\<lparr>ncount := ncount f'\<rparr>, v')"
      using n(1) \<open>sn_put c v = Some v'\<close> by (simp add: PUTCHAR_def)
    ultimately show ?thesis
      using Put n(2) v0' by (simp add: sn_step_def)
  qed
  ultimately show ?thesis using Put v0' assms(1) by (simp add: step_text_def)
next
  case (Convert f1)
  note f1 = nc(2) [OF Convert]
  show ?thesis
  proof (cases "c = CHR ''n''")
    case True
    with Convert assms(2) obtain p as where p: "args v0 = VIntPtr p # as"
      "f' = f1\<lparr>state := STATE_NONE\<rparr>" "v0' = v0\<lparr>args := as, stores := stores v0 @ [(p, ncount f1)]\<rparr>"
      by (auto simp: sn_step_def CHECK_TYPE_def bind_Some_iff split: list.splits va_value.splits)
    have "R T v0' (v\<lparr>args := as, stores := stores v0 @ [(p, ncount f1)]\<rparr>)"
      unfolding p(3) by (rule upd(2) [OF upd(1) [OF assms(3)]])
    then show ?thesis
      using True Convert p f1 assms(1) same [OF assms(3)]
      by (simp add: sn_step_def CHECK_TYPE_def step_text_def)
  next
    case False
    then obtain f2 v2 k n where *: "GET_VARS f1 v0 = Some (f2, v2)" "convert c f2 v2 = Some (k, v0')"
      "c_int (ncount f2 + k) = Some n" "f' = f2\<lparr>ncount := n, state := STATE_NONE\<rparr>"
      using Convert assms(2) by (auto simp: sn_step_def CHECK_TYPE_def bind_Some_iff)
    obtain w2 where w2: "GET_VARS f1 v = Some (f2, w2)" "R T v2 w2" "nmax v2 = nmax v0" "ncount f2 = ncount f1"
      using GET_VARS_room [OF assms(3) *(1)] by blast
    have "allowed c" using assms(4) [OF Convert] False by simp
    from convert_room [OF this _ False _ *(2) w2(2)] f1 w2 assms(1)
    have conv: "k = int (length (convert_text c f2 v2))" "nmax v0' = 0"
      "fits (T @ convert_text c f2 v2) \<longrightarrow> (\<exists>v'. convert c f2 w2 = Some (k, v') \<and> R (T @ convert_text c f2 v2) v0' v')"
      by auto
    have "step_text c (f, v0) = convert_text c f2 v2"
      using Convert False * by (simp add: step_text_def)
    moreover have "n = ncount f2 + k" using *(3) by (auto simp: c_int_def split: if_splits)
    ultimately show ?thesis
      using conv * w2 f1 False Convert by (auto simp: sn_step_def CHECK_TYPE_def)
  qed
qed

lemma sn_loop_room:
  assumes "nmax v0 = 0" "sn_loop fmt (f, v0) = Some (f', v0')" "R T v0 v"
    and "set (sn_conversions (state f) fmt) \<subseteq> Collect allowed \<union> {CHR ''n''}"
    and "fits (T @ sn_text fmt (f, v0))"
  shows "ncount f' = ncount f + int (length (sn_text fmt (f, v0))) \<and>
      (\<exists>v'. sn_loop fmt (f, v) = Some (f', v') \<and> R (T @ sn_text fmt (f, v0)) v0' v')"
  using assms
proof (induction fmt arbitrary: f v0 T v)
  case (Cons c fmt)
  from Cons.prems(2) obtain f1 v1 where 1: "sn_step c (f, v0) = Some (f1, v1)" "sn_loop fmt (f1, v1) = Some (f', v0')"
    by (auto simp: bind_Some_iff)
  have A: "allowed c \<or> c = CHR ''n''" if "sn_action c f = Convert g" for g
    using sn_step_conversions(2) [OF 1(1) that] Cons.prems(4) by blast
  have step: "nmax v1 = 0 \<and> ncount f1 = ncount f + int (length (step_text c (f, v0))) \<and>
    (fits (T @ step_text c (f, v0)) \<longrightarrow>
      (\<exists>v'. sn_step c (f, v) = Some (f1, v') \<and> R (T @ step_text c (f, v0)) v1 v'))"
    by (rule sn_step_room [OF Cons.prems(1) 1(1) Cons.prems(3)]) (use A sn_action_ncount in blast)+
  have "set (sn_conversions (state f1) fmt) \<subseteq> Collect allowed \<union> {CHR ''n''}"
    using Cons.prems(4) sn_step_conversions(1) [OF 1(1)] by blast
  note IH = Cons.IH [OF _ 1(2) _ this]
  have eq: "sn_text (c # fmt) (f, v0) = step_text c (f, v0) @ sn_text fmt (f1, v1)"
    using 1(1) by simp
  have fits: "fits ((T @ step_text c (f, v0)) @ sn_text fmt (f1, v1))"
    using Cons.prems(5) eq by simp
  from step fits_prefix [OF this] obtain w where
    w: "sn_step c (f, v) = Some (f1, w)" "R (T @ step_text c (f, v0)) v1 w"
    by blast
  from IH [OF _ w(2) fits] step w(1) eq show ?case by auto
qed simp

end

text \<open>The counting run follows itself.\<close>

definition sn_counting :: "string \<Rightarrow> sn_out \<Rightarrow> sn_out \<Rightarrow> bool" where
  "sn_counting T v0 v \<longleftrightarrow> v = v0 \<and> nmax v = 0 \<and> length (out v) \<le> cap v"

interpretation counting: sn_sim sn_counting "\<lambda>_. True" "\<lambda>c. c \<noteq> CHR ''c''"
proof unfold_locales
  fix c fl w p pre i l T v0 v as
  assume "c \<noteq> CHR ''c''" "is_int_type c" "lay_out_int c fl w p pre i = Some l" "sn_counting T v0 v" "args v0 = VInt i # as"
  then show "\<exists>v'. pvsnfmt_int c fl w p pre v = Some (il_totallen l, v') \<and> sn_counting (T @ int_text l) (v0\<lparr>args := as\<rparr>) v'"
    by (auto simp: sn_counting_def pvsnfmt_int_def emit_int_def Let_def)
qed (auto simp: sn_counting_def sn_block_def sn_write_def)

text \<open>A buffer of \<open>n\<close> bytes that the text may exceed: what is written is cut at \<open>n - 1\<close> characters.\<close>

definition sn_trunc :: "nat \<Rightarrow> string \<Rightarrow> sn_out \<Rightarrow> sn_out \<Rightarrow> bool" where
  "sn_trunc n T v0 v \<longleftrightarrow> 0 < n \<and> cap v = n \<and> args v = args v0 \<and> stores v = stores v0 \<and>
     out v = take (n - 1) T \<and> nmax v = int n - int (length (out v))"

interpretation trunc: sn_sim "sn_trunc n" "\<lambda>_. True" "\<lambda>c. c = CHR ''s''" for n
proof unfold_locales
  fix T v0 v w k and s :: "nat \<Rightarrow> string"
  assume R: "sn_trunc n T v0 v"
    and k: "k = (if nmax v \<le> 1 then 0 else if nmax v - 1 < int (length w) then nmax v - 1 else int (length w))"
    and s: "s (nat k) = take (nat k) w"
  have "nat k = min (n - 1 - length T) (length w)" "0 \<le> k"
    using R k by (auto simp: sn_trunc_def min_def)
  with R s show "\<exists>v'. sn_block k s v = Some v' \<and> sn_trunc n (T @ w) v0 v'"
    by (auto simp: sn_trunc_def sn_block_def sn_write_def min_def)
next
  fix T v0 v w
  assume "sn_trunc n T v0 v" "nmax v \<le> 1"
  then show "sn_trunc n (T @ w) v0 v"
    by (auto simp: sn_trunc_def min_def split: if_splits)
qed (auto simp: sn_trunc_def is_int_type_def)

text \<open>A buffer of \<open>n\<close> bytes larger than the text: everything is written.\<close>

definition sn_roomy :: "nat \<Rightarrow> string \<Rightarrow> sn_out \<Rightarrow> sn_out \<Rightarrow> bool" where
  "sn_roomy n T v0 v \<longleftrightarrow> int n < 2 ^ 31 - 1 \<and> cap v = n \<and> args v = args v0 \<and> stores v = stores v0 \<and>
     out v = T \<and> int n - int (length T) \<le> nmax v \<and> nmax v \<le> int n"

lemma roomy_put:
  assumes "sn_roomy n T v0 v" "length (T @ [ch]) < n"
  shows "\<exists>v'. sn_put ch v = Some v' \<and> sn_roomy n (T @ [ch]) v0 v'"
  using assms by (auto simp: sn_roomy_def sn_put_def sn_write_def)

lemma roomy_limit:
  assumes "sn_roomy n T v0 v" "length T + nat k < n" "0 \<le> k"
  shows "int_limit (nmax v) k = Some k"
  using assms by (auto simp: sn_roomy_def int_limit_def c_int_def)

lemma roomy_block:
  assumes "sn_roomy n T v0 v" "length (T @ w) < n" "k = int (length w)" "s (nat k) = w"
  shows "\<exists>v'. sn_block k s v = Some v' \<and> sn_roomy n (T @ w) v0 v'"
  using assms by (auto simp: sn_roomy_def sn_block_def sn_write_def)

lemma roomy_put_sign:
  assumes "sn_roomy n T v0 v" "a \<in> {0, 1, 2}"
    "w = (if a = 2 then [CHR ''0'', fmt] else if a = 1 then [sign] else [])" "length (T @ w) < n"
  shows "\<exists>v'. put_sign a sign fmt v = Some v' \<and> sn_roomy n (T @ w) v0 v'"
proof (cases "a = 2")
  case True
  with assms obtain v1 where "sn_put (CHR ''0'') v = Some v1" "sn_roomy n (T @ [CHR ''0'']) v0 v1"
    using roomy_put [OF assms(1), of "CHR ''0''"] by auto
  with roomy_put [of n "T @ [CHR ''0'']" v0 v1 fmt] True assms show ?thesis
    by (auto simp: put_sign_def)
next
  case False
  with assms roomy_put [OF assms(1), of sign] show ?thesis by (auto simp: put_sign_def)
qed

lemma roomy_pad:
  assumes "sn_roomy n T v0 v" "length T + nat k < n" "0 \<le> k"
  shows "\<exists>v'. (do { k \<leftarrow> int_limit (nmax v) k; sn_block k (\<lambda>n. replicate n ch) v }) = Some v' \<and>
    sn_roomy n (T @ replicate (nat k) ch) v0 v'"
  using roomy_block [OF assms(1), of "replicate (nat k) ch" k "\<lambda>n. replicate n ch"] roomy_limit [OF assms]
    assms(2,3)
  by simp

lemma roomy_if:
  assumes "sn_roomy n T v0 v" "b \<Longrightarrow> \<exists>v'. x = Some v' \<and> sn_roomy n (T @ w) v0 v'"
  shows "\<exists>v'. (if b then x else Some v) = Some v' \<and> sn_roomy n (T @ (if b then w else [])) v0 v'"
  using assms by auto

lemma roomy_emit_int:
  assumes R: "sn_roomy n T v0 v" and fits: "length (T @ int_text l) < n"
    and l: "il_stack l \<noteq> []" "il_addprefix l \<in> {0, 1, 2}" "0 \<le> il_widthpad l"
  shows "\<exists>v'. emit_int l v = Some (il_totallen l, v') \<and> sn_roomy n (T @ int_text l) v0 v'"
proof -
  define zero where "zero = has_flag (il_flags l) FLAG_ZERO_PAD"
  define left where "left = has_flag (il_flags l) FLAG_LEFT_ALIGN"
  define ch where "ch = (if zero then CHR ''0'' else CHR '' '')"
  define sign where "sign = (if il_addprefix l = 2 then [CHR ''0'', il_fmt l]
                  else if il_addprefix l = 1 then [il_sign l] else [])"
  define pad where "pad = (\<lambda>c :: char. replicate (nat (il_widthpad l)) c)"
  define ds where "ds = map (digit_char (char10_of (il_fmt l))) (il_stack l)"
  have txt0: "int_text l = (if zero then sign else []) @ (if \<not> left then pad ch else []) @
      (if \<not> zero then sign else []) @ ds @ (if left then pad (CHR '' '') else [])"
    by (simp add: int_text_def Let_def zero_def left_def ch_def sign_def pad_def ds_def)
  have len: "length T + (if zero then length sign else 0) + (if \<not> left then nat (il_widthpad l) else 0) +
      (if \<not> zero then length sign else 0) + length (il_stack l) + (if left then nat (il_widthpad l) else 0) < n"
    using fits by (simp add: txt0 pad_def ds_def split: if_splits)
  have room: "\<not> nmax v \<le> 1"
    using R len l(1) by (cases "il_stack l") (auto simp: sn_roomy_def split: if_splits)
  have "\<exists>v1. (if zero then put_sign (il_addprefix l) (il_sign l) (il_fmt l) v else Some v) = Some v1 \<and>
      sn_roomy n (T @ (if zero then sign else [])) v0 v1"
    by (rule roomy_if [OF R], rule roomy_put_sign [OF R l(2) sign_def]) (use len in auto)
  then obtain v1 where 1: "(if zero then put_sign (il_addprefix l) (il_sign l) (il_fmt l) v else Some v) = Some v1"
    "sn_roomy n (T @ (if zero then sign else [])) v0 v1" by blast
  have "\<exists>v2. (if \<not> left then do { k \<leftarrow> int_limit (nmax v1) (il_widthpad l); sn_block k (\<lambda>n. replicate n ch) v1 }
        else Some v1) = Some v2 \<and>
      sn_roomy n ((T @ (if zero then sign else [])) @ (if \<not> left then pad ch else [])) v0 v2"
    unfolding pad_def by (rule roomy_if [OF 1(2)], rule roomy_pad [OF 1(2)]) (use len l(3) in auto)
  then obtain v2 where 2: "(if \<not> left then do { k \<leftarrow> int_limit (nmax v1) (il_widthpad l); sn_block k (\<lambda>n. replicate n ch) v1 }
        else Some v1) = Some v2"
    "sn_roomy n ((T @ (if zero then sign else [])) @ (if \<not> left then pad ch else [])) v0 v2" by blast
  have "\<exists>v3. (if \<not> zero then put_sign (il_addprefix l) (il_sign l) (il_fmt l) v2 else Some v2) = Some v3 \<and>
      sn_roomy n (((T @ (if zero then sign else [])) @ (if \<not> left then pad ch else [])) @ (if \<not> zero then sign else [])) v0 v3"
    by (rule roomy_if [OF 2(2)], rule roomy_put_sign [OF 2(2) l(2) sign_def]) (use len in \<open>auto simp: pad_def\<close>)
  then obtain v3 T3 where 3: "(if \<not> zero then put_sign (il_addprefix l) (il_sign l) (il_fmt l) v2 else Some v2) = Some v3"
    "sn_roomy n T3 v0 v3"
    "T3 = T @ (if zero then sign else []) @ (if \<not> left then pad ch else []) @ (if \<not> zero then sign else [])"
    by auto
  have T3: "length T3 + length (il_stack l) + (if left then nat (il_widthpad l) else 0) < n"
    using len 3(3) by (auto simp: pad_def)
  then have lim: "int_limit (nmax v3) (int (length (il_stack l))) = Some (int (length (il_stack l)))"
    using roomy_limit [OF 3(2), of "int (length (il_stack l))"] by simp
  have "sn_write ds v3 = Some (v3\<lparr>out := out v3 @ ds\<rparr>) \<and> sn_roomy n (T3 @ ds) v0 (v3\<lparr>out := out v3 @ ds\<rparr>)"
    using 3(2) T3 by (auto simp: sn_write_def sn_roomy_def ds_def)
  then obtain v4 where 4: "sn_write ds v3 = Some v4" and R4: "sn_roomy n (T3 @ ds) v0 v4"
    by blast
  have "\<exists>v5. (if left then do { k \<leftarrow> int_limit (nmax v4) (il_widthpad l);
          sn_block k (\<lambda>n. replicate n (CHR '' '')) v4 } else Some v4) = Some v5 \<and>
      sn_roomy n ((T3 @ ds) @ (if left then pad (CHR '' '') else [])) v0 v5"
    unfolding pad_def by (rule roomy_if [OF R4], rule roomy_pad [OF R4]) (use T3 l(3) in \<open>auto simp: ds_def\<close>)
  then obtain v5 where 5: "(if left then do { k \<leftarrow> int_limit (nmax v4) (il_widthpad l);
          sn_block k (\<lambda>n. replicate n (CHR '' '')) v4 } else Some v4) = Some v5"
      "sn_roomy n ((T3 @ ds) @ (if left then pad (CHR '' '') else [])) v0 v5" by blast
  have "emit_int l v = Some (il_totallen l, v5)"
    unfolding emit_int_def Let_def zero_def [symmetric] left_def [symmetric] ch_def [symmetric]
    using room 1(1) 2(1) 3(1) lim 4 [unfolded ds_def] 5(1) by simp
  moreover have "T @ int_text l = (T3 @ ds) @ (if left then pad (CHR '' '') else [])"
    by (simp add: txt0 3(3))
  ultimately show ?thesis using 5(2) by auto
qed

interpretation roomy: sn_sim "sn_roomy n" "\<lambda>T. length T < n" "\<lambda>c. c \<noteq> CHR ''c''" for n
proof unfold_locales
  fix c fl w p pre i l T v0 v as
  assume *: "lay_out_int c fl w p pre i = Some l" "sn_roomy n T v0 v" "args v0 = VInt i # as"
    "length (T @ int_text l) < n"
  then have "sn_roomy n T (v0\<lparr>args := as\<rparr>) (v\<lparr>args := as\<rparr>)" "args v = VInt i # as"
    by (simp_all add: sn_roomy_def)
  from roomy_emit_int [OF this(1) *(4) lay_out_int_Some(1-3) [OF *(1)]] this(2) *(1)
  show "\<exists>v'. pvsnfmt_int c fl w p pre v = Some (il_totallen l, v') \<and> sn_roomy n (T @ int_text l) (v0\<lparr>args := as\<rparr>) v'"
    by (simp add: pvsnfmt_int_def)
next
  fix T v0 v w k and s :: "nat \<Rightarrow> string"
  assume R: "sn_roomy n T v0 v" "length (T @ w) < n"
    and k: "k = (if nmax v \<le> 1 then 0 else if nmax v - 1 < int (length w) then nmax v - 1 else int (length w))"
    and s: "s (nat k) = take (nat k) w"
  have "int n - int (length T) \<le> nmax v" "int (length T) + int (length w) < int n"
    using R by (simp_all add: sn_roomy_def)
  then have "k = int (length w)"
    unfolding k by (cases "nmax v \<le> 1"; cases w) (auto split: if_splits)
  with roomy_block [OF R] s show "\<exists>v'. sn_block k s v = Some v' \<and> sn_roomy n (T @ w) v0 v'"
    by simp
next
  fix T v0 v w
  assume *: "sn_roomy n T v0 v" "length (T @ w) < n" "nmax v \<le> 1"
  then have "int n - int (length T) \<le> nmax v" "int (length T) + int (length w) < int n"
    by (simp_all add: sn_roomy_def)
  with *(3) have "int (length w) < 1" by linarith
  then have "w = []" by simp
  with * show "sn_roomy n (T @ w) v0 v" by simp
qed (auto simp: sn_roomy_def)

text \<open>The two guarantees.\<close>

lemma co_snprintf_0:
  assumes "co_snprintf 0 0 fmt ap = Some (L, w)"
  obtains f' v' where "sn_loop fmt (sn_start 0 0 ap) = Some (f', v')" "ncount f' = L"
  using assms by (auto simp: co_snprintf_def co_vsnprintf_def bind_Some_iff split: if_splits)

lemma sn_counting_start: "sn_counting [] (snd (sn_start 0 0 ap)) (snd (sn_start 0 0 ap))"
  by (simp add: sn_counting_def sn_start_def)

lemma sn_text_length:
  assumes "sn_loop fmt (sn_start 0 0 ap) = Some (f', v')"
    and "CHR ''c'' \<notin> set (sn_conversions STATE_NONE fmt)"
  shows "ncount f' = int (length (sn_text fmt (sn_start 0 0 ap)))"
  using counting.sn_loop_room [OF _ _ sn_counting_start, of ap fmt "fst (sn_start 0 0 ap)" f' v'] assms
  by (auto simp: sn_start_def)

lemma sn_roomy_run:
  assumes "sn_loop fmt (sn_start 0 0 ap) = Some (f', v')" "CHR ''c'' \<notin> set (sn_conversions STATE_NONE fmt)"
    and "ncount f' < int n" "int n < 2 ^ 31 - 1"
  shows "co_snprintf n (int n) fmt ap = Some (ncount f', sn_text fmt (sn_start 0 0 ap) @ [CHR 0x00])"
proof -
  note L = sn_text_length [OF assms(1,2)]
  have "sn_roomy n [] (snd (sn_start 0 0 ap)) (snd (sn_start n (int n) ap))"
    using assms by (simp add: sn_roomy_def sn_start_def)
  from roomy.sn_loop_room [OF _ _ this, of fmt "fst (sn_start 0 0 ap)" f' v'] assms L
  obtain v where v: "sn_loop fmt (sn_start n (int n) ap) = Some (f', v)"
    "sn_roomy n (sn_text fmt (sn_start 0 0 ap)) v' v"
    by (auto simp: sn_start_def)
  then show ?thesis
    using assms(3) L by (simp add: co_snprintf_def co_vsnprintf_def sn_roomy_def sn_write_def)
qed

lemma sn_trunc_run:
  assumes "sn_loop fmt (sn_start 0 0 ap) = Some (f', v')" "set (sn_conversions STATE_NONE fmt) \<subseteq> {CHR ''s'', CHR ''n''}" "0 < n"
  shows "co_snprintf n (int n) fmt ap = Some (ncount f', take (n - 1) (sn_text fmt (sn_start 0 0 ap)) @ [CHR 0x00])"
proof -
  let ?t = "sn_text fmt (sn_start 0 0 ap)"
  have "sn_trunc n [] (snd (sn_start 0 0 ap)) (snd (sn_start n (int n) ap))"
    using assms(3) by (simp add: sn_trunc_def sn_start_def)
  from trunc.sn_loop_room [OF _ _ this, of fmt "fst (sn_start 0 0 ap)" f' v'] assms(1,2)
  obtain v where v: "sn_loop fmt (sn_start n (int n) ap) = Some (f', v)" "sn_trunc n ?t v' v"
    by (auto simp: sn_start_def)
  have "CHR ''c'' \<notin> set (sn_conversions STATE_NONE fmt)" using assms(2) by auto
  note L = sn_text_length [OF assms(1) this]
  show ?thesis
    using v L assms(3) by (auto simp: co_snprintf_def co_vsnprintf_def sn_trunc_def sn_write_def min_def)
qed

text \<open>Formats of strings only.\<close>

lemmas sn_string_eval = sn_start_def sn_step_def CHECK_TYPE_def PUTCHAR_def sn_put_def convert_def co_strlen_eq pvsnfmt_str_def c_int_def emit_str_def
  has_flag_def sn_action_defs is_type_def digit_value_def flag_of_def GET_VARS_def is_int_type_def step_text_def convert_text_def
  str_text_def

lemma co_snprintf_strings:
  assumes "c_string s" "c_string t" "length s + length t < 2 ^ 31 - 2" "0 < n"
  shows "co_snprintf n (int n) ''%s'' [VStr (Some s)] = Some (int (length s), take (n - 1) s @ [CHR 0x00])"
    "co_snprintf n (int n) '' %s'' [VStr (Some s)] = Some (int (length s) + 1, take (n - 1) (CHR '' '' # s) @ [CHR 0x00])"
    "co_snprintf n (int n) ''%s%s'' [VStr (Some s), VStr (Some t)] =
       Some (int (length s + length t), take (n - 1) (s @ t) @ [CHR 0x00])"
proof -
  have conv: "set (sn_conversions STATE_NONE fmt) \<subseteq> {CHR ''s'', CHR ''n''}" if "fmt \<in> {''%s'', '' %s'', ''%s%s''}" for fmt
    using that by (elim insertE emptyE) (hypsubst, code_simp)+
  have 1: "\<exists>f' v'. sn_loop ''%s'' (sn_start 0 0 [VStr (Some s)]) = Some (f', v') \<and> ncount f' = int (length s)"
    "sn_text ''%s'' (sn_start 0 0 [VStr (Some s)]) = s"
    "\<exists>f' v'. sn_loop '' %s'' (sn_start 0 0 [VStr (Some s)]) = Some (f', v') \<and> ncount f' = int (length s) + 1"
    "sn_text '' %s'' (sn_start 0 0 [VStr (Some s)]) = CHR '' '' # s"
    "\<exists>f' v'. sn_loop ''%s%s'' (sn_start 0 0 [VStr (Some s), VStr (Some t)]) = Some (f', v') \<and> ncount f' = int (length s + length t)"
    "sn_text ''%s%s'' (sn_start 0 0 [VStr (Some s), VStr (Some t)]) = s @ t"
    using assms(1-3) by (simp_all add: sn_string_eval Let_def)
  show "co_snprintf n (int n) ''%s'' [VStr (Some s)] = Some (int (length s), take (n - 1) s @ [CHR 0x00])"
    "co_snprintf n (int n) '' %s'' [VStr (Some s)] = Some (int (length s) + 1, take (n - 1) (CHR '' '' # s) @ [CHR 0x00])"
    "co_snprintf n (int n) ''%s%s'' [VStr (Some s), VStr (Some t)] =
       Some (int (length s + length t), take (n - 1) (s @ t) @ [CHR 0x00])"
    using 1 sn_trunc_run [OF _ conv assms(4)] by auto
qed

text \<open>C15: a call whose format has no integer and no \<open>%c\<close> conversion never overruns its buffer and always
  terminates the string: there is one text, as long as the count that a call without a buffer returns,
  and for every buffer size \<open>n > 0\<close> the call writes the first \<open>n - 1\<close> characters of it and a
  NUL, and returns its full length.\<close>

theorem co_snprintf_truncates:
  assumes "co_snprintf 0 0 fmt ap = Some (L, w)"
    and "set (sn_conversions STATE_NONE fmt) \<subseteq> {CHR ''s'', CHR ''n''}"
  shows "\<exists>t. L = int (length t) \<and>
    (\<forall>n > 0. co_snprintf n (int n) fmt ap = Some (L, take (n - 1) t @ [CHR 0x00]))"
proof -
  obtain f' v' where run: "sn_loop fmt (sn_start 0 0 ap) = Some (f', v')" "ncount f' = L"
    using co_snprintf_0 [OF assms(1)] .
  have "CHR ''c'' \<notin> set (sn_conversions STATE_NONE fmt)" using assms(2) by auto
  from sn_text_length [OF run(1) this] sn_trunc_run [OF run(1) assms(2)] run(2) show ?thesis by blast
qed

theorem co_snprintf_truncates_witness:
  "\<exists>t. 10 = int (length t) \<and>
    co_snprintf 8 (int 8) ''mem=%-6s'' [VStr (Some ''64M'')] = Some (10, take 7 t @ [CHR 0x00]) \<and>
    co_snprintf 11 (int 11) ''mem=%-6s'' [VStr (Some ''64M'')] = Some (10, take 10 t @ [CHR 0x00])"
proof -
  have "\<exists>t. 10 = int (length t) \<and> (\<forall>n > 0. co_snprintf n (int n) ''mem=%-6s'' [VStr (Some ''64M'')] =
      Some (10, take (n - 1) t @ [CHR 0x00]))"
    by (rule co_snprintf_truncates [of _ _ _ "[]"]) (code_simp, code_simp)
  then obtain t where t: "10 = int (length t)"
    "\<forall>n > 0. co_snprintf n (int n) ''mem=%-6s'' [VStr (Some ''64M'')] = Some (10, take (n - 1) t @ [CHR 0x00])"
    by blast
  show ?thesis using t(1) t(2) [rule_format, of 8] t(2) [rule_format, of 11] by (intro exI [of _ t]) simp
qed

text \<open>C28: with integer conversions a call is safe exactly as far as its text fits: if the count \<open>L\<close> a call
  without a buffer returns is below the size of the buffer, the call writes all of a text of length
  \<open>L\<close> and the NUL, inside the buffer, and returns \<open>L\<close>. (Only \<open>%c\<close> is left out: its argument is not
  consumed when there is no room.)\<close>

theorem co_snprintf_sized:
  assumes "co_snprintf 0 0 fmt ap = Some (L, w)" "CHR ''c'' \<notin> set (sn_conversions STATE_NONE fmt)"
  shows "\<exists>t. L = int (length t) \<and>
    (\<forall>n. L < int n \<and> int n < 2 ^ 31 - 1 \<longrightarrow>
       co_snprintf n (int n) fmt ap = Some (L, t @ [CHR 0x00]))"
proof -
  obtain f' v' where run: "sn_loop fmt (sn_start 0 0 ap) = Some (f', v')" "ncount f' = L"
    using co_snprintf_0 [OF assms(1)] .
  let ?t = "sn_text fmt (sn_start 0 0 ap)"
  note L = sn_text_length [OF run(1) assms(2), unfolded run(2)]
  with sn_roomy_run [OF run(1) assms(2), unfolded run(2)] show ?thesis by blast
qed

theorem co_snprintf_sized_witness:
  "\<exists>t. 7 = int (length t) \<and> co_snprintf 8 (int 8) ''cobd%03d'' [VInt 7] = Some (7, t @ [CHR 0x00])"
proof -
  have "\<exists>t. 7 = int (length t) \<and> (\<forall>n. 7 < int n \<and> int n < 2 ^ 31 - 1 \<longrightarrow>
       co_snprintf n (int n) ''cobd%03d'' [VInt 7] = Some (7, t @ [CHR 0x00]))"
    by (rule co_snprintf_sized [of _ _ _ "[]"]) (code_simp, code_simp)
  then obtain t where t: "7 = int (length t)" "\<forall>n. 7 < int n \<and> int n < 2 ^ 31 - 1 \<longrightarrow>
       co_snprintf n (int n) ''cobd%03d'' [VInt 7] = Some (7, t @ [CHR 0x00])" by blast
  show ?thesis using t(1) t(2) [rule_format, of 8] by (intro exI [of _ t]) simp
qed

text \<open>Reading a printed number back.\<close>

definition char_digit :: "char \<Rightarrow> nat" where
  "char_digit c =
     (let n = of_char c in if n \<le> 57 then n - 48 else if n \<le> 70 then n - 55 else n - 87)"

definition read_digits :: "nat \<Rightarrow> string \<Rightarrow> nat" where
  "read_digits base s = foldl (\<lambda>n c. n * base + char_digit c) 0 s"

definition read_number :: "nat \<Rightarrow> string \<Rightarrow> int" where
  "read_number base s =
     (case s of c # ds \<Rightarrow> if c = CHR ''-'' then - int (read_digits base ds) else int (read_digits base s)
      | [] \<Rightarrow> 0)"

lemma foldl_digits:
  "foldl (\<lambda>n d. n * base + d) a ds = a * base ^ length ds + foldl (\<lambda>n d. n * base + d) (0 :: nat) ds"
proof (induction ds arbitrary: a)
  case (Cons d ds)
  show ?case
    using Cons [of "a * base + d"] Cons [of d] by (simp add: algebra_simps)
qed simp

lemma push_digits_value:
  assumes "2 \<le> base" "n < base ^ Suc k" "length st + k < 22"
  shows "\<exists>ds. push_digits base n st = Some (ds @ st) \<and> foldl (\<lambda>n d. n * base + d) 0 ds = n \<and>
    (\<forall>d \<in> set ds. d < base) \<and> ds \<noteq> [] \<and> length ds \<le> Suc k"
  using assms(2,3)
proof (induction k arbitrary: n st)
  case 0
  then show ?case
    using assms(1) by (intro exI [of _ "[n]"]) (auto simp: push_digits.simps num_push_def Let_def)
next
  case (Suc k)
  let ?st = "n mod base # st"
  show ?case
  proof (cases "n div base = 0")
    case True
    then have "n < base" using assms(1) by (simp add: div_eq_0_iff)
    with Suc.prems assms(1) show ?thesis
      by (intro exI [of _ "[n]"]) (auto simp: push_digits.simps num_push_def Let_def)
  next
    case False
    have "n div base < base ^ Suc k"
      using Suc.prems(1) assms(1) by (simp add: less_mult_imp_div_less mult.commute)
    from Suc.IH [OF this, of ?st] Suc.prems(2) obtain ds where
      ds: "push_digits base (n div base) ?st = Some (ds @ ?st)" "foldl (\<lambda>n d. n * base + d) 0 ds = n div base"
      "\<forall>d \<in> set ds. d < base" "ds \<noteq> []" "length ds \<le> Suc k"
      by auto
    have "push_digits base n st = Some ((ds @ [n mod base]) @ st)"
      using ds(1) False Suc.prems(2) assms(1) by (subst push_digits.simps) (simp add: num_push_def Let_def)
    with ds assms(1) show ?thesis
      by (intro exI [of _ "ds @ [n mod base]"]) auto
  qed
qed


lemma char_digit_char:
  assumes "d < 10 \<or> d < 16 \<and> a \<in> {CHR ''a'', CHR ''A''}"
  shows "char_digit (digit_char a d) = d" "digit_char a d \<noteq> CHR ''-''"
proof -
  have "of_char (digit_char a d) = (if d \<le> 9 then d + 48 else d - 10 + of_char a)"
    using assms by (auto simp: digit_char_def)
  moreover have "of_char a \<in> {65 :: nat, 97}" if "\<not> d \<le> 9"
    using assms that by auto
  ultimately have "of_char (digit_char a d) \<noteq> (45 :: nat)" and v: "char_digit (digit_char a d) = d"
    using assms by (auto simp: char_digit_def Let_def split: if_splits)
  then show "digit_char a d \<noteq> CHR ''-''" by auto
  show "char_digit (digit_char a d) = d" by (rule v)
qed

lemma read_digits_map:
  assumes "\<forall>d \<in> set ds. d < 10 \<or> d < 16 \<and> a \<in> {CHR ''a'', CHR ''A''}"
  shows "read_digits base (map (digit_char a) ds) = foldl (\<lambda>n d. n * base + d) 0 ds"
proof -
  have "foldl (\<lambda>n c. n * base + char_digit c) k (map (digit_char a) ds) = foldl (\<lambda>n d. n * base + d) k ds" for k
    using assms by (induction ds arbitrary: k) (auto simp: char_digit_char)
  then show ?thesis by (simp add: read_digits_def)
qed

lemma int_text_plain:
  assumes "c \<in> {CHR ''d'', CHR ''u'', CHR ''o'', CHR ''x'', CHR ''X''}"
    and "c = CHR ''d'' \<longrightarrow> i \<noteq> 0x80000000"
  shows "\<exists>l. lay_out_int c 0 0 (- 1) (CHR 0x00) i = Some l \<and> length (int_text l) \<le> 12 \<and>
    read_number (base_of c) (int_text l) = (if c = CHR ''d'' then sint i else uint i)"
proof -
  define v where "v = (if c = CHR ''d'' then sint i else uint i)"
  define n where "n = nat \<bar>v\<bar>"
  have v: "- (2 ^ 31) < v" "v < 2 ^ 32"
  proof -
    have "sint i \<noteq> - (2 ^ 31)" if "i \<noteq> 0x80000000"
    proof
      assume "sint i = - (2 ^ 31)"
      then have "(word_of_int (sint i) :: u32) = word_of_int (- (2 ^ 31))" by simp
      with that show False by simp
    qed
    moreover have "- (2 ^ 31) < uint i"
      by (rule less_le_trans [of _ 0]) simp_all
    ultimately show "- (2 ^ 31) < v" "v < 2 ^ 32"
      using assms(2) sint_ge [of i] sint_lt [of i] uint_lt2p [of i]
      by (auto simp: v_def)
  qed
  then have n: "n < 2 ^ 32" by (auto simp: n_def)
  have base: "base_of c \<in> {8, 10, 16}" using assms(1) by (auto simp: base_of_def)
  have "n < base_of c ^ Suc 10" using n base by auto
  from push_digits_value [OF _ this, of "[]"] base obtain ds where
    ds: "push_digits (base_of c) n [] = Some ds" "foldl (\<lambda>n d. n * base_of c + d) 0 ds = n"
    "\<forall>d \<in> set ds. d < base_of c" "ds \<noteq> []" "length ds \<le> 11"
    by auto
  define sign where "sign = (if v < 0 then CHR ''-'' else CHR 0x00)"
  have "fetch_number (CHR 0x00) c i = (if c = CHR ''d'' then Inl (sint i) else Inr (unat i))"
    using assms(1) by (elim insertE emptyE) (simp_all add: fetch_number_def)
  then have sm: "sign_and_magnitude 0 (fetch_number (CHR 0x00) c i) = Some (sign, n)"
  proof (cases "c = CHR ''d''")
    case True
    with \<open>fetch_number _ c i = _\<close> v show ?thesis
      by (cases "v < 0") (simp_all add: sign_and_magnitude_def c_int_def has_flag_def v_def n_def sign_def)
  next
    case False
    with \<open>fetch_number _ c i = _\<close> show ?thesis
      by (simp add: sign_and_magnitude_def v_def n_def sign_def)
  qed
  define l where "l = \<lparr>il_fmt = c, il_flags = 0, il_sign = sign, il_addprefix = (if v < 0 then 1 else 0),
     il_stack = ds, il_totallen = int (length ds) + (if v < 0 then 1 else 0), il_widthpad = 0\<rparr>"
  have "c \<noteq> CHR ''p''" using assms(1) by auto
  then have "lay_out_int c 0 0 (- 1) (CHR 0x00) i = Some l"
    using sm ds(1) by (simp add: lay_out_int_def l_def sign_def has_flag_def)
  moreover have txte: "int_text l = (if v < 0 then [CHR ''-''] else []) @ map (digit_char (char10_of c)) ds"
    by (simp add: int_text_def l_def sign_def has_flag_def)
  moreover have "\<forall>d \<in> set ds. d < 10 \<or> d < 16 \<and> char10_of c \<in> {CHR ''a'', CHR ''A''}"
    using ds(3) assms(1) by (auto simp: base_of_def char10_of_def)
  note dig = this
  have "read_number (base_of c) (int_text l) = v"
  proof (cases "v < 0")
    case True
    then show ?thesis
      using ds(2) read_digits_map [OF dig] by (simp add: txte read_number_def n_def)
  next
    case False
    obtain d ds' where d: "ds = d # ds'" using ds(4) by (cases ds) auto
    then have "digit_char (char10_of c) d \<noteq> CHR ''-''" using dig by (intro char_digit_char) auto
    with False d show ?thesis
      using ds(2) read_digits_map [OF dig, of "base_of c"] by (simp add: txte read_number_def n_def)
  qed
  ultimately show ?thesis using ds(5) by (auto simp: v_def)
qed

lemma int_segment:
  assumes "c \<in> {CHR ''d'', CHR ''u'', CHR ''o'', CHR ''x'', CHR ''X''}" "state f = STATE_NONE"
    and "lay_out_int c 0 0 (- 1) (CHR 0x00) i = Some l" "length (int_text l) \<le> 12"
    and "0 \<le> ncount f" "ncount f \<le> 1000" "args v = VInt i # as" "nmax v = 0" "out v = []"
  shows "\<exists>f'. sn_loop [CHR ''%'', c] (f, v) = Some (f', v\<lparr>args := as\<rparr>) \<and> state f' = STATE_NONE \<and>
      ncount f' = ncount f + int (length (int_text l)) \<and> sn_text [CHR ''%'', c] (f, v) = int_text l"
proof -
  let ?f = "\<lparr>state = STATE_OPERATOR, flags = 0, width = 0, precision = - 1, prefix = CHR 0x00, ncount = ncount f\<rparr>"
  have act: "sn_action c ?f = Convert ?f"
    using assms(1)
    by (auto simp: sn_action_def CHECK_FLAG_def CHECK_WIDTH_def CHECK_PRECISION_def CHECK_PREFIX_def
        flag_of_def digit_value_def or_type_def is_type_def is_int_type_def)
  have c: "is_int_type c" "c \<noteq> CHR ''n''" using assms(1) by (auto simp: is_int_type_def)
  have conv: "convert c ?f v = Some (int (length (int_text l)), v\<lparr>args := as\<rparr>)"
    using c assms(3,7-9) length_int_text(1) [OF assms(3)]
    by (simp add: convert_def pvsnfmt_int_def emit_int_def Let_def)
  have "sn_step c (?f, v) = Some (?f\<lparr>ncount := ncount f + int (length (int_text l)), state := STATE_NONE\<rparr>, v\<lparr>args := as\<rparr>)"
    using act c conv assms(4-6) by (simp add: sn_step_def CHECK_TYPE_def GET_VARS_def c_int_def)
  moreover have "step_text c (?f, v) = int_text l"
    using act c assms(3,7) by (simp add: step_text_def GET_VARS_def convert_text_def)
  moreover have "sn_step (CHR ''%'') (f, v) = Some (?f, v)"
    using assms(2) by (simp add: sn_step_def sn_action_def)
  moreover have "step_text (CHR ''%'') (f, v) = []"
    using assms(2) by (simp add: step_text_def sn_action_def)
  ultimately show ?thesis by simp
qed

lemma plain_conversions:
  assumes "c \<in> {CHR ''d'', CHR ''u'', CHR ''o'', CHR ''x'', CHR ''X''}"
  shows "sn_conversions STATE_NONE [CHR ''%'', c] = [c]"
proof -
  have "sn_action (CHR ''%'') (blank STATE_NONE) = Change (Some ((blank STATE_OPERATOR)\<lparr>precision := - 1\<rparr>))"
    by (simp add: sn_action_def blank_def)
  moreover have "sn_action c (blank STATE_OPERATOR) = Convert (blank STATE_OPERATOR)"
    using assms
    by (auto simp: sn_action_def CHECK_FLAG_def CHECK_WIDTH_def CHECK_PRECISION_def CHECK_PREFIX_def
        flag_of_def digit_value_def or_type_def is_type_def is_int_type_def blank_def)
  ultimately show ?thesis by (simp add: blank_def)
qed

text \<open>C29: printing an integer and reading it back: for every 32-bit value other than \<open>LONG_MIN\<close> (whose
  negation overflows) \<open>%d\<close> prints, and \<open>%u\<close>, \<open>%o\<close>, \<open>%x\<close> and \<open>%X\<close> print for every value, a text of at
  most 12 characters that reads back as the signed or unsigned value in the conversion's base; any
  buffer that has room for 12 characters and the NUL receives it.\<close>

theorem co_snprintf_number_roundtrip:
  assumes "c \<in> {CHR ''d'', CHR ''u'', CHR ''o'', CHR ''x'', CHR ''X''}"
    and "c = CHR ''d'' \<longrightarrow> i \<noteq> 0x80000000" "12 < n" "int n < 2 ^ 31 - 1"
  shows "\<exists>t. co_snprintf n (int n) [CHR ''%'', c] [VInt i] = Some (int (length t), t @ [CHR 0x00]) \<and>
    length t \<le> 12 \<and> read_number (base_of c) t = (if c = CHR ''d'' then sint i else uint i)"
proof -
  obtain l where l: "lay_out_int c 0 0 (- 1) (CHR 0x00) i = Some l" "length (int_text l) \<le> 12"
    "read_number (base_of c) (int_text l) = (if c = CHR ''d'' then sint i else uint i)"
    using int_text_plain [OF assms(1,2)] by blast
  let ?f = "fst (sn_start 0 0 [VInt i])" and ?v = "snd (sn_start 0 0 [VInt i])"
  obtain f' where f': "sn_loop [CHR ''%'', c] (?f, ?v) = Some (f', ?v\<lparr>args := []\<rparr>)"
    "ncount f' = ncount ?f + int (length (int_text l))" "sn_text [CHR ''%'', c] (?f, ?v) = int_text l"
    using int_segment [OF assms(1) _ l(1,2), of ?f ?v "[]"] by (auto simp: sn_start_def)
  then have run: "sn_loop [CHR ''%'', c] (sn_start 0 0 [VInt i]) = Some (f', ?v\<lparr>args := []\<rparr>)"
    "ncount f' = int (length (int_text l))" "sn_text [CHR ''%'', c] (sn_start 0 0 [VInt i]) = int_text l"
    by (simp_all add: sn_start_def)
  note run = run plain_conversions [OF assms(1)]
  have "CHR ''c'' \<notin> set (sn_conversions STATE_NONE [CHR ''%'', c])"
    using assms(1) run(4) by auto
  from sn_roomy_run [OF run(1) this, of n] run(2,3) l assms(3,4) show ?thesis
    by auto
qed

theorem co_snprintf_number_roundtrip_witness:
  "\<exists>t. co_snprintf 20 (int 20) [CHR ''%'', CHR ''d''] [VInt (- 42)] = Some (int (length t), t @ [CHR 0x00]) \<and>
    length t \<le> 12 \<and> read_number (base_of CHR ''d'') t =
      (if CHR ''d'' = CHR ''d'' then sint (- 42 :: u32) else uint (- 42 :: u32))"
  by (rule co_snprintf_number_roundtrip) simp_all

text \<open>Where the room runs out, the integer conversions do not keep to it, although the code's comment
  says that a NUL is always added: \<open>%5d\<close> fills a buffer of 4 and leaves no NUL, \<open>%6d\<close> writes beyond
  it, \<open>%d\<close> does not count its digits so that a following \<open>%s\<close> writes beyond the buffer, a precision
  above 22 overflows the digit stack, \<open>%c\<close> leaves its argument to the next conversion when there
  is no room, and \<open>%lp\<close> prints 0 for every pointer.\<close>

lemma co_snprintf_int_defects:
  "co_snprintf 4 4 ''%5d'' [VInt 1] = Some (5, ''    '') \<and>
   co_snprintf 4 4 ''%6d'' [VInt 1] = None \<and>
   co_snprintf 4 4 ''%d%s'' [VInt 1, VStr (Some ''abc'')] = None \<and>
   co_snprintf 100 100 ''%.23d'' [VInt 1] = None \<and>
   co_snprintf 1 1 ''%c%s'' [VInt 65, VStr (Some ''b'')] = None \<and>
   co_snprintf 3 3 ''%c%s'' [VInt 65, VStr (Some ''b'')] = Some (2, ''Ab'' @ [CHR 0x00]) \<and>
   co_snprintf 9 9 ''%lp'' [VInt 0x1000] = Some (1, ''0'' @ [CHR 0x00])"
  by code_simp

end
