(* ===== verification/CoNames.thy ===== *)
theory CoNames
  imports CoSnprintf
begin

text \<open>
  The names that are printed with \<open>co_snprintf\<close>: \<open>co_module_repr\<close> of
  \<open>src/colinux/common/module_repr.c\<close> and \<open>co_rc_format_error\<close> of
  \<open>src/colinux/common/errors.c\<close>. The constants of the module numbers come from the cooperative
  headers (\<open>patched.diff\<close>); the table of file names is generated by the build and is an argument.
\<close>

abbreviation CO_MODULE_MAX_CONET :: u32 where "CO_MODULE_MAX_CONET \<equiv> 16"
abbreviation CO_MODULE_CONET0 :: u32 where "CO_MODULE_CONET0 \<equiv> 8"
abbreviation CO_MODULE_CONET_END :: u32 where "CO_MODULE_CONET_END \<equiv> 23"
abbreviation CO_MODULE_COBD0 :: u32 where "CO_MODULE_COBD0 \<equiv> 24"
abbreviation CO_MODULE_COBD_END :: u32 where "CO_MODULE_COBD_END \<equiv> 55"
abbreviation CO_MODULE_SERIAL0 :: u32 where "CO_MODULE_SERIAL0 \<equiv> 88"
abbreviation CO_MODULE_SERIAL_END :: u32 where "CO_MODULE_SERIAL_END \<equiv> 119"
abbreviation CO_MODULE_COSCSI0 :: u32 where "CO_MODULE_COSCSI0 \<equiv> 120"
abbreviation CO_MODULE_COSCSI_END :: u32 where "CO_MODULE_COSCSI_END \<equiv> 151"

definition module_format :: "u32 \<Rightarrow> string \<times> va_value list" where
  "module_format m =
     (if m = 0 then (''linux'', [])
      else if m = 1 then (''monitor'', [])
      else if m = 2 then (''daemon'', [])
      else if m = 3 then (''idle'', [])
      else if m = 4 then (''kernel'', [])
      else if m = 5 then (''user'', [])
      else if m = 6 then (''console'', [])
      else if m = 7 then (''printk'', [])
      else if CO_MODULE_CONET0 \<le> m \<and> m \<le> CO_MODULE_CONET_END - 1
        then (''net%d'', [VInt (m - CO_MODULE_CONET0)])
      else if CO_MODULE_COSCSI0 \<le> m \<and> m \<le> CO_MODULE_COSCSI_END - 1
        then (''scsi%d'', [VInt (m - CO_MODULE_COSCSI0)])
      else if CO_MODULE_COBD0 \<le> m \<and> m \<le> CO_MODULE_COBD_END - 1
        then (''cobd%d'', [VInt (m - CO_MODULE_COBD0)])
      else if CO_MODULE_SERIAL0 \<le> m \<and> m \<le> CO_MODULE_SERIAL_END - 1
        then (''serial%d'', [VInt (m - CO_MODULE_SERIAL0)])
      else (''unknown<%d>'', [VInt m]))"

text \<open>\<open>co_module_name_t\<close> has 0x20 characters.\<close>

definition co_module_repr :: "u32 \<Rightarrow> string option" where
  "co_module_repr m =
     (let (fmt, ap) = module_format m
      in do { (n, str) \<leftarrow> co_snprintf 0x20 0x20 fmt ap; Some str })"

definition co_errors_strings :: "string list" where
  "co_errors_strings = [''<no error>'', ''CO_RC_ERROR_ERROR'', ''CO_RC_ERROR_PAE_ENABLED'',
     ''CO_RC_ERROR_VERSION_MISMATCHED'', ''CO_RC_ERROR_OUT_OF_MEMORY'', ''CO_RC_ERROR_OUT_OF_PAGES'',
     ''CO_RC_ERROR_NOT_FOUND'', ''CO_RC_ERROR_CANT_OPEN_VMLINUX_FILE'',
     ''CO_RC_ERROR_CANT_STAT_VMLINUX_FILE'', ''CO_RC_ERROR_ERROR_READING_VMLINUX_FILE'',
     ''CO_RC_ERROR_ERROR_INSTALLING_DRIVER'', ''CO_RC_ERROR_ERROR_REMOVING_DRIVER'',
     ''CO_RC_ERROR_ERROR_STARTING_DRIVER'', ''CO_RC_ERROR_ERROR_STOPPING_DRIVER'',
     ''CO_RC_ERROR_ERROR_ACCESSING_DRIVER'', ''CO_RC_ERROR_TRANSFER_OFF_BOUNDS'',
     ''CO_RC_ERROR_MONITOR_NOT_LOADED'', ''CO_RC_ERROR_BROKEN_PIPE'', ''CO_RC_ERROR_TIMEOUT'',
     ''CO_RC_ERROR_ACCESS_DENIED'', ''CO_RC_ERROR_COMPILER_MISMATCHED'',
     ''CO_RC_ERROR_INVALID_PARAMETER'', ''CO_RC_ERROR_HOSTMEM_USE_LIMIT_REACHED'',
     ''CO_RC_ERROR_INSTANCE_TERMINATED'']"

definition error_string :: "int \<Rightarrow> string" where
  "error_string code =
     (if code < int (length co_errors_strings) then co_errors_strings ! nat code else ''<unknown error>'')"

definition file_string :: "string list \<Rightarrow> int \<Rightarrow> string" where
  "file_string filenames file_id =
     (if file_id < int (length filenames) then filenames ! nat file_id else ''<unknown file>'')"

definition co_rc_format_error :: "string list \<Rightarrow> u32 \<Rightarrow> nat \<Rightarrow> int \<Rightarrow> string option" where
  "co_rc_format_error filenames rc bufsize n =
     (if CO_OK rc
      then do {
        (k, str) \<leftarrow> co_snprintf bufsize n ''success - line %ld, file id %ld''
          [VInt (word_of_int (CO_RC_GET_LINE rc)), VInt (word_of_int (CO_RC_GET_FILE_ID rc))];
        Some str }
      else do {
        (k, str) \<leftarrow> co_snprintf bufsize n ''error - %s, line %ld, file %s (%d)''
          [VStr (Some (error_string (- CO_RC_GET_CODE rc))), VInt (word_of_int (CO_RC_GET_LINE rc)),
           VStr (Some (file_string filenames (CO_RC_GET_FILE_ID rc))), VInt (word_of_int (CO_RC_GET_FILE_ID rc))];
        Some str })"

text \<open>The error strings are the names of the codes, in their order.\<close>

lemma error_string_code: "error_string (- co_rc_value name) \<in> set co_errors_strings"
  by (cases name) (simp_all add: error_string_def co_rc_value_def co_errors_strings_def)

text \<open>The text of a format with literal characters around one plain conversion.\<close>

lemma sn_loop_append: "sn_loop (a @ b) s = do { s \<leftarrow> sn_loop a s; sn_loop b s }"
proof (induction a arbitrary: s)
  case (Cons c a)
  then show ?case by (cases "sn_step c s") auto
qed simp

lemma sn_text_append:
  "sn_loop a s = Some s' \<Longrightarrow> sn_text (a @ b) s = sn_text a s @ sn_text b s'"
  by (induction a arbitrary: s) (auto simp: bind_Some_iff)

lemma sn_literal:
  assumes "CHR ''%'' \<notin> set a" "state f = STATE_NONE" "nmax v = 0" "0 \<le> ncount f" "ncount f + int (length a) < 2 ^ 31"
  shows "sn_loop a (f, v) = Some (f\<lparr>ncount := ncount f + int (length a)\<rparr>, v) \<and> sn_text a (f, v) = a"
  using assms
proof (induction a arbitrary: f)
  case (Cons c a)
  have "c \<noteq> CHR ''%''" using Cons.prems(1) by auto
  then have "sn_step c (f, v) = Some (f\<lparr>ncount := ncount f + 1\<rparr>, v)"
    using Cons.prems by (simp add: sn_step_def sn_action_def PUTCHAR_def sn_put_def c_int_def)
  moreover have "step_text c (f, v) = [c]"
    using Cons.prems \<open>c \<noteq> _\<close> by (simp add: step_text_def sn_action_def)
  moreover have "sn_loop a (f\<lparr>ncount := ncount f + 1\<rparr>, v) =
      Some (f\<lparr>ncount := ncount f + 1, ncount := ncount f + 1 + int (length a)\<rparr>, v) \<and>
      sn_text a (f\<lparr>ncount := ncount f + 1\<rparr>, v) = a"
    using Cons.IH [of "f\<lparr>ncount := ncount f + 1\<rparr>"] Cons.prems by simp
  ultimately show ?case by simp
qed simp

lemma snprintf_d_between:
  assumes "CHR ''%'' \<notin> set pre" "CHR ''%'' \<notin> set post" "length pre \<le> 100" "length post \<le> 100"
    and "i \<noteq> 0x80000000" "length pre + length post + 12 < n" "int n < 2 ^ 31 - 1"
    and "CHR ''c'' \<notin> set (sn_conversions STATE_NONE (pre @ ''%d'' @ post))"
  shows "\<exists>d k. co_snprintf n (int n) (pre @ ''%d'' @ post) [VInt i] = Some (k, pre @ d @ post @ [CHR 0x00]) \<and>
    read_number 10 d = sint i \<and> length d \<le> 12"
proof -
  obtain l where l: "lay_out_int (CHR ''d'') 0 0 (- 1) (CHR 0x00) i = Some l" "length (int_text l) \<le> 12"
    "read_number 10 (int_text l) = sint i"
    using int_text_plain [of "CHR ''d''" i] assms(5) by (auto simp: base_of_def)
  define s0 where "s0 = sn_start 0 0 [VInt i]"
  define f1 where "f1 = (fst s0)\<lparr>ncount := int (length pre)\<rparr>"
  have 1: "sn_loop pre s0 = Some (f1, snd s0) \<and> sn_text pre s0 = pre"
    using sn_literal [OF assms(1), of "fst s0" "snd s0"] assms(3) by (simp add: s0_def f1_def sn_start_def)
  obtain f2 where 2: "sn_loop ''%d'' (f1, snd s0) = Some (f2, (snd s0)\<lparr>args := []\<rparr>)" "state f2 = STATE_NONE"
    "ncount f2 = int (length pre) + int (length (int_text l))" "sn_text ''%d'' (f1, snd s0) = int_text l"
    using int_segment [OF _ _ l(1,2), of f1 "snd s0" "[]"] assms(3)
    by (auto simp: s0_def f1_def sn_start_def)
  have 3: "sn_loop post (f2, (snd s0)\<lparr>args := []\<rparr>) =
      Some (f2\<lparr>ncount := ncount f2 + int (length post)\<rparr>, (snd s0)\<lparr>args := []\<rparr>) \<and>
      sn_text post (f2, (snd s0)\<lparr>args := []\<rparr>) = post"
    using sn_literal [OF assms(2) 2(2), of "(snd s0)\<lparr>args := []\<rparr>"] 2(3) assms(3,4) l(2)
    by (simp add: s0_def sn_start_def)
  have run: "sn_loop (pre @ ''%d'' @ post) s0 =
      Some (f2\<lparr>ncount := ncount f2 + int (length post)\<rparr>, (snd s0)\<lparr>args := []\<rparr>)"
    using 1 2(1) 3 by (simp only: sn_loop_append bind.simps)
  have txte: "sn_text (pre @ ''%d'' @ post) s0 = pre @ int_text l @ post"
    using 1 2(1,4) 3 by (simp only: sn_text_append)
  from sn_roomy_run [OF run [unfolded s0_def] assms(8), of n] txte [unfolded s0_def] 2(3) l assms(6,7)
  show ?thesis by auto
qed

definition device_name :: "string \<Rightarrow> u32 \<Rightarrow> u32 \<Rightarrow> string option \<Rightarrow> bool" where
  "device_name cls first m r \<longleftrightarrow>
     (\<exists>d. r = Some (cls @ d @ [CHR 0x00]) \<and> read_number 10 d = uint m - uint first \<and> length d \<le> 12)"

lemma sint_diff_u32:
  fixes a m :: u32
  assumes "a \<le> m" "m < 0x80000000"
  shows "sint (m - a) = uint m - uint a" "m - a \<noteq> 0x80000000"
proof -
  have u: "uint (m - a) = uint m - uint a"
    using assms(1) by (simp add: uint_sub_lem word_le_def)
  have "uint m < 2 ^ 31" using assms(2) by (simp add: word_less_def)
  moreover have "0 \<le> uint a" by simp
  ultimately have "uint (m - a) < 2 ^ 31" using u by linarith
  then show "m - a \<noteq> 0x80000000" by auto
  show "sint (m - a) = uint m - uint a"
    using u \<open>uint (m - a) < 2 ^ 31\<close> signed_take_bit_int_eq_self [of 31 "uint (m - a)"]
      assms(1) by (simp add: sint_uint word_le_def del: signed_take_bit_int_eq_self)
qed

lemma sn_conversions_literal: "CHR ''%'' \<notin> set w \<Longrightarrow> sn_conversions STATE_NONE w = []"
  by (induction w) (auto simp: sn_action_def blank_def)

lemma snprintf_literal:
  assumes "CHR ''%'' \<notin> set w" "length w < n" "n \<le> 1000"
  shows "co_snprintf n (int n) w [] = Some (int (length w), w @ [CHR 0x00])"
proof -
  have "sn_loop w (sn_start 0 0 []) = Some ((fst (sn_start 0 0 []))\<lparr>ncount := int (length w)\<rparr>, snd (sn_start 0 0 [])) \<and>
      sn_text w (sn_start 0 0 []) = w"
    using sn_literal [OF assms(1), of "fst (sn_start 0 0 [])" "snd (sn_start 0 0 [])"] assms(2,3)
    by (simp add: sn_start_def)
  then show ?thesis
    using sn_roomy_run [of w "[]" _ _ n] sn_conversions_literal [OF assms(1)] assms by simp
qed

lemma device_name_snprintf:
  assumes "CHR ''%'' \<notin> set cls" "length cls \<le> 6" "CHR ''c'' \<notin> set (sn_conversions STATE_NONE (cls @ ''%d''))"
    and "first \<le> m" "m < 0x80000000"
  shows "device_name cls first m (do { (n, str) \<leftarrow> co_snprintf 0x20 0x20 (cls @ ''%d'') [VInt (m - first)]; Some str })"
  using snprintf_d_between [OF assms(1), of "[]" "m - first" 32] assms sint_diff_u32 [OF assms(4,5)]
  by (fastforce simp: device_name_def)

text \<open>\<open>co_module_repr\<close> names a unit of a device class by the class and its number, and stays inside the
  32 byte name for every module number (but 0x80000000, where the printing of \<open>%d\<close> itself
  overflows). The case ranges end one unit early: the last network, block, serial and SCSI
  unit gets the name "unknown" and its module number.\<close>

theorem co_module_repr_names:
  assumes "m \<noteq> 0x80000000"
  shows "(\<exists>t. co_module_repr m = Some (t @ [CHR 0x00]) \<and> length t < 0x20) \<and>
    (CO_MODULE_CONET0 \<le> m \<and> m < CO_MODULE_CONET_END \<longrightarrow>
       device_name ''net'' CO_MODULE_CONET0 m (co_module_repr m)) \<and>
    (CO_MODULE_COBD0 \<le> m \<and> m < CO_MODULE_COBD_END \<longrightarrow>
       device_name ''cobd'' CO_MODULE_COBD0 m (co_module_repr m)) \<and>
    (CO_MODULE_SERIAL0 \<le> m \<and> m < CO_MODULE_SERIAL_END \<longrightarrow>
       device_name ''serial'' CO_MODULE_SERIAL0 m (co_module_repr m)) \<and>
    (CO_MODULE_COSCSI0 \<le> m \<and> m < CO_MODULE_COSCSI_END \<longrightarrow>
       device_name ''scsi'' CO_MODULE_COSCSI0 m (co_module_repr m)) \<and>
    (m \<in> {CO_MODULE_CONET_END, CO_MODULE_COBD_END, CO_MODULE_SERIAL_END, CO_MODULE_COSCSI_END} \<longrightarrow>
       (\<exists>d. co_module_repr m = Some (''unknown<'' @ d @ ''>'' @ [CHR 0x00]) \<and> read_number 10 d = uint m))"
proof -
  note fmt = module_format_def word_le_def word_less_def word_uint_eq_iff
  have dev: "device_name cls first m (co_module_repr m)"
    if "module_format m = (cls @ ''%d'', [VInt (m - first)])" "CHR ''%'' \<notin> set cls" "length cls \<le> 6"
      "CHR ''c'' \<notin> set (sn_conversions STATE_NONE (cls @ ''%d''))" "first \<le> m" "m < 0x80000000"
    for cls first
    using device_name_snprintf [OF that(2-6)] by (simp add: co_module_repr_def that(1))
  have low: "m < 0x80000000" if "m \<le> CO_MODULE_COSCSI_END"
    using that by (simp add: word_le_def word_less_def)
  have net: "device_name ''net'' CO_MODULE_CONET0 m (co_module_repr m)"
    if "CO_MODULE_CONET0 \<le> m" "m < CO_MODULE_CONET_END"
    by (rule dev) (use that low in \<open>simp_all add: fmt\<close>, code_simp)
  have cobd: "device_name ''cobd'' CO_MODULE_COBD0 m (co_module_repr m)"
    if "CO_MODULE_COBD0 \<le> m" "m < CO_MODULE_COBD_END"
    by (rule dev) (use that low in \<open>simp_all add: fmt\<close>, code_simp)
  have serial: "device_name ''serial'' CO_MODULE_SERIAL0 m (co_module_repr m)"
    if "CO_MODULE_SERIAL0 \<le> m" "m < CO_MODULE_SERIAL_END"
    by (rule dev) (use that low in \<open>simp_all add: fmt\<close>, code_simp)
  have scsi: "device_name ''scsi'' CO_MODULE_COSCSI0 m (co_module_repr m)"
    if "CO_MODULE_COSCSI0 \<le> m" "m < CO_MODULE_COSCSI_END"
    by (rule dev) (use that low in \<open>simp_all add: fmt\<close>, code_simp)
  have unknown: "\<exists>d. co_module_repr m = Some (''unknown<'' @ d @ ''>'' @ [CHR 0x00]) \<and>
      read_number 10 d = sint m \<and> length d \<le> 12"
    if "module_format m = (''unknown<'' @ ''%d'' @ ''>'', [VInt m])"
  proof -
    have "CHR ''c'' \<notin> set (sn_conversions STATE_NONE (''unknown<'' @ ''%d'' @ ''>''))" by code_simp
    from snprintf_d_between [OF _ _ _ _ assms _ _ this, of 32] show ?thesis
      unfolding co_module_repr_def that by fastforce
  qed
  have fixed: "co_module_repr m = Some (w @ [CHR 0x00])" if "module_format m = (w, [])" "CHR ''%'' \<notin> set w" "length w < 32" for w
    using snprintf_literal [OF that(2,3)] by (simp add: co_module_repr_def that(1))
  have cases: "(\<exists>w. module_format m = (w, []) \<and> CHR ''%'' \<notin> set w \<and> length w < 32) \<or>
      module_format m = (''unknown<'' @ ''%d'' @ ''>'', [VInt m]) \<or>
      (CO_MODULE_CONET0 \<le> m \<and> m < CO_MODULE_CONET_END) \<or> (CO_MODULE_COBD0 \<le> m \<and> m < CO_MODULE_COBD_END) \<or>
      (CO_MODULE_SERIAL0 \<le> m \<and> m < CO_MODULE_SERIAL_END) \<or> (CO_MODULE_COSCSI0 \<le> m \<and> m < CO_MODULE_COSCSI_END)"
    by (simp add: fmt)
  have fits: "\<exists>t. co_module_repr m = Some (t @ [CHR 0x00]) \<and> length t < 0x20"
  proof -
    have dn: "device_name cls first m r \<Longrightarrow> length cls \<le> 6 \<Longrightarrow> \<exists>t. r = Some (t @ [CHR 0x00]) \<and> length t < 0x20"
      for cls first r unfolding device_name_def by (elim exE conjE) (rule exI, rule conjI, simp, simp)
    note devs = net [THEN dn] cobd [THEN dn] serial [THEN dn] scsi [THEN dn]
    from cases show ?thesis
    proof (elim disjE exE conjE)
      fix w assume "module_format m = (w, [])" "CHR ''%'' \<notin> set w" "length w < 32"
      then show ?thesis using fixed by blast
    next
      assume "module_format m = (''unknown<'' @ ''%d'' @ ''>'', [VInt m])"
      from unknown [OF this] obtain d where "co_module_repr m = Some ((''unknown<'' @ d @ ''>'') @ [CHR 0x00])" "length d \<le> 12"
        by auto
      then show ?thesis by (intro exI [of _ "''unknown<'' @ d @ ''>''"]) simp
    qed (use devs in simp_all)
  qed
  have last: "\<exists>d. co_module_repr m = Some (''unknown<'' @ d @ ''>'' @ [CHR 0x00]) \<and> read_number 10 d = uint m"
    if "m \<in> {CO_MODULE_CONET_END, CO_MODULE_COBD_END, CO_MODULE_SERIAL_END, CO_MODULE_COSCSI_END}"
  proof -
    have "module_format m = (''unknown<'' @ ''%d'' @ ''>'', [VInt m])" "sint m = uint m"
      using that unfolding module_format_def by (elim insertE emptyE; hypsubst; simp)+
    with unknown show ?thesis by metis
  qed
  show ?thesis
    using fits net cobd serial scsi last by (intro conjI impI) auto
qed

theorem co_module_repr_names_witness:
  "(\<exists>t. co_module_repr 24 = Some (t @ [CHR 0x00]) \<and> length t < 0x20) \<and>
    device_name ''cobd'' CO_MODULE_COBD0 24 (co_module_repr 24)"
  using co_module_repr_names [of 24] by simp

end
