(* ===== verification/CoConsole.thy ===== *)
theory CoConsole
  imports CoErrors
begin

text \<open>
  The console object of \<open>src/colinux/common/console.c\<close>: one buffer of cells, whose last
  \<open>config.y\<close> rows are the screen, and the processor of the messages that the guest's cocon driver
  sends. A cell is the 16-bit pair of a character and its attribute. A position counts cells from the start of the
  buffer; as a cell is two bytes and addresses and \<open>size_t\<close> have 32 bits, positions and the counts of \<open>memmove\<close>
  matter modulo \<open>2^31\<close>, while the variables of type \<open>unsigned long\<close> wrap at \<open>2^32\<close>. Reading or writing a cell
  outside the buffer is \<open>None\<close>. The lemmas state each operation on the grid of rows and columns.
\<close>

type_synonym cell = u16

record co_console_config =
  cfg_x :: int
  cfg_y :: int
  cfg_max_y :: int
  cfg_curs_type_size :: int
  cfg_attr :: int

record co_cursor_pos =
  cur_x :: u16
  cur_y :: u16
  cur_height :: u16

record co_console =
  config :: co_console_config
  screen :: int
  buffer :: "cell list"
  cursor :: co_cursor_pos

datatype co_console_message =
    CONSOLE_STARTUP
  | CONSOLE_CLEAR u16 u16 u16 u16 cell (* top left bottom right charattr *)
  | CONSOLE_PUTC u16 u16 cell (* x y charattr *)
  | CONSOLE_PUTCS u16 u16 u16 "cell list" (* y x count data *)
  | CONSOLE_CURSOR_DRAW co_cursor_pos
  | CONSOLE_CURSOR_ERASE co_cursor_pos
  | CONSOLE_CURSOR_MOVE co_cursor_pos
  | CONSOLE_SCROLL_UP u16 u16 u16 cell (* top bottom lines charattr *)
  | CONSOLE_SCROLL_DOWN u16 u16 u16 cell
  | CONSOLE_BMOVE u16 u16 u16 u16 u16 u16 (* row column top left bottom right *)
  | CONSOLE_SWITCH
  | CONSOLE_CONFIG u16 u16 u16 (* rows cols attr *)
  | CONSOLE_INIT_SCROLLBUFFER u16 u16 u16 "cell list"
  | CONSOLE_INIT | CONSOLE_DEINIT | CONSOLE_BLANK | CONSOLE_FONT_OP | CONSOLE_SET_PALETTE
  | CONSOLE_SCROLLDELTA | CONSOLE_SET_ORIGIN | CONSOLE_SAVE_SCREEN | CONSOLE_INVERT_REGION

text \<open>A value of type \<open>unsigned long\<close>, and the cell at an address, or a number of cells given in bytes.\<close>

definition ulong :: "int \<Rightarrow> int" where
  "ulong i = i mod 2 ^ 32"

definition cell_index :: "int \<Rightarrow> int" where
  "cell_index i = i mod 2 ^ 31"

text \<open>Writing \<open>xs\<close> into the buffer at an index, \<open>memmove\<close> and the fill loops, inside the buffer.\<close>

definition put_cells :: "int \<Rightarrow> cell list \<Rightarrow> cell list \<Rightarrow> cell list option" where
  "put_cells dest xs buf =
     (let dest = cell_index dest in
      if xs = [] then Some buf
      else if dest + int (length xs) \<le> int (length buf)
      then Some (take (nat dest) buf @ xs @ drop (nat dest + length xs) buf) else None)"

definition move_cells :: "int \<Rightarrow> int \<Rightarrow> int \<Rightarrow> cell list \<Rightarrow> cell list option" where
  "move_cells dest src n buf =
     (let src = cell_index src; n = cell_index n in
      if n = 0 then Some buf
      else if src + n \<le> int (length buf)
      then put_cells dest (take (nat n) (drop (nat src) buf)) buf else None)"

definition fill_cells :: "int \<Rightarrow> int \<Rightarrow> cell \<Rightarrow> cell list \<Rightarrow> cell list option" where
  "fill_cells dest n blank buf = put_cells dest (replicate (nat n) blank) buf"

text \<open>\<open>co_console_create\<close>: the cells follow the object in one block, whose size is computed in 32 bits and which is
  filled with zeros. An object that does not fit its block is \<open>None\<close>.\<close>

abbreviation sizeof_console :: int where "sizeof_console \<equiv> 40"

definition co_console_create :: "co_console_config \<Rightarrow> bool \<Rightarrow> (co_rc \<times> co_console option) option" where
  "co_console_create config_par allocated =
     (let struct_size = ulong (2 * cfg_x config_par * cfg_max_y config_par);
          struct_size = ulong (struct_size + sizeof_console)
      in if \<not> allocated then Some (RC_OUT_OF_MEMORY, None)
         else if struct_size < sizeof_console then None
         else Some (RC_OK, Some \<lparr>config = config_par,
                screen = (cfg_max_y config_par - cfg_y config_par) * cfg_x config_par,
                buffer = replicate (nat ((struct_size - sizeof_console) div 2)) 0,
                cursor = \<lparr>cur_x = 0, cur_y = 0, cur_height = 0\<rparr>\<rparr>))"

definition scroll_up :: "co_console \<Rightarrow> u16 \<Rightarrow> u16 \<Rightarrow> u16 \<Rightarrow> cell \<Rightarrow> (co_rc \<times> co_console) option" where
  "scroll_up con mtop mbottom nlines blank =
     (let lines = uint nlines; t = uint mtop; b = uint mbottom + 1;
          config_x = cfg_x (config con);
          t_count = ulong (config_x * t); s_count = ulong (config_x * lines)
      in if t \<noteq> 0 \<or> b \<noteq> cfg_y (config con) then
           if b > cfg_max_y (config con) then Some (RC_ERROR, con)
           else if t + lines \<ge> cfg_max_y (config con) then Some (RC_ERROR, con)
           else let offs = ulong (config_x * b - s_count) in do {
             buf \<leftarrow> move_cells (screen con + t_count) (screen con + t_count + s_count) (offs - t_count) (buffer con);
             buf \<leftarrow> fill_cells (screen con + offs) s_count blank buf;
             Some (RC_OK, con\<lparr>buffer := buf\<rparr>) }
         else let offs = ulong (config_x * cfg_max_y (config con) - s_count) in do {
             buf \<leftarrow> move_cells 0 s_count offs (buffer con);
             buf \<leftarrow> fill_cells offs s_count blank buf;
             Some (RC_OK, con\<lparr>buffer := buf\<rparr>) })"

definition scroll_down :: "co_console \<Rightarrow> u16 \<Rightarrow> u16 \<Rightarrow> u16 \<Rightarrow> cell \<Rightarrow> (co_rc \<times> co_console) option" where
  "scroll_down con mtop mbottom nlines blank =
     (let lines = uint nlines; t = uint mtop; b = uint mbottom + 1;
          config_x = cfg_x (config con); s_count = ulong (config_x * lines)
      in if t \<noteq> 0 \<or> b \<noteq> cfg_y (config con) then
           let t_count = ulong (config_x * t) in
           if b > cfg_max_y (config con) then Some (RC_ERROR, con)
           else if t + lines \<ge> cfg_max_y (config con) then Some (RC_ERROR, con)
           else let dest = screen con + t_count in do {
             buf \<leftarrow> move_cells (dest + s_count) dest (config_x * b - t_count - s_count) (buffer con);
             buf \<leftarrow> fill_cells dest s_count blank buf;
             Some (RC_OK, con\<lparr>buffer := buf\<rparr>) }
         else let dest = screen con in do {
             buf \<leftarrow> move_cells (dest + s_count) dest (config_x * cfg_y (config con) - s_count) (buffer con);
             buf \<leftarrow> fill_cells dest s_count blank buf;
             Some (RC_OK, con\<lparr>buffer := buf\<rparr>) })"

text \<open>The rows of the CLEAR loop: \<open>while (t <= b)\<close>, and inside it \<open>while (l++ <= r)\<close>.\<close>

function clear_rows :: "int \<Rightarrow> int \<Rightarrow> int \<Rightarrow> int \<Rightarrow> cell \<Rightarrow> co_console \<Rightarrow> co_console option" where
  "clear_rows t b left r blank con =
     (if t \<le> b then do {
        buf \<leftarrow> fill_cells (screen con + cfg_x (config con) * t + left) (r - left + 1) blank (buffer con);
        clear_rows (t + 1) b left r blank (con\<lparr>buffer := buf\<rparr>) }
      else Some con)"
  by pat_completeness auto
termination by (relation "measure (\<lambda>(t, b, _). nat (b - t + 1))") auto

function bmove_down :: "int \<Rightarrow> int \<Rightarrow> int \<Rightarrow> int \<Rightarrow> int \<Rightarrow> int \<Rightarrow> co_console \<Rightarrow> co_console option" where
  "bmove_down y x t l b r con =
     (if t \<le> b then do {
        buf \<leftarrow> move_cells (screen con + cfg_x (config con) * y + x) (screen con + cfg_x (config con) * t + l)
          (r - l + 1) (buffer con);
        bmove_down (y + 1) x (t + 1) l b r (con\<lparr>buffer := buf\<rparr>) }
      else Some con)"
  by pat_completeness auto
termination by (relation "measure (\<lambda>(y, x, t, l, b, _). nat (b - t + 1))") auto

function bmove_up :: "int \<Rightarrow> int \<Rightarrow> int \<Rightarrow> int \<Rightarrow> int \<Rightarrow> int \<Rightarrow> co_console \<Rightarrow> co_console option" where
  "bmove_up y x t l b r con =
     (if t \<le> b then do {
        buf \<leftarrow> move_cells (screen con + cfg_x (config con) * y + x) (screen con + cfg_x (config con) * b + l)
          (r - l + 1) (buffer con);
        bmove_up (y - 1) x t l (b - 1) r (con\<lparr>buffer := buf\<rparr>) }
      else Some con)"
  by pat_completeness auto
termination by (relation "measure (\<lambda>(y, x, t, l, b, _). nat (b - t + 1))") auto

declare clear_rows.simps [simp del] bmove_down.simps [simp del] bmove_up.simps [simp del]

text \<open>PUTCS and INIT\_SCROLLBUFFER: \<open>base\<close> is the screen or the buffer, \<open>rows\<close> its height.\<close>

definition put_string :: "int \<Rightarrow> int \<Rightarrow> co_console \<Rightarrow> u16 \<Rightarrow> u16 \<Rightarrow> u16 \<Rightarrow> cell list \<Rightarrow> (co_rc \<times> co_console) option" where
  "put_string base rows con my mx mcount cells =
     (let x = uint mx; y = uint my; count = uint mcount; config_x = cfg_x (config con) in
      if y \<ge> rows \<or> x \<ge> config_x then Some (RC_ERROR, con)
      else let count = (if count > config_x - x then config_x - x else count) in
        if int (length cells) < count then None
        else do {
          buf \<leftarrow> put_cells (base + config_x * y + x) (take (nat count) cells) (buffer con);
          Some (RC_OK, con\<lparr>buffer := buf\<rparr>) })"

definition co_console_op ::
    "co_console \<Rightarrow> co_console_message \<Rightarrow> (co_rc \<times> co_console \<times> co_console_message) option" where
  "co_console_op con message =
     (let with_message = (\<lambda>res. do { (rc, con) \<leftarrow> res; Some (rc, con, message) }) in
      case message of
        CONSOLE_SCROLL_UP t b lines blank \<Rightarrow> with_message (scroll_up con t b lines blank)
      | CONSOLE_SCROLL_DOWN t b lines blank \<Rightarrow> with_message (scroll_down con t b lines blank)
      | CONSOLE_PUTCS y x count cells \<Rightarrow>
          with_message (put_string (screen con) (cfg_y (config con)) con y x count cells)
      | CONSOLE_PUTC mx my charattr \<Rightarrow>
          let x = uint mx; y = uint my; config_x = cfg_x (config con) in
          if y \<ge> cfg_y (config con) \<or> x \<ge> config_x then Some (RC_ERROR, con, message)
          else do {
            buf \<leftarrow> put_cells (screen con + config_x * y + x) [charattr] (buffer con);
            Some (RC_OK, con\<lparr>buffer := buf\<rparr>, message) }
      | CONSOLE_CURSOR_DRAW c \<Rightarrow> Some (RC_OK, con\<lparr>cursor := c\<rparr>, message)
      | CONSOLE_CURSOR_ERASE c \<Rightarrow> Some (RC_OK, con\<lparr>cursor := c\<rparr>, message)
      | CONSOLE_CURSOR_MOVE c \<Rightarrow> Some (RC_OK, con\<lparr>cursor := c\<rparr>, message)
      | CONSOLE_CLEAR t l b r blank \<Rightarrow> do {
          con \<leftarrow> clear_rows (uint t) (uint b) (uint l) (uint r) blank con;
          Some (RC_OK, con, message) }
      | CONSOLE_BMOVE row column t l b r \<Rightarrow> do {
          con \<leftarrow> (if uint row < uint t
                 then bmove_down (uint row) (uint column) (uint t) (uint l) (uint b) (uint r) con
                 else bmove_up (uint row + (uint b - uint t)) (uint column) (uint t) (uint l) (uint b) (uint r) con);
          Some (RC_OK, con, message) }
      | CONSOLE_STARTUP \<Rightarrow>
          Some (RC_OK, con, CONSOLE_CONFIG (word_of_int (cfg_y (config con)))
            (word_of_int (cfg_x (config con))) (word_of_int (cfg_attr (config con))))
      | CONSOLE_INIT_SCROLLBUFFER y x count cells \<Rightarrow>
          with_message (put_string 0 (cfg_max_y (config con)) con y x count cells)
      | CONSOLE_SWITCH \<Rightarrow> do {
          buf \<leftarrow> fill_cells 0 (cell_index (cfg_x (config con) * (cfg_max_y (config con) - cfg_y (config con)))) 0 (buffer con);
          Some (RC_OK, con\<lparr>buffer := buf\<rparr>, message) }
      | _ \<Rightarrow> Some (RC_OK, con, message))"

text \<open>The grid: the cell in row \<open>r\<close> and column \<open>c\<close> of the screen, and the invariant, which holds of a console whose
  cells take less than \<open>2^32\<close> bytes.\<close>

definition console_wf :: "co_console \<Rightarrow> bool" where
  "console_wf con \<longleftrightarrow>
     (let cfg = config con in
      0 < cfg_x cfg \<and> 0 < cfg_y cfg \<and> cfg_y cfg \<le> cfg_max_y cfg \<and> cfg_x cfg * cfg_max_y cfg < 2 ^ 31 \<and>
      screen con = (cfg_max_y cfg - cfg_y cfg) * cfg_x cfg \<and>
      int (length (buffer con)) = cfg_x cfg * cfg_max_y cfg)"

definition on_screen :: "co_console \<Rightarrow> int \<Rightarrow> int \<Rightarrow> bool" where
  "on_screen con r c \<longleftrightarrow> 0 \<le> r \<and> r < cfg_y (config con) \<and> 0 \<le> c \<and> c < cfg_x (config con)"

definition grid :: "co_console \<Rightarrow> int \<Rightarrow> int \<Rightarrow> cell" where
  "grid con r c = buffer con ! nat (screen con + cfg_x (config con) * r + c)"

text \<open>What changes only the buffer.\<close>

definition same_frame :: "co_console \<Rightarrow> co_console \<Rightarrow> bool" where
  "same_frame con con' \<longleftrightarrow> config con' = config con \<and> screen con' = screen con \<and> cursor con' = cursor con \<and>
     length (buffer con') = length (buffer con)"

lemma same_frame_wf: "same_frame con con' \<Longrightarrow> console_wf con' = console_wf con"
  by (simp add: same_frame_def console_wf_def)

lemma same_frame_trans: "same_frame a b \<Longrightarrow> same_frame b c \<Longrightarrow> same_frame a c"
  by (simp add: same_frame_def)

lemma console_room: "console_wf con \<Longrightarrow> int (length (buffer con)) < 2 ^ 31"
  by (simp add: console_wf_def Let_def)

lemma cell_index_id: "0 \<le> i \<Longrightarrow> i < 2 ^ 31 \<Longrightarrow> cell_index i = i"
  by (simp add: cell_index_def)

lemma ulong_id: "0 \<le> i \<Longrightarrow> i < 2 ^ 31 \<Longrightarrow> ulong i = i"
  by (simp add: ulong_def)

lemma put_cells_Some:
  assumes "0 \<le> d" "d + int (length xs) \<le> int (length buf)" "int (length buf) < 2 ^ 31"
  shows "\<exists>buf'. put_cells d xs buf = Some buf' \<and> length buf' = length buf \<and>
    (\<forall>i. 0 \<le> i \<and> i < int (length buf) \<longrightarrow>
      buf' ! nat i = (if d \<le> i \<and> i < d + int (length xs) then xs ! nat (i - d) else buf ! nat i))"
proof (cases "xs = []")
  case True
  then show ?thesis by (auto simp: put_cells_def)
next
  case False
  let ?b = "take (nat d) buf @ xs @ drop (nat d + length xs) buf"
  have "length ?b = length buf" using assms by auto
  moreover have "?b ! nat i = (if d \<le> i \<and> i < d + int (length xs) then xs ! nat (i - d) else buf ! nat i)"
    if "0 \<le> i" "i < int (length buf)" for i
    using that assms by (auto simp: nth_append nat_diff_distrib min_def)
  ultimately show ?thesis using False assms by (simp add: put_cells_def cell_index_id)
qed

lemma move_cells_Some:
  assumes "0 \<le> d" "0 \<le> s" "0 \<le> n" "d + n \<le> int (length buf)" "s + n \<le> int (length buf)" "int (length buf) < 2 ^ 31"
  shows "\<exists>buf'. move_cells d s n buf = Some buf' \<and> length buf' = length buf \<and>
    (\<forall>i. 0 \<le> i \<and> i < int (length buf) \<longrightarrow>
      buf' ! nat i = (if d \<le> i \<and> i < d + n then buf ! nat (i - d + s) else buf ! nat i))"
proof (cases "n = 0")
  case True
  then show ?thesis by (simp add: move_cells_def cell_index_id)
next
  case False
  let ?xs = "take (nat n) (drop (nat s) buf)"
  have len: "int (length ?xs) = n" using assms by auto
  have xs: "?xs ! nat (i - d) = buf ! nat (i - d + s)" if "d \<le> i" "i < d + n" for i
    using that assms by (simp add: nat_add_distrib add.commute)
  obtain buf' where "put_cells d ?xs buf = Some buf'" "length buf' = length buf"
    "\<forall>i. 0 \<le> i \<and> i < int (length buf) \<longrightarrow>
      buf' ! nat i = (if d \<le> i \<and> i < d + int (length ?xs) then ?xs ! nat (i - d) else buf ! nat i)"
    using put_cells_Some [of d ?xs buf] assms len by auto
  with False len xs assms show ?thesis by (simp add: move_cells_def cell_index_id)
qed

lemma fill_cells_Some:
  assumes "0 \<le> d" "0 \<le> n" "d + n \<le> int (length buf)" "int (length buf) < 2 ^ 31"
  shows "\<exists>buf'. fill_cells d n v buf = Some buf' \<and> length buf' = length buf \<and>
    (\<forall>i. 0 \<le> i \<and> i < int (length buf) \<longrightarrow> buf' ! nat i = (if d \<le> i \<and> i < d + n then v else buf ! nat i))"
proof -
  obtain buf' where "put_cells d (replicate (nat n) v) buf = Some buf'" "length buf' = length buf"
    "\<forall>i. 0 \<le> i \<and> i < int (length buf) \<longrightarrow>
      buf' ! nat i = (if d \<le> i \<and> i < d + n then replicate (nat n) v ! nat (i - d) else buf ! nat i)"
    using put_cells_Some [of d "replicate (nat n) v" buf] assms by auto
  then show ?thesis by (simp add: fill_cells_def)
qed

text \<open>Rows and positions.\<close>

lemma row_bounds:
  assumes "0 \<le> c" "c < (x :: int)"
  shows "x * t \<le> x * r + c \<longleftrightarrow> t \<le> r" "x * r + c < x * b \<longleftrightarrow> r < b"
proof -
  have 1: "x * t \<le> x * r" if "t \<le> r" for t r using that assms by (intro mult_left_mono) auto
  have 2: "x * r + x \<le> x * t" if "r < t" for t r
  proof -
    have "x * (r + 1) \<le> x * t" using that assms by (intro mult_left_mono) auto
    then show ?thesis by (simp add: distrib_left)
  qed
  show "x * t \<le> x * r + c \<longleftrightarrow> t \<le> r"
    using 1 [of t r] 2 [where r = r and t = t] assms by (cases "t \<le> r") linarith+
  show "x * r + c < x * b \<longleftrightarrow> r < b"
    using 1 [of b r] 2 [where r = r and t = b] assms by (cases "r < b") linarith+
qed

lemma grid_pos:
  assumes "console_wf con" "on_screen con r c"
  shows "0 \<le> screen con + cfg_x (config con) * r + c"
    "screen con + cfg_x (config con) * r + c < int (length (buffer con))"
proof -
  let ?x = "cfg_x (config con)" and ?s = "cfg_max_y (config con) - cfg_y (config con)"
  have scr: "screen con = ?x * ?s" "0 \<le> ?s" "int (length (buffer con)) = ?x * (?s + cfg_y (config con))" "0 < ?x"
    using assms(1) by (auto simp: console_wf_def Let_def mult.commute)
  have "?x * ?s + ?x * r + c = ?x * (?s + r) + c" by (simp add: distrib_left)
  with row_bounds(1) [of c ?x 0 "?s + r"] row_bounds(2) [of c ?x "?s + r" "?s + cfg_y (config con)"] assms(2) scr
  show "0 \<le> screen con + ?x * r + c" "screen con + ?x * r + c < int (length (buffer con))"
    by (auto simp: on_screen_def)
qed


text \<open>One piece of a row: moving it, and filling it.\<close>

lemma same_row:
  assumes "0 \<le> c" "c < (x :: int)" "0 \<le> C" "C + n \<le> x" "0 \<le> n"
  shows "x * R + C \<le> x * r + c \<and> x * r + c < x * R + C + n \<longleftrightarrow> r = R \<and> C \<le> c \<and> c < C + n"
proof
  assume *: "x * R + C \<le> x * r + c \<and> x * r + c < x * R + C + n"
  have "x * R + C + n \<le> x * (R + 1)" using assms by (simp add: distrib_left)
  with * row_bounds(2) [OF assms(1,2), of r "R + 1"] row_bounds(1) [OF assms(1,2), of R r] assms
  have "r = R" by auto
  with * show "r = R \<and> C \<le> c \<and> c < C + n" by auto
qed auto

lemma move_row:
  assumes wf: "console_wf con"
    and dst: "on_screen con y x" "on_screen con y (x + n)"
    and src: "on_screen con t l" "on_screen con t (l + n)" and n: "0 \<le> n"
  shows "\<exists>buf. move_cells (screen con + cfg_x (config con) * y + x) (screen con + cfg_x (config con) * t + l)
      (n + 1) (buffer con) = Some buf \<and> same_frame con (con\<lparr>buffer := buf\<rparr>) \<and>
    (\<forall>r c. on_screen con r c \<longrightarrow> grid (con\<lparr>buffer := buf\<rparr>) r c =
      (if r = y \<and> x \<le> c \<and> c \<le> x + n then grid con t (c - x + l) else grid con r c))"
proof -
  let ?X = "cfg_x (config con)"
  note pos = grid_pos [OF wf]
  obtain buf where buf: "move_cells (screen con + ?X * y + x) (screen con + ?X * t + l) (n + 1) (buffer con) = Some buf"
    "length buf = length (buffer con)"
    "\<forall>i. 0 \<le> i \<and> i < int (length (buffer con)) \<longrightarrow> buf ! nat i =
      (if screen con + ?X * y + x \<le> i \<and> i < screen con + ?X * y + x + (n + 1)
       then buffer con ! nat (i - (screen con + ?X * y + x) + (screen con + ?X * t + l)) else buffer con ! nat i)"
    using move_cells_Some [of "screen con + ?X * y + x" "screen con + ?X * t + l" "n + 1" "buffer con"]
      pos [OF dst(1)] pos [OF dst(2)] pos [OF src(1)] pos [OF src(2)] n console_room [OF wf] by auto
  have "grid (con\<lparr>buffer := buf\<rparr>) r c =
      (if r = y \<and> x \<le> c \<and> c \<le> x + n then grid con t (c - x + l) else grid con r c)" if rc: "on_screen con r c" for r c
  proof -
    have "screen con + ?X * y + x \<le> screen con + ?X * r + c \<and>
        screen con + ?X * r + c < screen con + ?X * y + x + (n + 1) \<longleftrightarrow> r = y \<and> x \<le> c \<and> c \<le> x + n"
      using same_row [of c ?X x "n + 1" y r] rc dst n by (auto simp: on_screen_def)
    with buf(3) pos [OF rc] show ?thesis by (auto simp: grid_def algebra_simps)
  qed
  with buf(1,2) show ?thesis by (auto simp: same_frame_def)
qed

lemma on_screen_frame: "same_frame con con' \<Longrightarrow> on_screen con' = on_screen con"
  by (simp add: same_frame_def on_screen_def fun_eq_iff)

text \<open>BMOVE copies a rectangle, also when source and destination overlap.\<close>

definition region_copied :: "co_console \<Rightarrow> co_console \<Rightarrow> int \<Rightarrow> int \<Rightarrow> int \<Rightarrow> int \<Rightarrow> int \<Rightarrow> int \<Rightarrow> bool" where
  "region_copied con con' y x t l b r \<longleftrightarrow>
     (\<forall>R C. on_screen con R C \<longrightarrow> grid con' R C =
        (if y \<le> R \<and> R \<le> y + (b - t) \<and> x \<le> C \<and> C \<le> x + (r - l) then grid con (R - y + t) (C - x + l)
         else grid con R C))"

lemma bmove_down_region:
  assumes "console_wf con" "y < t" "0 \<le> y" "0 \<le> x" "x + (r - l) < cfg_x (config con)"
    and "0 \<le> l" "l \<le> r" "r < cfg_x (config con)" "b < cfg_y (config con)"
  shows "\<exists>con'. bmove_down y x t l b r con = Some con' \<and> same_frame con con' \<and> region_copied con con' y x t l b r"
  using assms
proof (induction y x t l b r con rule: bmove_down.induct)
  case (1 y x t l b r con)
  show ?case
  proof (cases "t \<le> b")
    case False
    with 1 show ?thesis
      by (subst bmove_down.simps) (auto simp: same_frame_def region_copied_def)
  next
    case True
    obtain buf where buf: "move_cells (screen con + cfg_x (config con) * y + x) (screen con + cfg_x (config con) * t + l)
        (r - l + 1) (buffer con) = Some buf" "same_frame con (con\<lparr>buffer := buf\<rparr>)"
      "\<forall>R C. on_screen con R C \<longrightarrow> grid (con\<lparr>buffer := buf\<rparr>) R C =
        (if R = y \<and> x \<le> C \<and> C \<le> x + (r - l) then grid con t (C - x + l) else grid con R C)"
      using move_row [of con y x "r - l" t l] 1 True by (auto simp: on_screen_def)
    from buf(2) have cfg: "config (con\<lparr>buffer := buf\<rparr>) = config con" "console_wf (con\<lparr>buffer := buf\<rparr>)"
      using same_frame_wf [OF buf(2)] 1 by simp_all
    have "\<exists>con'. bmove_down (y + 1) x (t + 1) l b r (con\<lparr>buffer := buf\<rparr>) = Some con' \<and>
        same_frame (con\<lparr>buffer := buf\<rparr>) con' \<and> region_copied (con\<lparr>buffer := buf\<rparr>) con' (y + 1) x (t + 1) l b r"
      using 1 True buf(1) cfg by auto
    then obtain con' where con': "bmove_down (y + 1) x (t + 1) l b r (con\<lparr>buffer := buf\<rparr>) = Some con'"
      "same_frame (con\<lparr>buffer := buf\<rparr>) con'" "region_copied (con\<lparr>buffer := buf\<rparr>) con' (y + 1) x (t + 1) l b r"
      by blast
    have "region_copied con con' y x t l b r"
      unfolding region_copied_def
    proof (intro allI impI)
      fix R C assume RC: "on_screen con R C"
      have RC': "on_screen con (R - y + t) (C - x + l)" if "y \<le> R" "R \<le> y + (b - t)" "x \<le> C" "C \<le> x + (r - l)"
        using that 1 by (auto simp: on_screen_def)
      have RC1: "on_screen (con\<lparr>buffer := buf\<rparr>) R C"
        using RC on_screen_frame [OF buf(2)] by simp
      have "R - (y + 1) + (t + 1) = R - y + t" "y + 1 + (b - (t + 1)) = y + (b - t)" by simp_all
      with con'(3) [unfolded region_copied_def, rule_format, OF RC1]
      have "grid con' R C = (if y + 1 \<le> R \<and> R \<le> y + (b - t) \<and> x \<le> C \<and> C \<le> x + (r - l)
          then grid (con\<lparr>buffer := buf\<rparr>) (R - y + t) (C - x + l) else grid (con\<lparr>buffer := buf\<rparr>) R C)"
        by (simp only:)
      then show "grid con' R C = (if y \<le> R \<and> R \<le> y + (b - t) \<and> x \<le> C \<and> C \<le> x + (r - l)
          then grid con (R - y + t) (C - x + l) else grid con R C)"
        using buf(3) RC RC' True 1(3) by auto
    qed
    moreover have "bmove_down y x t l b r con = Some con'"
      using True buf(1) con'(1) by (subst bmove_down.simps) simp
    ultimately show ?thesis using same_frame_trans [OF buf(2) con'(2)] by blast
  qed
qed


lemma bmove_up_region:
  assumes "console_wf con" "t \<le> y" "0 \<le> t" "0 \<le> x" "x + (r - l) < cfg_x (config con)"
    and "0 \<le> l" "l \<le> r" "r < cfg_x (config con)" "y + (b - t) < cfg_y (config con)"
  shows "\<exists>con'. bmove_up (y + (b - t)) x t l b r con = Some con' \<and> same_frame con con' \<and> region_copied con con' y x t l b r"
  using assms
proof (induction "nat (b - t + 1)" arbitrary: b con)
  case 0
  then have "\<not> t \<le> b" by simp
  with 0 show ?case
    by (subst bmove_up.simps) (auto simp: same_frame_def region_copied_def)
next
  case (Suc k)
  then have tb: "t \<le> b" "k = nat (b - 1 - t + 1)" by simp_all
  let ?y = "y + (b - t)"
  obtain buf where buf: "move_cells (screen con + cfg_x (config con) * ?y + x) (screen con + cfg_x (config con) * b + l)
      (r - l + 1) (buffer con) = Some buf" "same_frame con (con\<lparr>buffer := buf\<rparr>)"
    "\<forall>R C. on_screen con R C \<longrightarrow> grid (con\<lparr>buffer := buf\<rparr>) R C =
      (if R = ?y \<and> x \<le> C \<and> C \<le> x + (r - l) then grid con b (C - x + l) else grid con R C)"
    using move_row [of con ?y x "r - l" b l] Suc.prems tb by (auto simp: on_screen_def)
  from buf(2) have cfg: "config (con\<lparr>buffer := buf\<rparr>) = config con" "console_wf (con\<lparr>buffer := buf\<rparr>)"
    using same_frame_wf [OF buf(2)] Suc.prems by simp_all
  have "\<exists>con'. bmove_up (y + (b - 1 - t)) x t l (b - 1) r (con\<lparr>buffer := buf\<rparr>) = Some con' \<and>
      same_frame (con\<lparr>buffer := buf\<rparr>) con' \<and> region_copied (con\<lparr>buffer := buf\<rparr>) con' y x t l (b - 1) r"
    using Suc.hyps(1) [OF tb(2) cfg(2)] Suc.prems cfg(1) by simp
  then obtain con' where con': "bmove_up (y + (b - 1 - t)) x t l (b - 1) r (con\<lparr>buffer := buf\<rparr>) = Some con'"
    "same_frame (con\<lparr>buffer := buf\<rparr>) con'" "region_copied (con\<lparr>buffer := buf\<rparr>) con' y x t l (b - 1) r"
    by blast
  have "region_copied con con' y x t l b r"
    unfolding region_copied_def
  proof (intro allI impI)
    fix R C assume RC: "on_screen con R C"
    have RC': "on_screen con (R - y + t) (C - x + l)" if "y \<le> R" "R \<le> y + (b - t)" "x \<le> C" "C \<le> x + (r - l)"
      using that Suc.prems by (auto simp: on_screen_def)
    have RC1: "on_screen (con\<lparr>buffer := buf\<rparr>) R C"
      using RC on_screen_frame [OF buf(2)] by simp
    have "grid con' R C = (if y \<le> R \<and> R \<le> y + (b - 1 - t) \<and> x \<le> C \<and> C \<le> x + (r - l)
        then grid (con\<lparr>buffer := buf\<rparr>) (R - y + t) (C - x + l) else grid (con\<lparr>buffer := buf\<rparr>) R C)"
      by (rule con'(3) [unfolded region_copied_def, rule_format, OF RC1])
    then show "grid con' R C = (if y \<le> R \<and> R \<le> y + (b - t) \<and> x \<le> C \<and> C \<le> x + (r - l)
        then grid con (R - y + t) (C - x + l) else grid con R C)"
      using buf(3) RC RC' tb(1) Suc.prems(2) by (cases "R = ?y") auto
  qed
  moreover have "bmove_up ?y x t l b r con = Some con'"
    using tb(1) buf(1) con'(1) by (subst bmove_up.simps) (simp add: algebra_simps)
  ultimately show ?case using same_frame_trans [OF buf(2) con'(2)] by blast
qed


text \<open>Whole rows of the buffer, scroll-back included.\<close>

definition bgrid :: "co_console \<Rightarrow> int \<Rightarrow> int \<Rightarrow> cell" where
  "bgrid con R c = buffer con ! nat (cfg_x (config con) * R + c)"

definition in_buffer :: "co_console \<Rightarrow> int \<Rightarrow> int \<Rightarrow> bool" where
  "in_buffer con R c \<longleftrightarrow> 0 \<le> R \<and> R < cfg_max_y (config con) \<and> 0 \<le> c \<and> c < cfg_x (config con)"

lemma bgrid_pos:
  assumes "console_wf con" "in_buffer con R c"
  shows "0 \<le> cfg_x (config con) * R + c" "cfg_x (config con) * R + c < int (length (buffer con))"
  using assms row_bounds(1) [of c "cfg_x (config con)" 0 R]
    row_bounds(2) [of c "cfg_x (config con)" R "cfg_max_y (config con)"]
  by (auto simp: console_wf_def in_buffer_def Let_def)

lemma grid_bgrid:
  assumes "console_wf con"
  shows "grid con r c = bgrid con (r + (cfg_max_y (config con) - cfg_y (config con))) c"
proof -
  have "screen con + cfg_x (config con) * r + c =
      cfg_x (config con) * (r + (cfg_max_y (config con) - cfg_y (config con))) + c"
    using assms by (simp add: console_wf_def Let_def algebra_simps)
  then show ?thesis by (simp add: grid_def bgrid_def)
qed

lemma rows_room:
  assumes "console_wf con" "0 \<le> d" "0 \<le> n" "d + n \<le> cfg_max_y (config con)"
  shows "0 \<le> cfg_x (config con) * d" "0 \<le> cfg_x (config con) * n"
    "cfg_x (config con) * d + cfg_x (config con) * n \<le> int (length (buffer con))"
proof -
  have X: "0 \<le> cfg_x (config con)" using assms(1) by (simp add: console_wf_def Let_def)
  show "0 \<le> cfg_x (config con) * d" "0 \<le> cfg_x (config con) * n" using X assms(2,3) by simp_all
  have "cfg_x (config con) * (d + n) \<le> cfg_x (config con) * cfg_max_y (config con)"
    using X assms(4) by (rule mult_left_mono [rotated])
  then show "cfg_x (config con) * d + cfg_x (config con) * n \<le> int (length (buffer con))"
    using assms(1) by (simp add: console_wf_def Let_def distrib_left)
qed

lemma row_ulong:
  assumes "console_wf con" "0 \<le> l" "l \<le> n" "n \<le> cfg_max_y (config con)"
  shows "ulong (cfg_x (config con) * n) = cfg_x (config con) * n"
    "ulong (cfg_x (config con) * n - cfg_x (config con) * l) = cfg_x (config con) * n - cfg_x (config con) * l"
  using rows_room [OF assms(1), of l "n - l"] rows_room [OF assms(1), of 0 n] assms console_room [OF assms(1)]
  by (auto intro!: ulong_id simp: right_diff_distrib)

lemma in_rows:
  assumes "in_buffer con R c"
  shows "cfg_x (config con) * d \<le> cfg_x (config con) * R + c \<and>
      cfg_x (config con) * R + c < cfg_x (config con) * d + cfg_x (config con) * n \<longleftrightarrow> d \<le> R \<and> R < d + n"
  using assms row_bounds(1) [of c "cfg_x (config con)" d R] row_bounds(2) [of c "cfg_x (config con)" R "d + n"]
  by (simp add: in_buffer_def distrib_left)

lemma move_rows:
  assumes wf: "console_wf con" and "0 \<le> d" "0 \<le> s" "0 \<le> n"
    and "d + n \<le> cfg_max_y (config con)" "s + n \<le> cfg_max_y (config con)"
  shows "\<exists>buf. move_cells (cfg_x (config con) * d) (cfg_x (config con) * s) (cfg_x (config con) * n) (buffer con) = Some buf \<and>
    same_frame con (con\<lparr>buffer := buf\<rparr>) \<and>
    (\<forall>R c. in_buffer con R c \<longrightarrow> bgrid (con\<lparr>buffer := buf\<rparr>) R c =
       (if d \<le> R \<and> R < d + n then bgrid con (R - d + s) c else bgrid con R c))"
proof -
  let ?X = "cfg_x (config con)"
  obtain buf where buf: "move_cells (?X * d) (?X * s) (?X * n) (buffer con) = Some buf" "length buf = length (buffer con)"
    "\<forall>i. 0 \<le> i \<and> i < int (length (buffer con)) \<longrightarrow> buf ! nat i =
      (if ?X * d \<le> i \<and> i < ?X * d + ?X * n then buffer con ! nat (i - ?X * d + ?X * s) else buffer con ! nat i)"
    using move_cells_Some [of "?X * d" "?X * s" "?X * n" "buffer con"]
      rows_room [OF wf, of d n] rows_room [OF wf, of s n] assms console_room [OF wf] by auto
  have "bgrid (con\<lparr>buffer := buf\<rparr>) R c = (if d \<le> R \<and> R < d + n then bgrid con (R - d + s) c else bgrid con R c)"
    if "in_buffer con R c" for R c
    using buf(3) bgrid_pos [OF wf that] in_rows [OF that, of d n] by (simp add: bgrid_def algebra_simps)
  with buf(1,2) show ?thesis by (auto simp: same_frame_def)
qed

lemma fill_rows:
  assumes wf: "console_wf con" and "0 \<le> d" "0 \<le> n" "d + n \<le> cfg_max_y (config con)"
  shows "\<exists>buf. fill_cells (cfg_x (config con) * d) (cfg_x (config con) * n) v (buffer con) = Some buf \<and>
    same_frame con (con\<lparr>buffer := buf\<rparr>) \<and>
    (\<forall>R c. in_buffer con R c \<longrightarrow> bgrid (con\<lparr>buffer := buf\<rparr>) R c =
       (if d \<le> R \<and> R < d + n then v else bgrid con R c))"
proof -
  let ?X = "cfg_x (config con)"
  obtain buf where buf: "fill_cells (?X * d) (?X * n) v (buffer con) = Some buf" "length buf = length (buffer con)"
    "\<forall>i. 0 \<le> i \<and> i < int (length (buffer con)) \<longrightarrow> buf ! nat i =
      (if ?X * d \<le> i \<and> i < ?X * d + ?X * n then v else buffer con ! nat i)"
    using fill_cells_Some [of "?X * d" "?X * n" "buffer con" v] rows_room [OF wf, of d n] assms console_room [OF wf] by auto
  have "bgrid (con\<lparr>buffer := buf\<rparr>) R c = (if d \<le> R \<and> R < d + n then v else bgrid con R c)"
    if "in_buffer con R c" for R c
    using buf(3) bgrid_pos [OF wf that] in_rows [OF that, of d n] by (simp add: bgrid_def)
  with buf(1,2) show ?thesis by (auto simp: same_frame_def)
qed

text \<open>A block of rows moved and the rows it left filled: the common shape of the four scrolls.\<close>

definition rows_scrolled :: "co_console \<Rightarrow> co_console \<Rightarrow> int \<Rightarrow> int \<Rightarrow> int \<Rightarrow> int \<Rightarrow> cell \<Rightarrow> bool" where
  "rows_scrolled con con' d s n f v \<longleftrightarrow>
     (\<forall>R c. in_buffer con R c \<longrightarrow> bgrid con' R c =
        (if f \<le> R \<and> R < f + \<bar>s - d\<bar> then v else if d \<le> R \<and> R < d + n then bgrid con (R - d + s) c
         else bgrid con R c))"

lemma move_and_fill:
  assumes wf: "console_wf con" and "0 \<le> d" "0 \<le> s" "0 \<le> n"
    and "d + n \<le> cfg_max_y (config con)" "s + n \<le> cfg_max_y (config con)"
    and "0 \<le> f" "f + \<bar>s - d\<bar> \<le> cfg_max_y (config con)"
    and "D = cfg_x (config con) * d" "S = cfg_x (config con) * s" "N = cfg_x (config con) * n"
      "F = cfg_x (config con) * f" "M = cfg_x (config con) * \<bar>s - d\<bar>"
  shows "\<exists>con'. (do { buf \<leftarrow> move_cells D S N (buffer con); buf \<leftarrow> fill_cells F M v buf;
      Some (RC_OK, con\<lparr>buffer := buf\<rparr>) }) = Some (RC_OK, con') \<and> same_frame con con' \<and>
      rows_scrolled con con' d s n f v"
proof -
  obtain buf where buf: "move_cells D S N (buffer con) = Some buf" "same_frame con (con\<lparr>buffer := buf\<rparr>)"
    "\<forall>R c. in_buffer con R c \<longrightarrow> bgrid (con\<lparr>buffer := buf\<rparr>) R c =
       (if d \<le> R \<and> R < d + n then bgrid con (R - d + s) c else bgrid con R c)"
    using move_rows [OF wf assms(2-6)] assms(9-11) by auto
  have cfg: "config (con\<lparr>buffer := buf\<rparr>) = config con" "console_wf (con\<lparr>buffer := buf\<rparr>)"
    "in_buffer (con\<lparr>buffer := buf\<rparr>) = in_buffer con"
    using same_frame_wf [OF buf(2)] wf by (simp_all add: in_buffer_def fun_eq_iff)
  obtain buf2 where buf2: "fill_cells F M v buf = Some buf2" "same_frame (con\<lparr>buffer := buf\<rparr>) (con\<lparr>buffer := buf2\<rparr>)"
    "\<forall>R c. in_buffer con R c \<longrightarrow> bgrid (con\<lparr>buffer := buf2\<rparr>) R c =
       (if f \<le> R \<and> R < f + \<bar>s - d\<bar> then v else bgrid (con\<lparr>buffer := buf\<rparr>) R c)"
    using fill_rows [OF cfg(2), of f "\<bar>s - d\<bar>" v] cfg assms(7,8,12,13) by auto
  have "rows_scrolled con (con\<lparr>buffer := buf2\<rparr>) d s n f v"
    using buf(3) buf2(3) unfolding rows_scrolled_def by (intro allI impI) presburger
  with buf(1) buf2(1) same_frame_trans [OF buf(2) buf2(2)] show ?thesis by auto
qed


text \<open>The scrolls, on the screen.\<close>

definition scrolled_up :: "co_console \<Rightarrow> co_console \<Rightarrow> int \<Rightarrow> int \<Rightarrow> int \<Rightarrow> cell \<Rightarrow> bool" where
  "scrolled_up con con' t b lines v \<longleftrightarrow>
     (\<forall>r c. on_screen con r c \<longrightarrow> grid con' r c =
        (if t \<le> r \<and> r < b - lines then grid con (r + lines) c
         else if b - lines \<le> r \<and> r < b then v else grid con r c))"

definition scrolled_down :: "co_console \<Rightarrow> co_console \<Rightarrow> int \<Rightarrow> int \<Rightarrow> int \<Rightarrow> cell \<Rightarrow> bool" where
  "scrolled_down con con' t b lines v \<longleftrightarrow>
     (\<forall>r c. on_screen con r c \<longrightarrow> grid con' r c =
        (if t \<le> r \<and> r < t + lines then v
         else if t + lines \<le> r \<and> r < b then grid con (r - lines) c else grid con r c))"

definition scrollback_moved :: "co_console \<Rightarrow> co_console \<Rightarrow> int \<Rightarrow> bool" where
  "scrollback_moved con con' lines \<longleftrightarrow>
     (\<forall>R c. in_buffer con R c \<and> R < cfg_max_y (config con) - cfg_y (config con) \<longrightarrow> bgrid con' R c = bgrid con (R + lines) c)"

lemma rows_scrolled_grid:
  assumes wf: "console_wf con" and fr: "same_frame con con'" and "rows_scrolled con con' d s n f v"
    and "on_screen con r c" and S: "k = cfg_max_y (config con) - cfg_y (config con)"
  shows "grid con' r c = (if f \<le> r + k \<and> r + k < f + \<bar>s - d\<bar> then v
    else if d \<le> r + k \<and> r + k < d + n then grid con (r - d + s) c else grid con r c)"
proof -
  have "in_buffer con (r + k) c"
    using assms by (auto simp: on_screen_def in_buffer_def console_wf_def Let_def)
  moreover have "grid con' r c = bgrid con' (r + k) c"
    using grid_bgrid [of con' r c] same_frame_wf [OF fr] wf fr S by (simp add: same_frame_def)
  moreover have "bgrid con (r + k - d + s) c = grid con (r - d + s) c" "bgrid con (r + k) c = grid con r c"
    using grid_bgrid [OF wf, of "r - d + s" c, folded S] grid_bgrid [OF wf, of r c, folded S]
    by (simp_all add: algebra_simps)
  ultimately show ?thesis
    using assms(3) by (simp add: rows_scrolled_def)
qed

definition scroll_ok :: "co_console \<Rightarrow> u16 \<Rightarrow> u16 \<Rightarrow> u16 \<Rightarrow> bool" where
  "scroll_ok con mtop mbottom nlines \<longleftrightarrow>
     (let t = uint mtop; b = uint mbottom + 1; lines = uint nlines in
      b \<le> cfg_y (config con) \<and> t + lines \<le> b \<and>
      (t = 0 \<and> b = cfg_y (config con) \<or> t + lines < cfg_max_y (config con)))"

lemma scroll_up_grid:
  assumes wf: "console_wf con" and ok: "scroll_ok con mtop mbottom nlines"
  shows "\<exists>con'. scroll_up con mtop mbottom nlines v = Some (RC_OK, con') \<and> same_frame con con' \<and>
    scrolled_up con con' (uint mtop) (uint mbottom + 1) (uint nlines) v \<and>
    scrollback_moved con con' (if uint mtop = 0 \<and> uint mbottom + 1 = cfg_y (config con) then uint nlines else 0)"
proof -
  let ?X = "cfg_x (config con)" and ?M = "cfg_max_y (config con)" and ?Y = "cfg_y (config con)"
  define t where "t = uint mtop"
  define b where "b = uint mbottom + 1"
  define l where "l = uint nlines"
  have pos: "0 \<le> t" "0 \<le> l" by (simp_all add: t_def l_def)
  have ok': "b \<le> ?Y" "t + l \<le> b" "t = 0 \<and> b = ?Y \<or> t + l < ?M" "?Y \<le> ?M"
    using ok wf by (auto simp: scroll_ok_def Let_def t_def b_def l_def console_wf_def)
  have scr: "screen con = ?X * (?M - ?Y)" using wf by (simp add: console_wf_def Let_def mult.commute)
  have ul: "ulong (?X * t) = ?X * t" "ulong (?X * l) = ?X * l" "ulong (?X * b - ?X * l) = ?X * b - ?X * l"
    "ulong (?X * ?M - ?X * l) = ?X * ?M - ?X * l"
    using row_ulong [OF wf, of 0 t] row_ulong [OF wf, of 0 l] row_ulong [OF wf, of l b] row_ulong [OF wf, of l ?M] ok' pos by auto
  note defs = t_def [symmetric] b_def [symmetric] l_def [symmetric]
  show ?thesis
  proof (cases "t \<noteq> 0 \<or> b \<noteq> ?Y")
    case True
    let ?k = "?M - ?Y"
    obtain con' where con': "(do { buf \<leftarrow> move_cells (screen con + ?X * t) (screen con + ?X * t + ?X * l) (?X * b - ?X * l - ?X * t) (buffer con);
        buf \<leftarrow> fill_cells (screen con + (?X * b - ?X * l)) (?X * l) v buf;
        Some (RC_OK, con\<lparr>buffer := buf\<rparr>) }) = Some (RC_OK, con')" "same_frame con con'"
      "rows_scrolled con con' (?k + t) (?k + t + l) (b - l - t) (?k + b - l) v"
      using move_and_fill [OF wf, of "?k + t" "?k + t + l" "b - l - t" "?k + b - l" "screen con + ?X * t"
          "screen con + ?X * t + ?X * l" "?X * b - ?X * l - ?X * t" "screen con + (?X * b - ?X * l)" "?X * l" v] ok' pos
      unfolding scr by (auto simp: algebra_simps)
    have "scrolled_up con con' t b l v"
      unfolding scrolled_up_def
    proof (intro allI impI)
      fix r c assume "on_screen con r c"
      from rows_scrolled_grid [OF wf con'(2,3) this refl]
      show "grid con' r c = (if t \<le> r \<and> r < b - l then grid con (r + l) c else if b - l \<le> r \<and> r < b then v else grid con r c)"
        using pos ok' by (auto simp: algebra_simps)
    qed
    moreover have "scrollback_moved con con' 0"
      using con'(3) pos ok' by (auto simp: scrollback_moved_def rows_scrolled_def)
    ultimately show ?thesis
      using con'(1,2) True ok' pos unfolding scroll_up_def Let_def defs ul by auto
  next
    case False
    obtain con' where con': "(do { buf \<leftarrow> move_cells 0 (?X * l) (?X * ?M - ?X * l) (buffer con);
        buf \<leftarrow> fill_cells (?X * ?M - ?X * l) (?X * l) v buf;
        Some (RC_OK, con\<lparr>buffer := buf\<rparr>) }) = Some (RC_OK, con')" "same_frame con con'"
      "rows_scrolled con con' 0 l (?M - l) (?M - l) v"
      using move_and_fill [OF wf, of 0 l "?M - l" "?M - l" 0 "?X * l" "?X * ?M - ?X * l" "?X * ?M - ?X * l" "?X * l" v] ok' pos False
      by (auto simp: algebra_simps)
    have "scrolled_up con con' t b l v"
      unfolding scrolled_up_def
    proof (intro allI impI)
      fix r c assume rc: "on_screen con r c"
      from rows_scrolled_grid [OF wf con'(2,3) this refl] rc
      show "grid con' r c = (if t \<le> r \<and> r < b - l then grid con (r + l) c else if b - l \<le> r \<and> r < b then v else grid con r c)"
        using pos ok' False by (auto simp: on_screen_def)
    qed
    moreover have "scrollback_moved con con' l"
      using con'(3) pos ok' False by (auto simp: scrollback_moved_def rows_scrolled_def in_buffer_def)
    ultimately show ?thesis
      using con'(1,2) False unfolding scroll_up_def Let_def defs ul by auto
  qed
qed

lemma scroll_down_grid:
  assumes wf: "console_wf con" and ok: "scroll_ok con mtop mbottom nlines"
  shows "\<exists>con'. scroll_down con mtop mbottom nlines v = Some (RC_OK, con') \<and> same_frame con con' \<and>
    scrolled_down con con' (uint mtop) (uint mbottom + 1) (uint nlines) v \<and> scrollback_moved con con' 0"
proof -
  let ?X = "cfg_x (config con)" and ?M = "cfg_max_y (config con)" and ?Y = "cfg_y (config con)"
  let ?k = "?M - ?Y"
  define t where "t = uint mtop"
  define b where "b = uint mbottom + 1"
  define l where "l = uint nlines"
  have pos: "0 \<le> t" "0 \<le> l" by (simp_all add: t_def l_def)
  have ok': "b \<le> ?Y" "t + l \<le> b" "t = 0 \<and> b = ?Y \<or> t + l < ?M" "?Y \<le> ?M"
    using ok wf by (auto simp: scroll_ok_def Let_def t_def b_def l_def console_wf_def)
  have scr: "screen con = ?X * ?k" using wf by (simp add: console_wf_def Let_def mult.commute)
  have ul: "ulong (?X * t) = ?X * t" "ulong (?X * l) = ?X * l"
    using row_ulong [OF wf, of 0 t] row_ulong [OF wf, of 0 l] ok' pos by auto
  note defs = t_def [symmetric] b_def [symmetric] l_def [symmetric]
  obtain con' where con': "(do { buf \<leftarrow> move_cells (screen con + ?X * t + ?X * l) (screen con + ?X * t) (?X * b - ?X * t - ?X * l) (buffer con);
      buf \<leftarrow> fill_cells (screen con + ?X * t) (?X * l) v buf;
      Some (RC_OK, con\<lparr>buffer := buf\<rparr>) }) = Some (RC_OK, con')" "same_frame con con'"
    "rows_scrolled con con' (?k + t + l) (?k + t) (b - t - l) (?k + t) v"
    using move_and_fill [OF wf, of "?k + t + l" "?k + t" "b - t - l" "?k + t" "screen con + ?X * t + ?X * l"
        "screen con + ?X * t" "?X * b - ?X * t - ?X * l" "screen con + ?X * t" "?X * l" v] ok' pos
    unfolding scr by (auto simp: algebra_simps)
  have "scrolled_down con con' t b l v"
    unfolding scrolled_down_def
  proof (intro allI impI)
    fix r c assume "on_screen con r c"
    from rows_scrolled_grid [OF wf con'(2,3) this refl]
    show "grid con' r c = (if t \<le> r \<and> r < t + l then v else if t + l \<le> r \<and> r < b then grid con (r - l) c else grid con r c)"
      using pos ok' by (auto simp: algebra_simps)
  qed
  moreover have "scrollback_moved con con' 0"
    using con'(3) pos ok' by (auto simp: scrollback_moved_def rows_scrolled_def)
  ultimately show ?thesis
    using con'(1,2) ok' pos unfolding scroll_down_def Let_def defs ul by auto
qed


text \<open>CLEAR.\<close>

definition region_filled :: "co_console \<Rightarrow> co_console \<Rightarrow> int \<Rightarrow> int \<Rightarrow> int \<Rightarrow> int \<Rightarrow> cell \<Rightarrow> bool" where
  "region_filled con con' t b l r v \<longleftrightarrow>
     (\<forall>R C. on_screen con R C \<longrightarrow> grid con' R C =
        (if t \<le> R \<and> R \<le> b \<and> l \<le> C \<and> C \<le> r then v else grid con R C))"

lemma fill_row:
  assumes wf: "console_wf con" and dst: "on_screen con y x" "on_screen con y (x + n)" and n: "0 \<le> n"
  shows "\<exists>buf. fill_cells (screen con + cfg_x (config con) * y + x) (n + 1) v (buffer con) = Some buf \<and>
    same_frame con (con\<lparr>buffer := buf\<rparr>) \<and>
    (\<forall>r c. on_screen con r c \<longrightarrow> grid (con\<lparr>buffer := buf\<rparr>) r c =
      (if r = y \<and> x \<le> c \<and> c \<le> x + n then v else grid con r c))"
proof -
  let ?X = "cfg_x (config con)"
  note pos = grid_pos [OF wf]
  obtain buf where buf: "fill_cells (screen con + ?X * y + x) (n + 1) v (buffer con) = Some buf"
    "length buf = length (buffer con)"
    "\<forall>i. 0 \<le> i \<and> i < int (length (buffer con)) \<longrightarrow> buf ! nat i =
      (if screen con + ?X * y + x \<le> i \<and> i < screen con + ?X * y + x + (n + 1) then v else buffer con ! nat i)"
    using fill_cells_Some [of "screen con + ?X * y + x" "n + 1" "buffer con" v] pos [OF dst(1)] pos [OF dst(2)] n console_room [OF wf] by auto
  have "grid (con\<lparr>buffer := buf\<rparr>) r c = (if r = y \<and> x \<le> c \<and> c \<le> x + n then v else grid con r c)"
    if rc: "on_screen con r c" for r c
  proof -
    have "screen con + ?X * y + x \<le> screen con + ?X * r + c \<and>
        screen con + ?X * r + c < screen con + ?X * y + x + (n + 1) \<longleftrightarrow> r = y \<and> x \<le> c \<and> c \<le> x + n"
      using same_row [of c ?X x "n + 1" y r] rc dst n by (auto simp: on_screen_def)
    with buf(3) pos [OF rc] show ?thesis by (auto simp: grid_def)
  qed
  with buf(1,2) show ?thesis by (auto simp: same_frame_def)
qed

lemma clear_rows_region:
  assumes "console_wf con" "0 \<le> t" "b < cfg_y (config con)" "0 \<le> l" "l \<le> r" "r < cfg_x (config con)"
  shows "\<exists>con'. clear_rows t b l r v con = Some con' \<and> same_frame con con' \<and> region_filled con con' t b l r v"
  using assms
proof (induction t b l r v con rule: clear_rows.induct)
  case (1 t b l r v con)
  show ?case
  proof (cases "t \<le> b")
    case False
    with 1 show ?thesis
      by (subst clear_rows.simps) (auto simp: same_frame_def region_filled_def)
  next
    case True
    obtain buf where buf: "fill_cells (screen con + cfg_x (config con) * t + l) (r - l + 1) v (buffer con) = Some buf"
      "same_frame con (con\<lparr>buffer := buf\<rparr>)"
      "\<forall>R C. on_screen con R C \<longrightarrow> grid (con\<lparr>buffer := buf\<rparr>) R C =
        (if R = t \<and> l \<le> C \<and> C \<le> l + (r - l) then v else grid con R C)"
      using fill_row [of con t l "r - l" v] 1 True by (auto simp: on_screen_def)
    have cfg: "config (con\<lparr>buffer := buf\<rparr>) = config con" "console_wf (con\<lparr>buffer := buf\<rparr>)"
      using same_frame_wf [OF buf(2)] 1 by simp_all
    obtain con' where con': "clear_rows (t + 1) b l r v (con\<lparr>buffer := buf\<rparr>) = Some con'"
      "same_frame (con\<lparr>buffer := buf\<rparr>) con'" "region_filled (con\<lparr>buffer := buf\<rparr>) con' (t + 1) b l r v"
      using 1 True buf(1) cfg by auto
    have "region_filled con con' t b l r v"
      using con'(3) buf(3) True on_screen_frame [OF buf(2)] unfolding region_filled_def
      by auto
    moreover have "clear_rows t b l r v con = Some con'"
      using True buf(1) con'(1) by (subst clear_rows.simps) simp
    ultimately show ?thesis using same_frame_trans [OF buf(2) con'(2)] by blast
  qed
qed

text \<open>Writing a string of cells.\<close>

lemma put_string_wf:
  assumes "console_wf con" "base = 0 \<and> rows = cfg_max_y (config con) \<or> base = screen con \<and> rows = cfg_y (config con)"
    and "unat count \<le> length cells"
  shows "\<exists>rc con'. put_string base rows con y x count cells = Some (rc, con') \<and> same_frame con con'"
proof (cases "uint y \<ge> rows \<or> uint x \<ge> cfg_x (config con)")
  case True
  then show ?thesis by (auto simp: put_string_def Let_def same_frame_def)
next
  case False
  let ?X = "cfg_x (config con)"
  define n where "n = (if uint count > ?X - uint x then ?X - uint x else uint count)"
  have "uint count = int (unat count)" by simp
  then have c: "0 \<le> uint count" "uint count \<le> int (length cells)" using assms(3) by linarith+
  then have n: "0 \<le> n" "n \<le> ?X - uint x" "\<not> int (length cells) < n"
    using False unfolding n_def by (auto simp only: not_le not_less split: if_splits)
  then have len: "int (length (take (nat n) cells)) = n" by auto
  have X: "0 \<le> ?X" using False by (smt (verit) unsigned_greater_eq)
  have "?X * uint y + ?X \<le> ?X * rows"
    using False X mult_left_mono [of "uint y + 1" rows ?X] by (simp add: distrib_left)
  moreover have "0 \<le> screen con"
    using assms(1) by (auto simp: console_wf_def Let_def)
  then have "0 \<le> base" "base + ?X * rows \<le> int (length (buffer con))"
    using assms(1,2) by (auto simp: console_wf_def Let_def algebra_simps)
  moreover have "0 \<le> ?X * uint y" using X by simp
  ultimately have "0 \<le> base + ?X * uint y + uint x"
    "base + ?X * uint y + uint x + int (length (take (nat n) cells)) \<le> int (length (buffer con))"
    using n len by (simp_all add: add_nonneg_nonneg)
  from put_cells_Some [OF this console_room [OF assms(1)]] obtain buf where
    "put_cells (base + ?X * uint y + uint x) (take (nat n) cells) (buffer con) = Some buf" "length buf = length (buffer con)"
    by blast
  with False n(3) show ?thesis
    unfolding put_string_def Let_def n_def [symmetric] same_frame_def by auto
qed

text \<open>The messages a driver that keeps to the screen sends.\<close>

definition message_ok :: "co_console \<Rightarrow> co_console_message \<Rightarrow> bool" where
  "message_ok con m =
     (case m of
        CONSOLE_SCROLL_UP t b lines v \<Rightarrow> scroll_ok con t b lines
      | CONSOLE_SCROLL_DOWN t b lines v \<Rightarrow> scroll_ok con t b lines
      | CONSOLE_PUTCS y x count cells \<Rightarrow> unat count \<le> length cells
      | CONSOLE_INIT_SCROLLBUFFER y x count cells \<Rightarrow> unat count \<le> length cells
      | CONSOLE_CLEAR t l b r v \<Rightarrow>
          uint b < cfg_y (config con) \<and> l \<le> r \<and> uint r < cfg_x (config con)
      | CONSOLE_BMOVE y x t l b r \<Rightarrow>
          l \<le> r \<and> t \<le> b \<and> uint r < cfg_x (config con) \<and> uint b < cfg_y (config con) \<and>
          uint x + (uint r - uint l) < cfg_x (config con) \<and> uint y + (uint b - uint t) < cfg_y (config con)
      | _ \<Rightarrow> True)"


text \<open>C18: on a console whose cells take less than \<open>2^32\<close> bytes, \<open>co_console_op\<close> on a message that keeps to the screen
  never touches a cell outside the console's buffer and keeps the console well formed; the configuration, the place of
  the screen in the buffer and the length of the buffer never change. A PUTC is safe for every position, and a PUTCS or
  an INIT\_SCROLLBUFFER for every position when the message carries as many cells as its count says, which the code
  does not check. Keeping to the screen (\<open>message_ok\<close>) is otherwise a condition on the scrolls, CLEAR and BMOVE only.\<close>

theorem co_console_op_safe:
  assumes "console_wf con" "message_ok con m"
  shows "\<exists>rc con' m'. co_console_op con m = Some (rc, con', m') \<and> console_wf con' \<and>
    config con' = config con \<and> screen con' = screen con \<and> length (buffer con') = length (buffer con)"
proof -
  have keep: ?thesis if "\<exists>rc con' m'. co_console_op con m = Some (rc, con', m') \<and> same_frame (con\<lparr>cursor := cursor con'\<rparr>) con'"
  proof -
    from that obtain rc con' m' where *: "co_console_op con m = Some (rc, con', m')" "same_frame (con\<lparr>cursor := cursor con'\<rparr>) con'"
      by blast
    have "console_wf (con\<lparr>cursor := cursor con'\<rparr>)" using assms(1) by (simp add: console_wf_def)
    with * same_frame_wf [OF *(2)] show ?thesis by (auto simp: same_frame_def)
  qed
  have frame: "same_frame (con\<lparr>cursor := cursor con'\<rparr>) con'" if "same_frame con con'" for con'
    using that by (simp add: same_frame_def)
  have frame': "same_frame (con\<lparr>cursor := cursor con\<rparr>) con"
    by (simp add: same_frame_def)
  show ?thesis
  proof (rule keep, cases m)
    case (CONSOLE_CLEAR t l b r v)
    with assms obtain con' where "clear_rows (uint t) (uint b) (uint l) (uint r) v con = Some con'" "same_frame con con'"
      using clear_rows_region [OF assms(1), of "uint t" "uint b" "uint l" "uint r" v]
      by (auto simp: message_ok_def word_le_def)
    with CONSOLE_CLEAR frame show "\<exists>rc con' m'. co_console_op con m = Some (rc, con', m') \<and> same_frame (con\<lparr>cursor := cursor con'\<rparr>) con'"
      by (auto simp: co_console_op_def)
  next
    case (CONSOLE_PUTC x y v)
    show "\<exists>rc con' m'. co_console_op con m = Some (rc, con', m') \<and> same_frame (con\<lparr>cursor := cursor con'\<rparr>) con'"
    proof (cases "uint y \<ge> cfg_y (config con) \<or> uint x \<ge> cfg_x (config con)")
      case True
      with CONSOLE_PUTC frame' show ?thesis by (auto simp: co_console_op_def Let_def)
    next
      case False
      then have "on_screen con (uint y) (uint x)" by (auto simp: on_screen_def)
      from grid_pos [OF assms(1) this] put_cells_Some [of _ "[v]" "buffer con"] console_room [OF assms(1)]
      obtain buf where "put_cells (screen con + cfg_x (config con) * uint y + uint x) [v] (buffer con) = Some buf"
        "length buf = length (buffer con)" by fastforce
      with CONSOLE_PUTC False show ?thesis
        by (auto simp: co_console_op_def Let_def same_frame_def)
    qed
  next
    case (CONSOLE_PUTCS y x count cells)
    with assms put_string_wf [OF assms(1), of "screen con" "cfg_y (config con)" count cells y x] frame
    show "\<exists>rc con' m'. co_console_op con m = Some (rc, con', m') \<and> same_frame (con\<lparr>cursor := cursor con'\<rparr>) con'"
      by (auto simp: co_console_op_def message_ok_def)
  next
    case (CONSOLE_INIT_SCROLLBUFFER y x count cells)
    with assms put_string_wf [OF assms(1), of 0 "cfg_max_y (config con)" count cells y x] frame
    show "\<exists>rc con' m'. co_console_op con m = Some (rc, con', m') \<and> same_frame (con\<lparr>cursor := cursor con'\<rparr>) con'"
      by (auto simp: co_console_op_def message_ok_def)
  next
    case (CONSOLE_SCROLL_UP t b lines v)
    with assms scroll_up_grid [OF assms(1), of t b lines v] frame
    show "\<exists>rc con' m'. co_console_op con m = Some (rc, con', m') \<and> same_frame (con\<lparr>cursor := cursor con'\<rparr>) con'"
      by (auto simp: co_console_op_def message_ok_def)
  next
    case (CONSOLE_SCROLL_DOWN t b lines v)
    with assms scroll_down_grid [OF assms(1), of t b lines v] frame
    show "\<exists>rc con' m'. co_console_op con m = Some (rc, con', m') \<and> same_frame (con\<lparr>cursor := cursor con'\<rparr>) con'"
      by (auto simp: co_console_op_def message_ok_def)
  next
    case (CONSOLE_BMOVE y x t l b r)
    with assms have ok: "uint l \<le> uint r" "uint r < cfg_x (config con)" "uint b < cfg_y (config con)"
      "uint x + (uint r - uint l) < cfg_x (config con)" "uint y + (uint b - uint t) < cfg_y (config con)"
      by (auto simp: message_ok_def word_le_def)
    have "\<exists>con'. (if uint y < uint t
        then bmove_down (uint y) (uint x) (uint t) (uint l) (uint b) (uint r) con
        else bmove_up (uint y + (uint b - uint t)) (uint x) (uint t) (uint l) (uint b) (uint r) con) = Some con' \<and>
        same_frame con con'"
      using bmove_down_region [OF assms(1), of "uint y" "uint t" "uint x" "uint r" "uint l" "uint b"]
        bmove_up_region [OF assms(1), of "uint t" "uint y" "uint x" "uint r" "uint l" "uint b"] ok
      by (cases "uint y < uint t") auto
    with CONSOLE_BMOVE frame show "\<exists>rc con' m'. co_console_op con m = Some (rc, con', m') \<and> same_frame (con\<lparr>cursor := cursor con'\<rparr>) con'"
      by (auto simp: co_console_op_def simp del: if_split)
  next
    case CONSOLE_SWITCH
    let ?k = "cfg_max_y (config con) - cfg_y (config con)"
    obtain buf where "fill_cells (cfg_x (config con) * 0) (cfg_x (config con) * ?k) 0 (buffer con) = Some buf"
      "same_frame con (con\<lparr>buffer := buf\<rparr>)"
      using fill_rows [OF assms(1), of 0 ?k 0] assms(1) by (auto simp: console_wf_def Let_def)
    moreover have "cell_index (cfg_x (config con) * ?k) = cfg_x (config con) * ?k"
    proof -
      have "0 \<le> ?k" using assms(1) by (simp add: console_wf_def Let_def)
      moreover have "0 + ?k \<le> cfg_max_y (config con)" using assms(1) by (simp add: console_wf_def Let_def)
      ultimately show ?thesis
        using rows_room [OF assms(1) order_refl] console_room [OF assms(1)] by (intro cell_index_id) fastforce+
    qed
    ultimately show "\<exists>rc con' m'. co_console_op con m = Some (rc, con', m') \<and> same_frame (con\<lparr>cursor := cursor con'\<rparr>) con'"
      using CONSOLE_SWITCH frame by (auto simp: co_console_op_def)
  qed (auto simp: co_console_op_def same_frame_def)
qed

text \<open>C19: the scroll messages that keep to the screen (\<open>scroll_ok\<close>) move the rows of the region and blank the rows that
  come free, and change nothing else on the screen. The rows of the scroll-back buffer above the screen stay what they
  are, except that scrolling the whole screen up moves them up too, the rows that leave the screen becoming the last
  of them. (Scrolling the whole screen down leaves them, although the comment at it says otherwise.)\<close>

theorem co_console_scrolls:
  assumes "console_wf con" "scroll_ok con t b lines"
  shows "(\<exists>con'. co_console_op con (CONSOLE_SCROLL_UP t b lines v) = Some (RC_OK, con', CONSOLE_SCROLL_UP t b lines v) \<and>
            scrolled_up con con' (uint t) (uint b + 1) (uint lines) v \<and>
            scrollback_moved con con' (if uint t = 0 \<and> uint b + 1 = cfg_y (config con) then uint lines else 0)) \<and>
         (\<exists>con'. co_console_op con (CONSOLE_SCROLL_DOWN t b lines v) = Some (RC_OK, con', CONSOLE_SCROLL_DOWN t b lines v) \<and>
            scrolled_down con con' (uint t) (uint b + 1) (uint lines) v \<and> scrollback_moved con con' 0)"
  using scroll_up_grid [OF assms, of v] scroll_down_grid [OF assms, of v] by (auto simp: co_console_op_def)

text \<open>C30: BMOVE copies a rectangle of the screen to another place, also when the two overlap, because it walks
  the rows away from the destination, and CLEAR blanks exactly its rectangle; no other cell of the
  screen changes.\<close>

theorem co_console_regions:
  assumes "console_wf con" "message_ok con (CONSOLE_BMOVE y x t l b r)"
  shows "(\<exists>con'. co_console_op con (CONSOLE_BMOVE y x t l b r) = Some (RC_OK, con', CONSOLE_BMOVE y x t l b r) \<and>
            region_copied con con' (uint y) (uint x) (uint t) (uint l) (uint b) (uint r)) \<and>
         (\<exists>con'. co_console_op con (CONSOLE_CLEAR t l b r v) = Some (RC_OK, con', CONSOLE_CLEAR t l b r v) \<and>
            region_filled con con' (uint t) (uint b) (uint l) (uint r) v)"
proof -
  have ok: "uint l \<le> uint r" "uint r < cfg_x (config con)" "uint b < cfg_y (config con)"
    "uint x + (uint r - uint l) < cfg_x (config con)" "uint y + (uint b - uint t) < cfg_y (config con)"
    using assms(2) by (auto simp: message_ok_def word_le_def)
  have "\<exists>con'. (if uint y < uint t
      then bmove_down (uint y) (uint x) (uint t) (uint l) (uint b) (uint r) con
      else bmove_up (uint y + (uint b - uint t)) (uint x) (uint t) (uint l) (uint b) (uint r) con) = Some con' \<and>
      region_copied con con' (uint y) (uint x) (uint t) (uint l) (uint b) (uint r)"
    using bmove_down_region [OF assms(1), of "uint y" "uint t" "uint x" "uint r" "uint l" "uint b"]
      bmove_up_region [OF assms(1), of "uint t" "uint y" "uint x" "uint r" "uint l" "uint b"] ok
    by (cases "uint y < uint t") auto
  moreover have "\<exists>con'. clear_rows (uint t) (uint b) (uint l) (uint r) v con = Some con' \<and>
      region_filled con con' (uint t) (uint b) (uint l) (uint r) v"
    using clear_rows_region [OF assms(1), of "uint t" "uint b" "uint l" "uint r" v] ok by auto
  ultimately show ?thesis by (auto simp: co_console_op_def simp del: if_split)
qed

text \<open>A console of 2 rows and 3 columns with one row of scroll-back.\<close>

definition console_example :: co_console where
  "console_example = \<lparr>config = \<lparr>cfg_x = 3, cfg_y = 2, cfg_max_y = 3, cfg_curs_type_size = 0, cfg_attr = 7\<rparr>,
     screen = 3, buffer = [1, 2, 3, 4, 5, 6, 7, 8, 9], cursor = \<lparr>cur_x = 0, cur_y = 0, cur_height = 0\<rparr>\<rparr>"

theorem co_console_op_safe_witness:
  "\<exists>rc con' m'. co_console_op console_example (CONSOLE_CLEAR 0 1 1 2 32) = Some (rc, con', m') \<and> console_wf con' \<and>
    config con' = config console_example \<and> screen con' = screen console_example \<and>
    length (buffer con') = length (buffer console_example)"
  by (rule co_console_op_safe) (simp_all add: console_example_def console_wf_def message_ok_def)

theorem co_console_scrolls_witness:
  "(\<exists>con'. co_console_op console_example (CONSOLE_SCROLL_UP 0 1 1 32) = Some (RC_OK, con', CONSOLE_SCROLL_UP 0 1 1 32) \<and>
      scrolled_up console_example con' (uint (0 :: u16)) (uint (1 :: u16) + 1) (uint (1 :: u16)) 32 \<and>
      scrollback_moved console_example con' 1) \<and>
   (\<exists>con'. co_console_op console_example (CONSOLE_SCROLL_DOWN 0 1 1 32) = Some (RC_OK, con', CONSOLE_SCROLL_DOWN 0 1 1 32) \<and>
      scrolled_down console_example con' (uint (0 :: u16)) (uint (1 :: u16) + 1) (uint (1 :: u16)) 32 \<and>
      scrollback_moved console_example con' 0)"
  using co_console_scrolls [of console_example 0 1 1 32]
  by (simp add: console_example_def console_wf_def scroll_ok_def)

theorem co_console_regions_witness:
  "(\<exists>con'. co_console_op console_example (CONSOLE_BMOVE 1 0 0 1 0 2) = Some (RC_OK, con', CONSOLE_BMOVE 1 0 0 1 0 2) \<and>
      region_copied console_example con' (uint (1 :: u16)) (uint (0 :: u16)) (uint (0 :: u16)) (uint (1 :: u16))
        (uint (0 :: u16)) (uint (2 :: u16))) \<and>
   (\<exists>con'. co_console_op console_example (CONSOLE_CLEAR 0 1 0 2 32) = Some (RC_OK, con', CONSOLE_CLEAR 0 1 0 2 32) \<and>
      region_filled console_example con' (uint (0 :: u16)) (uint (0 :: u16)) (uint (1 :: u16)) (uint (2 :: u16)) 32)"
  by (rule co_console_regions) (simp_all add: console_example_def console_wf_def message_ok_def)

text \<open>What \<open>co_console_create\<close> makes is well formed when its size is computed without wrapping; \<open>config.c\<close> bounds the
  number of rows but not that of columns, and where the size wraps the first PUTC may lie outside the block.\<close>

lemma co_console_create_wf:
  assumes "0 < cfg_x cfg" "0 < cfg_y cfg" "cfg_y cfg \<le> cfg_max_y cfg" "2 * cfg_x cfg * cfg_max_y cfg + sizeof_console < 2 ^ 32"
  shows "\<exists>con. co_console_create cfg True = Some (RC_OK, Some con) \<and> console_wf con"
proof -
  let ?z = "cfg_x cfg * cfg_max_y cfg"
  have z: "0 < ?z" "2 * ?z + sizeof_console < 2 ^ 32" using assms mult_pos_pos [of "cfg_x cfg" "cfg_max_y cfg"] by simp_all
  have "ulong (ulong (2 * cfg_x cfg * cfg_max_y cfg) + sizeof_console) = 2 * ?z + sizeof_console"
    using z by (simp add: ulong_def mult.assoc)
  moreover have "(2 * ?z + sizeof_console - sizeof_console) div 2 = ?z" by simp
  moreover have "z < 2147483648" if "2 * z + sizeof_console < 2 ^ 32" for z using that by simp
  note this [OF z(2)]
  ultimately show ?thesis
    using assms(1-3) unfolding co_console_create_def console_wf_def Let_def by (simp add: mult_less_0_iff)
qed

lemma co_console_create_wraps:
  "\<exists>con. co_console_create \<lparr>cfg_x = 2 ^ 24, cfg_y = 128, cfg_max_y = 128, cfg_curs_type_size = 0, cfg_attr = 7\<rparr> True =
     Some (RC_OK, Some con) \<and> co_console_op con (CONSOLE_PUTC 0 0 32) = None"
  by (simp add: co_console_create_def ulong_def co_console_op_def put_cells_def cell_index_def)

text \<open>The checks of the console are not enough for an arbitrary guest: SCROLL\_UP bounds the last row by
  the height of the buffer, although rows count from the top of the screen, and CLEAR and
  BMOVE have no check at all, so that messages that pass write outside the buffer.\<close>

lemma co_console_unchecked:
  "co_console_op console_example (CONSOLE_SCROLL_UP 1 2 1 32) = None \<and>
   co_console_op console_example (CONSOLE_CLEAR 2 0 2 2 32) = None \<and>
   co_console_op console_example (CONSOLE_BMOVE 2 0 0 0 0 2) = None"
  by code_simp

end
