(* ===== verification/CoPages.thy ===== *)
theory CoPages
  imports CoErrors
begin

text \<open>
  The guest's pseudo physical memory: \<open>src/colinux/kernel/pages.c\<close>, \<open>reversedpfns.c\<close> and
  \<open>transfer.c\<close>. The guest's virtual pages are found through the two level table \<open>pp_pfns\<close>, the
  host's pages are byte arrays reached by their frame number (\<open>co_os_map\<close> and \<open>co_os_unmap\<close>), and
  mapping a frame that is not there is \<open>None\<close>. What the host answers to \<open>co_os_get_page\<close> and
  \<open>co_monitor_malloc\<close> are two lists in the state, consumed in order, and
  \<open>os_fill\<close> is what a page holds when the host hands it out. The abstract view is the
  function \<open>vread\<close> from the guest's virtual addresses to bytes.
\<close>

type_synonym pfn = u32
type_synonym page = "nat \<Rightarrow> u8"

abbreviation CO_ARCH_PAGE_SHIFT :: nat where "CO_ARCH_PAGE_SHIFT \<equiv> 12"
abbreviation CO_ARCH_PAGE_SIZE :: u32 where "CO_ARCH_PAGE_SIZE \<equiv> 0x1000"
abbreviation CO_ARCH_PAGE_MASK :: u32 where "CO_ARCH_PAGE_MASK \<equiv> NOT (mask 12)"
abbreviation PTRS_PER_PTE :: u32 where "PTRS_PER_PTE \<equiv> 1024"
abbreviation PTRS_PER_PGD :: u32 where "PTRS_PER_PGD \<equiv> 1024"
abbreviation CO_ARCH_KERNEL_OFFSET :: u32 where "CO_ARCH_KERNEL_OFFSET \<equiv> 0xc0000000"
abbreviation CO_VPTR_BASE :: u32 where "CO_VPTR_BASE \<equiv> 0xffc00000"
abbreviation CO_VPTR_PHYSICAL_TO_PSEUDO_PFN_MAP :: u32 where
  "CO_VPTR_PHYSICAL_TO_PSEUDO_PFN_MAP \<equiv> CO_VPTR_BASE - 0x1000000"
abbreviation CO_VPTR_PSEUDO_RAM_PAGE_TABLES :: u32 where
  "CO_VPTR_PSEUDO_RAM_PAGE_TABLES \<equiv> CO_VPTR_BASE - 0x1100000"
abbreviation PTE_FLAGS :: u32 where "PTE_FLAGS \<equiv> 0x63" (* PRESENT, RW, ACCESSED, DIRTY *)
abbreviation KERNPG_TABLE :: u32 where "KERNPG_TABLE \<equiv> 0x63"

record vm =
  phys :: "pfn \<rightharpoonup> page"
  pp_pfns :: "u32 \<rightharpoonup> (u32 \<Rightarrow> pfn)"
  hostmem_pages :: u32
  end_physical :: u32
  reversed_page_count :: u32
  reversed_map_pfns :: "pfn list"
  reversed_map_pgds :: "u32 option list"
  os_pages :: "pfn option list"
  os_fill :: "pfn \<Rightarrow> page"
  os_mallocs :: "bool list"

text \<open>The host's answers. An empty list of answers stands for a host without memory.\<close>

definition co_os_get_page :: "vm \<Rightarrow> co_rc \<times> pfn \<times> vm" where
  "co_os_get_page m =
     (case os_pages m of
        Some p # ps \<Rightarrow> (RC_OK, p, m\<lparr>os_pages := ps, phys := (phys m)(p \<mapsto> os_fill m p)\<rparr>)
      | None # ps \<Rightarrow> (RC_OUT_OF_PAGES, 0, m\<lparr>os_pages := ps\<rparr>)
      | [] \<Rightarrow> (RC_OUT_OF_PAGES, 0, m))"

definition co_os_put_page :: "pfn \<Rightarrow> vm \<Rightarrow> vm option" where
  "co_os_put_page p m = (if p \<in> dom (phys m) then Some (m\<lparr>phys := (phys m)(p := None)\<rparr>) else None)"

definition co_monitor_malloc :: "vm \<Rightarrow> bool \<times> vm" where
  "co_monitor_malloc m = (case os_mallocs m of b # bs \<Rightarrow> (b, m\<lparr>os_mallocs := bs\<rparr>) | [] \<Rightarrow> (False, m))"

text \<open>32-bit values in a page, low byte first.\<close>

definition write_u32 :: "nat \<Rightarrow> u32 \<Rightarrow> page \<Rightarrow> page" where
  "write_u32 off w p = p(off := ucast w, off + 1 := ucast (drop_bit 8 w),
     off + 2 := ucast (drop_bit 16 w), off + 3 := ucast (drop_bit 24 w))"

definition read_u32 :: "nat \<Rightarrow> page \<Rightarrow> u32" where
  "read_u32 off p = ucast (p off) OR push_bit 8 (ucast (p (off + 1))) OR
     push_bit 16 (ucast (p (off + 2))) OR push_bit 24 (ucast (p (off + 3)))"

section \<open>pages.c\<close>

definition co_manager_get_page :: "vm \<Rightarrow> co_rc \<times> pfn \<times> vm" where
  "co_manager_get_page m =
     (let (rc, p, m) = co_os_get_page m in
      if \<not> rc_ok rc then (rc, p, m)
      else if p \<ge> hostmem_pages m then (RC_ERROR, p, m)
      else (rc, p, m))"

definition pfn_group :: "u32 \<Rightarrow> u32" where
  "pfn_group address = drop_bit CO_ARCH_PAGE_SHIFT address div PTRS_PER_PTE"

definition pfn_index :: "u32 \<Rightarrow> u32" where
  "pfn_index address = drop_bit CO_ARCH_PAGE_SHIFT address mod PTRS_PER_PTE"

definition page_offset :: "u32 \<Rightarrow> nat" where
  "page_offset address = unat (address AND NOT CO_ARCH_PAGE_MASK)"

text \<open>The bytes from an address to the end of its page.\<close>

definition page_rest :: "u32 \<Rightarrow> u32" where
  "page_rest offset = ((offset + CO_ARCH_PAGE_SIZE) AND CO_ARCH_PAGE_MASK) - offset"

definition co_monitor_get_pfn :: "vm \<Rightarrow> u32 \<Rightarrow> co_rc + pfn" where
  "co_monitor_get_pfn m address =
     (case pp_pfns m (pfn_group address) of
        None \<Rightarrow> Inl RC_ERROR
      | Some table \<Rightarrow> Inr (table (pfn_index address)))"

text \<open>Words and pages.\<close>

lemma and_not_mask: "v AND NOT (mask n) = v - take_bit n v" for v :: u32
proof -
  have "push_bit n (drop_bit n v) = v AND NOT (mask n)"
    by (rule bit_eqI) (auto simp: bit_simps)
  with bits_ident [of n v] show ?thesis by (metis add_diff_cancel_right')
qed

lemma unat_take_bit_page: "unat (take_bit 12 v :: u32) = unat v mod 4096"
  by (simp only: unsigned_take_bit_eq) (simp add: take_bit_eq_mod)

lemma take_bit_page: "take_bit 12 (v + CO_ARCH_PAGE_SIZE) = take_bit 12 v"
proof -
  have "(unat v + 4096) mod 2 ^ 32 mod 4096 = unat v mod (4096 :: nat)"
    by (simp add: mod_mod_cancel)
  then show ?thesis
    by (simp add: word_unat_eq_iff unat_take_bit_page unat_word_ariths)
qed

lemma page_rest_eq: "page_rest v = CO_ARCH_PAGE_SIZE - take_bit 12 v"
  unfolding page_rest_def and_not_mask take_bit_page by simp

lemma page_rest_unat: "unat (page_rest v) = 4096 - unat v mod 4096"
proof -
  have "take_bit 12 v \<le> CO_ARCH_PAGE_SIZE"
    using unat_take_bit_page [of v] mod_less_divisor [of 4096 "unat v"] by (simp add: word_le_nat_alt)
  then show ?thesis
    by (simp add: page_rest_eq unat_sub unat_take_bit_page)
qed

lemma page_offset_eq: "page_offset v = unat v mod 4096"
  by (simp add: page_offset_def unat_take_bit_page flip: take_bit_eq_mask)

lemma page_rest_pos: "page_rest v \<noteq> 0"
proof
  assume "page_rest v = 0"
  then have "4096 - unat v mod 4096 = 0" using page_rest_unat [of v] by simp
  then show False using mod_less_divisor [of 4096 "unat v"] by simp
qed

definition part_of :: "u32 \<Rightarrow> u32 \<Rightarrow> u32" where
  "part_of offset bytes = (if page_rest offset > bytes then bytes else page_rest offset)"

lemma part_of_less: "bytes \<noteq> 0 \<Longrightarrow> unat (bytes - part_of offset bytes) < unat bytes"
  and part_of_pos: "bytes \<noteq> 0 \<Longrightarrow> part_of offset bytes \<noteq> 0"
  and part_of_le: "part_of offset bytes \<le> bytes"
proof -
  show le: "part_of offset bytes \<le> bytes" by (auto simp: part_of_def)
  show pos: "bytes \<noteq> 0 \<Longrightarrow> part_of offset bytes \<noteq> 0"
    using page_rest_pos by (auto simp: part_of_def)
  show "bytes \<noteq> 0 \<Longrightarrow> unat (bytes - part_of offset bytes) < unat bytes"
    using le pos by (simp add: unat_sub unat_gt_0)
qed

function co_split_by_pages_and_callback ::
    "u32 \<Rightarrow> u32 \<Rightarrow> 's \<Rightarrow> (u32 \<Rightarrow> u32 \<Rightarrow> 's \<Rightarrow> (co_rc \<times> 's) option) \<Rightarrow> (co_rc \<times> 's) option" where
  "co_split_by_pages_and_callback offset bytes data func =
     (if bytes = 0 then Some (RC_OK, data)
      else
        let part_size = part_of offset bytes in
        case func offset part_size data of
          None \<Rightarrow> None
        | Some (rc, data) \<Rightarrow>
            if \<not> rc_ok rc then Some (rc, data)
            else co_split_by_pages_and_callback (offset + part_size) (bytes - part_size) data func)"
  by pat_completeness auto
termination
  by (relation "measure (\<lambda>(offset, bytes, data, func). unat bytes)") (auto simp: part_of_less)

declare co_split_by_pages_and_callback.simps [simp del]

text \<open>A callback on a mapped page: the offset of the part in the page, its size, the page, the data.\<close>

type_synonym 'd mapped_callback = "nat \<Rightarrow> nat \<Rightarrow> page \<Rightarrow> 'd \<Rightarrow> (page \<times> 'd) option"

text \<open>The table of a group of 1024 pages, allocated and zeroed when it is missing.\<close>

definition ensure_group :: "u32 \<Rightarrow> vm \<Rightarrow> bool \<times> vm" where
  "ensure_group grp m =
     (if pp_pfns m grp = None
      then let (ok, m) = co_monitor_malloc m in
           if ok then (True, m\<lparr>pp_pfns := (pp_pfns m)(grp \<mapsto> (\<lambda>_. 0))\<rparr>) else (False, m)
      else (True, m))"

definition set_pfn :: "u32 \<Rightarrow> u32 \<Rightarrow> pfn \<Rightarrow> vm \<Rightarrow> vm" where
  "set_pfn grp index p m =
     (case pp_pfns m grp of
        None \<Rightarrow> m | Some table \<Rightarrow> m\<lparr>pp_pfns := (pp_pfns m)(grp \<mapsto> table(index := p))\<rparr>)"

definition scan_pfns_split_callback ::
    "'d mapped_callback option \<Rightarrow> bool \<Rightarrow> u32 \<Rightarrow> u32 \<Rightarrow> 'd \<times> vm \<Rightarrow> (co_rc \<times> 'd \<times> vm) option" where
  "scan_pfns_split_callback func alloc_pages offset bytes s =
     (let (data, m) = s;
          grp = pfn_group offset; index = pfn_index offset;
          (ok, m) = ensure_group grp m
      in if \<not> ok then Some (RC_ERROR, data, m)
         else if \<not> alloc_pages then Some (RC_OK, data, m)
         else do {
           table \<leftarrow> pp_pfns m grp;
           let real_pfn = table index;
           let (rc, real_pfn, m) =
             (if real_pfn = 0
              then let (rc, p, m) = co_manager_get_page m in
                   if \<not> rc_ok rc then (rc, p, m) else (rc, p, set_pfn grp index p m)
              else (RC_OK, real_pfn, m));
           if \<not> rc_ok rc then Some (rc, data, m)
           else (case func of
               None \<Rightarrow> Some (RC_OK, data, m)
             | Some f \<Rightarrow> do {
                 mapped_page \<leftarrow> phys m real_pfn;
                 (mapped_page, data) \<leftarrow> f (page_offset offset) (unat bytes) mapped_page data;
                 Some (RC_OK, data, m\<lparr>phys := (phys m)(real_pfn \<mapsto> mapped_page)\<rparr>) }) })"

definition co_manager_scan_pfns_and_callback ::
    "vm \<Rightarrow> u32 \<Rightarrow> u32 \<Rightarrow> 'd mapped_callback option \<Rightarrow> 'd \<Rightarrow> bool \<Rightarrow> (co_rc \<times> 'd \<times> vm) option" where
  "co_manager_scan_pfns_and_callback m address bytes func data alloc_pages =
     co_split_by_pages_and_callback address bytes (data, m) (scan_pfns_split_callback func alloc_pages)"

definition put_bytes :: "nat \<Rightarrow> u8 list \<Rightarrow> page \<Rightarrow> page" where
  "put_bytes off bs p = (\<lambda>i. if off \<le> i \<and> i < off + length bs then bs ! (i - off) else p i)"

definition get_bytes :: "nat \<Rightarrow> nat \<Rightarrow> page \<Rightarrow> u8 list" where
  "get_bytes off n p = map p [off..<off + n]"

definition copy_callback :: "u8 list mapped_callback" where
  "copy_callback off n p data =
     (if length data < n then None else Some (put_bytes off (take n data) p, drop n data))"

definition co_monitor_copy_and_create_pfns :: "vm \<Rightarrow> u32 \<Rightarrow> u32 \<Rightarrow> u8 list \<Rightarrow> (co_rc \<times> vm) option" where
  "co_monitor_copy_and_create_pfns m address bytes source = do {
     (rc, source, m) \<leftarrow> co_manager_scan_pfns_and_callback m address bytes (Some copy_callback) source True;
     Some (rc, m) }"

definition co_monitor_scan_and_create_pfns :: "vm \<Rightarrow> u32 \<Rightarrow> u32 \<Rightarrow> (co_rc \<times> vm) option" where
  "co_monitor_scan_and_create_pfns m address bytes = do {
     (rc, d, m) \<leftarrow> co_manager_scan_pfns_and_callback m address bytes (None :: unit mapped_callback option) () True;
     Some (rc, m) }"

definition pte_of :: "pfn \<Rightarrow> u32" where
  "pte_of p = (if p \<noteq> 0 then push_bit CO_ARCH_PAGE_SHIFT p OR PTE_FLAGS else 0)"

fun create_ptes_callback_loop :: "nat \<Rightarrow> nat \<Rightarrow> page \<Rightarrow> pfn list \<Rightarrow> (page \<times> pfn list) option" where
  "create_ptes_callback_loop 0 off p pfns = Some (p, pfns)"
| "create_ptes_callback_loop (Suc i) off p [] = None"
| "create_ptes_callback_loop (Suc i) off p (f # pfns) =
     create_ptes_callback_loop i (off + 4) (write_u32 off (pte_of f) p) pfns"

definition create_ptes_callback :: "pfn list mapped_callback" where
  "create_ptes_callback off n p pfns = create_ptes_callback_loop (n div 4) off p pfns"

definition co_monitor_create_ptes :: "vm \<Rightarrow> u32 \<Rightarrow> u32 \<Rightarrow> pfn list \<Rightarrow> (co_rc \<times> vm) option" where
  "co_monitor_create_ptes m address bytes source = do {
     (rc, source, m) \<leftarrow> co_manager_scan_pfns_and_callback m address bytes (Some create_ptes_callback) source True;
     Some (rc, m) }"

section \<open>reversedpfns.c\<close>

definition co_manager_set_reversed_pfn :: "vm \<Rightarrow> pfn \<Rightarrow> u32 \<Rightarrow> (co_rc \<times> vm) option" where
  "co_manager_set_reversed_pfn m real_pfn pseudo_pfn =
     (let top_level = real_pfn div PTRS_PER_PTE in
      if top_level \<ge> reversed_page_count m then Some (RC_ERROR, m)
      else if length (reversed_map_pfns m) \<le> unat top_level then None
      else
        let entry = unat (real_pfn mod PTRS_PER_PTE);
            mapped_pfn = reversed_map_pfns m ! unat top_level
        in do {
          reversed_pfns \<leftarrow> phys m mapped_pfn;
          Some (RC_OK, m\<lparr>phys := (phys m)(mapped_pfn \<mapsto> write_u32 (4 * entry) pseudo_pfn reversed_pfns)\<rparr>) })"

text \<open>The two tables are arrays; one that is not allocated is empty. The first loop of
  \<open>co_manager_alloc_reversed_pfns\<close> takes \<open>n\<close> pages for the map itself, from its entry \<open>i\<close> on.\<close>

fun alloc_map_pages :: "nat \<Rightarrow> nat \<Rightarrow> vm \<Rightarrow> co_rc \<times> vm" where
  "alloc_map_pages 0 i m = (RC_OK, m)"
| "alloc_map_pages (Suc n) i m =
     (let (rc, p, m) = co_manager_get_page m in
      if \<not> rc_ok rc then (rc, m)
      else alloc_map_pages n (i + 1) (m\<lparr>reversed_map_pfns := (reversed_map_pfns m)[i := p]\<rparr>))"

text \<open>The page table that maps the pages of the map from number \<open>count\<close> on.\<close>

fun fill_page_table :: "nat \<Rightarrow> nat \<Rightarrow> vm \<Rightarrow> page \<Rightarrow> nat \<Rightarrow> (page \<times> nat) option" where
  "fill_page_table 0 j m pte count = Some (pte, count)"
| "fill_page_table (Suc k) j m pte count =
     (if count \<ge> unat (reversed_page_count m) then fill_page_table k (j + 1) m (write_u32 (4 * j) 0 pte) count
      else if length (reversed_map_pfns m) \<le> count then None
      else fill_page_table k (j + 1) m
        (write_u32 (4 * j) (push_bit CO_ARCH_PAGE_SHIFT (reversed_map_pfns m ! count) OR PTE_FLAGS) pte)
        (count + 1))"

fun alloc_map_pgds :: "nat \<Rightarrow> nat \<Rightarrow> u32 \<Rightarrow> nat \<Rightarrow> vm \<Rightarrow> (co_rc \<times> vm) option" where
  "alloc_map_pgds 0 i covered count m = Some (RC_OK, m)"
| "alloc_map_pgds (Suc n) i covered count m =
     (if covered \<ge> hostmem_pages m
      then alloc_map_pgds n (i + 1) covered count (m\<lparr>reversed_map_pgds := (reversed_map_pgds m)[i := Some 0]\<rparr>)
      else
        let (rc, p, m) = co_manager_get_page m in
        if \<not> rc_ok rc then Some (rc, m)
        else do {
          pte \<leftarrow> phys m p;
          (pte, count) \<leftarrow> fill_page_table (unat PTRS_PER_PTE) 0 m pte count;
          let m = m\<lparr>phys := (phys m)(p \<mapsto> pte),
                    reversed_map_pgds := (reversed_map_pgds m)[i := Some (push_bit CO_ARCH_PAGE_SHIFT p OR KERNPG_TABLE)]\<rparr>;
          alloc_map_pgds n (i + 1) (covered + PTRS_PER_PTE * PTRS_PER_PGD) count m })"

abbreviation reversed_map_pgds_count :: u32 where
  "reversed_map_pgds_count \<equiv>
     (CO_VPTR_BASE - CO_VPTR_PHYSICAL_TO_PSEUDO_PFN_MAP) div PTRS_PER_PTE div PTRS_PER_PGD div 4"

text \<open>The first table is zeroed, the second is not; without memory for the second, the loop writes through \<open>NULL\<close>.\<close>

definition co_manager_alloc_reversed_pfns :: "vm \<Rightarrow> (co_rc \<times> vm) option" where
  "co_manager_alloc_reversed_pfns m =
     (let count = hostmem_pages m div PTRS_PER_PTE;
          (ok, m) = co_monitor_malloc (m\<lparr>reversed_page_count := count\<rparr>)
      in if \<not> ok then Some (RC_OUT_OF_MEMORY, m)
         else
           let (rc, m) = alloc_map_pages (unat count) 0 (m\<lparr>reversed_map_pfns := replicate (unat count) 0\<rparr>) in
           if \<not> rc_ok rc then Some (rc, m)
           else
             let (ok, m) = co_monitor_malloc m in
             if \<not> ok then None
             else alloc_map_pgds (unat reversed_map_pgds_count) 0 0 0
               (m\<lparr>reversed_map_pgds := replicate (unat reversed_map_pgds_count) None\<rparr>))"

fun put_pages :: "pfn list \<Rightarrow> vm \<Rightarrow> vm option" where
  "put_pages [] m = Some m"
| "put_pages (p # ps) m = do { m \<leftarrow> co_os_put_page p m; put_pages ps m }"

text \<open>Every entry of a table is looked at, whether it was filled or not: an entry of the first that was not is page
  zero, one of the second is whatever the memory held, which is \<open>None\<close>.\<close>

fun put_pgds :: "u32 option list \<Rightarrow> vm \<Rightarrow> vm option" where
  "put_pgds [] m = Some m"
| "put_pgds (None # gs) m = None"
| "put_pgds (Some g # gs) m =
     (if g \<noteq> 0 then do { m \<leftarrow> co_os_put_page (drop_bit CO_ARCH_PAGE_SHIFT g) m; put_pgds gs m } else put_pgds gs m)"

definition co_manager_free_reversed_pfns :: "vm \<Rightarrow> vm option" where
  "co_manager_free_reversed_pfns m = do {
     m \<leftarrow> put_pages (reversed_map_pfns m) m;
     put_pgds (reversed_map_pgds m) m }"

section \<open>Mapping guest pages\<close>

definition virtual_pfn :: "u32 \<Rightarrow> u32" where
  "virtual_pfn address = drop_bit CO_ARCH_PAGE_SHIFT (address - CO_ARCH_KERNEL_OFFSET)"

definition pte_address :: "u32 \<Rightarrow> u32" where
  "pte_address address = CO_VPTR_PSEUDO_RAM_PAGE_TABLES + 4 * virtual_pfn address"

definition co_monitor_alloc_and_map_page :: "vm \<Rightarrow> u32 \<Rightarrow> (co_rc \<times> vm) option" where
  "co_monitor_alloc_and_map_page m address =
     (let grp = pfn_group address; index = pfn_index address;
          (ok, m) = ensure_group grp m
      in if \<not> ok then Some (RC_OUT_OF_MEMORY, m)
         else do {
           table \<leftarrow> pp_pfns m grp;
           if table index \<noteq> 0 then Some (RC_OK, m)
           else
             let (rc, physical_pfn, m) = co_manager_get_page m in
             if \<not> rc_ok rc then Some (rc, m)
             else do {
               let m = set_pfn grp index physical_pfn m;
               (rc, m) \<leftarrow> co_manager_set_reversed_pfn m physical_pfn (virtual_pfn address);
               if \<not> rc_ok rc then Some (rc, m)
               else co_monitor_create_ptes m (pte_address address) 4 [physical_pfn] } })"

definition co_monitor_free_and_unmap_page :: "vm \<Rightarrow> u32 \<Rightarrow> (co_rc \<times> vm) option" where
  "co_monitor_free_and_unmap_page m address =
     (let grp = pfn_group address; index = pfn_index address in
      if pp_pfns m grp = None then Some (RC_ERROR, m)
      else do {
        (rc, m) \<leftarrow> co_monitor_create_ptes m (pte_address address) 4 [0];
        table \<leftarrow> pp_pfns m grp;
        let physical_pfn = table index;
        if physical_pfn \<noteq> 0
        then do {
          (rc, m) \<leftarrow> co_manager_set_reversed_pfn m physical_pfn 0;
          m \<leftarrow> co_os_put_page physical_pfn m;
          Some (RC_OK, set_pfn grp index 0 m) }
        else Some (RC_OK, m) })"

definition copy_region_split_callback ::
    "u32 \<Rightarrow> u32 \<Rightarrow> u8 list option \<times> vm \<Rightarrow> (co_rc \<times> u8 list option \<times> vm) option" where
  "copy_region_split_callback offset bytes s =
     (let (data, m) = s in do {
        (rc, m) \<leftarrow> co_monitor_alloc_and_map_page m (offset AND CO_ARCH_PAGE_MASK);
        if \<not> rc_ok rc then Some (rc, data, m)
        else (case co_monitor_get_pfn m (offset AND CO_ARCH_PAGE_MASK) of
            Inl rc \<Rightarrow> Some (rc, data, m)
          | Inr real_pfn \<Rightarrow> do {
              mapped_page \<leftarrow> phys m real_pfn;
              (mapped_page, data) \<leftarrow> (case data of
                  Some d \<Rightarrow> do {
                    (p, d) \<leftarrow> copy_callback (page_offset offset) (unat bytes) mapped_page d;
                    Some (p, Some d) }
                | None \<Rightarrow> Some (put_bytes (page_offset offset) (replicate (unat bytes) 0) mapped_page, None));
              Some (RC_OK, data, m\<lparr>phys := (phys m)(real_pfn \<mapsto> mapped_page)\<rparr>) }) })"

definition co_monitor_copy_region :: "vm \<Rightarrow> u32 \<Rightarrow> u32 \<Rightarrow> u8 list option \<Rightarrow> (co_rc \<times> vm) option" where
  "co_monitor_copy_region m address bytes data_to_copy = do {
     (rc, data, m) \<leftarrow> co_split_by_pages_and_callback address bytes (data_to_copy, m) copy_region_split_callback;
     Some (rc, m) }"

section \<open>transfer.c\<close>

text \<open>The checks of both entry points; the additions wrap around.\<close>

definition transfer_off_bounds :: "vm \<Rightarrow> u32 \<Rightarrow> u32 \<Rightarrow> bool" where
  "transfer_off_bounds m vaddr bytes \<longleftrightarrow>
     vaddr < CO_ARCH_KERNEL_OFFSET \<or> vaddr \<ge> end_physical m \<or>
     vaddr + bytes < CO_ARCH_KERNEL_OFFSET \<or> vaddr + bytes > end_physical m"

text \<open>The frame and the offset in it that \<open>co_monitor_host_linuxvm_transfer_map\<close> maps.\<close>

definition co_monitor_host_linuxvm_transfer_map :: "vm \<Rightarrow> u32 \<Rightarrow> u32 \<Rightarrow> co_rc + pfn \<times> nat" where
  "co_monitor_host_linuxvm_transfer_map m vaddr bytes =
     (if transfer_off_bounds m vaddr bytes then Inl RC_TRANSFER_OFF_BOUNDS
      else if bytes = 0 \<or> bytes > page_rest vaddr then Inl RC_TRANSFER_OFF_BOUNDS
      else case co_monitor_get_pfn m vaddr of
          Inl rc \<Rightarrow> Inl rc
        | Inr p \<Rightarrow> Inr (p, page_offset vaddr))"

text \<open>\<open>host_func\<close>, given the direction, works on a part of a mapped page.\<close>

type_synonym 'd transfer_func = "'d \<Rightarrow> nat \<Rightarrow> nat \<Rightarrow> page \<Rightarrow> (co_rc \<times> 'd \<times> page) option"

function transfer_loop :: "'d transfer_func \<Rightarrow> u32 \<Rightarrow> u32 \<Rightarrow> 'd \<Rightarrow> vm \<Rightarrow> (co_rc \<times> 'd \<times> vm) option" where
  "transfer_loop host_func vaddr bytes data m =
     (if bytes = 0 then Some (RC_OK, data, m)
      else case co_monitor_get_pfn m vaddr of
          Inl rc \<Rightarrow> Some (rc, data, m)
        | Inr p \<Rightarrow>
            let one_copy = part_of vaddr bytes in
            (case phys m p of
               None \<Rightarrow> None
             | Some pg \<Rightarrow>
                 (case host_func data (page_offset vaddr) (unat one_copy) pg of
                    None \<Rightarrow> None
                  | Some (rc, data, pg) \<Rightarrow>
                      let m = m\<lparr>phys := (phys m)(p \<mapsto> pg)\<rparr> in
                      if \<not> rc_ok rc then Some (rc, data, m)
                      else transfer_loop host_func (vaddr + one_copy) (bytes - one_copy) data m)))"
  by pat_completeness auto
termination
  by (relation "measure (\<lambda>(f, v, bytes, d, m). unat bytes)") (auto simp: part_of_less)

declare transfer_loop.simps [simp del]

definition co_monitor_host_linuxvm_transfer ::
    "vm \<Rightarrow> 'd \<Rightarrow> 'd transfer_func \<Rightarrow> u32 \<Rightarrow> u32 \<Rightarrow> (co_rc \<times> 'd \<times> vm) option" where
  "co_monitor_host_linuxvm_transfer m host_data host_func vaddr bytes =
     (if transfer_off_bounds m vaddr bytes then Some (RC_TRANSFER_OFF_BOUNDS, host_data, m)
      else transfer_loop host_func vaddr bytes host_data m)"

datatype transfer_dir = CO_MONITOR_TRANSFER_FROM_HOST | CO_MONITOR_TRANSFER_FROM_LINUX

text \<open>The host buffer: the bytes behind \<open>*host\<close> when reading it, the bytes stored so far and the room
  left when writing.\<close>

datatype host_buffer = Source "u8 list" | Destination "u8 list" nat

definition co_monitor_transfer_memcpy :: "transfer_dir \<Rightarrow> host_buffer transfer_func" where
  "co_monitor_transfer_memcpy dir host off n pg =
     (case (dir, host) of
        (CO_MONITOR_TRANSFER_FROM_HOST, Source bs) \<Rightarrow>
          if length bs < n then None else Some (RC_OK, Source (drop n bs), put_bytes off (take n bs) pg)
      | (CO_MONITOR_TRANSFER_FROM_LINUX, Destination bs room) \<Rightarrow>
          if room < n then None else Some (RC_OK, Destination (bs @ get_bytes off n pg) (room - n), pg)
      | _ \<Rightarrow> None)"

definition co_monitor_host_linuxvm_copy ::
    "vm \<Rightarrow> host_buffer \<Rightarrow> u32 \<Rightarrow> u32 \<Rightarrow> transfer_dir \<Rightarrow> (co_rc \<times> host_buffer \<times> vm) option" where
  "co_monitor_host_linuxvm_copy m host linuxvm bytes dir =
     co_monitor_host_linuxvm_transfer m host (co_monitor_transfer_memcpy dir) linuxvm bytes"

definition co_monitor_host_to_linuxvm :: "vm \<Rightarrow> u8 list \<Rightarrow> u32 \<Rightarrow> u32 \<Rightarrow> (co_rc \<times> vm) option" where
  "co_monitor_host_to_linuxvm m from to bytes = do {
     (rc, host, m) \<leftarrow> co_monitor_host_linuxvm_copy m (Source from) to bytes CO_MONITOR_TRANSFER_FROM_HOST;
     Some (rc, m) }"

text \<open>The destination has room for \<open>room\<close> bytes; the result holds the bytes copied.\<close>

definition co_monitor_linuxvm_to_host :: "vm \<Rightarrow> u32 \<Rightarrow> nat \<Rightarrow> u32 \<Rightarrow> (co_rc \<times> u8 list \<times> vm) option" where
  "co_monitor_linuxvm_to_host m from room bytes = do {
     (rc, host, m) \<leftarrow> co_monitor_host_linuxvm_copy m (Destination [] room) from bytes CO_MONITOR_TRANSFER_FROM_LINUX;
     (case host of Destination bs k \<Rightarrow> Some (rc, bs, m) | Source bs \<Rightarrow> None) }"

section \<open>The guest's memory\<close>

definition pfn_of :: "vm \<Rightarrow> u32 \<Rightarrow> pfn option" where
  "pfn_of m a = do { table \<leftarrow> pp_pfns m (pfn_group a); Some (table (pfn_index a)) }"

definition vread :: "vm \<Rightarrow> u32 \<Rightarrow> u8 option" where
  "vread m a = do { p \<leftarrow> pfn_of m a; pg \<leftarrow> phys m p; Some (pg (page_offset a)) }"

text \<open>Distinct guest pages have distinct frames.\<close>

definition pp_inj :: "vm \<Rightarrow> bool" where
  "pp_inj m \<longleftrightarrow> (\<forall>a b p. pfn_of m a = Some p \<longrightarrow> p \<noteq> 0 \<longrightarrow> pfn_of m b = Some p \<longrightarrow>
     drop_bit 12 a = drop_bit 12 b)"

definition mapped_at :: "vm \<Rightarrow> u32 \<Rightarrow> bool" where
  "mapped_at m a \<longleftrightarrow> (\<exists>p. pfn_of m a = Some p \<and> p \<noteq> 0 \<and> p \<in> dom (phys m))"

definition range_mapped :: "vm \<Rightarrow> u32 \<Rightarrow> nat \<Rightarrow> bool" where
  "range_mapped m v n \<longleftrightarrow> (\<forall>a. unat v \<le> unat a \<and> unat a < unat v + n \<longrightarrow> mapped_at m a)"

lemma drop_bit_12_eq: "drop_bit 12 a = drop_bit 12 b \<longleftrightarrow> unat a div 4096 = unat b div (4096 :: nat)" for a b :: u32
  by (simp add: word_unat_eq_iff drop_bit_eq_div unat_div)

lemma pfn_of_page: "drop_bit 12 a = drop_bit 12 b \<Longrightarrow> pfn_of m a = pfn_of m b"
  by (simp add: pfn_of_def pfn_group_def pfn_index_def)

lemma pfn_of_phys [simp]: "pfn_of (m\<lparr>phys := f\<rparr>) = pfn_of m"
  by (simp add: pfn_of_def fun_eq_iff)

lemma co_monitor_get_pfn_pfn_of:
  "co_monitor_get_pfn m a = (case pfn_of m a of None \<Rightarrow> Inl RC_ERROR | Some p \<Rightarrow> Inr p)"
  by (simp add: co_monitor_get_pfn_def pfn_of_def split: option.splits)

text \<open>A part of a range lies in one page.\<close>

lemma unat_part_of: "unat (part_of v n) = min (unat n) (4096 - unat v mod 4096)"
  using page_rest_unat [of v] by (auto simp: part_of_def word_less_nat_alt min_def)

lemma part_same_page:
  fixes v a n :: nat
  assumes "n \<le> 4096 - v mod 4096" "0 < n"
  shows "v \<le> a \<and> a < v + n \<longleftrightarrow> a div 4096 = v div 4096 \<and> v mod 4096 \<le> a mod 4096 \<and> a mod 4096 < v mod 4096 + n"
proof -
  have a: "a = 4096 * (a div 4096) + a mod 4096" and v: "v = 4096 * (v div 4096) + v mod 4096"
    by simp_all
  have m: "a mod 4096 < 4096" "v mod 4096 < 4096" by simp_all
  show ?thesis
  proof (cases "a div 4096 = v div 4096")
    case True
    then show ?thesis using a v by linarith
  next
    case False
    then have "a div 4096 < v div 4096 \<or> v div 4096 + 1 \<le> a div 4096" by linarith
    then have "a < v \<or> v + n \<le> a" using a v m assms by linarith
    with False show ?thesis by linarith
  qed
qed

lemma vread_put_bytes:
  assumes "pp_inj m" "pfn_of m v = Some p" "p \<noteq> 0" "phys m p = Some pg"
    and "length bs \<le> 4096 - unat v mod 4096" "bs \<noteq> []"
  shows "vread (m\<lparr>phys := (phys m)(p \<mapsto> put_bytes (page_offset v) bs pg)\<rparr>) a =
    (if unat v \<le> unat a \<and> unat a < unat v + length bs then Some (bs ! (unat a - unat v)) else vread m a)"
proof -
  let ?m = "m\<lparr>phys := (phys m)(p \<mapsto> put_bytes (page_offset v) bs pg)\<rparr>"
  have range: "unat v \<le> unat a \<and> unat a < unat v + length bs \<longleftrightarrow>
      drop_bit 12 a = drop_bit 12 v \<and> page_offset v \<le> page_offset a \<and> page_offset a < page_offset v + length bs"
    using part_same_page [of "length bs" "unat v" "unat a"] assms(5,6)
    by (simp add: drop_bit_12_eq page_offset_eq)
  show ?thesis
  proof (cases "drop_bit 12 a = drop_bit 12 v")
    case True
    then have p: "pfn_of m a = Some p" using pfn_of_page assms(2) by metis
    have "unat a - unat v = page_offset a - page_offset v" if "page_offset v \<le> page_offset a"
    proof -
      have "unat a = 4096 * (unat v div 4096) + page_offset a" "unat v = 4096 * (unat v div 4096) + page_offset v"
        using True mult_div_mod_eq [of 4096 "unat a"] mult_div_mod_eq [of 4096 "unat v"]
        by (simp_all add: drop_bit_12_eq page_offset_eq)
      then show ?thesis by linarith
    qed
    then show ?thesis
      using True range p assms(4) by (auto simp: vread_def put_bytes_def)
  next
    case False
    have "pfn_of m a \<noteq> Some p"
      using False assms(1-3) unfolding pp_inj_def by metis
    then show ?thesis
      using False range by (cases "pfn_of m a") (auto simp: vread_def)
  qed
qed


text \<open>The loops: what they keep and what they do to the memory.\<close>

definition same_tables :: "vm \<Rightarrow> vm \<Rightarrow> bool" where
  "same_tables m m' \<longleftrightarrow> m'\<lparr>phys := phys m\<rparr> = m \<and> dom (phys m') = dom (phys m)"

lemma same_tables_simps:
  assumes "same_tables m m'"
  shows "pfn_of m' = pfn_of m" "pp_inj m' = pp_inj m" "range_mapped m' = range_mapped m"
    "end_physical m' = end_physical m"
proof -
  have m: "m'\<lparr>phys := phys m\<rparr> = m" "dom (phys m') = dom (phys m)"
    using assms by (simp_all add: same_tables_def)
  show 1: "pfn_of m' = pfn_of m"
    using arg_cong [OF m(1), of pfn_of] by simp
  show "end_physical m' = end_physical m"
    using arg_cong [OF m(1), of end_physical] by simp
  show "pp_inj m' = pp_inj m" by (simp add: pp_inj_def 1)
  show "range_mapped m' = range_mapped m"
    by (simp add: range_mapped_def mapped_at_def fun_eq_iff 1 m(2))
qed

lemma same_tables_trans:
  assumes "same_tables a b" "same_tables b c"
  shows "same_tables a c"
proof -
  have "c\<lparr>phys := phys a\<rparr> = c\<lparr>phys := phys b\<rparr>\<lparr>phys := phys a\<rparr>" by simp
  also have "\<dots> = a" using assms by (simp only: same_tables_def)
  finally show ?thesis using assms by (simp add: same_tables_def)
qed

lemma same_tables_refl: "same_tables m m"
  by (simp add: same_tables_def)

lemma same_tables_upd: "p \<in> dom (phys m) \<Longrightarrow> same_tables m (m\<lparr>phys := (phys m)(p \<mapsto> pg)\<rparr>)"
  by (auto simp: same_tables_def)

lemma range_mapped_first:
  assumes "range_mapped m v n" "0 < n"
  obtains p pg where "pfn_of m v = Some p" "p \<noteq> 0" "phys m p = Some pg"
  using assms unfolding range_mapped_def mapped_at_def by (metis domD less_add_same_cancel1 order_refl)

lemma part_facts:
  assumes "n \<noteq> 0" "unat v + unat n < 2 ^ 32" "k = part_of v n"
  shows "unat (v + k) = unat v + unat k" "unat (n - k) = unat n - unat k" "unat k \<le> unat n" "0 < unat k"
    "unat k \<le> 4096 - unat v mod 4096" "unat (n - k) < unat n"
proof -
  show le: "unat k \<le> unat n" using part_of_le [of v n] assms(3) by (simp add: word_le_nat_alt)
  then show "unat (v + k) = unat v + unat k" using assms(2) by (simp add: unat_word_ariths)
  show "unat (n - k) = unat n - unat k" using le by (simp add: unat_sub word_le_nat_alt)
  show "0 < unat k" using part_of_pos [OF assms(1)] assms(3) by (simp add: unat_gt_0)
  then show "unat (n - k) < unat n" using \<open>unat (n - k) = _\<close> le by simp
  show "unat k \<le> 4096 - unat v mod 4096" using unat_part_of [of v n] assms(3) by simp
qed

text \<open>A transfer function that fills a page from a source: \<open>ready d n\<close> says that the source \<open>d\<close> has \<open>n\<close> more
  bytes, \<open>bytes d k\<close> are the next \<open>k\<close> of them and \<open>advance d k\<close> is the source after them.\<close>

locale page_source =
  fixes func :: "'d transfer_func" and ready :: "'d \<Rightarrow> nat \<Rightarrow> bool"
    and bytes :: "'d \<Rightarrow> nat \<Rightarrow> u8 list" and advance :: "'d \<Rightarrow> nat \<Rightarrow> 'd"
  assumes func_fills: "ready d n \<Longrightarrow> k \<le> n \<Longrightarrow> func d off k pg = Some (RC_OK, advance d k, put_bytes off (bytes d k) pg)"
    and ready_advance: "ready d n \<Longrightarrow> k \<le> n \<Longrightarrow> ready (advance d k) (n - k)"
    and length_bytes: "ready d n \<Longrightarrow> k \<le> n \<Longrightarrow> length (bytes d k) = k"
    and bytes_split: "ready d n \<Longrightarrow> k \<le> n \<Longrightarrow> bytes d n = bytes d k @ bytes (advance d k) (n - k)"
    and advance_advance: "ready d n \<Longrightarrow> k \<le> n \<Longrightarrow> advance (advance d k) (n - k) = advance d n"
    and advance_0: "advance d 0 = d"
begin

lemma transfer_in:
  assumes "pp_inj m" "range_mapped m v (unat n)" "unat v + unat n < 2 ^ 32" "ready d (unat n)"
  shows "\<exists>m'. transfer_loop func v n d m = Some (RC_OK, advance d (unat n), m') \<and> same_tables m m' \<and>
    (\<forall>a. vread m' a = (if unat v \<le> unat a \<and> unat a < unat v + unat n
      then Some (bytes d (unat n) ! (unat a - unat v)) else vread m a))"
  using assms
proof (induction "unat n" arbitrary: v n d m rule: less_induct)
  case less
  show ?case
  proof (cases "n = 0")
    case True
    then show ?thesis by (subst transfer_loop.simps) (auto simp: same_tables_refl advance_0)
  next
    case False
    define k where "k = part_of v n"
    note k = part_facts [OF False less.prems(3) k_def]
    let ?bs = "bytes d (unat k)"
    from range_mapped_first [OF less.prems(2)] k(3,4) obtain p pg where
      p: "pfn_of m v = Some p" "p \<noteq> 0" "phys m p = Some pg" by (metis less_le_trans)
    let ?m = "m\<lparr>phys := (phys m)(p \<mapsto> put_bytes (page_offset v) ?bs pg)\<rparr>"
    have st: "same_tables m ?m" using p(3) by (intro same_tables_upd) auto
    have len: "length ?bs = unat k" using k(3) less.prems(4) length_bytes by blast
    then have "length ?bs \<le> 4096 - unat v mod 4096" "?bs \<noteq> []" using k(4,5) by auto
    note one = vread_put_bytes [OF less.prems(1) p this]
    have "range_mapped ?m (v + k) (unat (n - k))"
      unfolding same_tables_simps(3) [OF st]
      using less.prems(2) k(1-3) by (simp add: range_mapped_def)
    moreover have "unat (v + k) + unat (n - k) < 2 ^ 32" using k(1-3) less.prems(3) by simp
    moreover have "ready (advance d (unat k)) (unat (n - k))"
      using ready_advance [OF less.prems(4) k(3)] k(2) by simp
    ultimately obtain m' where m': "transfer_loop func (v + k) (n - k) (advance d (unat k)) ?m =
        Some (RC_OK, advance (advance d (unat k)) (unat (n - k)), m')" "same_tables ?m m'"
      "\<forall>a. vread m' a = (if unat (v + k) \<le> unat a \<and> unat a < unat (v + k) + unat (n - k)
          then Some (bytes (advance d (unat k)) (unat (n - k)) ! (unat a - unat (v + k))) else vread ?m a)"
      using less.hyps [OF k(6), of ?m "v + k" "advance d (unat k)"] less.prems(1) same_tables_simps(2) [OF st] by auto
    have "transfer_loop func v n d m = Some (RC_OK, advance d (unat n), m')"
      using False p m'(1) func_fills [OF less.prems(4) k(3)] advance_advance [OF less.prems(4) k(3)] k(2)
      by (subst transfer_loop.simps) (simp add: co_monitor_get_pfn_pfn_of Let_def flip: k_def)
    moreover have "vread m' a = (if unat v \<le> unat a \<and> unat a < unat v + unat n
        then Some (bytes d (unat n) ! (unat a - unat v)) else vread m a)" for a
    proof (cases "unat v + unat k \<le> unat a \<and> unat a < unat v + unat n")
      case True
      have "bytes d (unat n) ! (unat a - unat v) =
          bytes (advance d (unat k)) (unat (n - k)) ! (unat a - (unat v + unat k))"
      proof -
        have "\<not> unat a - unat v < unat k" using True by linarith
        moreover have "unat a - unat v - unat k = unat a - (unat v + unat k)" by simp
        ultimately show ?thesis unfolding bytes_split [OF less.prems(4) k(3)] nth_append using len k(2) by simp
      qed
      with True m'(3) k(1-3) show ?thesis by simp
    next
      case False
      then have "vread m' a = vread ?m a" using m'(3) k(1-3) by auto
      moreover have "bytes d (unat n) ! (unat a - unat v) = ?bs ! (unat a - unat v)" if "unat a - unat v < unat k"
        unfolding bytes_split [OF less.prems(4) k(3)] nth_append using len that by simp
      ultimately show ?thesis using False one [of a] len k(3) by auto
    qed
    ultimately show ?thesis using same_tables_trans [OF st m'(2)] by blast
  qed
qed

end

definition vread_bytes :: "vm \<Rightarrow> u32 \<Rightarrow> nat \<Rightarrow> u8 list" where
  "vread_bytes m v n = map (\<lambda>k. the (vread m (v + word_of_nat k))) [0..<n]"

lemma vread_bytes_append:
  "vread_bytes m v (k + j) = vread_bytes m v k @ vread_bytes m (v + word_of_nat k) j"
proof (induction j)
  case (Suc j)
  then show ?case by (simp add: vread_bytes_def add.assoc)
qed (simp add: vread_bytes_def)

lemma get_bytes_vread:
  assumes "pfn_of m v = Some p" "phys m p = Some pg" "n \<le> 4096 - unat v mod 4096" "unat v + n < 2 ^ 32"
  shows "get_bytes (page_offset v) n pg = vread_bytes m v n"
proof (rule nth_equalityI)
  fix j assume "j < length (get_bytes (page_offset v) n pg)"
  then have j: "j < n" by (simp add: get_bytes_def)
  let ?a = "v + word_of_nat j :: u32"
  have a: "unat ?a = unat v + j"
    using j assms(4) by (simp add: unat_word_ariths unsigned_of_nat take_bit_nat_eq_self)
  have "unat v \<le> unat v + j \<and> unat v + j < unat v + n" using j by simp
  then have "(unat v + j) div 4096 = unat v div 4096 \<and> unat v mod 4096 \<le> (unat v + j) mod 4096"
    using part_same_page [of n "unat v" "unat v + j"] assms(3) j by simp
  moreover from this have "(unat v + j) mod 4096 = unat v mod 4096 + j"
    using mult_div_mod_eq [of 4096 "unat v"] mult_div_mod_eq [of 4096 "unat v + j"] by linarith
  ultimately have "drop_bit 12 ?a = drop_bit 12 v" "page_offset ?a = page_offset v + j"
    using a by (simp_all add: drop_bit_12_eq page_offset_eq)
  then show "get_bytes (page_offset v) n pg ! j = vread_bytes m v n ! j"
    using j assms(1,2) pfn_of_page [of ?a v m] by (simp add: get_bytes_def vread_def vread_bytes_def)
qed (simp add: get_bytes_def vread_bytes_def)

text \<open>A transfer function that appends the bytes of a page to a destination that has room for \<open>n\<close> more.\<close>

locale page_sink =
  fixes func :: "'d transfer_func" and room_for :: "'d \<Rightarrow> nat \<Rightarrow> bool" and append_to :: "'d \<Rightarrow> u8 list \<Rightarrow> 'd"
  assumes func_appends: "room_for d n \<Longrightarrow> k \<le> n \<Longrightarrow> func d off k pg = Some (RC_OK, append_to d (get_bytes off k pg), pg)"
    and room_append: "room_for d n \<Longrightarrow> length bs \<le> n \<Longrightarrow> room_for (append_to d bs) (n - length bs)"
    and append_append: "room_for d n \<Longrightarrow> length bs + length cs \<le> n \<Longrightarrow> append_to (append_to d bs) cs = append_to d (bs @ cs)"
    and append_nil: "append_to d [] = d"
begin

lemma transfer_out:
  assumes "range_mapped m v (unat n)" "unat v + unat n < 2 ^ 32" "room_for d (unat n)"
  shows "transfer_loop func v n d m = Some (RC_OK, append_to d (vread_bytes m v (unat n)), m)"
  using assms
proof (induction "unat n" arbitrary: v n d rule: less_induct)
  case less
  show ?case
  proof (cases "n = 0")
    case True
    then show ?thesis by (subst transfer_loop.simps) (simp add: vread_bytes_def append_nil)
  next
    case False
    define k where "k = part_of v n"
    note k = part_facts [OF False less.prems(2) k_def]
    from range_mapped_first [OF less.prems(1)] k(3,4) obtain p pg where
      p: "pfn_of m v = Some p" "p \<noteq> 0" "phys m p = Some pg" by (metis less_le_trans)
    have same: "m\<lparr>phys := (phys m)(p \<mapsto> pg)\<rparr> = m"
      using p(3) by (metis fun_upd_triv vm.surjective vm.update_convs(1))
    let ?bs = "vread_bytes m v (unat k)" and ?cs = "vread_bytes m (v + k) (unat (n - k))"
    have len: "length ?bs = unat k" "length ?cs = unat (n - k)" by (simp_all add: vread_bytes_def)
    have "range_mapped m (v + k) (unat (n - k))"
      using less.prems(1) k(1-3) by (simp add: range_mapped_def)
    moreover have "room_for (append_to d ?bs) (unat (n - k))"
      using room_append [OF less.prems(3), of ?bs] len(1) k(2,3) by simp
    ultimately have IH: "transfer_loop func (v + k) (n - k) (append_to d ?bs) m =
        Some (RC_OK, append_to (append_to d ?bs) ?cs, m)"
      using less.hyps [OF k(6)] less.prems(2) k(1-3) by simp
    have "unat v + unat k < 2 ^ 32" using k(3) less.prems(2) by simp
    note bytes = get_bytes_vread [OF p(1,3) k(5) this]
    have "vread_bytes m v (unat n) = ?bs @ ?cs"
      using vread_bytes_append [of m v "unat k" "unat (n - k)"] k(2,3) by simp
    moreover have "append_to (append_to d ?bs) ?cs = append_to d (?bs @ ?cs)"
      by (rule append_append [OF less.prems(3)]) (use len k(2,3) in simp)
    ultimately show ?thesis
      using False p IH same bytes func_appends [OF less.prems(3) k(3)]
      by (subst transfer_loop.simps) (simp add: co_monitor_get_pfn_pfn_of Let_def flip: k_def)
  qed
qed

end

text \<open>Copying from and to a host buffer.\<close>

definition buffer_ready :: "host_buffer \<Rightarrow> nat \<Rightarrow> bool" where
  "buffer_ready d n = (case d of Source bs \<Rightarrow> n \<le> length bs | Destination bs r \<Rightarrow> False)"

definition buffer_bytes :: "host_buffer \<Rightarrow> nat \<Rightarrow> u8 list" where
  "buffer_bytes d n = (case d of Source bs \<Rightarrow> take n bs | Destination bs r \<Rightarrow> [])"

definition buffer_advance :: "host_buffer \<Rightarrow> nat \<Rightarrow> host_buffer" where
  "buffer_advance d n = (case d of Source bs \<Rightarrow> Source (drop n bs) | Destination bs r \<Rightarrow> d)"

definition buffer_room :: "host_buffer \<Rightarrow> nat \<Rightarrow> bool" where
  "buffer_room d n = (case d of Source bs \<Rightarrow> False | Destination bs r \<Rightarrow> n \<le> r)"

definition buffer_append :: "host_buffer \<Rightarrow> u8 list \<Rightarrow> host_buffer" where
  "buffer_append d cs = (case d of Source bs \<Rightarrow> d | Destination bs r \<Rightarrow> Destination (bs @ cs) (r - length cs))"

lemma length_get_bytes [simp]: "length (get_bytes off n pg) = n"
  by (simp add: get_bytes_def)

interpretation memcpy_in: page_source "co_monitor_transfer_memcpy CO_MONITOR_TRANSFER_FROM_HOST"
    buffer_ready buffer_bytes buffer_advance
  by unfold_locales
    (auto simp: buffer_ready_def buffer_bytes_def buffer_advance_def co_monitor_transfer_memcpy_def
      take_add [symmetric] split: host_buffer.splits)

interpretation memcpy_out: page_sink "co_monitor_transfer_memcpy CO_MONITOR_TRANSFER_FROM_LINUX" buffer_room buffer_append
  by unfold_locales
    (auto simp: buffer_room_def buffer_append_def co_monitor_transfer_memcpy_def split: host_buffer.splits)

lemma vread_bytes_eq:
  assumes "\<And>a. unat v \<le> unat a \<Longrightarrow> unat a < unat v + n \<Longrightarrow> vread m a = Some (bs ! (unat a - unat v))"
    and "length bs = n" "unat v + n < 2 ^ 32"
  shows "vread_bytes m v n = bs"
proof (rule nth_equalityI)
  fix j assume "j < length (vread_bytes m v n)"
  then have j: "j < n" by (simp add: vread_bytes_def)
  then have "unat (v + word_of_nat j :: u32) = unat v + j"
    using assms(3) by (simp add: unat_word_ariths unsigned_of_nat take_bit_nat_eq_self)
  with assms(1) [of "v + word_of_nat j"] j show "vread_bytes m v n ! j = bs ! j" by (simp add: vread_bytes_def)
qed (simp add: vread_bytes_def assms(2))

lemma transfer_not_off_bounds:
  assumes "CO_ARCH_KERNEL_OFFSET \<le> v" "v < end_physical m" "unat v + unat n \<le> unat (end_physical m)"
  shows "\<not> transfer_off_bounds m v n" "unat v + unat n < 2 ^ 32"
proof -
  show vn: "unat v + unat n < 2 ^ 32"
    using assms(3) unsigned_less [of "end_physical m", where 'a = nat] by simp
  have "unat (v + n) = unat v + unat n" using vn by (simp add: unat_word_ariths)
  then show "\<not> transfer_off_bounds m v n"
    using assms by (simp add: transfer_off_bounds_def word_less_nat_alt word_le_nat_alt)
qed

text \<open>C8: on a range of guest memory that is mapped, page by page, to distinct frames and lies between the
  kernel offset and the end of the pseudo physical memory, \<open>co_monitor_host_to_linuxvm\<close> stores the
  host's bytes at the guest's addresses, whatever page boundaries the range crosses, and changes no
  other byte of the guest; \<open>co_monitor_linuxvm_to_host\<close> on the same range then returns the bytes.\<close>

theorem co_monitor_transfer_roundtrip:
  assumes "pp_inj m" "range_mapped m v (unat n)" "unat n = length bs"
    and "CO_ARCH_KERNEL_OFFSET \<le> v" "v < end_physical m" "unat v + unat n \<le> unat (end_physical m)"
  shows "\<exists>m'. co_monitor_host_to_linuxvm m bs v n = Some (RC_OK, m') \<and>
    (\<forall>a. vread m' a = (if unat v \<le> unat a \<and> unat a < unat v + length bs then Some (bs ! (unat a - unat v)) else vread m a)) \<and>
    co_monitor_linuxvm_to_host m' v (unat n) n = Some (RC_OK, bs, m')"
proof -
  note bounds = transfer_not_off_bounds [OF assms(4-6)]
  note vn = bounds(2)
  obtain m' where m': "transfer_loop (co_monitor_transfer_memcpy CO_MONITOR_TRANSFER_FROM_HOST) v n (Source bs) m =
      Some (RC_OK, Source (drop (unat n) bs), m')" "same_tables m m'"
    "\<forall>a. vread m' a = (if unat v \<le> unat a \<and> unat a < unat v + unat n then Some (bs ! (unat a - unat v)) else vread m a)"
    using memcpy_in.transfer_in [OF assms(1,2) vn, of "Source bs"] assms(3)
    by (auto simp: buffer_ready_def buffer_bytes_def buffer_advance_def)
  have off: "\<not> transfer_off_bounds m' v n"
    using bounds(1) same_tables_simps(4) [OF m'(2)] by (simp add: transfer_off_bounds_def)
  have "range_mapped m' v (unat n)" using assms(2) same_tables_simps(3) [OF m'(2)] by simp
  from memcpy_out.transfer_out [OF this vn, of "Destination [] (unat n)"]
  have read: "transfer_loop (co_monitor_transfer_memcpy CO_MONITOR_TRANSFER_FROM_LINUX) v n (Destination [] (unat n)) m' =
      Some (RC_OK, Destination (vread_bytes m' v (unat n)) 0, m')"
    by (simp add: buffer_room_def buffer_append_def vread_bytes_def)
  have "vread_bytes m' v (unat n) = bs"
    by (rule vread_bytes_eq [OF _ _ vn]) (use m'(3) assms(3) in simp_all)
  with read off bounds(1) m'(1,3) assms(3) show ?thesis
    by (simp add: co_monitor_host_to_linuxvm_def co_monitor_linuxvm_to_host_def
        co_monitor_host_linuxvm_copy_def co_monitor_host_linuxvm_transfer_def)
qed

text \<open>A guest with two pages of kernel memory, in frames 5 and 9, and the page of its page table in frame 7.\<close>

definition vm_example :: vm where
  "vm_example = \<lparr>phys = [5 \<mapsto> (\<lambda>_. 0), 9 \<mapsto> (\<lambda>_. 0), 7 \<mapsto> (\<lambda>_. 0), 3 \<mapsto> (\<lambda>_. 0)],
     pp_pfns = [0x300 \<mapsto> (\<lambda>i. if i = 0 then 5 else if i = 1 then 9 else 0),
                0x3fa \<mapsto> (\<lambda>i. if i = 0x300 then 7 else 0)],
     hostmem_pages = 1030, end_physical = 0xc0002000, reversed_page_count = 1,
     reversed_map_pfns = [3], reversed_map_pgds = [], os_pages = [Some 11], os_fill = (\<lambda>p i. 0xcc), os_mallocs = []\<rparr>"

lemma pfn_of_vm_example:
  assumes "pfn_of vm_example a = Some p" "p \<noteq> 0"
  shows "(drop_bit 12 a, p) \<in> {(0xc0000, 5), (0xc0001, 9), (0xfeb00, 7)}"
proof -
  let ?q = "drop_bit 12 a"
  have q: "?q = 1024 * (?q div 1024) + ?q mod 1024"
    by (metis mult.commute word_mod_div_equality)
  have "?q div 1024 = 0x300 \<and> ?q mod 1024 = 0 \<and> p = 5 \<or> ?q div 1024 = 0x300 \<and> ?q mod 1024 = 1 \<and> p = 9 \<or>
      ?q div 1024 = 0x3fa \<and> ?q mod 1024 = 0x300 \<and> p = 7"
    using assms by (auto simp: pfn_of_def vm_example_def pfn_group_def pfn_index_def bind_Some_iff split: if_splits)
  moreover have "?q = 1024 * d + r" if "?q div 1024 = d" "?q mod 1024 = r" for d r
    using q unfolding that .
  ultimately have "?q = 1024 * 0x300 + 0 \<and> p = 5 \<or> ?q = 1024 * 0x300 + 1 \<and> p = 9 \<or> ?q = 1024 * 0x3fa + 0x300 \<and> p = 7"
    by metis
  then show ?thesis by simp
qed

lemma vm_example_inj: "pp_inj vm_example"
  unfolding pp_inj_def
proof (intro allI impI)
  fix a b p assume *: "pfn_of vm_example a = Some p" "p \<noteq> 0" "pfn_of vm_example b = Some p"
  from pfn_of_vm_example [OF *(1,2)] pfn_of_vm_example [OF *(3,2)]
  show "drop_bit 12 a = drop_bit 12 b" by auto
qed

lemma vm_example_mapped: "range_mapped vm_example 0xc0000ffe 4"
proof -
  have "mapped_at vm_example a" if "unat a \<in> {0xc0000ffe, 0xc0000fff, 0xc0001000, 0xc0001001}" for a
  proof -
    have "a \<in> {0xc0000ffe, 0xc0000fff, 0xc0001000, 0xc0001001}"
      using that by (auto simp: word_unat_eq_iff)
    then show ?thesis
      by (elim insertE emptyE; hypsubst; simp add: mapped_at_def pfn_of_def vm_example_def pfn_group_def pfn_index_def)
  qed
  moreover have "unat a \<in> {0xc0000ffe, 0xc0000fff, 0xc0001000, 0xc0001001}"
    if "unat (0xc0000ffe :: u32) \<le> unat a" "unat a < unat (0xc0000ffe :: u32) + 4" for a :: u32
    using that by simp arith
  ultimately show ?thesis unfolding range_mapped_def by blast
qed

theorem co_monitor_transfer_roundtrip_witness:
  "\<exists>m'. co_monitor_host_to_linuxvm vm_example [1, 2, 3, 4] 0xc0000ffe 4 = Some (RC_OK, m') \<and>
    (\<forall>a. vread m' a = (if unat (0xc0000ffe :: u32) \<le> unat a \<and> unat a < unat (0xc0000ffe :: u32) + length [1, 2, 3, 4 :: u8]
       then Some ([1, 2, 3, 4] ! (unat a - unat (0xc0000ffe :: u32))) else vread vm_example a)) \<and>
    co_monitor_linuxvm_to_host m' 0xc0000ffe (unat (4 :: u32)) 4 = Some (RC_OK, [1, 2, 3, 4], m')"
  by (rule co_monitor_transfer_roundtrip) (use vm_example_inj vm_example_mapped in \<open>simp_all add: vm_example_def\<close>)

text \<open>The parts of a range, one for each page it touches.\<close>

function parts :: "u32 \<Rightarrow> u32 \<Rightarrow> (u32 \<times> u32) list" where
  "parts v n = (if n = 0 then [] else (v, part_of v n) # parts (v + part_of v n) (n - part_of v n))"
  by pat_completeness auto
termination by (relation "measure (\<lambda>(v, n). unat n)") (auto simp: part_of_less)

declare parts.simps [simp del]

fun run_parts :: "(u32 \<Rightarrow> u32 \<Rightarrow> 's \<Rightarrow> (co_rc \<times> 's) option) \<Rightarrow> (u32 \<times> u32) list \<Rightarrow> 's \<Rightarrow> (co_rc \<times> 's) option" where
  "run_parts func [] s = Some (RC_OK, s)"
| "run_parts func ((v, k) # ps) s =
     (case func v k s of None \<Rightarrow> None
      | Some (rc, s) \<Rightarrow> if \<not> rc_ok rc then Some (rc, s) else run_parts func ps s)"

lemma split_run_parts: "co_split_by_pages_and_callback v n s func = run_parts func (parts v n) s"
proof (induction v n arbitrary: s rule: parts.induct)
  case (1 v n)
  show ?case
    by (subst co_split_by_pages_and_callback.simps, subst parts.simps)
      (use 1 in \<open>auto simp: Let_def split: option.splits\<close>)
qed

lemma parts_cover:
  assumes "unat v + unat n < 2 ^ 32"
  shows "concat (map (\<lambda>(a, k). [unat a..<unat a + unat k]) (parts v n)) = [unat v..<unat v + unat n]"
  using assms
proof (induction v n rule: parts.induct)
  case (1 v n)
  show ?case
  proof (cases "n = 0")
    case True
    then show ?thesis by (subst parts.simps) simp
  next
    case False
    note k = part_facts [OF False 1(2) refl]
    have "concat (map (\<lambda>(a, k). [unat a..<unat a + unat k]) (parts (v + part_of v n) (n - part_of v n))) =
        [unat v + unat (part_of v n)..<unat v + unat n]"
      using 1(1) [OF False] 1(2) k(1-3) by simp
    then show ?thesis
      using False upt_add_eq_append [of "unat v" "unat v + unat (part_of v n)" "unat n - unat (part_of v n)"] k(3)
      by (subst parts.simps) simp
  qed
qed

lemma parts_in_page:
  assumes "(a, k) \<in> set (parts v n)"
  shows "0 < unat k \<and> unat a mod 4096 + unat k \<le> 4096"
  using assms
proof (induction v n rule: parts.induct)
  case (1 v n)
  show ?case
  proof (cases "n = 0")
    case True
    with 1(2) show ?thesis by (subst (asm) parts.simps) simp
  next
    case False
    have "0 < unat (part_of v n) \<and> unat v mod 4096 + unat (part_of v n) \<le> 4096"
    proof -
      have "0 < unat (part_of v n)" using part_of_pos [OF False, of v] by (simp add: unat_gt_0)
      moreover have "unat (part_of v n) \<le> 4096 - unat v mod 4096" using unat_part_of [of v n] by simp
      ultimately show ?thesis by linarith
    qed
    with 1 False show ?thesis by (subst (asm) (2) parts.simps) auto
  qed
qed

text \<open>C31: \<open>co_split_by_pages_and_callback\<close> calls its callback once for each of a list of parts, in
  order, until one fails; the parts cover the addresses of the range once each and in order, and each
  lies in one page and is not empty.\<close>

theorem co_split_by_pages_partitions:
  fixes func :: "u32 \<Rightarrow> u32 \<Rightarrow> 's \<Rightarrow> (co_rc \<times> 's) option"
  assumes "unat v + unat n < 2 ^ 32"
  shows "\<exists>ps. (\<forall>s. co_split_by_pages_and_callback v n s func = run_parts func ps s) \<and>
    concat (map (\<lambda>(a, k). [unat a..<unat a + unat k]) ps) = [unat v..<unat v + unat n] \<and>
    list_all (\<lambda>(a, k). 0 < unat k \<and> page_offset a + unat k \<le> 4096) ps"
  using split_run_parts parts_cover [OF assms] parts_in_page [of _ _ v n]
  by (intro exI [of _ "parts v n"]) (auto simp: list_all_iff page_offset_eq)

theorem co_split_by_pages_partitions_witness:
  "\<exists>ps. (\<forall>s. co_split_by_pages_and_callback 0xffe 0x1004 s (\<lambda>a k s. Some (RC_OK, s @ [(a, k)])) =
      run_parts (\<lambda>a k s. Some (RC_OK, s @ [(a, k)])) ps s) \<and>
    concat (map (\<lambda>(a, k). [unat a..<unat a + unat k]) ps) =
      [unat (0xffe :: u32)..<unat (0xffe :: u32) + unat (0x1004 :: u32)] \<and>
    list_all (\<lambda>(a, k). 0 < unat k \<and> page_offset a + unat k \<le> 4096) ps"
  by (rule co_split_by_pages_partitions) simp

text \<open>C32: a transfer whose start or whose end is outside the guest's pseudo physical memory is refused and
  changes nothing, in both directions. The end is computed in 32 bits, though: a length close to
  \<open>2 ^ 32\<close> takes the end back below the start and passes the check.\<close>

theorem co_monitor_transfer_bounds:
  "(transfer_off_bounds m v n \<longrightarrow>
      co_monitor_host_to_linuxvm m bs v n = Some (RC_TRANSFER_OFF_BOUNDS, m) \<and>
      co_monitor_linuxvm_to_host m v room n = Some (RC_TRANSFER_OFF_BOUNDS, [], m) \<and>
      co_monitor_host_linuxvm_transfer_map m v n = Inl RC_TRANSFER_OFF_BOUNDS) \<and>
   (v < 0xc0000000 \<or> end_physical m \<le> v \<longrightarrow> transfer_off_bounds m v n) \<and>
   (unat v + unat n < 2 ^ 32 \<and> unat (end_physical m) < unat v + unat n \<longrightarrow> transfer_off_bounds m v n) \<and>
   \<not> transfer_off_bounds vm_example 0xc0001000 0xfffff800"
proof (intro conjI impI)
  assume *: "unat v + unat n < 2 ^ 32 \<and> unat (end_physical m) < unat v + unat n"
  then have "unat (v + n) = unat v + unat n" by (simp add: unat_word_ariths)
  with * show "transfer_off_bounds m v n" by (simp add: transfer_off_bounds_def word_less_nat_alt)
qed (auto simp: transfer_off_bounds_def vm_example_def co_monitor_host_to_linuxvm_def
    co_monitor_linuxvm_to_host_def co_monitor_host_linuxvm_copy_def co_monitor_host_linuxvm_transfer_def
    co_monitor_host_linuxvm_transfer_map_def)

theorem co_monitor_transfer_bounds_witness:
  "transfer_off_bounds vm_example 0x1000 4 \<and> transfer_off_bounds vm_example 0xc0001ffe 4 \<and>
   co_monitor_host_to_linuxvm vm_example [1, 2, 3, 4] 0x1000 4 = Some (RC_TRANSFER_OFF_BOUNDS, vm_example)"
  using co_monitor_transfer_bounds [where m = vm_example and v = "0x1000" and n = 4 and bs = "[1, 2, 3, 4]"]
    co_monitor_transfer_bounds [where m = vm_example and v = "0xc0001ffe" and n = 4]
  by (simp add: vm_example_def)

section \<open>Mapping and unmapping a page\<close>

lemma read_write_u32: "read_u32 off (write_u32 off w p) = w"
proof (rule bit_word_eqI)
  fix n assume "n < LENGTH(32)"
  then consider "n < 8" | k where "n = 8 + k" "k < 8" | k where "n = 16 + k" "k < 8" | k where "n = 24 + k" "k < 8"
    using le_Suc_ex [of 8 n] le_Suc_ex [of 16 n] le_Suc_ex [of 24 n] by fastforce
  then show "bit (read_u32 off (write_u32 off w p)) n = bit w n"
    unfolding read_u32_def write_u32_def by cases (simp_all add: bit_simps)
qed

lemma write_u32_other: "k < off \<or> off + 4 \<le> k \<Longrightarrow> write_u32 off w p k = p k"
  by (auto simp: write_u32_def)

lemma page_of_group_index:
  "pfn_group a = pfn_group b \<and> pfn_index a = pfn_index b \<longleftrightarrow> drop_bit 12 a = drop_bit 12 b"
proof
  assume "pfn_group a = pfn_group b \<and> pfn_index a = pfn_index b"
  then show "drop_bit 12 a = drop_bit 12 b"
    unfolding pfn_group_def pfn_index_def by (metis word_mod_div_equality)
qed (simp add: pfn_group_def pfn_index_def)

lemma pfn_of_set_pfn:
  assumes "pfn_of m a = Some q"
  shows "pfn_of (set_pfn (pfn_group a) (pfn_index a) p m) b =
    (if drop_bit 12 a = drop_bit 12 b then Some p else pfn_of m b)"
  using assms page_of_group_index [of a b]
  by (auto simp: pfn_of_def set_pfn_def bind_eq_Some_conv)

lemma set_pfn_fields [simp]:
  "phys (set_pfn g i p m) = phys m" "hostmem_pages (set_pfn g i p m) = hostmem_pages m"
  "reversed_page_count (set_pfn g i p m) = reversed_page_count m"
  "reversed_map_pfns (set_pfn g i p m) = reversed_map_pfns m"
  "os_pages (set_pfn g i p m) = os_pages m" "os_mallocs (set_pfn g i p m) = os_mallocs m"
  by (simp_all add: set_pfn_def split: option.splits)

lemma pfn_of_updates [simp]:
  "pfn_of (m\<lparr>os_pages := ps\<rparr>) = pfn_of m" "pfn_of (m\<lparr>os_mallocs := bs\<rparr>) = pfn_of m"
  by (simp_all add: pfn_of_def fun_eq_iff)

lemma ensure_group_present: "pfn_of m a = Some q \<Longrightarrow> ensure_group (pfn_group a) m = (True, m)"
  by (auto simp: pfn_of_def ensure_group_def bind_eq_Some_conv)

lemma unat_scaled: "unat (B + 4 * x :: u32) mod 4096 = (unat B + 4 * unat x) mod 4096"
proof -
  have "B + 4 * x = word_of_nat (unat B + 4 * unat x)" by simp
  then have "unat (B + 4 * x) = (unat B + 4 * unat x) mod 2 ^ 32"
    by (simp only: unsigned_of_nat take_bit_eq_mod) simp
  then show ?thesis by (simp add: mod_mod_cancel)
qed

lemma pte_address_offset: "page_offset (pte_address a) + 4 \<le> 4096"
proof -
  have "page_offset (pte_address a) = (unat CO_VPTR_PSEUDO_RAM_PAGE_TABLES + 4 * unat (virtual_pfn a)) mod 4096"
    unfolding page_offset_eq pte_address_def by (rule unat_scaled)
  also have "\<dots> = (0xfeb00000 + 4 * unat (virtual_pfn a)) mod 4096" by simp
  also have "\<dots> = 4 * ((0x3fac0000 + unat (virtual_pfn a)) mod 1024)"
    using mult_mod_right [of 4 "0x3fac0000 + unat (virtual_pfn a)" 1024] by simp
  also have "\<dots> + 4 \<le> 4096" using mod_less_divisor [of 1024 "0x3fac0000 + unat (virtual_pfn a)"] by simp
  finally show ?thesis .
qed

lemma create_one_pte:
  assumes "pfn_of m v = Some t" "t \<noteq> 0" "phys m t = Some pg" "page_offset v + 4 \<le> 4096"
  shows "co_monitor_create_ptes m v 4 [f] =
    Some (RC_OK, m\<lparr>phys := (phys m)(t \<mapsto> write_u32 (page_offset v) (pte_of f) pg)\<rparr>)"
proof -
  have "part_of v 4 = 4"
    using assms(4) unat_part_of [of v 4] by (simp add: word_unat_eq_iff page_offset_eq)
  moreover obtain table where "pp_pfns m (pfn_group v) = Some table" "table (pfn_index v) = t"
    using assms(1) by (auto simp: pfn_of_def bind_eq_Some_conv)
  moreover have "create_ptes_callback (page_offset v) 4 pg [f] = Some (write_u32 (page_offset v) (pte_of f) pg, [])"
    by (simp add: create_ptes_callback_def)
  ultimately show ?thesis
    using assms(2,3) ensure_group_present [OF assms(1)]
    by (simp add: co_monitor_create_ptes_def co_manager_scan_pfns_and_callback_def
        co_split_by_pages_and_callback.simps scan_pfns_split_callback_def Let_def)
qed

text \<open>The frame \<open>t\<close> holds the guest's page table entry of \<open>a\<close>, the frame \<open>r\<close> the reversed map entry of
  the frame \<open>p\<close>.\<close>

definition has_slots :: "vm \<Rightarrow> u32 \<Rightarrow> pfn \<Rightarrow> pfn \<Rightarrow> pfn \<Rightarrow> bool" where
  "has_slots m a p t r \<longleftrightarrow> pfn_of m (pte_address a) = Some t \<and> t \<noteq> 0 \<and> t \<in> dom (phys m) \<and>
     p div 1024 < reversed_page_count m \<and> unat (p div 1024) < length (reversed_map_pfns m) \<and>
     reversed_map_pfns m ! unat (p div 1024) = r \<and> r \<in> dom (phys m) \<and> r \<noteq> t"

definition pte_at :: "vm \<Rightarrow> u32 \<Rightarrow> pfn \<Rightarrow> u32 option" where
  "pte_at m a t = map_option (read_u32 (page_offset (pte_address a))) (phys m t)"

definition reversed_at :: "vm \<Rightarrow> pfn \<Rightarrow> pfn \<Rightarrow> u32 option" where
  "reversed_at m p r = map_option (read_u32 (4 * unat (p mod 1024))) (phys m r)"

lemma set_reversed:
  assumes "has_slots m a p t r"
  shows "\<exists>pg. phys m r = Some pg \<and> co_manager_set_reversed_pfn m p x =
    Some (RC_OK, m\<lparr>phys := (phys m)(r \<mapsto> write_u32 (4 * unat (p mod 1024)) x pg)\<rparr>)"
  using assms by (auto simp: has_slots_def co_manager_set_reversed_pfn_def Let_def not_le)

lemma pte_page_other:
  assumes "pfn_of m a = Some q" "has_slots m a p t r" "q \<noteq> t"
  shows "pfn_of (set_pfn (pfn_group a) (pfn_index a) x m) (pte_address a) = Some t"
  using assms pfn_of_page [of a "pte_address a" m] by (auto simp: has_slots_def pfn_of_set_pfn)

lemma alloc_and_map_exact:
  assumes "pfn_of m a = Some 0" "os_pages m = Some p # ps" "p \<noteq> 0" "p < hostmem_pages m" "p \<notin> dom (phys m)"
    and slots: "has_slots m a p t r"
  shows "\<exists>m'. co_monitor_alloc_and_map_page m a = Some (RC_OK, m') \<and>
    pfn_of m' = (\<lambda>b. if drop_bit 12 a = drop_bit 12 b then Some p else pfn_of m b) \<and>
    phys m' = (phys m)(p \<mapsto> os_fill m p,
      r \<mapsto> write_u32 (4 * unat (p mod 1024)) (virtual_pfn a) (the (phys m r)),
      t \<mapsto> write_u32 (page_offset (pte_address a)) (pte_of p) (the (phys m t))) \<and>
    os_pages m' = ps \<and> has_slots m' a p t r"
proof -
  let ?m1 = "m\<lparr>os_pages := ps, phys := (phys m)(p \<mapsto> os_fill m p)\<rparr>"
  let ?m2 = "set_pfn (pfn_group a) (pfn_index a) p ?m1"
  have get: "co_manager_get_page m = (RC_OK, p, ?m1)"
    using assms(2,4,5) by (auto simp: co_manager_get_page_def co_os_get_page_def domIff)
  have 1: "pfn_of ?m1 = pfn_of m" by simp
  have s1: "has_slots ?m1 a p t r" using slots by (auto simp: has_slots_def)
  have "pfn_of ?m2 (pte_address a) = Some t"
    using pte_page_other [of ?m1 a 0 p t r p] 1 assms(1) s1 by (simp add: has_slots_def)
  then have s2: "has_slots ?m2 a p t r" using s1 by (simp add: has_slots_def)
  have pf: "pfn_of ?m2 = (\<lambda>b. if drop_bit 12 a = drop_bit 12 b then Some p else pfn_of m b)"
    using pfn_of_set_pfn [of ?m1 a 0 p] 1 assms(1) by (simp add: fun_eq_iff)
  have pne: "p \<noteq> r" "p \<noteq> t" using slots assms(5) by (auto simp: has_slots_def)
  then have ph: "phys ?m2 r = phys m r" "phys ?m2 t = phys m t" by simp_all
  from set_reversed [OF s2, of "virtual_pfn a"] ph(1) obtain pg where
    pg: "phys m r = Some pg" "co_manager_set_reversed_pfn ?m2 p (virtual_pfn a) =
      Some (RC_OK, ?m2\<lparr>phys := (phys ?m2)(r \<mapsto> write_u32 (4 * unat (p mod 1024)) (virtual_pfn a) pg)\<rparr>)" by auto
  let ?m3 = "?m2\<lparr>phys := (phys ?m2)(r \<mapsto> write_u32 (4 * unat (p mod 1024)) (virtual_pfn a) pg)\<rparr>"
  obtain tg where tg: "phys m t = Some tg" using slots by (auto simp: has_slots_def)
  let ?m4 = "?m3\<lparr>phys := (phys ?m3)(t \<mapsto> write_u32 (page_offset (pte_address a)) (pte_of p) tg)\<rparr>"
  have "co_monitor_create_ptes ?m3 (pte_address a) 4 [p] = Some (RC_OK, ?m4)"
  proof (rule create_one_pte)
    show "pfn_of ?m3 (pte_address a) = Some t" "t \<noteq> 0" using s2 by (simp_all add: has_slots_def)
    show "phys ?m3 t = Some tg" using s2 pne tg by (auto simp: has_slots_def)
    show "page_offset (pte_address a) + 4 \<le> 4096" by (rule pte_address_offset)
  qed
  then have "co_monitor_alloc_and_map_page m a = Some (RC_OK, ?m4)"
    using get pg(2) assms(1) ensure_group_present [OF assms(1)]
    by (simp add: co_monitor_alloc_and_map_page_def Let_def pfn_of_def bind_eq_Some_conv) auto
  moreover have "has_slots ?m4 a p t r" using s2 by (simp add: has_slots_def)
  ultimately show ?thesis
    using pf pg(1) tg by (intro exI [of _ ?m4]) simp
qed

lemma free_and_unmap_exact:
  assumes "pfn_of m a = Some p" "p \<noteq> 0" "p \<in> dom (phys m)" "p \<noteq> t" "p \<noteq> r" and slots: "has_slots m a p t r"
  shows "\<exists>m'. co_monitor_free_and_unmap_page m a = Some (RC_OK, m') \<and>
    pfn_of m' = (\<lambda>b. if drop_bit 12 a = drop_bit 12 b then Some 0 else pfn_of m b) \<and>
    phys m' = ((phys m)(t \<mapsto> write_u32 (page_offset (pte_address a)) 0 (the (phys m t)),
      r \<mapsto> write_u32 (4 * unat (p mod 1024)) 0 (the (phys m r))))(p := None)"
proof -
  obtain tg where tg: "phys m t = Some tg" using slots by (auto simp: has_slots_def)
  let ?m1 = "m\<lparr>phys := (phys m)(t \<mapsto> write_u32 (page_offset (pte_address a)) 0 tg)\<rparr>"
  have 1: "co_monitor_create_ptes m (pte_address a) 4 [0] = Some (RC_OK, ?m1)"
    using create_one_pte [of m "pte_address a" t tg 0] slots tg pte_address_offset
    by (simp add: has_slots_def pte_of_def)
  have "has_slots ?m1 a p t r" using slots by (auto simp: has_slots_def)
  from set_reversed [OF this, of 0] slots obtain pg where
    pg: "phys m r = Some pg" "co_manager_set_reversed_pfn ?m1 p 0 =
      Some (RC_OK, ?m1\<lparr>phys := (phys ?m1)(r \<mapsto> write_u32 (4 * unat (p mod 1024)) 0 pg)\<rparr>)"
    by (auto simp: has_slots_def)
  let ?m2 = "?m1\<lparr>phys := (phys ?m1)(r \<mapsto> write_u32 (4 * unat (p mod 1024)) 0 pg)\<rparr>"
  let ?m3 = "?m2\<lparr>phys := (phys ?m2)(p := None)\<rparr>"
  have "co_os_put_page p ?m2 = Some ?m3"
    using assms(3) by (auto simp: co_os_put_page_def)
  then have "co_monitor_free_and_unmap_page m a = Some (RC_OK, set_pfn (pfn_group a) (pfn_index a) 0 ?m3)"
    using assms(1,2) 1 pg(2)
    by (auto simp: co_monitor_free_and_unmap_page_def Let_def pfn_of_def bind_eq_Some_conv)
  moreover have "pfn_of (set_pfn (pfn_group a) (pfn_index a) 0 ?m3) =
      (\<lambda>b. if drop_bit 12 a = drop_bit 12 b then Some 0 else pfn_of m b)"
    using pfn_of_set_pfn [of ?m3 a p 0] assms(1) by (simp add: fun_eq_iff)
  ultimately show ?thesis
    using pg(1) tg assms(4,5) by (intro exI [of _ "set_pfn (pfn_group a) (pfn_index a) 0 ?m3"]) simp
qed

text \<open>C12: mapping a page of guest memory that has no frame takes a frame from the host, enters it in the
  table of pseudo physical frames and nowhere else, writes the guest's page table entry of the page
  and the entry of the reversed map that leads from the frame back to the page. Mapping it again
  changes nothing, and unmapping it restores the table, clears both entries and gives the frame back. This is the
  case where everything is there: the group of the page has its table, the host answers a frame that is not frame
  zero, lies below \<open>hostmem_pages\<close> and is not in use, and (\<open>has_slots\<close>) the page table of the page is mapped and the
  reversed map reaches the frame, each in memory of its own. A frame the reversed map does not reach is the gap of
  \<open>co_monitor_map_page_reversed_gap\<close>.\<close>

theorem co_monitor_map_unmap_page:
  assumes "pfn_of m a = Some 0" "os_pages m = Some p # ps" "p \<noteq> 0" "p < hostmem_pages m" "p \<notin> dom (phys m)"
    and "has_slots m a p t r"
  shows "\<exists>m' m''. co_monitor_alloc_and_map_page m a = Some (RC_OK, m') \<and>
    pfn_of m' = (\<lambda>b. if drop_bit 12 a = drop_bit 12 b then Some p else pfn_of m b) \<and>
    pte_at m' a t = Some (pte_of p) \<and> reversed_at m' p r = Some (virtual_pfn a) \<and> p \<in> dom (phys m') \<and>
    co_monitor_alloc_and_map_page m' a = Some (RC_OK, m') \<and>
    co_monitor_free_and_unmap_page m' a = Some (RC_OK, m'') \<and>
    pfn_of m'' = pfn_of m \<and> pte_at m'' a t = Some 0 \<and> reversed_at m'' p r = Some 0 \<and>
    dom (phys m'') = dom (phys m)"
proof -
  from alloc_and_map_exact [OF assms] obtain m' where m': "co_monitor_alloc_and_map_page m a = Some (RC_OK, m')"
    "pfn_of m' = (\<lambda>b. if drop_bit 12 a = drop_bit 12 b then Some p else pfn_of m b)"
    "phys m' = (phys m)(p \<mapsto> os_fill m p, r \<mapsto> write_u32 (4 * unat (p mod 1024)) (virtual_pfn a) (the (phys m r)),
      t \<mapsto> write_u32 (page_offset (pte_address a)) (pte_of p) (the (phys m t)))"
    "has_slots m' a p t r" by auto
  have d: "t \<in> dom (phys m)" "r \<in> dom (phys m)" "r \<noteq> t" "p \<noteq> t" "p \<noteq> r"
    using assms(5,6) by (auto simp: has_slots_def)
  have pa: "pfn_of m' a = Some p" using m'(2) by simp
  have dom': "p \<in> dom (phys m')" using m'(3) d by simp
  from free_and_unmap_exact [OF pa assms(3) dom' d(4,5) m'(4)] obtain m'' where
    m'': "co_monitor_free_and_unmap_page m' a = Some (RC_OK, m'')"
    "pfn_of m'' = (\<lambda>b. if drop_bit 12 a = drop_bit 12 b then Some 0 else pfn_of m' b)"
    "phys m'' = ((phys m')(t \<mapsto> write_u32 (page_offset (pte_address a)) 0 (the (phys m' t)),
      r \<mapsto> write_u32 (4 * unat (p mod 1024)) 0 (the (phys m' r))))(p := None)" by auto
  have "pfn_of m'' = pfn_of m"
  proof
    fix b
    show "pfn_of m'' b = pfn_of m b"
      using m''(2) m'(2) assms(1) pfn_of_page [of a b m] by simp
  qed
  moreover have "co_monitor_alloc_and_map_page m' a = Some (RC_OK, m')"
    using pa assms(3) ensure_group_present [OF pa]
    by (auto simp: co_monitor_alloc_and_map_page_def pfn_of_def bind_eq_Some_conv)
  moreover have "dom (phys m'') = dom (phys m)"
    unfolding m''(3) m'(3) using d assms(5) by auto
  ultimately show ?thesis
    using m' m'' d dom'
    by (intro exI [of _ m'] exI [of _ m'']) (simp add: pte_at_def reversed_at_def read_write_u32)
qed

theorem co_monitor_map_unmap_page_witness:
  "\<exists>m' m''. co_monitor_alloc_and_map_page vm_example 0xc0002000 = Some (RC_OK, m') \<and>
    pfn_of m' = (\<lambda>b. if drop_bit 12 (0xc0002000 :: u32) = drop_bit 12 b then Some 11 else pfn_of vm_example b) \<and>
    pte_at m' 0xc0002000 7 = Some (pte_of 11) \<and> reversed_at m' 11 3 = Some (virtual_pfn 0xc0002000) \<and>
    11 \<in> dom (phys m') \<and>
    co_monitor_alloc_and_map_page m' 0xc0002000 = Some (RC_OK, m') \<and>
    co_monitor_free_and_unmap_page m' 0xc0002000 = Some (RC_OK, m'') \<and>
    pfn_of m'' = pfn_of vm_example \<and> pte_at m'' 0xc0002000 7 = Some 0 \<and> reversed_at m'' 11 3 = Some 0 \<and>
    dom (phys m'') = dom (phys vm_example)"
  by (rule co_monitor_map_unmap_page [of _ _ _ "[]"])
    (simp_all add: vm_example_def has_slots_def pfn_of_def pfn_group_def pfn_index_def pte_address_def virtual_pfn_def)

text \<open>a frame beyond the last whole kilo of host frames has no entry in the reversed map, as
  \<open>reversed_page_count\<close> is rounded down: mapping a page to it fails, but leaves the frame in the table,
  so that a second attempt answers success while the guest's page table entry is still empty.\<close>

theorem co_monitor_map_page_reversed_gap:
  "let m = vm_example\<lparr>os_pages := [Some 1028]\<rparr> in
   1028 < hostmem_pages m \<and> pfn_of m 0xc0002000 = Some 0 \<and>
   (\<exists>m'. co_monitor_alloc_and_map_page m 0xc0002000 = Some (RC_ERROR, m') \<and>
      pfn_of m' 0xc0002000 = Some 1028 \<and> pte_at m' 0xc0002000 7 = Some 0 \<and>
      co_monitor_alloc_and_map_page m' 0xc0002000 = Some (RC_OK, m'))"
  by (simp add: vm_example_def pfn_of_def pfn_group_def pfn_index_def pte_address_def virtual_pfn_def
      co_monitor_alloc_and_map_page_def ensure_group_def co_manager_get_page_def co_os_get_page_def set_pfn_def
      co_manager_set_reversed_pfn_def pte_at_def page_offset_def read_u32_def)

end
