(* ===== verification/CoUnicode.thy ===== *)
theory CoUnicode
  imports CoErrors
begin

text \<open>
  The character conversions of \<open>src/colinux/common/unicode.c\<close>. A byte string is the list of its bytes
  before the final NUL, reading at its end is reading that NUL; the result of a conversion is all the
  characters that are stored, the final NUL included. \<open>co_wchar_t\<close> has 16 bits. \<open>None\<close> is the result
  \<open>-1\<close> of the two converters of a single character. The reference encoding is \<open>utf8\<close>.
\<close>

record utf8_table =
  cmask :: u32
  cval :: u32
  shift :: nat
  lmask :: u32
  lval :: u32

definition utf8_rows :: "utf8_table list" where
  "utf8_rows =
    [\<lparr>cmask = 0x80, cval = 0x00, shift = 0, lmask = 0x7F, lval = 0\<rparr>,
     \<lparr>cmask = 0xE0, cval = 0xC0, shift = 6, lmask = 0x7FF, lval = 0x80\<rparr>,
     \<lparr>cmask = 0xF0, cval = 0xE0, shift = 12, lmask = 0xFFFF, lval = 0x800\<rparr>,
     \<lparr>cmask = 0xF8, cval = 0xF0, shift = 18, lmask = 0x1FFFFF, lval = 0x10000\<rparr>,
     \<lparr>cmask = 0xFC, cval = 0xF8, shift = 24, lmask = 0x3FFFFFF, lval = 0x200000\<rparr>,
     \<lparr>cmask = 0xFE, cval = 0xFC, shift = 30, lmask = 0x7FFFFFFF, lval = 0x4000000\<rparr>]"

definition byte_at :: "u8 list \<Rightarrow> u8" where
  "byte_at s = (case s of [] \<Rightarrow> 0 | b # bs \<Rightarrow> b)"

fun mbtowc_loop :: "utf8_table list \<Rightarrow> u32 \<Rightarrow> u32 \<Rightarrow> int \<Rightarrow> u8 list \<Rightarrow> int \<Rightarrow> (nat \<times> u16) option" where
  "mbtowc_loop [] c0 l nc s n = None"
| "mbtowc_loop (t # ts) c0 l nc s n =
     (let nc = nc + 1 in
      if c0 AND cmask t = cval t
      then (let l = l AND lmask t in if l < lval t then None else Some (nat nc, ucast l))
      else if n \<le> nc then None
      else
        let s = tl s; c = (ucast (byte_at s) XOR 0x80) AND 0xFF in
        if c AND 0xC0 \<noteq> 0 then None
        else mbtowc_loop ts c0 (push_bit 6 l OR c) nc s n)"

definition utf8_mbtowc :: "u8 list \<Rightarrow> int \<Rightarrow> (nat \<times> u16) option" where
  "utf8_mbtowc s n = mbtowc_loop utf8_rows (ucast (byte_at s)) (ucast (byte_at s)) 0 s n"

fun continuation_bytes :: "nat \<Rightarrow> u32 \<Rightarrow> u8 list" where
  "continuation_bytes c l =
     (if c = 0 then [] else ucast (0x80 OR (drop_bit (c - 6) l AND 0x3F)) # continuation_bytes (c - 6) l)"

declare continuation_bytes.simps [simp del]

fun wctomb_loop :: "utf8_table list \<Rightarrow> u32 \<Rightarrow> int \<Rightarrow> u8 list option" where
  "wctomb_loop [] l maxlen = None"
| "wctomb_loop (t # ts) l maxlen =
     (if maxlen = 0 then None
      else if l \<le> lmask t then Some (ucast (cval t OR drop_bit (shift t) l) # continuation_bytes (shift t) l)
      else wctomb_loop ts l (maxlen - 1))"

definition utf8_wctomb :: "u16 \<Rightarrow> int \<Rightarrow> u8 list option" where
  "utf8_wctomb wc maxlen = wctomb_loop utf8_rows (ucast wc) maxlen"

lemma mbtowc_loop_pos: "mbtowc_loop ts c0 l nc s n = Some (k, w) \<Longrightarrow> 0 \<le> nc \<Longrightarrow> 0 < k"
  by (induction ts c0 l nc s n rule: mbtowc_loop.induct) (auto simp: Let_def split: if_splits)

function mbstrlen_loop :: "u8 list \<Rightarrow> int \<Rightarrow> int \<Rightarrow> int" where
  "mbstrlen_loop ip maxlen len =
     (if maxlen > 0 \<and> byte_at ip \<noteq> 0 then
        if byte_at ip AND 0x80 \<noteq> 0
        then (case utf8_mbtowc ip maxlen of
                None \<Rightarrow> mbstrlen_loop (tl ip) (maxlen - 1) (len + 1)
              | Some (k, op) \<Rightarrow> mbstrlen_loop (drop k ip) (maxlen - int k) (len + 1))
        else mbstrlen_loop (tl ip) (maxlen - 1) (len + 1)
      else len)"
  by pat_completeness auto
termination
  by (relation "measure (\<lambda>(ip, maxlen, len). nat maxlen)")
    (auto simp: utf8_mbtowc_def dest!: mbtowc_loop_pos)

declare mbstrlen_loop.simps [simp del]

definition co_utf8_mbstrlen :: "u8 list \<Rightarrow> int" where
  "co_utf8_mbstrlen src = mbstrlen_loop src (int (length (takeWhile (\<lambda>b. b \<noteq> 0) src))) 0"

definition co_utf8_mcstrlen :: "u16 list \<Rightarrow> nat" where
  "co_utf8_mcstrlen src = length (takeWhile (\<lambda>w. w \<noteq> 0) src)"

function mbstowcs_loop :: "u8 list \<Rightarrow> int \<Rightarrow> u16 list \<Rightarrow> u16 list \<times> int" where
  "mbstowcs_loop ip maxlen op =
     (if maxlen > 0 \<and> byte_at ip \<noteq> 0 then
        if byte_at ip AND 0x80 \<noteq> 0
        then (case utf8_mbtowc ip maxlen of
                None \<Rightarrow> mbstowcs_loop (tl ip) (maxlen - 1) (op @ [0x3F])
              | Some (k, w) \<Rightarrow> mbstowcs_loop (drop k ip) (maxlen - 1) (op @ [w]))
        else mbstowcs_loop (tl ip) (maxlen - 1) (op @ [ucast (byte_at ip)])
      else (op, maxlen))"
  by pat_completeness auto
termination by (relation "measure (\<lambda>(ip, maxlen, op). nat maxlen)") auto

declare mbstowcs_loop.simps [simp del]

definition co_utf8_mbstowcs :: "u8 list \<Rightarrow> int \<Rightarrow> co_rc \<times> u16 list" where
  "co_utf8_mbstowcs src maxlen =
     (let (op, maxlen) = mbstowcs_loop src maxlen [] in
      (if maxlen < 0 then RC_ERROR else RC_OK, op @ [0]))"

fun wcstombs_loop :: "u16 list \<Rightarrow> int \<Rightarrow> u8 list \<Rightarrow> u8 list \<times> int" where
  "wcstombs_loop [] maxlen op = (op, maxlen)"
| "wcstombs_loop (w # ip) maxlen op =
     (if maxlen > 0 \<and> w \<noteq> 0 then
        if w > 0x7f
        then (case utf8_wctomb w maxlen of
                None \<Rightarrow> wcstombs_loop ip (maxlen - 1) (op @ [0x3F])
              | Some bs \<Rightarrow> wcstombs_loop ip (maxlen - int (length bs)) (op @ bs))
        else wcstombs_loop ip (maxlen - 1) (op @ [ucast w])
      else (op, maxlen))"

definition co_utf8_wcstombs :: "u16 list \<Rightarrow> int \<Rightarrow> co_rc \<times> u8 list" where
  "co_utf8_wcstombs src maxlen =
     (let (op, maxlen) = wcstombs_loop src (maxlen - 1) [] in
      (if maxlen < 0 then RC_ERROR else RC_OK, op @ [0]))"

fun wctowbstrlen_loop :: "u16 list \<Rightarrow> int \<Rightarrow> int \<Rightarrow> int" where
  "wctowbstrlen_loop [] maxlen len = len"
| "wctowbstrlen_loop (w # ip) maxlen len =
     (if maxlen > 0 \<and> w \<noteq> 0
      then wctowbstrlen_loop ip (maxlen - 1)
        (len + (if w > 0x7f then case utf8_wctomb w 8 of None \<Rightarrow> 1 | Some bs \<Rightarrow> int (length bs) else 1))
      else len)"

definition co_utf8_wctowbstrlen :: "u16 list \<Rightarrow> int \<Rightarrow> int" where
  "co_utf8_wctowbstrlen src maxlen = wctowbstrlen_loop src maxlen 0"

text \<open>\<open>malloc\<close> says whether \<open>co_os_malloc\<close> succeeds. The result is the string and its length; a store
  beyond the \<open>size + 1\<close> characters allocated is \<open>None\<close>.\<close>

definition co_utf8_dup_to_wc :: "u8 list \<Rightarrow> bool \<Rightarrow> (co_rc + u16 list \<times> int) option" where
  "co_utf8_dup_to_wc src malloc =
     (let n = co_utf8_mbstrlen src + 1 in
      if \<not> malloc then Some (Inl RC_OUT_OF_MEMORY)
      else let (rc, buffer) = co_utf8_mbstowcs src n in
        if int (length buffer) > n + 1 then None
        else if \<not> rc_ok rc then Some (Inl rc)
        else Some (Inr (buffer, n - 1)))"

section \<open>The reference encoding\<close>

definition utf8 :: "u16 \<Rightarrow> u8 list" where
  "utf8 w = map word_of_nat
     (if unat w < 0x80 then [unat w]
      else if unat w < 0x800 then [0xC0 + unat w div 64, 0x80 + unat w mod 64]
      else [0xE0 + unat w div 4096, 0x80 + unat w div 64 mod 64, 0x80 + unat w mod 64])"

lemma list_all_upt: "list_all P [0..<n] \<Longrightarrow> k < n \<Longrightarrow> P k"
  by (simp add: list_all_iff)

lemma push_or_add:
  fixes c k :: u32
  assumes "k < 64"
  shows "push_bit 6 c OR k = 64 * c + k"
proof -
  have k: "k = take_bit 6 k"
    using assms by (simp add: word_unat_eq_iff unsigned_take_bit_eq take_bit_nat_eq_self word_less_nat_alt)
  have "push_bit 6 c AND k = 0"
    by (subst k, rule bit_word_eqI) (auto simp: bit_simps)
  then have "push_bit 6 c OR k = push_bit 6 c + k"
    using word_plus_and_or [of "push_bit 6 c" k] by simp
  then show ?thesis by (simp add: push_bit_eq_mult)
qed

lemma and_mask_unat: "unat (l AND (mask n :: u32)) = unat l mod 2 ^ n"
  by (simp add: take_bit_eq_mod [symmetric] unsigned_take_bit_eq flip: take_bit_eq_mask)

lemma masks: "(0x7F :: u32) = mask 7" "(0x7FF :: u32) = mask 11" "(0xFFFF :: u32) = mask 16" "(0x3F :: u32) = mask 6"
  by (simp_all add: mask_eq_exp_minus_1)

text \<open>The bytes of an encoding, one by one.\<close>

lemma byte_facts:
  "k < 32 \<Longrightarrow> (ucast (0xC0 + word_of_nat k :: u8) :: u32) = 0xC0 + word_of_nat k"
  "k < 32 \<Longrightarrow> (0xC0 + word_of_nat k :: u32) AND 0x80 \<noteq> 0"
  "k < 32 \<Longrightarrow> (0xC0 + word_of_nat k :: u32) AND 0xE0 = 0xC0"
  "k < 16 \<Longrightarrow> (ucast (0xE0 + word_of_nat k :: u8) :: u32) = 0xE0 + word_of_nat k"
  "k < 16 \<Longrightarrow> (0xE0 + word_of_nat k :: u32) AND 0x80 \<noteq> 0"
  "k < 16 \<Longrightarrow> (0xE0 + word_of_nat k :: u32) AND 0xE0 \<noteq> 0xC0"
  "k < 16 \<Longrightarrow> (0xE0 + word_of_nat k :: u32) AND 0xF0 = 0xE0"
  "k < 64 \<Longrightarrow> (ucast (0x80 + word_of_nat k :: u8) XOR 0x80) AND 0xFF = (word_of_nat k :: u32)"
  "k < 64 \<Longrightarrow> (word_of_nat k :: u32) AND 0xC0 = 0"
  "k < 64 \<Longrightarrow> (ucast (0x80 OR word_of_nat k :: u32) :: u8) = 0x80 + word_of_nat k"
  "k < 32 \<Longrightarrow> (ucast (0xC0 OR word_of_nat k :: u32) :: u8) = 0xC0 + word_of_nat k"
  "k < 16 \<Longrightarrow> (ucast (0xE0 OR word_of_nat k :: u32) :: u8) = 0xE0 + word_of_nat k"
  "k < 32 \<Longrightarrow> (0xC0 + word_of_nat k :: u8) AND 0x80 \<noteq> 0"
  "k < 16 \<Longrightarrow> (0xE0 + word_of_nat k :: u8) AND 0x80 \<noteq> 0"
  by (erule list_all_upt [rotated], code_simp)+

lemma unat_nat_u32: "n < 2 ^ 32 \<Longrightarrow> unat (word_of_nat n :: u32) = n"
  by (simp add: unsigned_of_nat take_bit_nat_eq_self)

lemma drop_of_nat:
  assumes "n < 2 ^ 32"
  shows "drop_bit 6 (word_of_nat n :: u32) = word_of_nat (n div 64)"
    and "drop_bit 12 (word_of_nat n :: u32) = word_of_nat (n div 4096)"
  using assms unat_nat_u32 [OF assms] unat_nat_u32 [of "n div 64"] unat_nat_u32 [of "n div 4096"]
  by (simp_all add: word_unat_eq_iff drop_bit_eq_div unat_div)

lemma and_3F_of_nat: "n < 2 ^ 32 \<Longrightarrow> word_of_nat n AND 0x3F = (word_of_nat (n mod 64) :: u32)"
  unfolding masks
  using unat_nat_u32 [of n] unat_nat_u32 [of "n mod 64"]
  by (simp add: word_unat_eq_iff and_mask_unat order.strict_trans1 [OF mod_less_eq_dividend])

lemma of_nat_le: "n < 2 ^ 32 \<Longrightarrow> word_of_nat n \<le> (b :: u32) \<longleftrightarrow> n \<le> unat b"
  by (simp add: word_le_nat_alt unat_nat_u32)

lemma utf8_wctomb_utf8:
  assumes "0x80 \<le> unat w" "int (length (utf8 w)) \<le> maxlen"
  shows "utf8_wctomb w maxlen = Some (utf8 w)"
proof -
  define n where "n = unat w"
  have w: "(ucast w :: u32) = word_of_nat n" by (simp add: n_def)
  have lt: "n < 65536" "n < 2 ^ 32" "0x80 \<le> n"
    using unsigned_less [of w, where 'a = nat] assms(1) by (simp_all add: n_def)
  show ?thesis
  proof (cases "n < 0x800")
    case True
    then have "n div 64 < 32" "n mod 64 < 64" by simp_all
    note f = byte_facts(11) [OF this(1)] byte_facts(10) [OF this(2)]
    have "length (utf8 w) = 2" using True lt(3) by (simp add: utf8_def n_def)
    then have "maxlen \<noteq> 0" "maxlen - 1 \<noteq> 0" using assms(2) by simp_all
    then show ?thesis
      unfolding utf8_wctomb_def w utf8_def n_def [symmetric] using True f lt
      by (simp add: utf8_rows_def of_nat_le drop_of_nat and_3F_of_nat continuation_bytes.simps)
  next
    case False
    have "n div 4096 < 16" "n div 64 mod 64 < 64" "n mod 64 < 64" using lt(1) by simp_all
    note f = byte_facts(12) [OF this(1)] byte_facts(10) [OF this(2)] byte_facts(10) [OF this(3)]
    have "n div 64 < 2 ^ 32" using lt(1) by simp
    note g = and_3F_of_nat [OF this] and_3F_of_nat [OF lt(2)]
    have "length (utf8 w) = 3" using False lt(3) by (simp add: utf8_def n_def)
    then have "maxlen \<noteq> 0" "maxlen - 1 \<noteq> 0" "maxlen - 2 \<noteq> 0" using assms(2) by simp_all
    then show ?thesis
      unfolding utf8_wctomb_def w utf8_def n_def [symmetric] using False f g lt
      by (simp add: utf8_rows_def of_nat_le drop_of_nat continuation_bytes.simps)
  qed
qed

lemma ucast_unat_eq: "unat (l :: u32) = unat (w :: u16) \<Longrightarrow> ucast l = w"
  using unsigned_less [of w, where 'a = nat] by (simp add: word_unat_eq_iff unsigned_ucast_eq take_bit_nat_eq_self)

lemma push_or_of_nat:
  "k < 64 \<Longrightarrow> push_bit 6 (word_of_nat x) OR word_of_nat k = (word_of_nat (64 * x + k) :: u32)"
  by (simp add: push_or_add word_less_nat_alt unat_nat_u32)

lemma numeral_of_nat: "numeral m + word_of_nat k = (word_of_nat (numeral m + k) :: u32)"
  by simp

lemma utf8_mbtowc_utf8:
  assumes "0x80 \<le> unat w" "int (length (utf8 w)) \<le> m"
  shows "utf8_mbtowc (utf8 w @ rest) m = Some (length (utf8 w), w)"
proof -
  define n where "n = unat w"
  have lt: "n < 65536" "0x80 \<le> n"
    using unsigned_less [of w, where 'a = nat] assms(1) by (simp_all add: n_def)
  show ?thesis
  proof (cases "n < 0x800")
    case True
    let ?a = "n div 64" and ?b = "n mod 64"
    have ab: "?a < 32" "?b < 64" using True by simp_all
    define l where "l = (push_bit 6 (0xC0 + word_of_nat ?a) OR word_of_nat ?b) AND (0x7FF :: u32)"
    have "l = word_of_nat (64 * (0xC0 + ?a) + ?b) AND mask 11"
      by (simp only: l_def numeral_of_nat push_or_of_nat [OF ab(2)] masks)
    moreover have "unat (word_of_nat (64 * (0xC0 + ?a) + ?b) :: u32) = 64 * (0xC0 + ?a) + ?b"
      by (rule unat_nat_u32) (use ab in simp)
    ultimately have "unat l = (64 * (0xC0 + ?a) + ?b) mod 2048" by (simp only: and_mask_unat) simp
    also have "64 * (0xC0 + ?a) + ?b = 6 * 2048 + n" using mult_div_mod_eq [of 64 n] by simp
    also have "\<dots> mod 2048 = n" using True by (simp only: mod_mult_self3 mod_less)
    finally have l: "unat l = n" .
    then have "ucast l = w" "\<not> l < 0x80" using lt by (auto intro: ucast_unat_eq simp: word_less_nat_alt n_def)
    then show ?thesis
      using assms(2) True lt byte_facts(1-3) [OF ab(1)] byte_facts(8,9) [OF ab(2)]
      by (simp add: utf8_mbtowc_def utf8_rows_def utf8_def byte_at_def Let_def n_def [symmetric] flip: l_def)
  next
    case False
    let ?a = "n div 4096" and ?b = "n div 64 mod 64" and ?c = "n mod 64"
    have abc: "?a < 16" "?b < 64" "?c < 64" using lt(1) by simp_all
    define l where "l = (push_bit 6 (push_bit 6 (0xE0 + word_of_nat ?a) OR word_of_nat ?b) OR word_of_nat ?c) AND (0xFFFF :: u32)"
    have "l = word_of_nat (64 * (64 * (0xE0 + ?a) + ?b) + ?c) AND mask 16"
      by (simp only: l_def numeral_of_nat push_or_of_nat [OF abc(2)] push_or_of_nat [OF abc(3)] masks)
    moreover have "unat (word_of_nat (64 * (64 * (0xE0 + ?a) + ?b) + ?c) :: u32) = 64 * (64 * (0xE0 + ?a) + ?b) + ?c"
      by (rule unat_nat_u32) (use abc in simp)
    ultimately have "unat l = (64 * (64 * (0xE0 + ?a) + ?b) + ?c) mod 65536" by (simp only: and_mask_unat) simp
    also have "64 * (64 * (0xE0 + ?a) + ?b) + ?c = 14 * 65536 + n"
      using mult_div_mod_eq [of 64 n] mult_div_mod_eq [of 64 "n div 64"] by (simp add: div_mult2_eq [symmetric] algebra_simps)
    also have "\<dots> mod 65536 = n" using lt(1) by (simp only: mod_mult_self3 mod_less)
    finally have l: "unat l = n" .
    then have "ucast l = w" "\<not> l < 0x800" using lt False by (auto intro: ucast_unat_eq simp: word_less_nat_alt n_def)
    then show ?thesis
      using assms(2) False lt byte_facts(4-7) [OF abc(1)] byte_facts(8,9) [OF abc(2)] byte_facts(8,9) [OF abc(3)]
      by (simp add: utf8_mbtowc_def utf8_rows_def utf8_def byte_at_def Let_def n_def [symmetric] flip: l_def del: push_bit_or push_bit_push_bit)
  qed
qed

lemma utf8_bytes:
  "utf8 w \<noteq> []" "length (utf8 w) \<le> 3" "w < 0x800 \<Longrightarrow> length (utf8 w) \<le> 2"
  "unat w < 0x80 \<Longrightarrow> utf8 w = [ucast w]"
  by (auto simp: utf8_def word_less_nat_alt)

lemma utf8_first:
  assumes "w \<noteq> 0"
  shows "byte_at (utf8 w @ rest) \<noteq> 0" "byte_at (utf8 w @ rest) AND 0x80 = 0 \<longleftrightarrow> unat w < 0x80"
proof -
  define n where "n = unat w"
  have lt: "n < 65536" "n \<noteq> 0"
    using unsigned_less [of w, where 'a = nat] assms by (simp_all add: n_def unat_eq_0)
  have low: "\<forall>k<128. (word_of_nat k :: u8) AND 0x80 = 0 \<and> (k \<noteq> 0 \<longrightarrow> (word_of_nat k :: u8) \<noteq> 0)"
    by (intro allI impI, erule list_all_upt [rotated], code_simp)
  have "n < 128 \<or> 128 \<le> n \<and> n < 0x800 \<and> n div 64 < 32 \<or> 0x800 \<le> n \<and> n div 4096 < 16" using lt(1) by auto
  then show "byte_at (utf8 w @ rest) \<noteq> 0" "byte_at (utf8 w @ rest) AND 0x80 = 0 \<longleftrightarrow> unat w < 0x80"
    unfolding utf8_def n_def [symmetric]
    using low lt(2) byte_facts(13) [of "n div 64"] byte_facts(14) [of "n div 4096"]
    by (auto simp: byte_at_def)
qed

lemma wcstombs_loop_utf8:
  assumes "0 \<notin> set ws" "int (length (concat (map utf8 ws))) \<le> maxlen"
  shows "wcstombs_loop ws maxlen op = (op @ concat (map utf8 ws), maxlen - int (length (concat (map utf8 ws))))"
  using assms
proof (induction ws arbitrary: maxlen op)
  case (Cons w ws)
  have w: "w \<noteq> 0" "0 < maxlen" using Cons.prems utf8_bytes(1) [of w] by (auto intro: less_le_trans [of 0 "int (length (utf8 w))"])
  show ?case
  proof (cases "unat w < 0x80")
    case True
    with Cons w show ?thesis by (simp add: utf8_bytes(4) word_less_nat_alt)
  next
    case False
    with Cons w show ?thesis by (simp add: utf8_wctomb_utf8 word_less_nat_alt)
  qed
qed simp

text \<open>The characters are read back as long as the count of characters left is not below the length of one.\<close>

fun counted :: "u16 list \<Rightarrow> int \<Rightarrow> bool" where
  "counted [] maxlen = True"
| "counted (w # ws) maxlen = (int (length (utf8 w)) \<le> maxlen \<and> counted ws (maxlen - 1))"

lemma counted_bytes: "int (length (concat (map utf8 ws))) \<le> maxlen \<Longrightarrow> counted ws maxlen"
proof (induction ws arbitrary: maxlen)
  case (Cons w ws)
  then show ?case using utf8_bytes(1) [of w] by (cases "utf8 w") auto
qed simp

lemma mbstowcs_loop_utf8:
  assumes "0 \<notin> set ws" "counted ws maxlen"
  shows "mbstowcs_loop (concat (map utf8 ws) @ rest) maxlen op = mbstowcs_loop rest (maxlen - int (length ws)) (op @ ws)"
  using assms
proof (induction ws arbitrary: maxlen op)
  case (Cons w ws)
  have w: "w \<noteq> 0" "0 < maxlen" using Cons.prems utf8_bytes(1) [of w] by (auto intro: less_le_trans [of 0 "int (length (utf8 w))"])
  note first = utf8_first [OF w(1), of "concat (map utf8 ws) @ rest"]
  have IH: "mbstowcs_loop (concat (map utf8 ws) @ rest) (maxlen - 1) (op @ [w]) =
      mbstowcs_loop rest (maxlen - int (length (w # ws))) (op @ w # ws)"
    using Cons by (simp add: diff_diff_eq [symmetric])
  show ?case
  proof (cases "unat w < 0x80")
    case True
    have "byte_at (utf8 w @ concat (map utf8 ws) @ rest) = ucast w" "ucast (ucast w :: u8) = w"
      using utf8_bytes(4) [OF True] True
      by (simp_all add: byte_at_def word_unat_eq_iff unsigned_ucast_eq unsigned_take_bit_eq take_bit_nat_eq_self)
    with True w first IH utf8_bytes(4) [OF True] show ?thesis
      by (subst mbstowcs_loop.simps) simp
  next
    case False
    with w first IH Cons.prems(2) utf8_mbtowc_utf8 [of w maxlen "concat (map utf8 ws) @ rest"] show ?thesis
      by (subst mbstowcs_loop.simps) simp
  qed
qed simp

lemma mbstowcs_loop_end [simp]: "mbstowcs_loop [] maxlen op = (op, maxlen)"
  by (subst mbstowcs_loop.simps) (simp add: byte_at_def)

text \<open>C14: the UTF-8 conversions are inverse to each other and agree with the reference encoding: a wide
  string without NUL is converted to the concatenation of the encodings of its characters whenever the
  buffer holds them and the NUL, and converting these bytes back gives the string.\<close>

theorem co_utf8_roundtrip:
  assumes "0 \<notin> set ws" "int (length (concat (map utf8 ws))) < maxlen"
  shows "co_utf8_wcstombs ws maxlen = (RC_OK, concat (map utf8 ws) @ [0]) \<and>
    co_utf8_mbstowcs (concat (map utf8 ws)) maxlen = (RC_OK, ws @ [0])"
proof -
  have "mbstowcs_loop (concat (map utf8 ws)) maxlen [] = (ws, maxlen - int (length ws))"
    using mbstowcs_loop_utf8 [OF assms(1) counted_bytes, of maxlen "[]" "[]"] assms(2) by simp
  moreover have "length ws \<le> length (concat (map utf8 ws))"
  proof (induction ws)
    case (Cons w ws)
    then show ?case using utf8_bytes(1) [of w] by (cases "utf8 w") auto
  qed simp
  ultimately show ?thesis
    using assms wcstombs_loop_utf8 [OF assms(1), of "maxlen - 1" "[]"]
    by (simp add: co_utf8_wcstombs_def co_utf8_mbstowcs_def)
qed

theorem co_utf8_roundtrip_witness:
  "co_utf8_wcstombs [0x41, 0xe9, 0x20AC] 7 = (RC_OK, concat (map utf8 [0x41, 0xe9, 0x20AC]) @ [0]) \<and>
    co_utf8_mbstowcs (concat (map utf8 [0x41, 0xe9, 0x20AC])) 7 = (RC_OK, [0x41, 0xe9, 0x20AC] @ [0])"
  by (rule co_utf8_roundtrip) (simp_all add: utf8_def)

lemma mbstowcs_loop_length:
  "length (fst (mbstowcs_loop ip maxlen op)) \<le> length op + nat maxlen"
proof (induction ip maxlen op rule: mbstowcs_loop.induct)
  case (1 ip maxlen op)
  show ?case
  proof (cases "maxlen > 0 \<and> byte_at ip \<noteq> 0")
    case True
    note pos = True
    show ?thesis
    proof (cases "byte_at ip AND 0x80 \<noteq> 0")
      case True
      show ?thesis
      proof (cases "utf8_mbtowc ip maxlen")
        case None
        then show ?thesis using pos True 1(1) [OF pos True] TrueI by (auto simp: mbstowcs_loop.simps [of ip maxlen op])
      next
        case (Some p)
        then show ?thesis
          using pos True 1(2) [OF pos True, of p "fst p" "snd p"] TrueI
          by (cases p) (auto simp: mbstowcs_loop.simps [of ip maxlen op])
      qed
    next
      case False
      then show ?thesis using pos 1(3) [OF pos False] TrueI by (auto simp: mbstowcs_loop.simps [of ip maxlen op])
    qed
  qed (use TrueI in \<open>auto simp: mbstowcs_loop.simps [of ip maxlen op]\<close>)
qed

lemma mbstowcs_loop_rest: "0 \<le> maxlen \<Longrightarrow> 0 \<le> snd (mbstowcs_loop ip maxlen op)"
proof (induction ip maxlen op rule: mbstowcs_loop.induct)
  case (1 ip maxlen op)
  show ?case
  proof (cases "maxlen > 0 \<and> byte_at ip \<noteq> 0")
    case True
    note pos = True
    show ?thesis
    proof (cases "byte_at ip AND 0x80 \<noteq> 0")
      case True
      show ?thesis
      proof (cases "utf8_mbtowc ip maxlen")
        case None
        then show ?thesis using pos True 1(1) [OF pos True] 1(4) by (auto simp: mbstowcs_loop.simps [of ip maxlen op])
      next
        case (Some p)
        then show ?thesis
          using pos True 1(2) [OF pos True, of p "fst p" "snd p"] 1(4)
          by (cases p) (auto simp: mbstowcs_loop.simps [of ip maxlen op])
      qed
    next
      case False
      then show ?thesis using pos 1(3) [OF pos False] 1(4) by (auto simp: mbstowcs_loop.simps [of ip maxlen op])
    qed
  qed (use 1(4) in \<open>auto simp: mbstowcs_loop.simps [of ip maxlen op]\<close>)
qed

lemma mbstrlen_loop_ge: "len \<le> mbstrlen_loop ip maxlen len"
proof (induction ip maxlen len rule: mbstrlen_loop.induct)
  case (1 ip maxlen len)
  show ?case
  proof (cases "maxlen > 0 \<and> byte_at ip \<noteq> 0")
    case True
    note pos = True
    show ?thesis
    proof (cases "byte_at ip AND 0x80 \<noteq> 0")
      case True
      show ?thesis
      proof (cases "utf8_mbtowc ip maxlen")
        case None
        then show ?thesis using pos True 1(1) [OF pos True] TrueI by (auto simp: mbstrlen_loop.simps [of ip maxlen len])
      next
        case (Some p)
        then show ?thesis
          using pos True 1(2) [OF pos True, of p "fst p" "snd p"] TrueI
          by (cases p) (auto simp: mbstrlen_loop.simps [of ip maxlen len])
      qed
    next
      case False
      then show ?thesis using pos 1(3) [OF pos False] TrueI by (auto simp: mbstrlen_loop.simps [of ip maxlen len])
    qed
  qed (use TrueI in \<open>auto simp: mbstrlen_loop.simps [of ip maxlen len]\<close>)
qed

lemma mbstrlen_loop_utf8:
  assumes "0 \<notin> set ws" "maxlen = int (length (concat (map utf8 ws)))"
  shows "mbstrlen_loop (concat (map utf8 ws)) maxlen len = len + int (length ws)"
  using assms
proof (induction ws arbitrary: maxlen len)
  case (Cons w ws)
  have w: "w \<noteq> 0" "0 < maxlen" using Cons.prems utf8_bytes(1) [of w] by (auto intro: add_pos_nonneg)
  note first = utf8_first [OF w(1), of "concat (map utf8 ws)"]
  show ?case
  proof (cases "unat w < 0x80")
    case True
    with w first Cons utf8_bytes(4) [OF True] show ?thesis
      by (subst mbstrlen_loop.simps) simp
  next
    case False
    with w first Cons utf8_mbtowc_utf8 [of w maxlen "concat (map utf8 ws)"] show ?thesis
      by (subst mbstrlen_loop.simps) simp
  qed
qed (subst mbstrlen_loop.simps, simp)

lemma utf8_nonzero: "w \<noteq> 0 \<Longrightarrow> 0 \<notin> set (utf8 w)"
proof -
  assume "w \<noteq> 0"
  define n where "n = unat w"
  have lt: "n < 65536" "n \<noteq> 0"
    using unsigned_less [of w, where 'a = nat] \<open>w \<noteq> 0\<close> by (simp_all add: n_def unat_eq_0)
  have nz: "(word_of_nat k :: u8) \<noteq> 0" if "k < 256" "k \<noteq> 0" for k
    using that by (simp add: word_unat_eq_iff unsigned_of_nat take_bit_nat_eq_self)
  have "\<forall>k \<in> set (if n < 0x80 then [n] else if n < 0x800 then [0xC0 + n div 64, 0x80 + n mod 64]
      else [0xE0 + n div 4096, 0x80 + n div 64 mod 64, 0x80 + n mod 64]). k < 256 \<and> k \<noteq> 0"
    using lt by (auto simp: less_mult_imp_div_less) 
  then show ?thesis unfolding utf8_def n_def [symmetric] using nz by (fastforce simp del: of_nat_add)
qed

lemma utf8_text_nonzero: "0 \<notin> set ws \<Longrightarrow> takeWhile (\<lambda>b. b \<noteq> 0) (concat (map utf8 ws)) = concat (map utf8 ws)"
  using utf8_nonzero by (intro takeWhile_eq_all_conv [THEN iffD2]) (auto, metis)

lemma counted_dup: "ws = [] \<or> last ws < 0x800 \<Longrightarrow> counted ws (int (length ws) + 1)"
proof (induction ws)
  case (Cons w ws)
  show ?case
  proof (cases ws)
    case Nil
    then show ?thesis using Cons.prems utf8_bytes(3) [of w] by simp
  next
    case (Cons v vs)
    then show ?thesis using Cons.prems Cons.IH utf8_bytes(2) [of w] by simp
  qed
qed simp

lemma counted_more: "counted ws (int (length ws) + 2)"
proof (induction ws)
  case (Cons w ws)
  then show ?case using utf8_bytes(2) [of w] by (simp add: algebra_simps)
qed simp

lemma last_too_wide:
  assumes "\<not> w < 0x800"
  shows "mbstowcs_loop (utf8 w) 2 op = (op @ [0x3F, 0x3F], 0)"
proof -
  define n where "n = unat w"
  have lt: "n < 65536" "\<not> n < 0x800"
    using unsigned_less [of w, where 'a = nat] assms by (simp_all add: n_def word_less_nat_alt)
  let ?a = "n div 4096" and ?b = "n div 64 mod 64" and ?c = "n mod 64"
  have abc: "?a < 16" "?b < 64" using lt(1) by simp_all
  have u: "utf8 w = [0xE0 + word_of_nat ?a, 0x80 + word_of_nat ?b, 0x80 + word_of_nat ?c]"
    using lt by (simp add: utf8_def n_def [symmetric])
  have first: "utf8_mbtowc (utf8 w) 2 = None"
    using byte_facts(4-7) [OF abc(1)] byte_facts(8,9) [OF abc(2)]
    by (simp add: u utf8_mbtowc_def utf8_rows_def byte_at_def Let_def)
  have b: "(0x80 + word_of_nat k :: u8) AND 0x80 \<noteq> 0 \<and> (0x80 + word_of_nat k :: u8) \<noteq> 0 \<and>
      (ucast (0x80 + word_of_nat k :: u8) :: u32) AND 0x80 \<noteq> 0" if "k < 64" for k
    by (rule list_all_upt [OF _ that], code_simp)
  have second: "utf8_mbtowc (tl (utf8 w)) 1 = None"
    using b [OF abc(2)] by (simp add: u utf8_mbtowc_def utf8_rows_def byte_at_def Let_def)
  have w: "w \<noteq> 0" "\<not> unat w < 0x80" using assms by (auto simp: word_less_nat_alt)
  have "byte_at (tl (utf8 w)) \<noteq> 0 \<and> byte_at (tl (utf8 w)) AND 0x80 \<noteq> 0"
    using b [OF abc(2)] by (simp add: u byte_at_def)
  then show ?thesis
    using utf8_first [OF w(1), of "[]"] w(2) first second
    by (simp add: mbstowcs_loop.simps [of "utf8 w"] mbstowcs_loop.simps [of "tl (utf8 w)"] mbstowcs_loop.simps [of _ 0])
qed

text \<open>C33: \<open>co_utf8_dup_to_wc\<close> never stores beyond the characters it allocates, whatever the bytes, and gives
  back the string and its length when the last character is below 0x800. It counts the characters
  left as if they were bytes, though: a last character of three bytes comes out as two question
  marks, one more than the length says.\<close>

theorem co_utf8_dup_to_wc_result:
  "co_utf8_dup_to_wc src True \<noteq> None \<and>
   (0 \<notin> set ws \<and> (ws = [] \<or> last ws < 0x800) \<longrightarrow>
      co_utf8_dup_to_wc (concat (map utf8 ws)) True = Some (Inr (ws @ [0], int (length ws)))) \<and>
   (0 \<notin> set (ws @ [w]) \<and> \<not> w < 0x800 \<longrightarrow>
      co_utf8_dup_to_wc (concat (map utf8 (ws @ [w]))) True = Some (Inr (ws @ [0x3F, 0x3F, 0], int (length ws) + 1)))"
proof (intro conjI impI)
  obtain op k where r: "mbstowcs_loop src (co_utf8_mbstrlen src + 1) [] = (op, k)" by fastforce
  have n: "0 \<le> co_utf8_mbstrlen src" using mbstrlen_loop_ge [of 0 src] by (simp add: co_utf8_mbstrlen_def)
  then show "co_utf8_dup_to_wc src True \<noteq> None"
    using mbstowcs_loop_length [of src "co_utf8_mbstrlen src + 1" "[]"] r
    by (simp add: co_utf8_dup_to_wc_def co_utf8_mbstowcs_def)
next
  assume *: "0 \<notin> set ws \<and> (ws = [] \<or> last ws < 0x800)"
  then have nz: "0 \<notin> set ws" by simp
  have "co_utf8_mbstrlen (concat (map utf8 ws)) = int (length ws)"
    unfolding co_utf8_mbstrlen_def utf8_text_nonzero [OF nz] mbstrlen_loop_utf8 [OF nz refl] by simp
  with * show "co_utf8_dup_to_wc (concat (map utf8 ws)) True = Some (Inr (ws @ [0], int (length ws)))"
    using mbstowcs_loop_utf8 [of ws "int (length ws) + 1" "[]" "[]"] counted_dup [of ws]
    by (simp add: co_utf8_dup_to_wc_def co_utf8_mbstowcs_def)
next
  assume *: "0 \<notin> set (ws @ [w]) \<and> \<not> w < 0x800"
  then have nz: "0 \<notin> set (ws @ [w])" by simp
  have "co_utf8_mbstrlen (concat (map utf8 (ws @ [w]))) = int (length ws) + 1"
    unfolding co_utf8_mbstrlen_def utf8_text_nonzero [OF nz] mbstrlen_loop_utf8 [OF nz refl] by simp
  with * show "co_utf8_dup_to_wc (concat (map utf8 (ws @ [w]))) True = Some (Inr (ws @ [0x3F, 0x3F, 0], int (length ws) + 1))"
    using mbstowcs_loop_utf8 [of ws "int (length ws) + 2" "utf8 w" "[]"] counted_more [of ws] last_too_wide [of w]
    by (simp add: co_utf8_dup_to_wc_def co_utf8_mbstowcs_def Let_def add.commute)
qed

theorem co_utf8_dup_to_wc_result_witness:
  "co_utf8_dup_to_wc [0xff, 0x80] True \<noteq> None \<and>
   co_utf8_dup_to_wc (concat (map utf8 [0x20AC, 0xe9])) True = Some (Inr ([0x20AC, 0xe9, 0], 2)) \<and>
   co_utf8_dup_to_wc (concat (map utf8 [0x41, 0x20AC])) True = Some (Inr ([0x41, 0x3F, 0x3F, 0], 2))"
  using co_utf8_dup_to_wc_result [where src = "[0xff, 0x80]" and ws = "[0x20AC, 0xe9]"]
    co_utf8_dup_to_wc_result [where ws = "[0x41]" and w = "0x20AC"] by simp

end
