(* ===== verification/CoWinNt.thy ===== *)
theory CoWinNt
  imports CoUnicode CoPages
begin

text \<open>
  The Windows side of file access: the part of \<open>src/colinux/os/winnt/kernel/fileio.c\<close> that opens and
  closes files and converts status codes, and the transfer of file contents of
  \<open>src/colinux/os/winnt/kernel/block.c\<close>. The services of the Windows kernel are the fields of the
  record \<open>nt_api\<close>, functions on a world of type \<open>'w\<close> that every definition takes as an argument.
\<close>

type_synonym handle = u32
type_synonym nt_status = u32

record 'w nt_api =
  ZwCreateFile :: "u16 list \<Rightarrow> u32 \<Rightarrow> u32 \<Rightarrow> u32 \<Rightarrow> u32 \<Rightarrow> u32 \<Rightarrow> 'w \<Rightarrow> nt_status \<times> handle \<times> 'w"
  ZwClose :: "handle \<Rightarrow> 'w \<Rightarrow> nt_status \<times> 'w"
  ZwReadFile :: "handle \<Rightarrow> u64 \<Rightarrow> nat \<Rightarrow> 'w \<Rightarrow> nt_status \<times> u8 list \<times> 'w"
  ZwWriteFile :: "handle \<Rightarrow> u64 \<Rightarrow> u8 list \<Rightarrow> 'w \<Rightarrow> nt_status \<times> 'w"
  ZwQueryEndOfFile :: "handle \<Rightarrow> 'w \<Rightarrow> nt_status \<times> u64 \<times> 'w"
  ZwDiskLength :: "handle \<Rightarrow> 'w \<Rightarrow> nt_status \<times> u64 \<times> 'w"
  ZwIssue :: "handle \<Rightarrow> u64 \<Rightarrow> u32 \<Rightarrow> bool \<Rightarrow> 'w \<Rightarrow> nt_status \<times> 'w"
  nt_malloc :: "'w \<Rightarrow> bool \<times> 'w"

abbreviation STATUS_SUCCESS :: nt_status where "STATUS_SUCCESS \<equiv> 0"
abbreviation STATUS_PENDING :: nt_status where "STATUS_PENDING \<equiv> 0x103"
abbreviation STATUS_END_OF_FILE :: nt_status where "STATUS_END_OF_FILE \<equiv> 0xC0000011"
abbreviation STATUS_NO_SUCH_FILE :: nt_status where "STATUS_NO_SUCH_FILE \<equiv> 0xC000000F"
abbreviation STATUS_OBJECT_NAME_NOT_FOUND :: nt_status where "STATUS_OBJECT_NAME_NOT_FOUND \<equiv> 0xC0000034"
abbreviation STATUS_CANNOT_DELETE :: nt_status where "STATUS_CANNOT_DELETE \<equiv> 0xC0000121"
abbreviation STATUS_ACCESS_DENIED :: nt_status where "STATUS_ACCESS_DENIED \<equiv> 0xC0000022"
abbreviation STATUS_INVALID_PARAMETER :: nt_status where "STATUS_INVALID_PARAMETER \<equiv> 0xC000000D"

abbreviation FILE_READ_DATA :: u32 where "FILE_READ_DATA \<equiv> 1"
abbreviation FILE_WRITE_DATA :: u32 where "FILE_WRITE_DATA \<equiv> 2"
abbreviation FILE_LIST_DIRECTORY :: u32 where "FILE_LIST_DIRECTORY \<equiv> 1"
abbreviation SYNCHRONIZE :: u32 where "SYNCHRONIZE \<equiv> 0x100000"
abbreviation FILE_SHARE_DIRECTORY :: u32 where "FILE_SHARE_DIRECTORY \<equiv> 7"
abbreviation FILE_OPEN :: u32 where "FILE_OPEN \<equiv> 1"
abbreviation FILE_SYNCHRONOUS_IO_NONALERT :: u32 where "FILE_SYNCHRONOUS_IO_NONALERT \<equiv> 0x20"

definition co_status_convert :: "nt_status \<Rightarrow> co_rc" where
  "co_status_convert status =
     (if status \<in> {STATUS_END_OF_FILE, STATUS_PENDING, STATUS_SUCCESS} then RC_OK
      else if status \<in> {STATUS_NO_SUCH_FILE, STATUS_OBJECT_NAME_NOT_FOUND} then RC_NOT_FOUND
      else if status \<in> {STATUS_CANNOT_DELETE, STATUS_ACCESS_DENIED} then RC_ACCESS_DENIED
      else if status = STATUS_INVALID_PARAMETER then RC_INVALID_PARAMETER
      else RC_ERROR)"

text \<open>The counted string that names a file: \<open>Length\<close> characters of the buffer.\<close>

definition co_winnt_utf8_to_unicode :: "u8 list \<Rightarrow> bool \<Rightarrow> (co_rc + u16 list) option" where
  "co_winnt_utf8_to_unicode src malloc =
     (case co_utf8_dup_to_wc src malloc of
        None \<Rightarrow> None
      | Some (Inl rc) \<Rightarrow> Some (Inl rc)
      | Some (Inr (wstring, n)) \<Rightarrow> Some (Inr (take (nat n) wstring)))"

definition co_os_file_create ::
    "'w nt_api \<Rightarrow> u8 list \<Rightarrow> u32 \<Rightarrow> u32 \<Rightarrow> u32 \<Rightarrow> u32 \<Rightarrow> 'w \<Rightarrow> (co_rc \<times> handle \<times> 'w) option" where
  "co_os_file_create api pathname open_flags file_attribute create_disposition opts w =
     (let (ok, w) = nt_malloc api w in
      case co_winnt_utf8_to_unicode pathname ok of
        None \<Rightarrow> None
      | Some (Inl rc) \<Rightarrow> Some (rc, 0, w)
      | Some (Inr unipath) \<Rightarrow>
          let (status, h, w) = ZwCreateFile api unipath open_flags file_attribute
                (if open_flags = FILE_LIST_DIRECTORY OR SYNCHRONIZE then FILE_SHARE_DIRECTORY else 0)
                create_disposition opts w
          in Some (co_status_convert status, h, w))"

definition co_os_file_open :: "'w nt_api \<Rightarrow> u8 list \<Rightarrow> u32 \<Rightarrow> 'w \<Rightarrow> (co_rc \<times> handle \<times> 'w) option" where
  "co_os_file_open api pathname open_flags w =
     co_os_file_create api pathname (open_flags OR SYNCHRONIZE) 0 FILE_OPEN FILE_SYNCHRONOUS_IO_NONALERT w"

definition co_os_file_close :: "'w nt_api \<Rightarrow> handle \<Rightarrow> 'w \<Rightarrow> co_rc \<times> 'w" where
  "co_os_file_close api h w = (let (status, w) = ZwClose api h w in (co_status_convert status, w))"

section \<open>Moving file contents to and from the guest\<close>

record 'w transfer_file_data =
  tf_handle :: handle
  tf_offset :: u64
  tf_world :: 'w

definition transfer_file_block :: "'w nt_api \<Rightarrow> transfer_dir \<Rightarrow> 'w transfer_file_data transfer_func" where
  "transfer_file_block api dir d off n pg =
     (let (status, pg, w) =
        (case dir of
           CO_MONITOR_TRANSFER_FROM_HOST \<Rightarrow>
             let (status, bs, w) = ZwReadFile api (tf_handle d) (tf_offset d) n (tf_world d) in
             (status, put_bytes off (take n bs) pg, w)
         | CO_MONITOR_TRANSFER_FROM_LINUX \<Rightarrow>
             let (status, w) = ZwWriteFile api (tf_handle d) (tf_offset d) (get_bytes off n pg) (tf_world d) in
             (status, pg, w))
      in Some (if status \<noteq> STATUS_SUCCESS then co_status_convert status else RC_OK,
               d\<lparr>tf_offset := tf_offset d + word_of_nat n, tf_world := w\<rparr>, pg))"

definition co_os_file_block_read_write ::
    "'w nt_api \<Rightarrow> vm \<Rightarrow> handle \<Rightarrow> u64 \<Rightarrow> u32 \<Rightarrow> u32 \<Rightarrow> bool \<Rightarrow> 'w \<Rightarrow> (co_rc \<times> vm \<times> 'w) option" where
  "co_os_file_block_read_write api m h offset address bytes read w = do {
     (rc, d, m) \<leftarrow> co_monitor_host_linuxvm_transfer m \<lparr>tf_handle = h, tf_offset = offset, tf_world = w\<rparr>
        (transfer_file_block api (if read then CO_MONITOR_TRANSFER_FROM_HOST else CO_MONITOR_TRANSFER_FROM_LINUX))
        address bytes;
     Some (rc, m, tf_world d) }"

definition co_os_file_read_write ::
    "'w nt_api \<Rightarrow> vm \<Rightarrow> u8 list \<Rightarrow> u64 \<Rightarrow> u32 \<Rightarrow> u32 \<Rightarrow> bool \<Rightarrow> 'w \<Rightarrow> (co_rc \<times> vm \<times> 'w) option" where
  "co_os_file_read_write api m filename offset bytes src_buffer read w = do {
     (rc, h, w) \<leftarrow> co_os_file_open api filename (if read then FILE_READ_DATA else FILE_WRITE_DATA) w;
     if \<not> rc_ok rc then Some (rc, m, w)
     else do {
       (rc, m, w) \<leftarrow> co_os_file_block_read_write api m h offset src_buffer bytes read w;
       Some (rc, m, snd (co_os_file_close api h w)) } }"

text \<open>What the code relies on from Windows for an open file: reading and writing inside the file succeed and
  work on its contents. \<open>contents\<close> and \<open>set_contents\<close> are the part of the world that holds the file.\<close>

definition splice :: "nat \<Rightarrow> 'a list \<Rightarrow> 'a list \<Rightarrow> 'a list" where
  "splice off bs c = take off c @ bs @ drop (off + length bs) c"

definition nt_file :: "'w nt_api \<Rightarrow> handle \<Rightarrow> ('w \<Rightarrow> u8 list) \<Rightarrow> (u8 list \<Rightarrow> 'w \<Rightarrow> 'w) \<Rightarrow> bool" where
  "nt_file api h contents set_contents \<longleftrightarrow>
     (\<forall>w offset n. unat offset + n \<le> length (contents w) \<longrightarrow>
        ZwReadFile api h offset n w = (STATUS_SUCCESS, take n (drop (unat offset) (contents w)), w)) \<and>
     (\<forall>w offset bs. unat offset + length bs \<le> length (contents w) \<longrightarrow>
        ZwWriteFile api h offset bs w = (STATUS_SUCCESS, set_contents (splice (unat offset) bs (contents w)) w)) \<and>
     (\<forall>w c. contents (set_contents c w) = c) \<and> (\<forall>w c d. set_contents c (set_contents d w) = set_contents c w) \<and>
     (\<forall>w. set_contents (contents w) w = w)"

definition file_ready :: "('w \<Rightarrow> u8 list) \<Rightarrow> handle \<Rightarrow> 'w transfer_file_data \<Rightarrow> nat \<Rightarrow> bool" where
  "file_ready contents h d n \<longleftrightarrow>
     tf_handle d = h \<and> unat (tf_offset d) + n \<le> length (contents (tf_world d)) \<and> length (contents (tf_world d)) < 2 ^ 64"

definition file_bytes :: "('w \<Rightarrow> u8 list) \<Rightarrow> 'w transfer_file_data \<Rightarrow> nat \<Rightarrow> u8 list" where
  "file_bytes contents d k = take k (drop (unat (tf_offset d)) (contents (tf_world d)))"

definition file_advance :: "'w transfer_file_data \<Rightarrow> nat \<Rightarrow> 'w transfer_file_data" where
  "file_advance d k = d\<lparr>tf_offset := tf_offset d + word_of_nat k\<rparr>"

definition file_append ::
    "('w \<Rightarrow> u8 list) \<Rightarrow> (u8 list \<Rightarrow> 'w \<Rightarrow> 'w) \<Rightarrow> 'w transfer_file_data \<Rightarrow> u8 list \<Rightarrow> 'w transfer_file_data" where
  "file_append contents set_contents d bs =
     d\<lparr>tf_offset := tf_offset d + word_of_nat (length bs),
       tf_world := set_contents (splice (unat (tf_offset d)) bs (contents (tf_world d))) (tf_world d)\<rparr>"

lemma length_splice: "off + length bs \<le> length c \<Longrightarrow> length (splice off bs c) = length c"
  by (simp add: splice_def)

lemma splice_splice:
  "off + length bs + length cs \<le> length c \<Longrightarrow> splice (off + length bs) cs (splice off bs c) = splice off (bs @ cs) c"
  by (simp add: splice_def ac_simps)

lemma unat_add_of_nat: "unat (a :: u64) + k < 2 ^ 64 \<Longrightarrow> unat (a + word_of_nat k) = unat a + k"
  by (simp add: unat_word_ariths unsigned_of_nat take_bit_nat_eq_self)

lemma take_drop_split: "k \<le> n \<Longrightarrow> take k (drop a xs) @ take (n - k) (drop (k + a) xs) = take n (drop a xs)"
  using take_add [of k "n - k" "drop a xs"] by simp

lemma file_source:
  assumes "nt_file api h contents set_contents"
  shows "page_source (transfer_file_block api CO_MONITOR_TRANSFER_FROM_HOST) (file_ready contents h)
    (file_bytes contents) file_advance"
  using assms
  by unfold_locales
    (auto simp: nt_file_def file_ready_def file_bytes_def file_advance_def transfer_file_block_def
      unat_add_of_nat take_drop_split add.commute add.assoc simp flip: of_nat_add)

lemma file_sink:
  assumes "nt_file api h contents set_contents"
  shows "page_sink (transfer_file_block api CO_MONITOR_TRANSFER_FROM_LINUX) (file_ready contents h)
    (file_append contents set_contents)"
  using assms
  by unfold_locales
    (auto simp: nt_file_def file_ready_def file_append_def transfer_file_block_def
      unat_add_of_nat length_splice splice_splice add.assoc splice_def [of _ "[]"])

text \<open>C34: a block write stores the bytes of a mapped range of guest memory in the file at the given offset and
  changes nothing else of the file, a block read stores the bytes of the file there and changes
  nothing else of the guest's memory, page by page.\<close>

theorem co_os_file_block_read_write_moves:
  assumes "nt_file api h contents set_contents" "unat offset + unat n \<le> length (contents w)" "length (contents w) < 2 ^ 64"
    and "pp_inj m" "range_mapped m v (unat n)"
    and "CO_ARCH_KERNEL_OFFSET \<le> v" "v < end_physical m" "unat v + unat n \<le> unat (end_physical m)"
  shows "(\<exists>w'. co_os_file_block_read_write api m h offset v n False w = Some (RC_OK, m, w') \<and>
      contents w' = splice (unat offset) (vread_bytes m v (unat n)) (contents w)) \<and>
    (\<exists>m'. co_os_file_block_read_write api m h offset v n True w = Some (RC_OK, m', w) \<and>
      vread_bytes m' v (unat n) = take (unat n) (drop (unat offset) (contents w)) \<and>
      (\<forall>a. \<not> (unat v \<le> unat a \<and> unat a < unat v + unat n) \<longrightarrow> vread m' a = vread m a))"
proof -
  note off = transfer_not_off_bounds [OF assms(6-8)]
  let ?d = "\<lparr>tf_handle = h, tf_offset = offset, tf_world = w\<rparr>"
  have ready: "file_ready contents h ?d (unat n)" using assms(2,3) by (simp add: file_ready_def)
  have "transfer_loop (transfer_file_block api CO_MONITOR_TRANSFER_FROM_LINUX) v n ?d m =
      Some (RC_OK, file_append contents set_contents ?d (vread_bytes m v (unat n)), m)"
    by (rule page_sink.transfer_out [OF file_sink [OF assms(1)] assms(5) off(2) ready])
  then have "\<exists>w'. co_os_file_block_read_write api m h offset v n False w = Some (RC_OK, m, w') \<and>
      contents w' = splice (unat offset) (vread_bytes m v (unat n)) (contents w)"
    using off(1) assms(1)
    by (simp add: co_os_file_block_read_write_def co_monitor_host_linuxvm_transfer_def file_append_def nt_file_def)
  moreover from page_source.transfer_in [OF file_source [OF assms(1)] assms(4,5) off(2) ready] obtain m' where
    m': "transfer_loop (transfer_file_block api CO_MONITOR_TRANSFER_FROM_HOST) v n ?d m = Some (RC_OK, file_advance ?d (unat n), m')"
    "\<And>a. vread m' a = (if unat v \<le> unat a \<and> unat a < unat v + unat n
      then Some (file_bytes contents ?d (unat n) ! (unat a - unat v)) else vread m a)"
    by blast
  have "vread_bytes m' v (unat n) = file_bytes contents ?d (unat n)"
    by (rule vread_bytes_eq [OF _ _ off(2)]) (use m'(2) assms(2) in \<open>simp_all add: file_bytes_def\<close>)
  ultimately show ?thesis
    using off(1) m'
    by (simp add: co_os_file_block_read_write_def co_monitor_host_linuxvm_transfer_def file_advance_def file_bytes_def)
qed

text \<open>A file that is all there is in the world.\<close>

definition nt_file_example :: "u8 list nt_api" where
  "nt_file_example = \<lparr>ZwCreateFile = (\<lambda>name access attr share disp opts w. (STATUS_SUCCESS, 1, w)),
     ZwClose = (\<lambda>h w. (STATUS_SUCCESS, w)),
     ZwReadFile = (\<lambda>h offset n w. (STATUS_SUCCESS, take n (drop (unat offset) w), w)),
     ZwWriteFile = (\<lambda>h offset bs w. (STATUS_SUCCESS, splice (unat offset) bs w)),
     ZwQueryEndOfFile = (\<lambda>h w. (STATUS_SUCCESS, word_of_nat (length w), w)),
     ZwDiskLength = (\<lambda>h w. (0xC0000010, 0, w)),
     ZwIssue = (\<lambda>h offset n read w. (STATUS_PENDING, w)),
     nt_malloc = (\<lambda>w. (True, w))\<rparr>"

theorem co_os_file_block_read_write_moves_witness:
  "(\<exists>w'. co_os_file_block_read_write nt_file_example vm_example 1 2 0xc0000ffe 4 False [0, 1, 2, 3, 4, 5, 6, 7] = Some (RC_OK, vm_example, w') \<and>
      w' = splice 2 (vread_bytes vm_example 0xc0000ffe 4) [0, 1, 2, 3, 4, 5, 6, 7]) \<and>
    (\<exists>m'. co_os_file_block_read_write nt_file_example vm_example 1 2 0xc0000ffe 4 True [0, 1, 2, 3, 4, 5, 6, 7] = Some (RC_OK, m', [0, 1, 2, 3, 4, 5, 6, 7]) \<and>
      vread_bytes m' 0xc0000ffe 4 = [2, 3, 4, 5])"
proof -
  have "nt_file nt_file_example 1 (\<lambda>w. w) (\<lambda>c w. c)" by (simp add: nt_file_def nt_file_example_def)
  from co_os_file_block_read_write_moves [OF this, of 2 4 "[0, 1, 2, 3, 4, 5, 6, 7]" vm_example "0xc0000ffe"]
    vm_example_inj vm_example_mapped
  show ?thesis by (force simp: vm_example_def)
qed

section \<open>The size of a file or a device\<close>

definition probe_area :: "'w nt_api \<Rightarrow> handle \<Rightarrow> u64 \<Rightarrow> u32 \<Rightarrow> 'w \<Rightarrow> bool \<times> 'w" where
  "probe_area api h offset bytes w =
     (let (status, bs, w) = ZwReadFile api h offset (unat bytes) w in (status = STATUS_SUCCESS, w))"

text \<open>The three loops of \<open>co_os_file_block_detect_size_binary_search\<close>. The test size doubles from 0x100 and
  at most seven times; the scanned bit is shifted out of 64 bits after at most 64 steps.\<close>

function probe_start :: "'w nt_api \<Rightarrow> handle \<Rightarrow> u32 \<Rightarrow> 'w \<Rightarrow> u32 \<times> 'w" where
  "probe_start api h n w =
     (if n \<le> 0x4000 \<and> n \<noteq> 0 then
        let (ok, w) = probe_area api h 0 n w in
        if ok then (n, w) else probe_start api h (push_bit 1 n) w
      else (n, w))"
  by pat_completeness auto
termination
proof (relation "measure (\<lambda>(api, h, n, w). 0x10000 - unat n)", simp_all, goal_cases)
  case (1 api h n w)
  then have "unat n \<le> 0x4000" "0 < unat n" by (simp_all add: word_le_nat_alt unat_gt_0)
  then show ?case by (simp add: push_bit_eq_mult unat_word_ariths)
qed

declare probe_start.simps [simp del]

fun scan_up :: "nat \<Rightarrow> 'w nt_api \<Rightarrow> handle \<Rightarrow> u32 \<Rightarrow> u64 \<Rightarrow> 'w \<Rightarrow> u64 \<times> 'w" where
  "scan_up 0 api h n scan_bit w = (scan_bit, w)"
| "scan_up (Suc k) api h n scan_bit w =
     (if scan_bit = 0 then (scan_bit, w)
      else let (ok, w) = probe_area api h scan_bit n w in
        if \<not> ok then (scan_bit, w) else scan_up k api h n (push_bit 1 scan_bit) w)"

text \<open>\<open>scan_bit.QuadPart\<close> is signed: the shift to the right of the top bit would keep the sign and
  never end, which is \<open>None\<close>.\<close>

fun scan_down :: "nat \<Rightarrow> 'w nt_api \<Rightarrow> handle \<Rightarrow> u32 \<Rightarrow> u64 \<Rightarrow> u64 \<Rightarrow> 'w \<Rightarrow> (u64 \<times> 'w) option" where
  "scan_down 0 api h n scan_bit build_size w = (if scan_bit = 0 then Some (build_size, w) else None)"
| "scan_down (Suc k) api h n scan_bit build_size w =
     (if scan_bit = 0 then Some (build_size, w)
      else
        let scan_bit = signed_drop_bit 1 scan_bit;
            with_bit = build_size OR scan_bit;
            (ok, w) = probe_area api h with_bit n w
        in scan_down k api h n scan_bit (if ok then with_bit else build_size) w)"

definition co_os_file_block_detect_size_binary_search :: "'w nt_api \<Rightarrow> handle \<Rightarrow> 'w \<Rightarrow> ((co_rc + u64) \<times> 'w) option" where
  "co_os_file_block_detect_size_binary_search api h w =
     (let (ok, w) = nt_malloc api w in
      if \<not> ok then Some (Inl RC_OUT_OF_MEMORY, w)
      else
        let (n, w) = probe_start api h 0x100 w in
        if n \<ge> 0x4000 then Some (Inl RC_ERROR, w)
        else
          let (scan_bit, w) = scan_up 64 api h n 1 w in
          if scan_bit = 0 then Some (Inl RC_ERROR, w)
          else do {
            (build_size, w) \<leftarrow> scan_down 64 api h n scan_bit 0 w;
            Some (Inr (build_size + ucast n), w) })"

definition co_os_file_block_detect_size_harddisk :: "'w nt_api \<Rightarrow> handle \<Rightarrow> 'w \<Rightarrow> (co_rc + u64) \<times> 'w" where
  "co_os_file_block_detect_size_harddisk api h w =
     (let (status, n, w) = ZwDiskLength api h w in (if status = STATUS_SUCCESS then Inr n else Inl RC_ERROR, w))"

definition co_os_file_block_detect_size_standard :: "'w nt_api \<Rightarrow> handle \<Rightarrow> 'w \<Rightarrow> (co_rc + u64) \<times> 'w" where
  "co_os_file_block_detect_size_standard api h w =
     (let (status, n, w) = ZwQueryEndOfFile api h w in (if status = STATUS_SUCCESS then Inr n else Inl RC_ERROR, w))"

definition co_os_file_get_size :: "'w nt_api \<Rightarrow> handle \<Rightarrow> 'w \<Rightarrow> ((co_rc + u64) \<times> 'w) option" where
  "co_os_file_get_size api h w =
     (case co_os_file_block_detect_size_standard api h w of
        (Inr n, w) \<Rightarrow> Some (Inr n, w)
      | (Inl _, w) \<Rightarrow>
          (case co_os_file_block_detect_size_harddisk api h w of
             (Inr n, w) \<Rightarrow> Some (Inr n, w)
           | (Inl _, w) \<Rightarrow> do {
               (r, w) \<leftarrow> co_os_file_block_detect_size_binary_search api h w;
               Some (case r of Inr n \<Rightarrow> Inr n | Inl _ \<Rightarrow> Inl RC_ERROR, w) }))"

text \<open>Which reads of a file or a device succeed: those of \<open>n\<close> bytes at an offset below a limit, which may depend on \<open>n\<close>,
  at a multiple of \<open>B\<close> and of such a length; an unbuffered device has \<open>B = 512\<close>. For a file of \<open>S\<close> bytes the limit
  is \<open>S\<close>: a read that starts inside it succeeds, and is short at the end, which the code does not look at. Where a
  read that crosses the end fails, it is \<open>S + 1 - n\<close>.\<close>

definition reads_below :: "'w nt_api \<Rightarrow> handle \<Rightarrow> (nat \<Rightarrow> nat) \<Rightarrow> nat \<Rightarrow> bool" where
  "reads_below api h L B \<longleftrightarrow>
     (\<forall>offset n w. n > 0 \<longrightarrow> (fst (ZwReadFile api h offset n w) = STATUS_SUCCESS \<longleftrightarrow>
        unat offset < L n \<and> unat offset mod B = 0 \<and> n mod B = 0))"

lemma probe_area_below:
  "reads_below api h L B \<Longrightarrow> n \<noteq> 0 \<Longrightarrow>
   \<exists>w'. probe_area api h offset n w = (unat offset < L (unat n) \<and> unat offset mod B = 0 \<and> unat n mod B = 0, w')"
  unfolding reads_below_def probe_area_def by (auto simp: split_beta unat_gt_0)

definition bit_at :: "nat \<Rightarrow> u64" where "bit_at k = push_bit k 1"

lemma bit_at_facts:
  assumes "k < 63"
  shows "unat (bit_at k) = 2 ^ k" "bit_at k \<noteq> 0" "push_bit 1 (bit_at k) = bit_at (Suc k)"
    "signed_drop_bit 1 (bit_at k) = (if k = 0 then 0 else bit_at (k - 1))"
proof -
  have "(2 :: nat) ^ k < 2 ^ 64" using assms by (intro power_strict_increasing) simp_all
  then show u: "unat (bit_at k) = 2 ^ k"
    using assms unfolding bit_at_def unsigned_push_bit_eq by (simp add: take_bit_nat_eq_self)
  then show "bit_at k \<noteq> 0" by (metis power_eq_0_iff unat_0 zero_neq_numeral)
  show "push_bit 1 (bit_at k) = bit_at (Suc k)" by (simp add: bit_at_def push_bit_push_bit del: push_bit_of_1)
  show "signed_drop_bit 1 (bit_at k) = (if k = 0 then 0 else bit_at (k - 1))"
    using assms by (auto simp: bit_at_def bit_simps simp del: push_bit_of_1 intro!: bit_word_eqI)
qed

lemma scan_up_power:
  assumes "reads_below api h L 1" "n \<noteq> 0" "L (unat n) \<le> 2 ^ 62" "j + fuel = 64" "j \<le> 62"
  shows "\<exists>k w'. scan_up fuel api h n (bit_at j) w = (bit_at k, w') \<and> k \<le> 62 \<and> L (unat n) \<le> 2 ^ k"
  using assms(4,5)
proof (induction fuel arbitrary: j w)
  case (Suc fuel)
  note f = bit_at_facts [of j]
  obtain w1 where p: "probe_area api h (bit_at j) n w = (2 ^ j < L (unat n), w1)"
    using probe_area_below [OF assms(1,2), of "bit_at j" w] f Suc.prems by auto
  show ?case
  proof (cases "2 ^ j < L (unat n)")
    case True
    then have "(2 :: nat) ^ j < 2 ^ 62" using assms(3) by linarith
    then have "j < 62" using power_less_imp_less_exp [of "2 :: nat" j 62] by simp
    then show ?thesis using Suc.IH [of "Suc j" w1] Suc.prems p True f by simp
  next
    case False
    then show ?thesis using Suc.prems p f by auto
  qed
qed simp

lemma or_next_bit:
  assumes "0 < k" "k < 63" "unat (b :: u64) = 2 ^ k * c" "unat b + 2 ^ (k - 1) < 2 ^ 64"
  shows "unat (b OR bit_at (k - 1)) = unat b + 2 ^ (k - 1)"
proof -
  have "b = push_bit k (word_of_nat c)"
  proof -
    have "word_of_nat (unat b) = b" by simp
    then have "b = word_of_nat (2 ^ k * c)" unfolding assms(3) by simp
    then show ?thesis by (simp add: push_bit_eq_mult mult.commute)
  qed
  then have "b AND bit_at (k - 1) = 0"
    using assms(1) unfolding bit_at_def by (auto intro!: bit_word_eqI simp: bit_simps)
  then have "b OR bit_at (k - 1) = b + bit_at (k - 1)"
    using word_plus_and_or [of b "bit_at (k - 1)"] by simp
  then show ?thesis using assms(4) bit_at_facts(1) [of "k - 1"] assms(2) by (simp add: unat_word_ariths)
qed

lemma scan_down_size:
  assumes "reads_below api h L 1" "n \<noteq> 0" "L (unat n) \<le> 2 ^ 62" "k \<le> 62" "k + 2 \<le> fuel"
    and "unat b = 2 ^ k * c" "unat b < L (unat n)" "L (unat n) \<le> unat b + 2 ^ k"
  shows "\<exists>b' w'. scan_down fuel api h n (bit_at k) b w = Some (b', w') \<and> Suc (unat b') = L (unat n)"
  using assms(4-8)
proof (induction fuel arbitrary: k b c w)
  case (Suc fuel)
  note f = bit_at_facts [of k]
  show ?case
  proof (cases "k = 0")
    case True
    obtain w1 where "probe_area api h b n w = (unat b < L (unat n), w1)"
      using probe_area_below [OF assms(1,2), of b w] by auto
    then show ?thesis using True Suc.prems f by (cases fuel) simp_all
  next
    case False
    let ?p = "2 ^ (k - 1) :: nat"
    have pk: "(2 :: nat) ^ k = 2 * ?p" using False by (cases k) simp_all
    have "?p \<le> 2 ^ 61" using Suc.prems(1) by (intro power_increasing) simp_all
    then have "unat b + ?p < 2 ^ 64" using Suc.prems(4) assms(3) by simp
    then have w: "unat (b OR bit_at (k - 1)) = unat b + ?p"
      using or_next_bit [of k b c] False Suc.prems(1,3) by simp
    obtain w1 where p: "probe_area api h (b OR bit_at (k - 1)) n w = (unat b + ?p < L (unat n), w1)"
      using probe_area_below [OF assms(1,2), of "b OR bit_at (k - 1)" w] w by auto
    have step: "scan_down (Suc fuel) api h n (bit_at k) b w =
        scan_down fuel api h n (bit_at (k - 1)) (if unat b + ?p < L (unat n) then b OR bit_at (k - 1) else b) w1"
      using p f Suc.prems(1) False by (simp add: Let_def)
    show ?thesis
    proof (cases "unat b + ?p < L (unat n)")
      case True
      have "unat (b OR bit_at (k - 1)) = ?p * (2 * c + 1)" using w Suc.prems(3) pk by simp
      moreover have "L (unat n) \<le> unat (b OR bit_at (k - 1)) + ?p" using w Suc.prems(5) pk by simp
      ultimately show ?thesis
        using Suc.IH [of "k - 1" "b OR bit_at (k - 1)" "2 * c + 1" w1] True w Suc.prems(1,2) False unfolding step by simp
    next
      case not: False
      have "unat b = ?p * (2 * c)" using Suc.prems(3) pk by simp
      then show ?thesis
        using Suc.IH [of "k - 1" b "2 * c" w1] not Suc.prems(1,2,4) False unfolding step by simp
    qed
  qed
qed simp

lemma probe_start_none:
  assumes "reads_below api h L B" "\<And>n. 0x100 \<le> n \<Longrightarrow> L n = 0"
  shows "\<exists>w'. probe_start api h 0x100 w = (0x8000, w')"
proof -
  have no: "\<exists>w'. probe_area api h 0 n w = (False, w')" if "0x100 \<le> unat n" for n w
  proof -
    have "n \<noteq> 0" using that by auto
    from probe_area_below [OF assms(1) this, of 0 w] assms(2) [OF that] show ?thesis by auto
  qed
  have step: "\<exists>w'. probe_start api h n w = probe_start api h (2 * n) w'" if "0x100 \<le> unat n" "n \<le> 0x4000" for n w
  proof -
    note n = that
    obtain w' where "probe_area api h 0 n w = (False, w')" using no [OF n(1)] by blast
    moreover have "n \<noteq> 0" using n(1) by auto
    ultimately show ?thesis using n(2) by (subst probe_start.simps) (auto simp: push_bit_eq_mult mult.commute)
  qed
  from step [of "0x100" w] obtain w1 where "probe_start api h 0x100 w = probe_start api h 0x200 w1" by auto
  also from step [of "0x200" w1] obtain w2 where "\<dots> = probe_start api h 0x400 w2" by auto
  also from step [of "0x400" w2] obtain w3 where "\<dots> = probe_start api h 0x800 w3" by auto
  also from step [of "0x800" w3] obtain w4 where "\<dots> = probe_start api h 0x1000 w4" by auto
  also from step [of "0x1000" w4] obtain w5 where "\<dots> = probe_start api h 0x2000 w5" by auto
  also from step [of "0x2000" w5] obtain w6 where "\<dots> = probe_start api h 0x4000 w6" by auto
  also from step [of "0x4000" w6] obtain w7 where "\<dots> = probe_start api h 0x8000 w7" by auto
  also have "\<dots> = (0x8000, w7)" by (subst probe_start.simps) simp
  finally show ?thesis by blast
qed

text \<open>The search finds the last offset at which a read of 0x100 bytes succeeds, and adds the 0x100 bytes.\<close>

lemma binary_search_last:
  assumes "nt_malloc api w = (True, w0)" "reads_below api h L 1" "0 < L 0x100" "L 0x100 \<le> 2 ^ 62"
  shows "\<exists>n w'. co_os_file_block_detect_size_binary_search api h w = Some (Inr n, w') \<and> unat n + 1 = L 0x100 + 0x100"
proof -
  have u: "unat (0x100 :: u32) = 0x100" by simp
  obtain w1 where "probe_area api h 0 0x100 w0 = (True, w1)"
    using probe_area_below [OF assms(2), of "0x100" 0 w0] assms(3) u by auto
  then have 1: "probe_start api h 0x100 w0 = (0x100, w1)" by (subst probe_start.simps) simp
  obtain k w2 where 2: "scan_up 64 api h 0x100 (bit_at 0) w1 = (bit_at k, w2)" "k \<le> 62" "L 0x100 \<le> 2 ^ k"
    using scan_up_power [OF assms(2), of "0x100" 0 64 w1] assms(4) u by auto
  obtain b w3 where 3: "scan_down 64 api h 0x100 (bit_at k) 0 w2 = Some (b, w3)" "Suc (unat b) = L 0x100"
    using scan_down_size [OF assms(2), of "0x100" k 64 0 0 w2] assms(3,4) 2 u by auto
  have "unat (b + 0x100) = unat b + 0x100" using 3(2) assms(4) by (simp add: unat_word_ariths)
  then show ?thesis
    using assms(1) 1 2(1) 3 bit_at_facts(2) [of k] 2(2)
    by (simp add: co_os_file_block_detect_size_binary_search_def bit_at_def)
qed

text \<open>C17: what the binary search of a size answers, when its buffer could be allocated and the size \<open>S\<close> is below
  \<open>2^62\<close>. Where a read succeeds exactly when all of it is inside, the size is found exactly from 0x100 bytes on, and a
  smaller one is reported as an error. Where, as for a Windows file, a read that starts inside succeeds and is short at
  the end, the answer is 255 bytes more than the size, as the search does not look at the number of bytes read; only an
  empty file is an error. Where reads have to be aligned to sectors of 512 bytes, the first probe at a power of two
  fails, and the answer is 512 whatever the size.\<close>

theorem co_os_file_block_detect_size_binary_search_result:
  assumes "fst (nt_malloc api w)" "S < 2 ^ 62"
  shows "(reads_below api h (\<lambda>n. S + 1 - n) 1 \<longrightarrow>
      (if 0x100 \<le> S then \<exists>n w'. co_os_file_block_detect_size_binary_search api h w = Some (Inr n, w') \<and> unat n = S
       else \<exists>w'. co_os_file_block_detect_size_binary_search api h w = Some (Inl RC_ERROR, w'))) \<and>
    (reads_below api h (\<lambda>n. S) 1 \<longrightarrow>
      (if 0 < S then \<exists>n w'. co_os_file_block_detect_size_binary_search api h w = Some (Inr n, w') \<and> unat n = S + 255
       else \<exists>w'. co_os_file_block_detect_size_binary_search api h w = Some (Inl RC_ERROR, w'))) \<and>
    (\<forall>L. reads_below api h L 512 \<and> 0 < L 0x200 \<longrightarrow>
      (\<exists>w'. co_os_file_block_detect_size_binary_search api h w = Some (Inr 512, w')))"
proof -
  obtain w0 where w0: "nt_malloc api w = (True, w0)" using assms(1) by (cases "nt_malloc api w") auto
  have none: "\<exists>w'. co_os_file_block_detect_size_binary_search api h w = Some (Inl RC_ERROR, w')"
    if "reads_below api h L 1" "\<And>n. 0x100 \<le> n \<Longrightarrow> L n = 0" for L
    using probe_start_none [of api h L 1 w0] that w0 by (auto simp: co_os_file_block_detect_size_binary_search_def)
  have sectors: "\<exists>w'. co_os_file_block_detect_size_binary_search api h w = Some (Inr 512, w')"
    if r: "reads_below api h L 512" "0 < L 0x200" for L
  proof -
    obtain w1 where 1: "probe_area api h 0 0x100 w0 = (False, w1)" using probe_area_below [OF r(1), of "0x100" 0 w0] by auto
    obtain w2 where 2: "probe_area api h 0 0x200 w1 = (True, w2)" using probe_area_below [OF r(1), of "0x200" 0 w1] r(2) by auto
    obtain w3 where 3: "probe_area api h 1 0x200 w2 = (False, w3)" using probe_area_below [OF r(1), of "0x200" 1 w2] by auto
    obtain w4 where 4: "probe_area api h 0 0x200 w3 = (True, w4)" using probe_area_below [OF r(1), of "0x200" 0 w3] r(2) by auto
    have "probe_start api h 0x100 w0 = (0x200, w2)"
      using 1 2 by (subst probe_start.simps, subst probe_start.simps) simp
    moreover have "scan_up 64 api h 0x200 1 w2 = (1, w3)" using 3 by (simp add: numeral_eq_Suc)
    moreover have "scan_down 64 api h 0x200 1 0 w3 = Some (0, w4)" using 4 by (simp add: numeral_eq_Suc)
    ultimately show ?thesis
      using w0 by (simp add: co_os_file_block_detect_size_binary_search_def)
  qed
  have whole: "if 0x100 \<le> S then \<exists>n w'. co_os_file_block_detect_size_binary_search api h w = Some (Inr n, w') \<and> unat n = S
       else \<exists>w'. co_os_file_block_detect_size_binary_search api h w = Some (Inl RC_ERROR, w')"
    if "reads_below api h (\<lambda>n. S + 1 - n) 1"
    using binary_search_last [OF w0 that] none [OF that] assms(2) by auto
  have short: "if 0 < S then \<exists>n w'. co_os_file_block_detect_size_binary_search api h w = Some (Inr n, w') \<and> unat n = S + 255
       else \<exists>w'. co_os_file_block_detect_size_binary_search api h w = Some (Inl RC_ERROR, w')"
    if "reads_below api h (\<lambda>n. S) 1"
    using binary_search_last [OF w0 that] none [OF that] assms(2) by auto
  show ?thesis using whole short sectors by blast
qed

text \<open>A file system whose one file, with handle 1, has 0x12345 bytes, or a device of that size with sectors of \<open>B\<close>
  bytes: its world holds nothing.\<close>

definition nt_example :: "nat \<Rightarrow> bool \<Rightarrow> unit nt_api" where
  "nt_example B whole = \<lparr>ZwCreateFile = (\<lambda>name access attr share disp opts w. (STATUS_SUCCESS, 1, w)),
     ZwClose = (\<lambda>h w. (STATUS_SUCCESS, w)),
     ZwReadFile = (\<lambda>h offset n w.
        if unat offset < (if whole then 0x12346 - n else 0x12345) \<and> unat offset mod B = 0 \<and> n mod B = 0
        then (STATUS_SUCCESS, replicate (min n (0x12345 - unat offset)) 0, w) else (STATUS_END_OF_FILE, [], w)),
     ZwWriteFile = (\<lambda>h offset bs w. (STATUS_ACCESS_DENIED, w)),
     ZwQueryEndOfFile = (\<lambda>h w. (0xC0000010, 0, w)),
     ZwDiskLength = (\<lambda>h w. (0xC0000010, 0, w)),
     ZwIssue = (\<lambda>h offset n read w. (STATUS_PENDING, w)),
     nt_malloc = (\<lambda>w. (True, w))\<rparr>"

theorem co_os_file_block_detect_size_binary_search_result_witness:
  "(\<exists>n w'. co_os_file_block_detect_size_binary_search (nt_example 1 True) 1 () = Some (Inr n, w') \<and> unat n = 0x12345) \<and>
   (\<exists>n w'. co_os_file_block_detect_size_binary_search (nt_example 1 False) 1 () = Some (Inr n, w') \<and> unat n = 0x12444) \<and>
   (\<exists>w'. co_os_file_block_detect_size_binary_search (nt_example 512 False) 1 () = Some (Inr 512, w'))"
proof -
  have ok: "fst (nt_malloc (nt_example B whole) ())" for B whole by (simp add: nt_example_def)
  have S: "(0x12345 :: nat) < 2 ^ 62" by simp
  have "reads_below (nt_example 1 True) 1 (\<lambda>n. 0x12345 + 1 - n) 1" "reads_below (nt_example 1 False) 1 (\<lambda>n. 0x12345) 1"
    "reads_below (nt_example 512 False) 1 (\<lambda>n. 0x12345) 512"
    by (simp_all add: nt_example_def reads_below_def)
  then show ?thesis
    using co_os_file_block_detect_size_binary_search_result [OF ok S, of 1 True 1]
      co_os_file_block_detect_size_binary_search_result [OF ok S, of 1 False 1]
      co_os_file_block_detect_size_binary_search_result [OF ok S, of 512 False 1] by fastforce
qed

end
