(* ===== verification/CoBlock.thy ===== *)
theory CoBlock
  imports CoWinNt CoSnprintf
begin

text \<open>
  The virtual block devices: \<open>src/colinux/kernel/block.c\<close> (use counts and the table of devices),
  \<open>src/colinux/kernel/fileblock.c\<close> (devices backed by a file) and the operations of
  \<open>src/colinux/os/winnt/kernel/block.c\<close> behind them. The table \<open>block_devs\<close> is a function on indices.
  A request's two overlapping views are separate fields. \<open>block.c\<close> knows a device only through
  \<open>service\<close>; what it relies on is the locale \<open>block_service\<close>.
\<close>

abbreviation CO_MODULE_MAX_COBD :: u32 where "CO_MODULE_MAX_COBD \<equiv> 32"

datatype co_block_request_type =
  CO_BLOCK_OPEN | CO_BLOCK_STAT | CO_BLOCK_READ | CO_BLOCK_WRITE | CO_BLOCK_CLOSE | CO_BLOCK_GET_ALIAS
  | CO_BLOCK_UNKNOWN

record co_block_dev_desc =
  bd_enabled :: bool
  bd_pathname :: "u8 list"
  bd_alias_used :: bool
  bd_alias :: string

record co_block_request =
  req_type :: co_block_request_type
  req_rc :: int
  req_offset :: u64
  req_size :: u64
  req_disk_size :: u64
  req_address :: u32
  req_irq :: u32
  req_async :: bool
  req_alias :: string

abbreviation CO_BLOCK_REQUEST_RETCODE_OK :: int where "CO_BLOCK_REQUEST_RETCODE_OK \<equiv> 0"
abbreviation CO_BLOCK_REQUEST_RETCODE_ERROR :: int where "CO_BLOCK_REQUEST_RETCODE_ERROR \<equiv> - 1"

record co_block_dev =
  dev_size :: u64
  dev_conf :: "co_block_dev_desc option"
  use_count :: u32
  dev_unit :: int

type_synonym ('s, 'd) block_service = "'s \<Rightarrow> 'd \<Rightarrow> co_block_request \<Rightarrow> (co_rc \<times> 's \<times> 'd \<times> co_block_request) option"

section \<open>block.c\<close>

definition co_monitor_block_register_device ::
    "(u32 \<Rightarrow> 'a co_block_dev_scheme option) \<Rightarrow> u32 \<Rightarrow> 'a co_block_dev_scheme \<Rightarrow> (u32 \<Rightarrow> 'a co_block_dev_scheme option)" where
  "co_monitor_block_register_device devs index dev = devs(index \<mapsto> dev\<lparr>dev_unit := sint index\<rparr>)"

definition co_monitor_block_unregister_device ::
    "(u32 \<Rightarrow> 'a co_block_dev_scheme option) \<Rightarrow> u32 \<Rightarrow> (u32 \<Rightarrow> 'a co_block_dev_scheme option)" where
  "co_monitor_block_unregister_device devs index = devs(index := None)"

fun unregister_from ::
    "('s \<Rightarrow> 'a co_block_dev_scheme \<Rightarrow> 's) \<Rightarrow> u32 list \<Rightarrow> 's \<Rightarrow> (u32 \<Rightarrow> 'a co_block_dev_scheme option) \<Rightarrow>
     's \<times> (u32 \<Rightarrow> 'a co_block_dev_scheme option)" where
  "unregister_from free [] s devs = (s, devs)"
| "unregister_from free (i # is) s devs =
     (case devs i of
        None \<Rightarrow> unregister_from free is s devs
      | Some dev \<Rightarrow> unregister_from free is (free s dev) (co_monitor_block_unregister_device devs i))"

definition co_monitor_unregister_and_free_block_devices ::
    "('s \<Rightarrow> 'a co_block_dev_scheme \<Rightarrow> 's) \<Rightarrow> 's \<Rightarrow> (u32 \<Rightarrow> 'a co_block_dev_scheme option) \<Rightarrow>
     's \<times> (u32 \<Rightarrow> 'a co_block_dev_scheme option)" where
  "co_monitor_unregister_and_free_block_devices free s devs =
     unregister_from free (map word_of_nat [0..<unat CO_MODULE_MAX_COBD]) s devs"

definition co_monitor_block_dev_from_index ::
    "(u32 \<Rightarrow> 'a co_block_dev_scheme option) \<Rightarrow> u32 \<Rightarrow> 'a co_block_dev_scheme option" where
  "co_monitor_block_dev_from_index devs index = (if index \<ge> CO_MODULE_MAX_COBD then None else devs index)"

text \<open>The early answers, before the device's own service runs.\<close>

definition block_early ::
    "'a co_block_dev_scheme \<Rightarrow> co_block_request \<Rightarrow>
     (co_rc \<times> 'a co_block_dev_scheme \<times> co_block_request) option option" where
  "block_early dev request =
     (case req_type request of
        CO_BLOCK_OPEN \<Rightarrow>
          if use_count dev \<ge> 1 then Some (Some (RC_OK, dev\<lparr>use_count := use_count dev + 1\<rparr>, request)) else None
      | CO_BLOCK_CLOSE \<Rightarrow>
          if use_count dev = 0 then Some (Some (RC_ERROR, dev, request))
          else if use_count dev > 1 then Some (Some (RC_OK, dev\<lparr>use_count := use_count dev - 1\<rparr>, request))
          else None
      | CO_BLOCK_GET_ALIAS \<Rightarrow>
          (case dev_conf dev of
             None \<Rightarrow> Some (Some (RC_ERROR, dev, request))
           | Some conf \<Rightarrow>
               if \<not> bd_enabled conf \<or> \<not> bd_alias_used conf then Some (Some (RC_ERROR, dev, request))
               else
                 let conf = conf\<lparr>bd_alias := (bd_alias conf)[19 := CHR 0x00]\<rparr> in
                 Some (do {
                   (n, alias) \<leftarrow> co_snprintf 20 20 ''%s'' [VStr (Some (bd_alias conf))];
                   Some (RC_OK, dev\<lparr>dev_conf := Some conf\<rparr>, request\<lparr>req_alias := alias\<rparr>) }))
      | _ \<Rightarrow> None)"

definition intern_monitor_block_request ::
    "('s, 'a co_block_dev_scheme) block_service \<Rightarrow> 's \<Rightarrow> 'a co_block_dev_scheme \<Rightarrow> co_block_request \<Rightarrow>
     (co_rc \<times> 's \<times> 'a co_block_dev_scheme \<times> co_block_request) option" where
  "intern_monitor_block_request service s dev request =
     (case block_early dev request of
        Some r \<Rightarrow> do { (rc, dev, request) \<leftarrow> r; Some (rc, s, dev, request) }
      | None \<Rightarrow> do {
          (rc, s, dev, request) \<leftarrow> service s dev request;
          Some (rc, s,
            (case req_type request of
               CO_BLOCK_OPEN \<Rightarrow> if rc_ok rc then dev\<lparr>use_count := use_count dev + 1\<rparr> else dev
             | CO_BLOCK_CLOSE \<Rightarrow> if rc_ok rc then dev\<lparr>use_count := use_count dev - 1\<rparr> else dev
             | _ \<Rightarrow> dev), request) })"

definition co_monitor_block_request ::
    "('s, 'a co_block_dev_scheme) block_service \<Rightarrow> 's \<Rightarrow> (u32 \<Rightarrow> 'a co_block_dev_scheme option) \<Rightarrow> u32 \<Rightarrow> co_block_request \<Rightarrow>
     ('s \<times> (u32 \<Rightarrow> 'a co_block_dev_scheme option) \<times> co_block_request) option" where
  "co_monitor_block_request service s devs index request =
     (case co_monitor_block_dev_from_index devs index of
        None \<Rightarrow> Some (s, devs, request\<lparr>req_rc := CO_BLOCK_REQUEST_RETCODE_ERROR\<rparr>)
      | Some dev \<Rightarrow> do {
          (rc, s, dev, request) \<leftarrow> intern_monitor_block_request service s dev request;
          Some (s, devs(index \<mapsto> dev),
            request\<lparr>req_rc := (if rc_ok rc then CO_BLOCK_REQUEST_RETCODE_OK else CO_BLOCK_REQUEST_RETCODE_ERROR)\<rparr>) })"

text \<open>What \<open>block.c\<close> relies on: a device is opened by a successful open and closed by a close, which does not
  fail on an open device, and by nothing else; the use count is not the service's business.\<close>

locale block_service =
  fixes service :: "('s, 'a co_block_dev_scheme) block_service" and opened :: "'a co_block_dev_scheme \<Rightarrow> bool"
  assumes service_open: "service s d r = Some (rc, s', d', r') \<Longrightarrow> req_type r = CO_BLOCK_OPEN \<Longrightarrow> \<not> opened d \<Longrightarrow>
      opened d' = rc_ok rc"
    and service_close: "service s d r = Some (rc, s', d', r') \<Longrightarrow> req_type r = CO_BLOCK_CLOSE \<Longrightarrow> opened d \<Longrightarrow>
      rc_ok rc \<and> \<not> opened d'"
    and service_other: "service s d r = Some (rc, s', d', r') \<Longrightarrow> req_type r \<notin> {CO_BLOCK_OPEN, CO_BLOCK_CLOSE} \<Longrightarrow>
      opened d' = opened d"
    and service_count: "service s d r = Some (rc, s', d', r') \<Longrightarrow> use_count d' = use_count d"
    and service_type: "service s d r = Some (rc, s', d', r') \<Longrightarrow> req_type r' = req_type r"
    and opened_fields [simp]: "opened (d\<lparr>use_count := n\<rparr>) = opened d" "opened (d\<lparr>dev_conf := c\<rparr>) = opened d"

fun block_run ::
    "('s, 'a co_block_dev_scheme) block_service \<Rightarrow> 's \<Rightarrow> 'a co_block_dev_scheme \<Rightarrow> co_block_request list \<Rightarrow>
     ((co_block_request_type \<times> co_rc) list \<times> 's \<times> 'a co_block_dev_scheme) option" where
  "block_run service s d [] = Some ([], s, d)"
| "block_run service s d (r # rs) = do {
     (rc, s, d, r') \<leftarrow> intern_monitor_block_request service s d r;
     (log, s, d) \<leftarrow> block_run service s d rs;
     Some ((req_type r, rc) # log, s, d) }"

definition answered_ok :: "co_block_request_type \<Rightarrow> (co_block_request_type \<times> co_rc) list \<Rightarrow> nat" where
  "answered_ok t log = length (filter (\<lambda>(u, rc). u = t \<and> rc_ok rc) log)"

lemma answered_ok_simps [simp]:
  "answered_ok t [] = 0" "answered_ok t ((u, rc) # log) = (if u = t \<and> rc_ok rc then 1 else 0) + answered_ok t log"
  by (simp_all add: answered_ok_def)

lemma rc_ok_simp [simp]: "rc_ok RC_OK" "\<not> rc_ok RC_ERROR"
  by (simp_all add: rc_ok_simps)

context block_service
begin

definition count_ok :: "'a co_block_dev_scheme \<Rightarrow> bool" where
  "count_ok d \<longleftrightarrow> (use_count d \<noteq> 0 \<longleftrightarrow> opened d)"

lemma request_count:
  assumes "intern_monitor_block_request service s d r = Some (rc, s', d', r')" "count_ok d" "use_count d + 1 \<noteq> 0"
  shows "count_ok d' \<and> use_count d' =
    (if req_type r = CO_BLOCK_OPEN \<and> rc_ok rc then use_count d + 1
     else if req_type r = CO_BLOCK_CLOSE \<and> rc_ok rc then use_count d - 1 else use_count d) \<and>
    (req_type r = CO_BLOCK_CLOSE \<and> rc_ok rc \<longrightarrow> use_count d \<noteq> 0)"
proof (cases "block_early d r")
  case (Some x)
  then show ?thesis
    using assms
    by (auto simp: intern_monitor_block_request_def block_early_def count_ok_def bind_Some_iff Let_def word_less_nat_alt
        unat_sub_if_size split: co_block_request_type.splits if_splits option.splits)
next
  case None
  then obtain d1 where 1: "service s d r = Some (rc, s', d1, r')"
    "d' = (case req_type r of CO_BLOCK_OPEN \<Rightarrow> if rc_ok rc then d1\<lparr>use_count := use_count d1 + 1\<rparr> else d1
       | CO_BLOCK_CLOSE \<Rightarrow> if rc_ok rc then d1\<lparr>use_count := use_count d1 - 1\<rparr> else d1 | _ \<Rightarrow> d1)"
    using assms(1) service_type by (fastforce simp: intern_monitor_block_request_def bind_Some_iff)
  note laws = service_open [OF 1(1)] service_close [OF 1(1)] service_other [OF 1(1)] service_count [OF 1(1)]
  from None have early: "req_type r = CO_BLOCK_OPEN \<Longrightarrow> use_count d = 0" "req_type r = CO_BLOCK_CLOSE \<Longrightarrow> use_count d = 1"
    by (auto simp: block_early_def word_le_nat_alt word_less_nat_alt word_unat_eq_iff split: if_splits)
  show ?thesis
  proof (cases "req_type r \<in> {CO_BLOCK_OPEN, CO_BLOCK_CLOSE}")
    case True
    then show ?thesis using laws early assms(2) 1(2) by (auto simp: count_ok_def)
  next
    case False
    then have "d' = d1" using 1(2) by (auto split: co_block_request_type.splits)
    then show ?thesis using laws(3) [OF False] laws(4) False assms(2) by (auto simp: count_ok_def)
  qed
qed

lemma run_count:
  assumes "block_run service s d rs = Some (log, s', d')" "count_ok d" "unat (use_count d) + length rs < 2 ^ 32"
  shows "count_ok d' \<and>
    unat (use_count d') + answered_ok CO_BLOCK_CLOSE log = unat (use_count d) + answered_ok CO_BLOCK_OPEN log"
  using assms
proof (induction rs arbitrary: s d log)
  case (Cons r rs)
  from Cons.prems(1) obtain rc s1 d1 r1 log1 where
    1: "intern_monitor_block_request service s d r = Some (rc, s1, d1, r1)"
    "block_run service s1 d1 rs = Some (log1, s', d')" "log = (req_type r, rc) # log1"
    by (auto simp: bind_Some_iff)
  have up: "unat (use_count d + 1) = unat (use_count d) + 1" using Cons.prems(3) by (simp add: unat_word_ariths)
  have "use_count d + 1 \<noteq> 0"
  proof
    assume "use_count d + 1 = 0"
    with up show False by simp
  qed
  note count = request_count [OF 1(1) Cons.prems(2) this]
  have down: "use_count d \<noteq> 0 \<Longrightarrow> unat (use_count d - 1) + 1 = unat (use_count d)"
    by (simp add: unat_minus_one unat_gt_0)
  have "unat (use_count d1) + length rs < 2 ^ 32"
    using count up down Cons.prems(3) by (auto split: if_splits)
  with Cons.IH [OF 1(2)] count have IH: "count_ok d'"
    "unat (use_count d') + answered_ok CO_BLOCK_CLOSE log1 = unat (use_count d1) + answered_ok CO_BLOCK_OPEN log1"
    by blast+
  then show ?case using count up down 1(3) by (auto split: if_splits)
qed simp

end

section \<open>fileblock.c and the operations on Windows files\<close>

datatype co_monitor_file_block_state = CO_MONITOR_FILE_BLOCK_CLOSED | CO_MONITOR_FILE_BLOCK_OPENED

record co_monitor_file_block_dev = co_block_dev +
  fb_state :: co_monitor_file_block_state
  fb_pathname :: "u8 list"
  fb_async :: bool
  fb_sysdep :: handle

text \<open>An asynchronous transfer that Windows has accepted (\<open>callback_context_t\<close>), and the state the service
  works on: the guest's memory, the world of Windows, the accepted transfers and the interrupts sent to
  the guest, each with the unit, the request and whether the data is up to date.\<close>

record callback_context =
  cc_unit :: int
  cc_irq :: u32
  cc_pfn :: pfn
  cc_start :: nat
  cc_size :: u32
  cc_read :: bool

record 'w block_host =
  bh_vm :: vm
  bh_world :: 'w
  bh_pending :: "callback_context list"
  bh_sent :: "(int \<times> u32 \<times> bool) list"

text \<open>\<open>old\<close> is what the caller's variable holds: it stays when the file is open or cannot be opened, and
  \<open>co_os_file_get_size\<close> writes zero when it fails.\<close>

definition co_os_file_block_get_size ::
    "'w nt_api \<Rightarrow> co_monitor_file_block_dev \<Rightarrow> u64 \<Rightarrow> 'w \<Rightarrow> (co_rc \<times> u64 \<times> 'w) option" where
  "co_os_file_block_get_size api fdev old w =
     (if fb_sysdep fdev \<noteq> 0 then Some (RC_ERROR, old, w)
      else do {
        (rc, h, w) \<leftarrow> co_os_file_open api (fb_pathname fdev) FILE_READ_DATA w;
        if \<not> rc_ok rc then Some (rc, old, w)
        else do {
          (r, w) \<leftarrow> co_os_file_get_size api h w;
          let w = snd (co_os_file_close api h w);
          (case r of Inl rc \<Rightarrow> Some (rc, 0, w) | Inr n \<Rightarrow> Some (RC_OK, n, w)) } })"

text \<open>Opening: read and write, and read only when that is denied. The handle is stored on success.\<close>

definition open_file :: "'w nt_api \<Rightarrow> bool \<Rightarrow> u8 list \<Rightarrow> u32 \<Rightarrow> 'w \<Rightarrow> (co_rc \<times> handle \<times> 'w) option" where
  "open_file api async path access w =
     (if async then co_os_file_create api path access 0 FILE_OPEN 0 w else co_os_file_open api path access w)"

definition co_os_file_block_open ::
    "'w nt_api \<Rightarrow> co_monitor_file_block_dev \<Rightarrow> 'w \<Rightarrow> (co_rc \<times> co_monitor_file_block_dev \<times> 'w) option" where
  "co_os_file_block_open api fdev w = do {
     (rc, h, w) \<leftarrow> open_file api (fb_async fdev) (fb_pathname fdev) (FILE_READ_DATA OR FILE_WRITE_DATA) w;
     if rc_ok rc then Some (RC_OK, fdev\<lparr>fb_sysdep := h\<rparr>, w)
     else if rc = RC_ACCESS_DENIED then do {
       (rc2, h, w) \<leftarrow> open_file api (fb_async fdev) (fb_pathname fdev) FILE_READ_DATA w;
       if rc_ok rc2 then Some (RC_OK, fdev\<lparr>fb_sysdep := h\<rparr>, w) else Some (rc, fdev, w) }
     else Some (rc, fdev, w) }"

definition co_os_file_block_close :: "'w nt_api \<Rightarrow> co_monitor_file_block_dev \<Rightarrow> 'w \<Rightarrow> co_monitor_file_block_dev \<times> 'w" where
  "co_os_file_block_close api fdev w = (fdev\<lparr>fb_sysdep := 0\<rparr>, snd (co_os_file_close api (fb_sysdep fdev) w))"

definition co_os_file_block_async_read_write ::
    "'w nt_api \<Rightarrow> handle \<Rightarrow> u64 \<Rightarrow> u32 \<Rightarrow> u32 \<Rightarrow> bool \<Rightarrow> int \<Rightarrow> u32 \<Rightarrow> 'w block_host \<Rightarrow> co_rc \<times> 'w block_host" where
  "co_os_file_block_async_read_write api h offset address bytes read unt irq s =
     (let (ok, w) = nt_malloc api (bh_world s); s = s\<lparr>bh_world := w\<rparr> in
      if \<not> ok then (RC_OUT_OF_MEMORY, s)
      else case co_monitor_host_linuxvm_transfer_map (bh_vm s) address bytes of
          Inl rc \<Rightarrow> (rc, s)
        | Inr (p, start) \<Rightarrow>
            let (status, w) = ZwIssue api h offset bytes read (bh_world s); s = s\<lparr>bh_world := w\<rparr> in
            if status = STATUS_PENDING \<or> status = STATUS_SUCCESS
            then (RC_OK, s\<lparr>bh_pending := bh_pending s @
                   [\<lparr>cc_unit = unt, cc_irq = irq, cc_pfn = p, cc_start = start, cc_size = bytes, cc_read = read\<rparr>]\<rparr>)
            else (co_status_convert status, s))"

text \<open>The completion of an accepted transfer: \<open>k\<close> is the place of its context among those that are accepted and not
  completed, which may complete in any order; \<open>status\<close> is what Windows reports and, for a read, \<open>bs\<close> the bytes it
  has put into the mapped page. A context that is not there any more is \<open>None\<close>.\<close>

definition transfer_file_block_callback :: "nat \<Rightarrow> nt_status \<Rightarrow> u8 list \<Rightarrow> 'w block_host \<Rightarrow> 'w block_host option" where
  "transfer_file_block_callback k status bs s =
     (if k \<ge> length (bh_pending s) then None
      else
        let c = bh_pending s ! k in do {
          pg \<leftarrow> phys (bh_vm s) (cc_pfn c);
          let m = (if cc_read c
                   then (bh_vm s)\<lparr>phys := (phys (bh_vm s))(cc_pfn c \<mapsto> put_bytes (cc_start c) (take (unat (cc_size c)) bs) pg)\<rparr>
                   else bh_vm s);
          Some (s\<lparr>bh_vm := m, bh_pending := take k (bh_pending s) @ drop (Suc k) (bh_pending s),
                  bh_sent := bh_sent s @ [(cc_unit c, cc_irq c, status = STATUS_SUCCESS)]\<rparr>) })"

definition file_block_io ::
    "'w nt_api \<Rightarrow> bool \<Rightarrow> co_monitor_file_block_dev \<Rightarrow> co_block_request \<Rightarrow> 'w block_host \<Rightarrow>
     (co_rc \<times> 'w block_host \<times> co_block_request) option" where
  "file_block_io api read fdev request s =
     (if fb_async fdev then
        let request = request\<lparr>req_async := True\<rparr>;
            (rc, s) = co_os_file_block_async_read_write api (fb_sysdep fdev) (req_offset request) (req_address request)
              (ucast (req_size request)) read (dev_unit fdev) (req_irq request) s
        in Some (rc, s, request)
      else do {
        (rc, m, w) \<leftarrow> co_os_file_block_read_write api (bh_vm s) (fb_sysdep fdev) (req_offset request)
          (req_address request) (ucast (req_size request)) read (bh_world s);
        Some (rc, s\<lparr>bh_vm := m, bh_world := w\<rparr>, request) })"

definition co_monitor_file_block_service ::
    "'w nt_api \<Rightarrow> ('w block_host, co_monitor_file_block_dev) block_service" where
  "co_monitor_file_block_service api s fdev request =
     (case req_type request of
        CO_BLOCK_OPEN \<Rightarrow>
          if fb_state fdev \<noteq> CO_MONITOR_FILE_BLOCK_CLOSED then Some (RC_ERROR, s, fdev, request)
          else do {
            (rc, fdev, w) \<leftarrow> co_os_file_block_open api fdev (bh_world s);
            Some (rc, s\<lparr>bh_world := w\<rparr>,
              if rc_ok rc then fdev\<lparr>fb_state := CO_MONITOR_FILE_BLOCK_OPENED\<rparr> else fdev, request) }
      | CO_BLOCK_READ \<Rightarrow>
          if fb_state fdev \<noteq> CO_MONITOR_FILE_BLOCK_OPENED then Some (RC_ERROR, s, fdev, request)
          else do { (rc, s, request) \<leftarrow> file_block_io api True fdev request s; Some (rc, s, fdev, request) }
      | CO_BLOCK_WRITE \<Rightarrow>
          if fb_state fdev \<noteq> CO_MONITOR_FILE_BLOCK_OPENED then Some (RC_ERROR, s, fdev, request)
          else do { (rc, s, request) \<leftarrow> file_block_io api False fdev request s; Some (rc, s, fdev, request) }
      | CO_BLOCK_CLOSE \<Rightarrow>
          if fb_state fdev \<noteq> CO_MONITOR_FILE_BLOCK_OPENED then Some (RC_ERROR, s, fdev, request)
          else
            let (fdev, w) = co_os_file_block_close api fdev (bh_world s) in
            Some (RC_OK, s\<lparr>bh_world := w\<rparr>, fdev\<lparr>fb_state := CO_MONITOR_FILE_BLOCK_CLOSED\<rparr>, request)
      | CO_BLOCK_STAT \<Rightarrow>
          if fb_state fdev \<noteq> CO_MONITOR_FILE_BLOCK_CLOSED then Some (RC_ERROR, s, fdev, request)
          else do {
            (rc, n, w) \<leftarrow> co_os_file_block_get_size api fdev (dev_size fdev) (bh_world s);
            Some (rc, s\<lparr>bh_world := w\<rparr>, fdev\<lparr>dev_size := n\<rparr>,
              if rc_ok rc then request\<lparr>req_disk_size := n\<rparr> else request) }
      | _ \<Rightarrow> Some (RC_ERROR, s, fdev, request))"

definition co_monitor_file_block_init :: "bool \<Rightarrow> u8 list \<Rightarrow> co_rc \<times> co_monitor_file_block_dev" where
  "co_monitor_file_block_init cobd_async_enable pathname =
     (RC_OK, \<lparr>dev_size = 0, dev_conf = None, use_count = 0, dev_unit = 0, fb_state = CO_MONITOR_FILE_BLOCK_CLOSED,
       fb_pathname = pathname, fb_async = cobd_async_enable, fb_sysdep = 0\<rparr>)"

definition co_monitor_file_block_shutdown ::
    "'w nt_api \<Rightarrow> co_monitor_file_block_dev \<Rightarrow> 'w \<Rightarrow> co_monitor_file_block_dev \<times> 'w" where
  "co_monitor_file_block_shutdown api dev w =
     (if fb_state dev = CO_MONITOR_FILE_BLOCK_OPENED
      then let (dev, w) = co_os_file_block_close api dev w in (dev\<lparr>fb_state := CO_MONITOR_FILE_BLOCK_CLOSED\<rparr>, w)
      else (dev, w))"

definition file_opened :: "co_monitor_file_block_dev \<Rightarrow> bool" where
  "file_opened d \<longleftrightarrow> fb_state d = CO_MONITOR_FILE_BLOCK_OPENED"

lemma co_os_file_block_open_keeps:
  "co_os_file_block_open api d w = Some (rc, d', w') \<Longrightarrow>
   fb_state d' = fb_state d \<and> use_count d' = use_count d \<and> dev_conf d' = dev_conf d"
  by (auto simp: co_os_file_block_open_def bind_Some_iff split: if_splits)

lemma file_block_stat_keeps:
  assumes "co_monitor_file_block_service api s d r = Some (rc, s', d', r')" "req_type r = CO_BLOCK_STAT"
  shows "fb_state d' = fb_state d \<and> use_count d' = use_count d \<and> req_type r' = req_type r"
  using assms by (auto simp: co_monitor_file_block_service_def bind_Some_iff split: if_splits)

lemma file_block_service_keeps:
  assumes "co_monitor_file_block_service api s d r = Some (rc, s', d', r')"
  shows "use_count d' = use_count d \<and> req_type r' = req_type r"
proof (cases "req_type r = CO_BLOCK_STAT")
  case True
  then show ?thesis using file_block_stat_keeps [OF assms] by blast
next
  case False
  then show ?thesis using assms
    by (auto simp: co_monitor_file_block_service_def file_block_io_def co_os_file_block_close_def bind_Some_iff Let_def
        dest!: co_os_file_block_open_keeps split: if_splits co_block_request_type.splits prod.splits)
qed

interpretation file_block: block_service "co_monitor_file_block_service api" file_opened for api :: "'w nt_api"
proof (unfold_locales, goal_cases)
  case (1 s d r rc s' d' r')
  then have closed: "fb_state d = CO_MONITOR_FILE_BLOCK_CLOSED"
    using co_monitor_file_block_state.exhaust by (auto simp: file_opened_def)
  with 1 obtain d1 w where "co_os_file_block_open api d (bh_world s) = Some (rc, d1, w)"
    "d' = (if rc_ok rc then d1\<lparr>fb_state := CO_MONITOR_FILE_BLOCK_OPENED\<rparr> else d1)"
    by (auto simp: co_monitor_file_block_service_def bind_Some_iff)
  with closed co_os_file_block_open_keeps [OF this(1)] show ?case by (simp add: file_opened_def)
next
  case 2
  then show ?case by (auto simp: co_monitor_file_block_service_def file_opened_def co_os_file_block_close_def
      split: if_splits)
next
  case (3 s d r rc s' d' r')
  show ?case
  proof (cases "req_type r = CO_BLOCK_STAT")
    case True
    then show ?thesis using file_block_stat_keeps [OF 3(1)] by (simp add: file_opened_def)
  next
    case False
    then show ?thesis using 3
      by (auto simp: co_monitor_file_block_service_def file_opened_def bind_Some_iff
          split: if_splits co_block_request_type.splits)
  qed
qed (simp_all add: file_opened_def file_block_service_keeps)

text \<open>C10: for every sequence of requests to a file backed device, from its initialisation on, the use count is
  the number of opens less the number of closes that were answered with success, a close is never
  answered with success more often than an open, and the file is open exactly while the count is
  positive.\<close>

theorem co_block_use_count:
  assumes "block_run (co_monitor_file_block_service api) s (snd (co_monitor_file_block_init async path)) rs = Some (log, s', d)"
    and "length rs < 2 ^ 32"
  shows "unat (use_count d) + answered_ok CO_BLOCK_CLOSE log = answered_ok CO_BLOCK_OPEN log \<and>
    (file_opened d \<longleftrightarrow> use_count d \<noteq> 0)"
  using file_block.run_count [OF assms(1)] assms(2)
  by (auto simp: file_block.count_ok_def co_monitor_file_block_init_def file_opened_def)

definition request_of :: "co_block_request_type \<Rightarrow> co_block_request" where
  "request_of t = \<lparr>req_type = t, req_rc = 0, req_offset = 2, req_size = 4, req_disk_size = 0, req_address = 0xc0000ffe,
     req_irq = 77, req_async = False, req_alias = []\<rparr>"

definition block_host_example :: "u8 list block_host" where
  "block_host_example = \<lparr>bh_vm = vm_example, bh_world = [0, 1, 2, 3, 4, 5, 6, 7], bh_pending = [], bh_sent = []\<rparr>"

theorem co_block_use_count_witness:
  "\<exists>log s' d. block_run (co_monitor_file_block_service nt_file_example) block_host_example
      (snd (co_monitor_file_block_init False [0x64])) (map request_of
        [CO_BLOCK_READ, CO_BLOCK_OPEN, CO_BLOCK_OPEN, CO_BLOCK_CLOSE, CO_BLOCK_CLOSE, CO_BLOCK_CLOSE, CO_BLOCK_OPEN]) = Some (log, s', d) \<and>
    unat (use_count d) + answered_ok CO_BLOCK_CLOSE log = answered_ok CO_BLOCK_OPEN log \<and>
    (file_opened d \<longleftrightarrow> use_count d \<noteq> 0) \<and> use_count d = 1 \<and> answered_ok CO_BLOCK_OPEN log = 3"
proof -
  define r where "r = block_run (co_monitor_file_block_service nt_file_example) block_host_example
      (snd (co_monitor_file_block_init False [0x64])) (map request_of
        [CO_BLOCK_READ, CO_BLOCK_OPEN, CO_BLOCK_OPEN, CO_BLOCK_CLOSE, CO_BLOCK_CLOSE, CO_BLOCK_CLOSE, CO_BLOCK_OPEN])"
  have "case r of None \<Rightarrow> False | Some (log, s', d) \<Rightarrow> use_count d = 1 \<and> answered_ok CO_BLOCK_OPEN log = 3"
    unfolding r_def by code_simp
  then obtain log s' d where r: "r = Some (log, s', d)" "use_count d = 1" "answered_ok CO_BLOCK_OPEN log = 3"
    by (auto split: option.splits)
  from co_block_use_count [OF r(1) [unfolded r_def]] r show ?thesis by (auto simp: r_def)
qed

text \<open>C16: an asynchronous transfer that Windows accepts, whichever others are still under way, is answered with
  success and sends no interrupt yet. Whenever it then completes, in whatever order the transfers do and whatever
  happened in between, as long as the frame it was mapped to is there, its completion removes it and no other transfer,
  puts the bytes of a read at its place in that frame and nowhere else, and sends one interrupt with its unit, its
  request and the result. A transfer that Windows refuses is answered with an error and sends none. When Windows
  reports the end of the file, though, the answer is success with no transfer accepted: no interrupt will ever follow.
  (The context could be allocated and the range is inside one mapped page; other cases answer an error before Windows
  is asked.)\<close>

theorem co_os_file_block_async_completes:
  assumes "fst (nt_malloc api (bh_world s))" "ZwIssue api h offset n read (snd (nt_malloc api (bh_world s))) = (status, w)"
    and "co_monitor_host_linuxvm_transfer_map (bh_vm s) v n = Inr (p, start)"
  shows "case co_os_file_block_async_read_write api h offset v n read unt irq s of (rc, s1) \<Rightarrow>
    (if status \<in> {STATUS_SUCCESS, STATUS_PENDING}
     then rc = RC_OK \<and> bh_sent s1 = bh_sent s \<and>
       (\<exists>c. bh_pending s1 = bh_pending s @ [c] \<and>
         (\<forall>k (s' :: 'w block_host) pg st bs.
            k < length (bh_pending s') \<and> bh_pending s' ! k = c \<and> phys (bh_vm s') p = Some pg \<longrightarrow>
            (\<exists>s2. transfer_file_block_callback k st bs s' = Some s2 \<and>
               bh_pending s2 = take k (bh_pending s') @ drop (Suc k) (bh_pending s') \<and>
               phys (bh_vm s2) = (if read then (phys (bh_vm s'))(p \<mapsto> put_bytes start (take (unat n) bs) pg) else phys (bh_vm s')) \<and>
               bh_sent s2 = bh_sent s' @ [(unt, irq, st = STATUS_SUCCESS)])))
     else bh_pending s1 = bh_pending s \<and> bh_sent s1 = bh_sent s \<and> (rc_ok rc \<longleftrightarrow> status = STATUS_END_OF_FILE))"
proof -
  obtain w0 where "nt_malloc api (bh_world s) = (True, w0)" using assms(1) by (cases "nt_malloc api (bh_world s)") auto
  then show ?thesis
    using assms(2,3)
    by (auto simp: co_os_file_block_async_read_write_def transfer_file_block_callback_def Let_def
        co_status_convert_def rc_ok_def)
qed

text \<open>Two reads are accepted and complete in the other order.\<close>

definition accepted_read :: "u32 \<Rightarrow> callback_context" where
  "accepted_read irq = \<lparr>cc_unit = 3, cc_irq = irq, cc_pfn = 9, cc_start = 0, cc_size = 4, cc_read = True\<rparr>"

lemma example_reads:
  assumes "bh_vm s = vm_example" "bh_world s = [0, 1, 2, 3, 4, 5, 6, 7]"
  shows "co_os_file_block_async_read_write nt_file_example 1 2 0xc0001000 4 True 3 irq s =
    (RC_OK, s\<lparr>bh_pending := bh_pending s @ [accepted_read irq]\<rparr>)"
proof -
  have "co_monitor_host_linuxvm_transfer_map vm_example 0xc0001000 4 = Inr (9, 0)" by code_simp
  then show ?thesis
    using assms by (simp add: co_os_file_block_async_read_write_def nt_file_example_def accepted_read_def)
qed

theorem co_os_file_block_async_completes_witness:
  "let s1 = block_host_example\<lparr>bh_pending := [accepted_read 77]\<rparr>;
       (rc, s2) = co_os_file_block_async_read_write nt_file_example 1 2 0xc0001000 4 True 3 78 s1
   in rc = RC_OK \<and>
      (\<exists>s3. transfer_file_block_callback 1 0 [9, 8, 7, 6] s2 = Some s3 \<and> bh_pending s3 = [accepted_read 77] \<and>
        bh_sent s3 = [(3, 78, True)])"
proof -
  let ?s1 = "block_host_example\<lparr>bh_pending := [accepted_read 77]\<rparr>"
  let ?s2 = "?s1\<lparr>bh_pending := [accepted_read 77, accepted_read 78]\<rparr>"
  have run: "co_os_file_block_async_read_write nt_file_example 1 2 0xc0001000 4 True 3 78 ?s1 = (RC_OK, ?s2)"
    using example_reads [of ?s1 78] by (simp add: block_host_example_def)
  have map: "co_monitor_host_linuxvm_transfer_map (bh_vm ?s1) 0xc0001000 4 = Inr (9, 0)"
    unfolding block_host_example_def by code_simp
  obtain pg where pg: "phys (bh_vm ?s2) 9 = Some pg" by (simp add: block_host_example_def vm_example_def)
  have "fst (nt_malloc nt_file_example (bh_world ?s1))" "ZwIssue nt_file_example 1 2 4 True (snd (nt_malloc nt_file_example (bh_world ?s1))) =
      (STATUS_PENDING, bh_world ?s1)" by (simp_all add: nt_file_example_def block_host_example_def)
  from co_os_file_block_async_completes [OF this map, of 3 78] run obtain c where
    c: "bh_pending ?s2 = bh_pending ?s1 @ [c]" and
    completes: "\<forall>k (s' :: u8 list block_host) pg st bs.
        k < length (bh_pending s') \<and> bh_pending s' ! k = c \<and> phys (bh_vm s') 9 = Some pg \<longrightarrow>
        (\<exists>s2. transfer_file_block_callback k st bs s' = Some s2 \<and>
           bh_pending s2 = take k (bh_pending s') @ drop (Suc k) (bh_pending s') \<and>
           phys (bh_vm s2) = (phys (bh_vm s'))(9 \<mapsto> put_bytes 0 (take (unat (4 :: u32)) bs) pg) \<and>
           bh_sent s2 = bh_sent s' @ [(3, 78, st = STATUS_SUCCESS)])" by auto
  have "c = accepted_read 78" using c by simp
  with completes [rule_format, of 1 ?s2 pg 0 "[9, 8, 7, 6]"] pg run show ?thesis
    by (auto simp: block_host_example_def)
qed

end
