(* ===== verification/CoFilesystem.thy ===== *)
theory CoFilesystem
  imports CoPages CoSnprintf
begin

text \<open>
  The host side of the cofs file system: \<open>src/colinux/kernel/filesystem.c\<close> with its flat mode, and the path
  functions of \<open>src/colinux/os/winnt/kernel/filesystem.c\<close>. Inodes live in a heap and their intrusive
  lists are lists of addresses, the heads' own; following a pointer that is NULL or freed, or an index
  outside the hash table, is \<open>None\<close>. The host's file operations (\<open>src/colinux/os/kernel/filesystem.h\<close>)
  are the fields of the parameter \<open>os_file_api\<close>, functions on a world \<open>'w\<close>; a path is a string without
  NUL. What \<open>co_os_malloc\<close> answers is a list in the state, consumed in order.
\<close>

type_synonym iptr = nat

record fuse_attr =
  fa_size :: u64
  fa_mode :: u32
  fa_nlink :: u32
  fa_uid :: u32
  fa_gid :: u32
  fa_rdev :: u32
  fa_dummy :: u32
  fa_blocks :: u32
  fa_atime :: u32
  fa_mtime :: u32
  fa_ctime :: u32

record 'w os_file_api =
  os_file_get_attr :: "string \<Rightarrow> 'w \<Rightarrow> co_rc \<times> fuse_attr \<times> 'w"
  os_file_getdir :: "string \<Rightarrow> 'w \<Rightarrow> co_rc \<times> (u8 \<times> string) list \<times> 'w"
  os_file_read_write :: "string \<Rightarrow> u64 \<Rightarrow> u32 \<Rightarrow> u32 \<Rightarrow> bool \<Rightarrow> vm \<Rightarrow> 'w \<Rightarrow> (co_rc \<times> vm \<times> 'w) option"
  os_file_mknod :: "string \<Rightarrow> u32 \<Rightarrow> 'w \<Rightarrow> co_rc \<times> 'w"
  os_file_set_attr :: "string \<Rightarrow> u32 \<Rightarrow> fuse_attr \<Rightarrow> 'w \<Rightarrow> co_rc \<times> 'w"
  os_file_mkdir :: "string \<Rightarrow> 'w \<Rightarrow> co_rc \<times> 'w"
  os_file_unlink :: "string \<Rightarrow> 'w \<Rightarrow> co_rc \<times> 'w"
  os_file_rmdir :: "string \<Rightarrow> 'w \<Rightarrow> co_rc \<times> 'w"
  os_file_rename :: "string \<Rightarrow> string \<Rightarrow> 'w \<Rightarrow> co_rc \<times> 'w"
  os_file_fs_stat :: "string \<Rightarrow> 'w \<Rightarrow> co_rc \<times> u32 list \<times> 'w"
  os_get_time :: "'w \<Rightarrow> u32"

record co_filesystem_dir_names =
  dn_list :: "(u8 \<times> string) list"
  dn_refcount :: int

record co_inode =
  i_parent :: "iptr option"
  i_sub :: "iptr list"
  i_name :: "string option"
  i_names :: "co_filesystem_dir_names option"
  i_number :: int

abbreviation CO_FS_HASH_TABLE_SIZE :: int where "CO_FS_HASH_TABLE_SIZE \<equiv> 0x1000"

record co_filesystem =
  inodes :: "iptr \<rightharpoonup> co_inode"
  list_inodes :: "iptr list"
  inode_hashes :: "int \<Rightarrow> iptr list"
  next_inode_num :: int
  fs_root :: "iptr option"
  inodes_count :: int
  fs_desc_path :: string
  base_path :: string
  fs_uid :: u32
  fs_gid :: u32
  dir_mode :: u32
  file_mode :: u32
  fs_flags :: u32
  mallocs :: "iptr option list"

definition fs_malloc :: "co_filesystem \<Rightarrow> iptr option \<times> co_filesystem" where
  "fs_malloc fs = (case mallocs fs of a # as \<Rightarrow> (a, fs\<lparr>mallocs := as\<rparr>) | [] \<Rightarrow> (None, fs))"

section \<open>Inodes\<close>

text \<open>C's remainder of a negative number is negative: an index outside the table.\<close>

fun find_number :: "co_filesystem \<Rightarrow> iptr list \<Rightarrow> int \<Rightarrow> iptr option option" where
  "find_number fs [] ino = Some None"
| "find_number fs (p # ps) ino = do {
     i \<leftarrow> inodes fs p;
     if i_number i = ino then Some (Some p) else find_number fs ps ino }"

definition ino_num_to_inode :: "int \<Rightarrow> co_filesystem \<Rightarrow> iptr option option" where
  "ino_num_to_inode ino fs =
     (if ino = 1 then Some (fs_root fs)
      else if ino < 0 \<and> ino mod CO_FS_HASH_TABLE_SIZE \<noteq> 0 then None
      else find_number fs (inode_hashes fs (ino mod CO_FS_HASH_TABLE_SIZE)) ino)"

definition update_inode :: "iptr \<Rightarrow> (co_inode \<Rightarrow> co_inode) \<Rightarrow> co_filesystem \<Rightarrow> co_filesystem option" where
  "update_inode p f fs = do { i \<leftarrow> inodes fs p; Some (fs\<lparr>inodes := (inodes fs)(p \<mapsto> f i)\<rparr>) }"

text \<open>The loop that looks for an unused number; the counter is a signed int.\<close>

fun pick_number :: "nat \<Rightarrow> co_filesystem \<Rightarrow> (int \<times> co_filesystem) option" where
  "pick_number 0 fs = None"
| "pick_number (Suc k) fs =
     (let n = next_inode_num fs in
      if n + 1 \<ge> 2 ^ 31 then None
      else
        let fs = fs\<lparr>next_inode_num := n + 1\<rparr> in
        case ino_num_to_inode n fs of
          None \<Rightarrow> None
        | Some None \<Rightarrow> Some (n, fs)
        | Some (Some p) \<Rightarrow> pick_number k fs)"

definition link_inode :: "iptr \<Rightarrow> iptr option \<Rightarrow> co_filesystem \<Rightarrow> co_filesystem option" where
  "link_inode p parent fs =
     (case parent of
        None \<Rightarrow> Some fs
      | Some d \<Rightarrow> do {
          fs \<leftarrow> update_inode d (\<lambda>i. i\<lparr>i_sub := i_sub i @ [p]\<rparr>) fs;
          update_inode p (\<lambda>i. i\<lparr>i_parent := Some d\<rparr>) fs })"

definition unlink_inode :: "iptr \<Rightarrow> co_filesystem \<Rightarrow> co_filesystem option" where
  "unlink_inode p fs = do {
     i \<leftarrow> inodes fs p;
     (case i_parent i of
        None \<Rightarrow> Some fs
      | Some d \<Rightarrow> update_inode d (\<lambda>i. i\<lparr>i_sub := remove1 p (i_sub i)\<rparr>) fs) }"

definition alloc_inode ::
    "co_filesystem \<Rightarrow> iptr option \<Rightarrow> string option \<Rightarrow> (iptr option \<times> co_filesystem) option" where
  "alloc_inode fs parent name =
     (case fs_malloc fs of
        (None, fs) \<Rightarrow> Some (None, fs)
      | (Some p, fs) \<Rightarrow> do {
          (n, fs) \<leftarrow> pick_number (length (list_inodes fs) + 1) fs;
          let fs = fs\<lparr>inodes := (inodes fs)(p \<mapsto>
            \<lparr>i_parent = None, i_sub = [], i_name = None, i_names = None, i_number = n\<rparr>)\<rparr>;
          fs \<leftarrow> link_inode p parent fs;
          let (dup, fs) = (if name = None then (Some 0, fs) else fs_malloc fs);
          if dup = None
          then (if parent = None then None
                else do { fs \<leftarrow> unlink_inode p fs; Some (None, fs\<lparr>inodes := (inodes fs)(p := None)\<rparr>) })
          else do {
            fs \<leftarrow> update_inode p (\<lambda>i. i\<lparr>i_name := name\<rparr>) fs;
            Some (Some p, fs\<lparr>list_inodes := list_inodes fs @ [p],
              inode_hashes := (inode_hashes fs)(n mod CO_FS_HASH_TABLE_SIZE :=
                inode_hashes fs (n mod CO_FS_HASH_TABLE_SIZE) @ [p]),
              inodes_count := inodes_count fs + 1\<rparr>) } })"

definition reparent_inode :: "iptr \<Rightarrow> iptr \<Rightarrow> co_filesystem \<Rightarrow> co_filesystem option" where
  "reparent_inode p d fs = do {
     fs \<leftarrow> unlink_inode p fs;
     fs \<leftarrow> update_inode d (\<lambda>i. i\<lparr>i_sub := p # i_sub i\<rparr>) fs;
     update_inode p (\<lambda>i. i\<lparr>i_parent := Some d\<rparr>) fs }"

fun find_named :: "co_filesystem \<Rightarrow> iptr list \<Rightarrow> string \<Rightarrow> iptr option option" where
  "find_named fs [] name = Some None"
| "find_named fs (p # ps) name = do {
     i \<leftarrow> inodes fs p;
     n \<leftarrow> i_name i;
     if co_strcmp n name = 0 then Some (Some p) else find_named fs ps name }"

definition find_inode :: "co_filesystem \<Rightarrow> iptr option \<Rightarrow> string \<Rightarrow> iptr option option" where
  "find_inode fs parent name = do { d \<leftarrow> parent; i \<leftarrow> inodes fs d; find_named fs (i_sub i) name }"

definition free_inode :: "iptr \<Rightarrow> co_filesystem \<Rightarrow> co_filesystem option" where
  "free_inode p fs = do {
     i \<leftarrow> inodes fs p;
     let h = i_number i mod CO_FS_HASH_TABLE_SIZE;
     let fs = fs\<lparr>list_inodes := remove1 p (list_inodes fs),
                inode_hashes := (inode_hashes fs)(h := remove1 p (inode_hashes fs h))\<rparr>;
     fs \<leftarrow> unlink_inode p fs;
     Some (fs\<lparr>inodes := (inodes fs)(p := None), inodes_count := inodes_count fs - 1\<rparr>) }"

fun detach_all :: "iptr list \<Rightarrow> iptr list \<Rightarrow> co_filesystem \<Rightarrow> (iptr list \<times> co_filesystem) option" where
  "detach_all [] later fs = Some (later, fs)"
| "detach_all (p # ps) later fs = do {
     fs \<leftarrow> unlink_inode p fs;
     fs \<leftarrow> update_inode p (\<lambda>i. i\<lparr>i_parent := None\<rparr>) fs;
     detach_all ps (p # later) fs }"

function free_inode_children ::
    "nat \<Rightarrow> iptr list \<Rightarrow> iptr list \<Rightarrow> co_filesystem \<Rightarrow> (iptr list \<times> co_filesystem) option" where
  "free_inode_children level delete_now later fs =
     (if level > 5 then detach_all delete_now later fs
      else case delete_now of
          [] \<Rightarrow> Some (later, fs)
        | p # ps \<Rightarrow> do {
            i \<leftarrow> inodes fs p;
            (later, fs) \<leftarrow> free_inode_children (level + 1) (i_sub i) later fs;
            fs \<leftarrow> free_inode p fs;
            free_inode_children level ps later fs })"
  by pat_completeness auto
termination
  by (relation "measures [\<lambda>(level, ps, later, fs). 6 - level, \<lambda>(level, ps, later, fs). length ps]") auto

declare free_inode_children.simps [simp del]

text \<open>The outer loop deletes at least one inode in each turn.\<close>

fun free_deferred :: "nat \<Rightarrow> iptr list \<Rightarrow> co_filesystem \<Rightarrow> co_filesystem option" where
  "free_deferred 0 to_delete fs = (if to_delete = [] then Some fs else None)"
| "free_deferred (Suc k) to_delete fs =
     (if to_delete = [] then Some fs
      else do {
        (to_delete_next, fs) \<leftarrow> free_inode_children 0 to_delete [] fs;
        if to_delete_next = [] then Some fs
        else do {
          (to_delete, fs) \<leftarrow> free_inode_children 0 to_delete_next [] fs;
          free_deferred k to_delete fs } })"

definition free_inode_with_children :: "iptr \<Rightarrow> co_filesystem \<Rightarrow> co_filesystem option" where
  "free_inode_with_children p fs = do {
     i \<leftarrow> inodes fs p;
     (to_delete, fs) \<leftarrow> free_inode_children 0 (i_sub i) [] fs;
     fs \<leftarrow> free_inode p fs;
     free_deferred (length (list_inodes fs)) to_delete fs }"

definition inode_forget :: "co_filesystem \<Rightarrow> iptr option \<Rightarrow> (co_rc \<times> co_filesystem) option" where
  "inode_forget fs inode =
     (case inode of
        None \<Rightarrow> Some (RC_OK, fs)
      | Some p \<Rightarrow> do { fs \<leftarrow> free_inode_with_children p fs; Some (RC_OK, fs) })"

section \<open>Paths on the host\<close>

text \<open>The names from an inode up to the root, at most 256 of them.\<close>

fun path_names :: "nat \<Rightarrow> co_filesystem \<Rightarrow> iptr option \<Rightarrow> string list option" where
  "path_names 0 fs dir = Some []"
| "path_names (Suc k) fs dir =
     (case dir of
        None \<Rightarrow> Some []
      | Some p \<Rightarrow> do {
          i \<leftarrow> inodes fs p;
          (case i_name i of
             None \<Rightarrow> Some []
           | Some n \<Rightarrow> do { ns \<leftarrow> path_names k fs (i_parent i); Some (n # ns) }) })"

text \<open>The path built in a buffer of \<open>len + namelen + 2\<close> bytes; a byte beyond it is \<open>None\<close>.\<close>

definition co_os_fs_inode_to_path ::
    "co_filesystem \<Rightarrow> iptr option \<Rightarrow> nat \<Rightarrow> (co_rc \<times> string \<times> nat \<times> co_filesystem) option" where
  "co_os_fs_inode_to_path fs dir add = do {
     names \<leftarrow> path_names 256 fs dir;
     let cap = length (base_path fs) + (add + sum_list (map (\<lambda>n. length n + 1) names)) + 2;
     let (fullname, fs) = fs_malloc fs;
     if fullname = None then Some (RC_OUT_OF_MEMORY, [], 0, fs)
     else
       let path = base_path fs @ concat (map (\<lambda>n. CHR 0x5C # n) (rev names));
           path = (if add > 0 \<and> path \<noteq> [] \<and> last path \<noteq> CHR 0x5C then path @ [CHR 0x5C] else path)
       in if length path + 1 > cap then None else Some (RC_OK, path, cap, fs) }"

definition co_os_fs_dir_inode_to_path ::
    "co_filesystem \<Rightarrow> iptr option \<Rightarrow> string option \<Rightarrow> (co_rc \<times> string \<times> co_filesystem) option" where
  "co_os_fs_dir_inode_to_path fs dir name = do {
     let len = (case name of None \<Rightarrow> 0 | Some n \<Rightarrow> if n = [] then 0 else 1 + length n);
     (rc, path, cap, fs) \<leftarrow> co_os_fs_inode_to_path fs dir len;
     if \<not> rc_ok rc then Some (rc, [], fs)
     else case name of
         None \<Rightarrow> Some (RC_OK, path, fs)
       | Some n \<Rightarrow> if length path + len > cap then None else Some (RC_OK, path @ n, fs) }"

abbreviation PATHNAME_SIZE :: nat where "PATHNAME_SIZE \<equiv> 0x100"

definition co_os_fs_add_last_component :: "string \<Rightarrow> string" where
  "co_os_fs_add_last_component dirname =
     (if dirname \<noteq> [] \<and> last dirname \<noteq> CHR 0x5C \<and> length dirname + 2 < PATHNAME_SIZE
      then dirname @ [CHR 0x5C] else dirname)"

definition unix_to_dos :: "char \<Rightarrow> char" where
  "unix_to_dos c = (if c = CHR ''/'' then CHR 0x5C else c)"

definition co_os_fs_dir_join_unix_path :: "string \<Rightarrow> string \<Rightarrow> string option" where
  "co_os_fs_dir_join_unix_path dirname addition = do {
     let dirname = co_os_fs_add_last_component dirname;
     let len = length dirname;
     let addition = (case addition of c # cs \<Rightarrow> if c = CHR ''/'' then cs else addition | [] \<Rightarrow> []);
     (n, out) \<leftarrow> co_snprintf (PATHNAME_SIZE - len) (int PATHNAME_SIZE - int len) ''%s'' [VStr (Some addition)];
     let path = dirname @ map unix_to_dos (takeWhile (\<lambda>c. c \<noteq> CHR 0x00) out);
     Some (if path \<noteq> [] \<and> last path = CHR 0x5C then butlast path else path) }"

section \<open>The flat mode\<close>

abbreviation COFS_MOUNT_NOATTRIB :: u32 where "COFS_MOUNT_NOATTRIB \<equiv> 0x20"
abbreviation FUSE_S_IFDIR :: u32 where "FUSE_S_IFDIR \<equiv> 0x4000"
abbreviation FATTR_MODE :: u32 where "FATTR_MODE \<equiv> 1"

definition co_fs_get_attr ::
    "'w os_file_api \<Rightarrow> co_filesystem \<Rightarrow> string \<Rightarrow> 'w \<Rightarrow> co_rc \<times> fuse_attr \<times> 'w" where
  "co_fs_get_attr api fs filename w =
     (let (rc, attr, w) = os_file_get_attr api filename w in
      if \<not> rc_ok rc then (rc, attr, w)
      else
        let mode = (if fs_flags fs AND COFS_MOUNT_NOATTRIB \<noteq> 0
              then (if fa_mode attr AND FUSE_S_IFDIR \<noteq> 0 then dir_mode fs else file_mode fs)
              else (if fa_mode attr AND FUSE_S_IFDIR \<noteq> 0 then fa_mode attr AND dir_mode fs
                    else fa_mode attr AND file_mode fs))
        in (rc, attr\<lparr>fa_mode := mode, fa_uid := fs_uid fs, fa_gid := fs_gid fs\<rparr>, w))"

definition flat_mode_inode_rename ::
    "'w os_file_api \<Rightarrow> co_filesystem \<Rightarrow> iptr option \<Rightarrow> iptr option \<Rightarrow> string \<Rightarrow> string \<Rightarrow> 'w \<Rightarrow>
     (co_rc \<times> co_filesystem \<times> 'w) option" where
  "flat_mode_inode_rename api fs old_inode new_inode oldname newname w = do {
     (rc, old_dirname, fs) \<leftarrow> co_os_fs_dir_inode_to_path fs old_inode (Some oldname);
     if \<not> rc_ok rc then Some (rc, fs, w)
     else do {
       (rc, new_dirname, fs) \<leftarrow> co_os_fs_dir_inode_to_path fs new_inode (Some newname);
       if \<not> rc_ok rc then Some (rc, fs, w)
       else let (rc, w) = os_file_rename api old_dirname new_dirname w in Some (rc, fs, w) } }"

definition flat_mode_getattr ::
    "'w os_file_api \<Rightarrow> co_filesystem \<Rightarrow> iptr option \<Rightarrow> string \<Rightarrow> 'w \<Rightarrow>
     (co_rc \<times> fuse_attr option \<times> co_filesystem \<times> 'w) option" where
  "flat_mode_getattr api fs dir name w = do {
     (rc, filename, fs) \<leftarrow> co_os_fs_dir_inode_to_path fs dir (Some name);
     if \<not> rc_ok rc then Some (rc, None, fs, w)
     else let (rc, attr, w) = co_fs_get_attr api fs filename w in Some (rc, Some attr, fs, w) }"

definition flat_mode_getdir ::
    "'w os_file_api \<Rightarrow> co_filesystem \<Rightarrow> iptr option \<Rightarrow> 'w \<Rightarrow>
     (co_rc \<times> (u8 \<times> string) list \<times> co_filesystem \<times> 'w) option" where
  "flat_mode_getdir api fs dir w = do {
     (rc, dirname, cap, fs) \<leftarrow> co_os_fs_inode_to_path fs dir 1;
     if \<not> rc_ok rc then Some (rc, [], fs, w)
     else let (rc, names, w) = os_file_getdir api dirname w in Some (rc, names, fs, w) }"

definition flat_mode_inode_read_write ::
    "'w os_file_api \<Rightarrow> vm \<Rightarrow> co_filesystem \<Rightarrow> iptr option \<Rightarrow> u64 \<Rightarrow> u32 \<Rightarrow> u32 \<Rightarrow> bool \<Rightarrow> 'w \<Rightarrow>
     (co_rc \<times> vm \<times> co_filesystem \<times> 'w) option" where
  "flat_mode_inode_read_write api m fs inode offset bytes src_buffer read w = do {
     (rc, filename, cap, fs) \<leftarrow> co_os_fs_inode_to_path fs inode 0;
     if \<not> rc_ok rc then Some (rc, m, fs, w)
     else do {
       (rc, m, w) \<leftarrow> os_file_read_write api filename offset bytes src_buffer read m w;
       Some (rc, m, fs, w) } }"

definition flat_mode_inode_mknod ::
    "'w os_file_api \<Rightarrow> co_filesystem \<Rightarrow> iptr option \<Rightarrow> u32 \<Rightarrow> string \<Rightarrow> 'w \<Rightarrow> (co_rc \<times> co_filesystem \<times> 'w) option" where
  "flat_mode_inode_mknod api fs inode mode name w = do {
     (rc, filename, fs) \<leftarrow> co_os_fs_dir_inode_to_path fs inode (Some name);
     if \<not> rc_ok rc then Some (rc, fs, w)
     else let (rc, w) = os_file_mknod api filename mode w in Some (rc, fs, w) }"

definition flat_mode_inode_set_attr ::
    "'w os_file_api \<Rightarrow> co_filesystem \<Rightarrow> iptr option \<Rightarrow> u32 \<Rightarrow> fuse_attr \<Rightarrow> 'w \<Rightarrow> (co_rc \<times> co_filesystem \<times> 'w) option" where
  "flat_mode_inode_set_attr api fs inode valid attr w = do {
     (rc, filename, cap, fs) \<leftarrow> co_os_fs_inode_to_path fs inode 0;
     if \<not> rc_ok rc then Some (rc, fs, w)
     else
       let valid = (if fs_flags fs AND COFS_MOUNT_NOATTRIB \<noteq> 0 then valid AND NOT FATTR_MODE else valid);
           (rc, w) = os_file_set_attr api filename valid attr w
       in Some (rc, fs, w) }"

text \<open>\<open>flat_mode_inode_mkdir\<close>, \<open>flat_mode_inode_unlink\<close> and \<open>flat_mode_inode_rmdir\<close> differ in the host
  operation they call.\<close>

definition flat_mode_on_path ::
    "(string \<Rightarrow> 'w \<Rightarrow> co_rc \<times> 'w) \<Rightarrow> co_filesystem \<Rightarrow> iptr option \<Rightarrow> string \<Rightarrow> 'w \<Rightarrow> (co_rc \<times> co_filesystem \<times> 'w) option" where
  "flat_mode_on_path os_op fs inode name w = do {
     (rc, path, fs) \<leftarrow> co_os_fs_dir_inode_to_path fs inode (Some name);
     if \<not> rc_ok rc then Some (rc, fs, w)
     else let (rc, w) = os_op path w in Some (rc, fs, w) }"

definition flat_mode_inode_mkdir ::
    "'w os_file_api \<Rightarrow> co_filesystem \<Rightarrow> iptr option \<Rightarrow> string \<Rightarrow> 'w \<Rightarrow> (co_rc \<times> co_filesystem \<times> 'w) option" where
  "flat_mode_inode_mkdir api = flat_mode_on_path (os_file_mkdir api)"

definition flat_mode_inode_unlink ::
    "'w os_file_api \<Rightarrow> co_filesystem \<Rightarrow> iptr option \<Rightarrow> string \<Rightarrow> 'w \<Rightarrow> (co_rc \<times> co_filesystem \<times> 'w) option" where
  "flat_mode_inode_unlink api = flat_mode_on_path (os_file_unlink api)"

definition flat_mode_inode_rmdir ::
    "'w os_file_api \<Rightarrow> co_filesystem \<Rightarrow> iptr option \<Rightarrow> string \<Rightarrow> 'w \<Rightarrow> (co_rc \<times> co_filesystem \<times> 'w) option" where
  "flat_mode_inode_rmdir api = flat_mode_on_path (os_file_rmdir api)"

definition flat_mode_fs_stat ::
    "'w os_file_api \<Rightarrow> co_filesystem \<Rightarrow> 'w \<Rightarrow> co_rc \<times> u32 list \<times> 'w" where
  "flat_mode_fs_stat api fs w = os_file_fs_stat api (base_path fs) w"

section \<open>Requests on inodes\<close>

definition inode_dir_open ::
    "'w os_file_api \<Rightarrow> co_filesystem \<Rightarrow> iptr option \<Rightarrow> 'w \<Rightarrow> (co_rc \<times> co_filesystem \<times> 'w) option" where
  "inode_dir_open api fs inode w =
     (case inode of
        None \<Rightarrow> Some (RC_ERROR, fs, w)
      | Some p \<Rightarrow> do {
          i \<leftarrow> inodes fs p;
          (case i_names i of
             Some names \<Rightarrow> do {
               fs \<leftarrow> update_inode p (\<lambda>i. i\<lparr>i_names := Some (names\<lparr>dn_refcount := dn_refcount names + 1\<rparr>)\<rparr>) fs;
               Some (RC_OK, fs, w) }
           | None \<Rightarrow>
               let (a, fs) = fs_malloc fs in
               if a = None then Some (RC_OUT_OF_MEMORY, fs, w)
               else do {
                 (rc, names, fs, w) \<leftarrow> flat_mode_getdir api fs inode w;
                 if \<not> rc_ok rc then Some (rc, fs, w)
                 else do {
                   fs \<leftarrow> update_inode p (\<lambda>i. i\<lparr>i_names := Some \<lparr>dn_list = names, dn_refcount = 1\<rparr>\<rparr>) fs;
                   Some (rc, fs, w) } }) })"

definition inode_open :: "co_rc" where
  "inode_open = RC_OK"

definition inode_read ::
    "'w os_file_api \<Rightarrow> vm \<Rightarrow> co_filesystem \<Rightarrow> iptr option \<Rightarrow> u64 \<Rightarrow> u32 \<Rightarrow> u32 \<Rightarrow> 'w \<Rightarrow>
     (co_rc \<times> vm \<times> co_filesystem \<times> 'w) option" where
  "inode_read api m fs inode offset bytes dest_buffer w =
     flat_mode_inode_read_write api m fs inode offset bytes dest_buffer True w"

definition inode_write ::
    "'w os_file_api \<Rightarrow> vm \<Rightarrow> co_filesystem \<Rightarrow> iptr option \<Rightarrow> u64 \<Rightarrow> u32 \<Rightarrow> u32 \<Rightarrow> 'w \<Rightarrow>
     (co_rc \<times> vm \<times> co_filesystem \<times> 'w) option" where
  "inode_write api m fs inode offset bytes src_buffer w =
     flat_mode_inode_read_write api m fs inode offset bytes src_buffer False w"

definition find_or_alloc ::
    "co_filesystem \<Rightarrow> iptr option \<Rightarrow> string \<Rightarrow> (int \<times> co_filesystem) option" where
  "find_or_alloc fs dir name = do {
     found \<leftarrow> find_inode fs dir name;
     (inode, fs) \<leftarrow> (case found of Some p \<Rightarrow> Some (Some p, fs) | None \<Rightarrow> alloc_inode fs dir (Some name));
     p \<leftarrow> inode;
     i \<leftarrow> inodes fs p;
     Some (i_number i, fs) }"

definition inode_mknod ::
    "'w os_file_api \<Rightarrow> co_filesystem \<Rightarrow> iptr option \<Rightarrow> u32 \<Rightarrow> string \<Rightarrow> 'w \<Rightarrow>
     (co_rc \<times> (fuse_attr \<times> int option) \<times> co_filesystem \<times> 'w) option" where
  "inode_mknod api fs dir mode name w = do {
     let now = os_get_time api w;
     let attr = \<lparr>fa_size = 0, fa_mode = mode AND file_mode fs, fa_nlink = 1, fa_uid = fs_uid fs, fa_gid = fs_gid fs,
                 fa_rdev = 0, fa_dummy = 0, fa_blocks = 0, fa_atime = now, fa_mtime = now, fa_ctime = now\<rparr>;
     (rc, fs, w) \<leftarrow> flat_mode_inode_mknod api fs dir mode name w;
     if \<not> rc_ok rc then Some (rc, (attr, None), fs, w)
     else do {
       (ino, fs) \<leftarrow> find_or_alloc fs dir name;
       Some (rc, (attr, Some ino), fs, w) } }"

definition inode_mkdir ::
    "'w os_file_api \<Rightarrow> co_filesystem \<Rightarrow> iptr option \<Rightarrow> string \<Rightarrow> 'w \<Rightarrow> (co_rc \<times> co_filesystem \<times> 'w) option" where
  "inode_mkdir api fs inode name w = flat_mode_inode_mkdir api fs inode name w"

definition inode_unlink ::
    "'w os_file_api \<Rightarrow> co_filesystem \<Rightarrow> iptr option \<Rightarrow> string \<Rightarrow> 'w \<Rightarrow> (co_rc \<times> co_filesystem \<times> 'w) option" where
  "inode_unlink api fs inode name w = flat_mode_inode_unlink api fs inode name w"

definition inode_rmdir ::
    "'w os_file_api \<Rightarrow> co_filesystem \<Rightarrow> iptr option \<Rightarrow> string \<Rightarrow> 'w \<Rightarrow> (co_rc \<times> co_filesystem \<times> 'w) option" where
  "inode_rmdir api fs inode name w = flat_mode_inode_rmdir api fs inode name w"

definition inode_set_attr ::
    "'w os_file_api \<Rightarrow> co_filesystem \<Rightarrow> iptr option \<Rightarrow> u32 \<Rightarrow> fuse_attr \<Rightarrow> 'w \<Rightarrow> (co_rc \<times> co_filesystem \<times> 'w) option" where
  "inode_set_attr api fs inode valid attr w = flat_mode_inode_set_attr api fs inode valid attr w"

definition inode_rename ::
    "'w os_file_api \<Rightarrow> co_filesystem \<Rightarrow> iptr option \<Rightarrow> int \<Rightarrow> string \<Rightarrow> string \<Rightarrow> 'w \<Rightarrow>
     (co_rc \<times> co_filesystem \<times> 'w) option" where
  "inode_rename api fs dir new_dir_num oldname newname w = do {
     new_dir_inode \<leftarrow> ino_num_to_inode new_dir_num fs;
     (case new_dir_inode of
        None \<Rightarrow> Some (RC_ERROR, fs, w)
      | Some d \<Rightarrow> do {
          (rc, fs, w) \<leftarrow> flat_mode_inode_rename api fs dir (Some d) oldname newname w;
          if \<not> rc_ok rc then Some (rc, fs, w)
          else do {
            old_inode \<leftarrow> find_inode fs dir oldname;
            (case old_inode of
               None \<Rightarrow> Some (rc, fs, w)
             | Some p \<Rightarrow> do {
                 fs \<leftarrow> reparent_inode p d fs;
                 let (a, fs) = fs_malloc fs;
                 if a = None
                 then do { fs \<leftarrow> update_inode p (\<lambda>i. i\<lparr>i_name := None\<rparr>) fs; Some (RC_OUT_OF_MEMORY, fs, w) }
                 else do { fs \<leftarrow> update_inode p (\<lambda>i. i\<lparr>i_name := Some newname\<rparr>) fs; Some (rc, fs, w) } }) } }) }"

definition inode_get_attr ::
    "'w os_file_api \<Rightarrow> co_filesystem \<Rightarrow> iptr option \<Rightarrow> 'w \<Rightarrow>
     (co_rc \<times> fuse_attr option \<times> co_filesystem \<times> 'w) option" where
  "inode_get_attr api fs inode w = do {
     p \<leftarrow> inode;
     i \<leftarrow> inodes fs p;
     flat_mode_getattr api fs (i_parent i) (case i_name i of None \<Rightarrow> [] | Some n \<Rightarrow> n) w }"

definition inode_lookup ::
    "'w os_file_api \<Rightarrow> co_filesystem \<Rightarrow> iptr option \<Rightarrow> string \<Rightarrow> 'w \<Rightarrow>
     (co_rc \<times> (fuse_attr option \<times> int option) \<times> co_filesystem \<times> 'w) option" where
  "inode_lookup api fs dir name w = do {
     (rc, attr, fs, w) \<leftarrow> flat_mode_getattr api fs dir name w;
     if \<not> rc_ok rc then Some (rc, (attr, None), fs, w)
     else do {
       (ino, fs) \<leftarrow> find_or_alloc fs dir name;
       Some (rc, (attr, Some ino), fs, w) } }"

section \<open>Reading directories\<close>

text \<open>The local \<open>struct fuse_dirent\<close> is its 264 bytes, what it holds at first is an argument: the number of the
  inode, the length and the type, and the name at offset 7. The name is cut to 256 bytes, the size of
  the record is not, and reading the record beyond the structure is \<open>None\<close>.\<close>

abbreviation FUSE_NAME_OFFSET :: nat where "FUSE_NAME_OFFSET \<equiv> 7"
abbreviation DIRENT_NAME_SIZE :: nat where "DIRENT_NAME_SIZE \<equiv> 256"

definition FUSE_DIRENT_ALIGN :: "nat \<Rightarrow> nat" where
  "FUSE_DIRENT_ALIGN x = (x + 3) div 4 * 4"

definition dirent_size :: "string \<Rightarrow> nat" where
  "dirent_size name = FUSE_DIRENT_ALIGN (FUSE_NAME_OFFSET + length name)"

definition le_bytes :: "nat \<Rightarrow> u32 \<Rightarrow> u8 list" where
  "le_bytes n w = map (\<lambda>k. ucast (drop_bit (8 * k) w)) [0..<n]"

definition overwrite :: "nat \<Rightarrow> 'a list \<Rightarrow> 'a list \<Rightarrow> 'a list" where
  "overwrite off bs c = take off c @ bs @ drop (off + length bs) c"

definition dirent_ino :: "co_filesystem \<Rightarrow> co_inode \<Rightarrow> string \<Rightarrow> u32 option" where
  "dirent_ino fs i name =
     (if name = ''..'' then
        (case i_parent i of
           None \<Rightarrow> Some (word_of_int (i_number i))
         | Some q \<Rightarrow> do { j \<leftarrow> inodes fs q; Some (word_of_int (i_number j)) })
      else if name = ''.'' then Some (word_of_int (i_number i))
      else Some (- 1))"

definition fill_dirent :: "u8 list \<Rightarrow> u32 \<Rightarrow> u8 \<Rightarrow> string \<Rightarrow> u8 list" where
  "fill_dirent d ino ty name =
     (let name = take DIRENT_NAME_SIZE name;
          d = overwrite 0 (le_bytes 4 ino) d;
          d = overwrite 4 (le_bytes 2 (word_of_nat (length name))) d;
          d = overwrite 6 [ty] d
      in overwrite FUSE_NAME_OFFSET (map of_char name) d)"

fun dir_read_loop ::
    "co_filesystem \<Rightarrow> co_inode \<Rightarrow> nat \<Rightarrow> nat \<Rightarrow> (u8 \<times> string) list \<Rightarrow> u8 list \<Rightarrow> nat \<Rightarrow> nat \<Rightarrow> u32 \<Rightarrow> vm \<Rightarrow>
     (co_rc \<times> nat \<times> vm) option" where
  "dir_read_loop fs i bytes file_pos [] dirent seek fill buff m = Some (RC_OK, fill, m)"
| "dir_read_loop fs i bytes file_pos ((ty, name) # names) dirent seek fill buff m =
     (let dsize = dirent_size name in
      if seek < file_pos then dir_read_loop fs i bytes file_pos names dirent (seek + dsize) fill buff m
      else if dsize + fill > bytes then Some (RC_OK, fill, m)
      else do {
        ino \<leftarrow> dirent_ino fs i name;
        let dirent = fill_dirent dirent ino ty name;
        if dsize > length dirent then None
        else do {
          (rc, m) \<leftarrow> co_monitor_host_to_linuxvm m (take dsize dirent) buff (word_of_nat dsize);
          if \<not> rc_ok rc then Some (rc, fill, m)
          else dir_read_loop fs i bytes file_pos names dirent (seek + dsize) (fill + dsize) (buff + word_of_nat dsize) m } })"

definition inode_dir_read ::
    "co_filesystem \<Rightarrow> iptr option \<Rightarrow> u8 list \<Rightarrow> u32 \<Rightarrow> nat \<Rightarrow> nat \<Rightarrow> vm \<Rightarrow> (co_rc \<times> nat option \<times> vm) option" where
  "inode_dir_read fs inode dirent buff bytes file_pos m =
     (case inode of
        None \<Rightarrow> Some (RC_ERROR, None, m)
      | Some p \<Rightarrow> do {
          i \<leftarrow> inodes fs p;
          (case i_names i of
             None \<Rightarrow> Some (RC_ERROR, None, m)
           | Some names \<Rightarrow> do {
               (rc, fill, m) \<leftarrow> dir_read_loop fs i bytes file_pos (dn_list names) dirent 0 0 buff m;
               Some (rc, Some fill, m) }) })"

definition inode_dir_release :: "co_filesystem \<Rightarrow> iptr option \<Rightarrow> (co_rc \<times> co_filesystem) option" where
  "inode_dir_release fs inode =
     (case inode of
        None \<Rightarrow> Some (RC_ERROR, fs)
      | Some p \<Rightarrow> do {
          i \<leftarrow> inodes fs p;
          (case i_names i of
             None \<Rightarrow> Some (RC_ERROR, fs)
           | Some names \<Rightarrow>
               let names = names\<lparr>dn_refcount := dn_refcount names - 1\<rparr> in
               do {
                 fs \<leftarrow> update_inode p (\<lambda>i. i\<lparr>i_names := (if dn_refcount names > 0 then Some names else None)\<rparr>) fs;
                 Some (RC_OK, fs) }) })"

section \<open>File systems of the monitor\<close>

definition co_monitor_file_system_init :: "iptr option list \<Rightarrow> string \<Rightarrow> (co_rc \<times> co_filesystem option) option" where
  "co_monitor_file_system_init as pathname =
     (case as of
        Some a # as \<Rightarrow>
          let fs = \<lparr>inodes = Map.empty, list_inodes = [], inode_hashes = (\<lambda>_. []), next_inode_num = 1, fs_root = None,
              inodes_count = 0, fs_desc_path = pathname, base_path = pathname, fs_uid = 0, fs_gid = 0, dir_mode = 0,
              file_mode = 0, fs_flags = 0, mallocs = as\<rparr> in
          (case alloc_inode fs None None of
             None \<Rightarrow> None
           | Some (None, fs) \<Rightarrow> Some (RC_OUT_OF_MEMORY, None)
           | Some (Some p, fs) \<Rightarrow> Some (RC_OK, Some (fs\<lparr>fs_root := Some p\<rparr>)))
      | _ \<Rightarrow> Some (RC_OUT_OF_MEMORY, None))"

text \<open>Freeing takes the inodes from the head of the list until it is empty.\<close>

fun free_all_inodes :: "iptr list \<Rightarrow> co_filesystem \<Rightarrow> co_filesystem option" where
  "free_all_inodes [] fs = Some fs"
| "free_all_inodes (p # ps) fs = do { fs \<leftarrow> free_inode p fs; free_all_inodes ps fs }"

type_synonym filesystems = "u32 \<Rightarrow> co_filesystem option"

definition co_monitor_file_system_free :: "filesystems \<Rightarrow> u32 \<Rightarrow> filesystems option" where
  "co_monitor_file_system_free fss unt =
     (case fss unt of
        None \<Rightarrow> Some fss
      | Some fs \<Rightarrow> do { fs \<leftarrow> free_all_inodes (list_inodes fs) fs; Some (fss(unt := None)) })"

fun free_filesystems :: "u32 list \<Rightarrow> filesystems \<Rightarrow> filesystems option" where
  "free_filesystems [] fss = Some fss"
| "free_filesystems (u # us) fss = do { fss \<leftarrow> co_monitor_file_system_free fss u; free_filesystems us fss }"

definition co_monitor_unregister_filesystems :: "filesystems \<Rightarrow> filesystems option" where
  "co_monitor_unregister_filesystems = free_filesystems (map word_of_nat [0..<32])"

definition translate_code :: "co_rc \<Rightarrow> int" where
  "translate_code rc =
     (case rc of
        RC_NOT_FOUND \<Rightarrow> - 2
      | RC_ACCESS_DENIED \<Rightarrow> - 1
      | RC_INVALID_PARAMETER \<Rightarrow> - 22
      | RC_OK \<Rightarrow> 0
      | _ \<Rightarrow> - 5)"

definition fs_mount ::
    "co_filesystem \<Rightarrow> string \<Rightarrow> u32 \<Rightarrow> u32 \<Rightarrow> u32 \<Rightarrow> u32 \<Rightarrow> u32 \<Rightarrow> (co_rc \<times> co_filesystem) option" where
  "fs_mount fs pathname uid gid dmode fmode mflags = do {
     let fs = fs\<lparr>fs_uid := uid, fs_gid := gid, dir_mode := dmode, file_mode := fmode, fs_flags := mflags\<rparr>;
     path \<leftarrow> co_os_fs_dir_join_unix_path (fs_desc_path fs) pathname;
     Some (RC_OK, fs\<lparr>base_path := path\<rparr>) }"

definition fs_stat :: "'w os_file_api \<Rightarrow> co_filesystem \<Rightarrow> 'w \<Rightarrow> co_rc \<times> u32 list \<times> 'w" where
  "fs_stat api fs w = flat_mode_fs_stat api fs w"

text \<open>A request: what the passage page holds for its opcode. The answer is the result and what the handler
  writes into the page.\<close>

datatype fuse_request =
    FUSE_MOUNT string u32 u32 u32 u32 u32
  | FUSE_STATFS
  | FUSE_SETATTR u32 fuse_attr
  | FUSE_RENAME int string string
  | FUSE_FORGET
  | FUSE_MKNOD u32 u32 string
  | FUSE_MKDIR u32 string
  | FUSE_UNLINK string
  | FUSE_RMDIR string
  | FUSE_WRITE u64 u32 u32
  | FUSE_READ u64 u32 u32
  | FUSE_OPEN u32
  | FUSE_LOOKUP string
  | FUSE_GETATTR
  | FUSE_DIR_OPEN
  | FUSE_DIR_READ u32 nat nat
  | FUSE_DIR_RELEASE
  | FUSE_OTHER

datatype fuse_reply = NoReply | Attr "fuse_attr option" | AttrIno "fuse_attr option" "int option" | Stat "u32 list" | Filled "nat option"

record 'w cofs_state =
  st_fs :: co_filesystem
  st_vm :: vm
  st_world :: 'w

text \<open>\<open>dirent\<close> is what the stack holds where \<open>inode_dir_read\<close> keeps its record.\<close>

definition handle_inode_request ::
    "'w os_file_api \<Rightarrow> u8 list \<Rightarrow> iptr option \<Rightarrow> fuse_request \<Rightarrow> 'w cofs_state \<Rightarrow> (int \<times> fuse_reply \<times> 'w cofs_state) option" where
  "handle_inode_request api dirent inode r s =
     (let fs = st_fs s; m = st_vm s; w = st_world s;
          done = (\<lambda>x. do { (rc, fs, w) \<leftarrow> x; Some (translate_code rc, NoReply, s\<lparr>st_fs := fs, st_world := w\<rparr>) });
          moved = (\<lambda>x. do { (rc, m, fs, w) \<leftarrow> x;
                     Some (translate_code rc, NoReply, s\<lparr>st_fs := fs, st_vm := m, st_world := w\<rparr>) })
      in case r of
        FUSE_SETATTR valid attr \<Rightarrow> done (inode_set_attr api fs inode valid attr w)
      | FUSE_RENAME new_dir oldname newname \<Rightarrow> done (inode_rename api fs inode new_dir oldname newname w)
      | FUSE_FORGET \<Rightarrow> do { (rc, fs) \<leftarrow> inode_forget fs inode; Some (0, NoReply, s\<lparr>st_fs := fs\<rparr>) }
      | FUSE_MKNOD mode rdev name \<Rightarrow> do {
          (rc, (attr, ino), fs, w) \<leftarrow> inode_mknod api fs inode mode name w;
          Some (translate_code rc, AttrIno (Some attr) ino, s\<lparr>st_fs := fs, st_world := w\<rparr>) }
      | FUSE_MKDIR mode name \<Rightarrow> done (inode_mkdir api fs inode name w)
      | FUSE_UNLINK name \<Rightarrow> done (inode_unlink api fs inode name w)
      | FUSE_RMDIR name \<Rightarrow> done (inode_rmdir api fs inode name w)
      | FUSE_WRITE offset bytes buf \<Rightarrow> moved (inode_write api m fs inode offset bytes buf w)
      | FUSE_READ offset bytes buf \<Rightarrow> moved (inode_read api m fs inode offset bytes buf w)
      | FUSE_OPEN fl \<Rightarrow> Some (translate_code inode_open, NoReply, s)
      | FUSE_LOOKUP name \<Rightarrow> do {
          (rc, (attr, ino), fs, w) \<leftarrow> inode_lookup api fs inode name w;
          Some (translate_code rc, AttrIno attr ino, s\<lparr>st_fs := fs, st_world := w\<rparr>) }
      | FUSE_GETATTR \<Rightarrow> do {
          (rc, attr, fs, w) \<leftarrow> inode_get_attr api fs inode w;
          Some (translate_code rc, Attr attr, s\<lparr>st_fs := fs, st_world := w\<rparr>) }
      | FUSE_DIR_OPEN \<Rightarrow> done (inode_dir_open api fs inode w)
      | FUSE_DIR_READ buff bytes file_pos \<Rightarrow> do {
          (rc, fill, m) \<leftarrow> inode_dir_read fs inode dirent buff bytes file_pos m;
          Some (translate_code rc, Filled fill, s\<lparr>st_vm := m\<rparr>) }
      | FUSE_DIR_RELEASE \<Rightarrow> do {
          (rc, fs) \<leftarrow> inode_dir_release fs inode;
          Some (translate_code rc, NoReply, s\<lparr>st_fs := fs\<rparr>) }
      | _ \<Rightarrow> Some (0, NoReply, s))"

definition co_monitor_file_system ::
    "'w os_file_api \<Rightarrow> u8 list \<Rightarrow> int \<Rightarrow> fuse_request \<Rightarrow> 'w cofs_state option \<Rightarrow> (int \<times> fuse_reply \<times> 'w cofs_state option) option" where
  "co_monitor_file_system api dirent ino r st =
     (case st of
        None \<Rightarrow> Some (- 19, NoReply, None)
      | Some s \<Rightarrow>
          (case r of
             FUSE_MOUNT path uid gid dmode fmode mflags \<Rightarrow> do {
               (rc, fs) \<leftarrow> fs_mount (st_fs s) path uid gid dmode fmode mflags;
               Some (translate_code rc, NoReply, Some (s\<lparr>st_fs := fs\<rparr>)) }
           | FUSE_STATFS \<Rightarrow>
               let (rc, st, w) = fs_stat api (st_fs s) (st_world s) in
               Some (translate_code rc, Stat st, Some (s\<lparr>st_world := w\<rparr>))
           | _ \<Rightarrow> do {
               inode \<leftarrow> ino_num_to_inode ino (st_fs s);
               (result, reply, s) \<leftarrow> handle_inode_request api dirent inode r s;
               Some (result, reply, Some s) }))"

end
