(* ===== verification/CoFsInvariant.thy ===== *)
theory CoFsInvariant
  imports CoFilesystem
begin

text \<open>
  The invariant of the inode table of \<open>src/colinux/kernel/filesystem.c\<close>: the flat list, the hash table and
  the tree of directories agree, numbers identify inodes and are below the next one, the root stays. Every
  request but FORGET keeps it, whatever the host answers and whatever memory runs out; paths stay in
  their buffers.
\<close>

section \<open>The invariant\<close>

definition fs_tables :: "co_filesystem \<Rightarrow> bool" where
  "fs_tables fs \<longleftrightarrow>
     distinct (list_inodes fs) \<and> set (list_inodes fs) = dom (inodes fs) \<and>
     inodes_count fs = int (length (list_inodes fs)) \<and>
     (\<forall>h. distinct (inode_hashes fs h) \<and>
        set (inode_hashes fs h) = {p. \<exists>i. inodes fs p = Some i \<and> i_number i mod CO_FS_HASH_TABLE_SIZE = h})"

definition fs_numbers :: "co_filesystem \<Rightarrow> bool" where
  "fs_numbers fs \<longleftrightarrow>
     (\<forall>p i. inodes fs p = Some i \<longrightarrow> 1 \<le> i_number i \<and> i_number i < next_inode_num fs) \<and>
     (\<forall>p q i j. inodes fs p = Some i \<longrightarrow> inodes fs q = Some j \<longrightarrow> i_number i = i_number j \<longrightarrow> p = q) \<and>
     (\<exists>r i. fs_root fs = Some r \<and> inodes fs r = Some i \<and> i_number i = 1 \<and> i_parent i = None)"

definition fs_dirs :: "co_filesystem \<Rightarrow> bool" where
  "fs_dirs fs \<longleftrightarrow>
     (\<forall>p i q. inodes fs p = Some i \<longrightarrow> i_parent i = Some q \<longrightarrow> (\<exists>j. inodes fs q = Some j \<and> p \<in> set (i_sub j))) \<and>
     (\<forall>q j p. inodes fs q = Some j \<longrightarrow> p \<in> set (i_sub j) \<longrightarrow> (\<exists>i. inodes fs p = Some i \<and> i_parent i = Some q)) \<and>
     (\<forall>q j. inodes fs q = Some j \<longrightarrow> distinct (i_sub j))"

text \<open>What the allocator will answer: addresses that are not in use, each once.\<close>

definition answers :: "iptr option list \<Rightarrow> iptr list" where
  "answers as = concat (map (case_option [] (\<lambda>a. [a])) as)"

definition fs_fresh :: "co_filesystem \<Rightarrow> bool" where
  "fs_fresh fs \<longleftrightarrow> distinct (answers (mallocs fs)) \<and> set (answers (mallocs fs)) \<inter> dom (inodes fs) = {}"

definition fs_tree :: "co_filesystem \<Rightarrow> bool" where
  "fs_tree fs \<longleftrightarrow> fs_tables fs \<and> fs_numbers fs \<and> fs_dirs fs \<and> fs_fresh fs"

lemmas fs_tree_defs = fs_tree_def fs_tables_def fs_numbers_def fs_dirs_def fs_fresh_def

lemma fs_inode_number:
  "fs_tree fs \<Longrightarrow> inodes fs p = Some i \<Longrightarrow> 1 \<le> i_number i"
  "fs_tree fs \<Longrightarrow> inodes fs p = Some i \<Longrightarrow> i_number i < next_inode_num fs"
  by (simp_all add: fs_tree_def fs_numbers_def)

lemma fs_number_inj:
  "fs_tree fs \<Longrightarrow> inodes fs p = Some i \<Longrightarrow> inodes fs q = Some j \<Longrightarrow> i_number i = i_number j \<Longrightarrow> p = q"
  unfolding fs_tree_def fs_numbers_def by blast

lemma fs_root_inode:
  assumes "fs_tree fs"
  obtains r i where "fs_root fs = Some r" "inodes fs r = Some i" "i_number i = 1" "i_parent i = None"
  using assms unfolding fs_tree_def fs_numbers_def by blast

lemma fs_hash_set:
  "fs_tree fs \<Longrightarrow> set (inode_hashes fs h) = {p. \<exists>i. inodes fs p = Some i \<and> i_number i mod CO_FS_HASH_TABLE_SIZE = h}"
  by (simp add: fs_tree_def fs_tables_def)

lemma answers_simps [simp]:
  "answers [] = []"
  "answers (None # as) = answers as"
  "answers (Some a # as) = a # answers as"
  by (auto simp: answers_def)

text \<open>The allocator's step.\<close>

lemma fs_malloc_cases:
  obtains (full) "fs_malloc fs = (None, fs\<lparr>mallocs := tl (mallocs fs)\<rparr>)"
  | (got) a as where "mallocs fs = Some a # as" "fs_malloc fs = (Some a, fs\<lparr>mallocs := as\<rparr>)"
proof (cases "mallocs fs")
  case Nil
  then have "fs_malloc fs = (None, fs\<lparr>mallocs := tl (mallocs fs)\<rparr>)" by (simp add: fs_malloc_def)
  then show ?thesis by (rule full)
next
  case (Cons x xs)
  then show ?thesis using full got by (cases x) (auto simp: fs_malloc_def)
qed

lemma fs_malloc_tree [co_inv]:
  assumes "fs_tree fs" "fs_malloc fs = (a, fs')"
  shows "fs_tree fs'" "inodes fs' = inodes fs" "fs_root fs' = fs_root fs" "base_path fs' = base_path fs"
    "next_inode_num fs' = next_inode_num fs" "inode_hashes fs' = inode_hashes fs"
    "list_inodes fs' = list_inodes fs" "a = Some p \<Longrightarrow> p \<notin> dom (inodes fs)"
    "a = Some p \<Longrightarrow> p \<notin> set (answers (mallocs fs'))"
proof -
  have sub: "set (answers (tl as)) \<subseteq> set (answers as)" "distinct (answers as) \<Longrightarrow> distinct (answers (tl as))" for as
    by (cases as; cases "hd as"; auto)+
  have "fs_tree fs' \<and> inodes fs' = inodes fs \<and> fs_root fs' = fs_root fs \<and> base_path fs' = base_path fs \<and>
      next_inode_num fs' = next_inode_num fs \<and> inode_hashes fs' = inode_hashes fs \<and>
      list_inodes fs' = list_inodes fs \<and> (a = Some p \<longrightarrow> p \<notin> dom (inodes fs) \<and> p \<notin> set (answers (mallocs fs')))"
  proof (cases fs rule: fs_malloc_cases)
    case full
    then show ?thesis using assms sub [of "mallocs fs"] by (auto simp: fs_tree_defs)
  next
    case (got b as)
    then show ?thesis using assms by (auto simp: fs_tree_defs)
  qed
  then show "fs_tree fs'" "inodes fs' = inodes fs" "fs_root fs' = fs_root fs" "base_path fs' = base_path fs"
    "next_inode_num fs' = next_inode_num fs" "inode_hashes fs' = inode_hashes fs"
    "list_inodes fs' = list_inodes fs" "a = Some p \<Longrightarrow> p \<notin> dom (inodes fs)"
    "a = Some p \<Longrightarrow> p \<notin> set (answers (mallocs fs'))"
    by auto
qed

section \<open>Numbers\<close>

text \<open>A number from 1 on finds its inode, if there is one.\<close>

definition is_number :: "co_filesystem \<Rightarrow> int \<Rightarrow> iptr \<Rightarrow> bool" where
  "is_number fs n p \<longleftrightarrow> (\<exists>i. inodes fs p = Some i \<and> i_number i = n)"

lemma is_number_unique: "fs_tree fs \<Longrightarrow> is_number fs n p \<Longrightarrow> is_number fs n q \<Longrightarrow> p = q"
  unfolding is_number_def by (metis fs_number_inj)

lemma find_number_is_number:
  assumes "find_number fs ps n = Some (Some p)"
  shows "is_number fs n p"
  using assms by (induction ps) (auto simp: is_number_def bind_Some_iff split: if_splits)

lemma find_number_none:
  assumes "find_number fs ps n = Some None" "p \<in> set ps"
  shows "\<not> is_number fs n p"
  using assms by (induction ps) (auto simp: is_number_def bind_Some_iff split: if_splits)

lemma find_number_some:
  assumes "\<forall>p \<in> set ps. inodes fs p \<noteq> None"
  shows "find_number fs ps n \<noteq> None"
  using assms by (induction ps) auto

lemma ino_num_to_inode_iff:
  assumes t: "fs_tree fs" and n: "0 \<le> n"
  shows "\<exists>r. ino_num_to_inode n fs = Some r \<and> (\<forall>p. r = Some p \<longleftrightarrow> is_number fs n p)"
proof (cases "n = 1")
  case True
  obtain r i where r: "fs_root fs = Some r" "inodes fs r = Some i" "i_number i = 1"
    by (rule fs_root_inode [OF t])
  then have "is_number fs 1 r" by (simp add: is_number_def)
  then have "r = q \<longleftrightarrow> is_number fs 1 q" for q using is_number_unique [OF t] by blast
  then show ?thesis using True r by (simp add: ino_num_to_inode_def)
next
  case False
  let ?ps = "inode_hashes fs (n mod CO_FS_HASH_TABLE_SIZE)"
  have ps: "set ?ps = {p. \<exists>i. inodes fs p = Some i \<and> i_number i mod CO_FS_HASH_TABLE_SIZE = n mod CO_FS_HASH_TABLE_SIZE}"
    by (rule fs_hash_set [OF t])
  have ino: "ino_num_to_inode n fs = find_number fs ?ps n"
    using False n by (simp add: ino_num_to_inode_def)
  have "\<forall>p \<in> set ?ps. inodes fs p \<noteq> None" using ps by auto
  then obtain r where f: "find_number fs ?ps n = Some r" using find_number_some by fastforce
  have sub: "is_number fs n p \<Longrightarrow> p \<in> set ?ps" for p unfolding ps by (auto simp: is_number_def)
  have iff: "r = Some p \<longleftrightarrow> is_number fs n p" for p
  proof (cases r)
    case None
    then show ?thesis using find_number_none f sub by blast
  next
    case (Some q)
    then have "is_number fs n q" using find_number_is_number f by blast
    then show ?thesis using Some is_number_unique [OF t] by blast
  qed
  show ?thesis by (rule exI [of _ r]) (simp add: ino f iff)
qed

lemma fs_next_number:
  assumes t: "fs_tree fs"
  shows "fs_tree (fs\<lparr>next_inode_num := next_inode_num fs + 1\<rparr>)"
proof -
  have "fs_tables fs" "fs_numbers fs" "fs_dirs fs" "fs_fresh fs" using t by (simp_all add: fs_tree_def)
  moreover have "fs_numbers (fs\<lparr>next_inode_num := next_inode_num fs + 1\<rparr>)"
    using \<open>fs_numbers fs\<close> unfolding fs_numbers_def by (simp, meson less_imp_le)
  ultimately show ?thesis by (simp add: fs_tree_def fs_tables_def fs_dirs_def fs_fresh_def)
qed

lemma pick_number_next:
  assumes t: "fs_tree fs"
  shows "pick_number (Suc k) fs =
    (if next_inode_num fs + 1 \<ge> 2 ^ 31 then None
     else Some (next_inode_num fs, fs\<lparr>next_inode_num := next_inode_num fs + 1\<rparr>))"
proof -
  let ?fs = "fs\<lparr>next_inode_num := next_inode_num fs + 1\<rparr>"
  obtain r i where r: "inodes fs r = Some i" "i_number i = 1" by (rule fs_root_inode [OF t])
  have pos: "1 < next_inode_num fs" using fs_inode_number(2) [OF t r(1)] r(2) by simp
  have t': "fs_tree ?fs" by (rule fs_next_number [OF t]) 
  obtain q where q: "ino_num_to_inode (next_inode_num fs) ?fs = Some q"
    and iff: "\<forall>p. q = Some p \<longleftrightarrow> is_number ?fs (next_inode_num fs) p"
    using ino_num_to_inode_iff [OF t', of "next_inode_num fs"] pos by auto
  have "q = None"
  proof (cases q)
    case (Some p)
    then have "is_number ?fs (next_inode_num fs) p" using iff by blast
    then obtain i where "inodes fs p = Some i" "i_number i = next_inode_num fs" by (auto simp: is_number_def)
    then show ?thesis using fs_inode_number(2) [OF t] by force
  qed
  then show ?thesis using q by (simp add: Let_def)
qed

section \<open>New inodes\<close>

definition new_inode :: "iptr \<Rightarrow> string \<Rightarrow> int \<Rightarrow> co_inode" where
  "new_inode d name n = \<lparr>i_parent = Some d, i_sub = [], i_name = Some name, i_names = None, i_number = n\<rparr>"

definition add_inode :: "iptr \<Rightarrow> iptr \<Rightarrow> string \<Rightarrow> co_filesystem \<Rightarrow> co_filesystem" where
  "add_inode p d name fs =
     (let n = next_inode_num fs; h = n mod CO_FS_HASH_TABLE_SIZE in
      fs\<lparr>inodes := (inodes fs)(d \<mapsto> (the (inodes fs d))\<lparr>i_sub := i_sub (the (inodes fs d)) @ [p]\<rparr>, p \<mapsto> new_inode d name n),
         next_inode_num := n + 1, list_inodes := list_inodes fs @ [p],
         inode_hashes := (inode_hashes fs)(h := inode_hashes fs h @ [p]), inodes_count := inodes_count fs + 1\<rparr>)"

lemma add_inode_tables:
  assumes "fs_tables fs" "inodes fs p = None" "inodes fs d = Some di"
  shows "fs_tables (add_inode p d name fs)"
proof -
  have pd: "p \<noteq> d" using assms by auto
  have notin: "p \<notin> set (list_inodes fs)" "p \<notin> set (inode_hashes fs h)" for h
    using assms by (auto simp: fs_tables_def)
  show ?thesis
    using assms(1) pd notin assms(2,3)
    unfolding fs_tables_def add_inode_def Let_def new_inode_def
    by (auto simp: dom_def split: if_splits)
qed

lemma add_inode_numbers:
  assumes "fs_numbers fs" "inodes fs p = None" "inodes fs d = Some di"
  shows "fs_numbers (add_inode p d name fs)"
proof -
  have pd: "p \<noteq> d" using assms by auto
  let ?fs = "add_inode p d name fs"
  have lookup: "inodes ?fs q = Some i \<Longrightarrow>
      (q = p \<and> i_number i = next_inode_num fs) \<or>
      (q \<noteq> p \<and> (\<exists>j. inodes fs q = Some j \<and> i_number i = i_number j \<and> i_parent i = i_parent j))" for q i
    using assms(2,3) pd by (auto simp: add_inode_def Let_def new_inode_def split: if_splits)
  have bound: "inodes fs q = Some j \<Longrightarrow> 1 \<le> i_number j \<and> i_number j < next_inode_num fs" for q j
    using assms(1) by (simp add: fs_numbers_def)
  have inj: "inodes fs q = Some i \<Longrightarrow> inodes fs q' = Some j \<Longrightarrow> i_number i = i_number j \<Longrightarrow> q = q'" for q q' i j
    using assms(1) unfolding fs_numbers_def by blast
  have n: "next_inode_num ?fs = next_inode_num fs + 1" by (simp add: add_inode_def Let_def)
  obtain r i where r: "fs_root fs = Some r" "inodes fs r = Some i" "i_number i = 1" "i_parent i = None"
    using assms(1) unfolding fs_numbers_def by blast
  show ?thesis unfolding fs_numbers_def
  proof (intro conjI allI impI)
    fix q i assume "inodes ?fs q = Some i"
    then show "1 \<le> i_number i" "i_number i < next_inode_num ?fs"
      using lookup [of q i] bound bound [OF r(2)] n by fastforce+
  next
    fix q q' i j assume q: "inodes ?fs q = Some i" and q': "inodes ?fs q' = Some j" and eq: "i_number i = i_number j"
    show "q = q'"
      using lookup [OF q] lookup [OF q']
    proof (elim disjE conjE exE)
      fix k assume "q = p" "i_number i = next_inode_num fs" "inodes fs q' = Some k" "i_number j = i_number k"
      then show "q = q'" using eq bound [of q' k] by simp
    next
      fix k assume "q' = p" "i_number j = next_inode_num fs" "inodes fs q = Some k" "i_number i = i_number k"
      then show "q = q'" using eq bound [of q k] by simp
    qed (use eq inj in simp_all)
  next
    have "r \<noteq> p" using r assms(2) by auto
    then show "\<exists>r i. fs_root ?fs = Some r \<and> inodes ?fs r = Some i \<and> i_number i = 1 \<and> i_parent i = None"
      using r assms(3) by (intro exI [of _ r]) (auto simp: add_inode_def Let_def)
  qed
qed

lemma add_inode_lookup:
  assumes "inodes fs p = None" "inodes fs d = Some di"
  shows "inodes (add_inode p d name fs) q =
    (if q = p then Some (new_inode d name (next_inode_num fs))
     else if q = d then Some (di\<lparr>i_sub := i_sub di @ [p]\<rparr>) else inodes fs q)"
  using assms by (auto simp: add_inode_def Let_def)

text \<open>The directories, as the relation between an inode and an entry of it.\<close>

lemma fs_dirsD:
  assumes "fs_dirs fs"
  shows "inodes fs p = Some i \<Longrightarrow> i_parent i = Some q \<Longrightarrow> \<exists>j. inodes fs q = Some j \<and> p \<in> set (i_sub j)"
    "inodes fs q = Some j \<Longrightarrow> p \<in> set (i_sub j) \<Longrightarrow> \<exists>i. inodes fs p = Some i \<and> i_parent i = Some q"
    "inodes fs q = Some j \<Longrightarrow> distinct (i_sub j)"
  using assms unfolding fs_dirs_def by blast+

lemma add_inode_dirs:
  assumes "fs_dirs fs" "inodes fs p = None" "inodes fs d = Some di"
  shows "fs_dirs (add_inode p d name fs)"
proof -
  note dirs = fs_dirsD [OF assms(1)]
  note at = add_inode_lookup [OF assms(2,3), of name]
  have pd: "p \<noteq> d" using assms by auto
  have nosub: "p \<notin> set (i_sub j)" if "inodes fs q = Some j" for q j
    using dirs(2) [OF that] assms(2) by fastforce
  show ?thesis
    unfolding fs_dirs_def
  proof (intro conjI allI impI)
    fix q i e assume q: "inodes (add_inode p d name fs) q = Some i" "i_parent i = Some e"
    show "\<exists>j. inodes (add_inode p d name fs) e = Some j \<and> q \<in> set (i_sub j)"
    proof (cases "q = p")
      case True
      then show ?thesis using q at pd by (auto simp: new_inode_def)
    next
      case False
      then obtain i' where "inodes fs q = Some i'" "i_parent i' = Some e"
        using q at assms(3) by (auto split: if_splits)
      from dirs(1) [OF this] obtain j where j: "inodes fs e = Some j" "q \<in> set (i_sub j)" by blast
      moreover have "e \<noteq> p" using j assms(2) by auto
      ultimately show ?thesis using at assms(3) by (cases "e = d") auto
    qed
  next
    fix e j q assume e: "inodes (add_inode p d name fs) e = Some j" "q \<in> set (i_sub j)"
    then have "e \<noteq> p" using at by (auto simp: new_inode_def)
    show "\<exists>i. inodes (add_inode p d name fs) q = Some i \<and> i_parent i = Some e"
    proof (cases "q = p")
      case True
      then have "e = d" using e nosub at \<open>e \<noteq> p\<close> by (auto split: if_splits)
      then show ?thesis using True at by (simp add: new_inode_def)
    next
      case False
      then obtain j' where "inodes fs e = Some j'" "q \<in> set (i_sub j')"
        using e at assms(3) \<open>e \<noteq> p\<close> by (auto split: if_splits)
      from dirs(2) [OF this] obtain i where "inodes fs q = Some i" "i_parent i = Some e" by blast
      then show ?thesis using at assms(3) False by (cases "q = d") auto
    qed
  next
    fix e j assume "inodes (add_inode p d name fs) e = Some j"
    then show "distinct (i_sub j)"
      using at assms(3) dirs(3) nosub by (auto simp: new_inode_def split: if_splits)
  qed
qed

lemma add_inode_tree:
  assumes "fs_tree fs" "inodes fs p = None" "inodes fs d = Some di" "p \<notin> set (answers (mallocs fs))"
  shows "fs_tree (add_inode p d name fs)"
proof -
  have "fs_fresh (add_inode p d name fs)"
    using assms by (auto simp: fs_tree_def fs_fresh_def add_inode_def Let_def)
  then show ?thesis
    using assms add_inode_tables add_inode_numbers add_inode_dirs by (simp add: fs_tree_def)
qed

text \<open>What \<open>alloc_inode\<close> does with a directory and a name: nothing but using memory up, or one more inode.\<close>

lemma alloc_inode_cases:
  assumes t: "fs_tree fs" and d: "inodes fs d = Some di"
    and a: "alloc_inode fs (Some d) (Some name) = Some (r, fs')"
  obtains (failed) "r = None" "fs_tree fs'" "inodes fs' = inodes fs" "fs_root fs' = fs_root fs"
  | (added) p fs1 where "r = Some p" "fs' = add_inode p d name fs1" "fs_tree fs1" "inodes fs1 = inodes fs"
      "next_inode_num fs1 = next_inode_num fs" "fs_root fs1 = fs_root fs" "inodes fs p = None"
      "p \<notin> set (answers (mallocs fs1))"
proof -
  obtain a1 fsa where m1: "fs_malloc fs = (a1, fsa)" by fastforce
  note k1 = fs_malloc_tree [OF t m1]
  show ?thesis
  proof (cases a1)
    case None
    then show ?thesis using a m1 k1 by (intro failed) (auto simp: alloc_inode_def)
  next
    case (Some p)
    let ?n = "next_inode_num fsa"
    let ?fsb = "fsa\<lparr>next_inode_num := ?n + 1\<rparr>"
    have small: "\<not> ?n + 1 \<ge> 2 ^ 31"
      using a m1 Some pick_number_next [OF k1(1), of "length (list_inodes fsa)"]
      by (auto simp: alloc_inode_def split: if_splits)
    have p: "inodes fs p = None" using k1(8) [OF Some] by auto
    have pm: "p \<notin> set (answers (mallocs fsa))" using k1(9) [OF Some] .
    have pd: "p \<noteq> d" using p d by auto
    have tb: "fs_tree ?fsb" using fs_next_number [OF k1(1)] by simp
    obtain a2 fsc where m2: "fs_malloc fsa = (a2, fsc)" by fastforce
    note k2 = fs_malloc_tree [OF k1(1) m2]
    have m2': "fs_malloc (fsa\<lparr>next_inode_num := n, inodes := f\<rparr>) = (a2, fsc\<lparr>next_inode_num := n, inodes := f\<rparr>)" for f n
      using m2 by (auto simp: fs_malloc_def split: list.splits)
    have pm2: "p \<notin> set (answers (mallocs fsc))"
      using pm m2 by (cases a2) (auto simp: fs_malloc_def split: list.splits)
    have pick: "pick_number (Suc (length (list_inodes fsa))) fsa = Some (?n, ?fsb)"
      using pick_number_next [OF k1(1)] small by simp
    show ?thesis
    proof (cases a2)
      case None
      have "p \<notin> set (i_sub di)" using t p fs_dirsD(2) [OF _ d, of p] by (auto simp: fs_tree_def)
      then have same: "(inodes fs)(d \<mapsto> di\<lparr>i_sub := remove1 p (i_sub di @ [p])\<rparr>) = inodes fs"
        using d by (simp add: remove1_append remove1_idem fun_upd_idem)
      have idem: "fsc\<lparr>next_inode_num := n, inodes := inodes fs\<rparr> = fsc\<lparr>next_inode_num := n\<rparr>" for n
        using k1(2) k2(2) by (intro co_filesystem.equality) simp_all
      have "r = None \<and> fs' = fsc\<lparr>next_inode_num := ?n + 1\<rparr>"
        using a m1 Some pick d p pd m2' None k1(2) k2(2)
        by (auto simp: alloc_inode_def link_inode_def update_inode_def unlink_inode_def fun_upd_idem fun_upd_twist same idem)
      then show ?thesis using k1 k2 fs_next_number [OF k2(1)] by (intro failed) simp_all
    next
      case (Some b)
      have "r = Some p \<and> fs' = add_inode p d name fsc"
        using a m1 \<open>a1 = Some p\<close> pick d p pd m2' Some k1(2) k2(2)
        by (auto simp del: pick_number.simps simp: k1(5-7) k2(5-7) alloc_inode_def link_inode_def update_inode_def add_inode_def new_inode_def Let_def fun_upd_twist)
      then show ?thesis using k1 k2 p pm2 by (intro added) simp_all
    qed
  qed
qed

lemma alloc_inode_tree:
  assumes "fs_tree fs" "inodes fs d = Some di" "alloc_inode fs (Some d) (Some name) = Some (r, fs')"
  shows "fs_tree fs'"
  using assms
proof (cases rule: alloc_inode_cases)
  case (added p fs1)
  then show ?thesis using add_inode_tree [of fs1 p d di name] assms(2) by simp
qed

text \<open>Changes of an inode that keep its number and its place.\<close>

lemma update_inode_tree:
  assumes t: "fs_tree fs" and u: "update_inode p f fs = Some fs'"
    and f: "\<And>i. i_number (f i) = i_number i" "\<And>i. i_parent (f i) = i_parent i" "\<And>i. i_sub (f i) = i_sub i"
  shows "fs_tree fs'"
proof -
  obtain i where i: "inodes fs p = Some i" and fs': "fs' = fs\<lparr>inodes := (inodes fs)(p \<mapsto> f i)\<rparr>"
    using u by (auto simp: update_inode_def bind_Some_iff)
  have at: "inodes fs' q = map_option (\<lambda>j. if q = p then f j else j) (inodes fs q)" for q
    using i fs' by (cases "inodes fs q") auto
  have old: "\<exists>k. inodes fs q = Some k \<and> i_number j = i_number k \<and> i_parent j = i_parent k \<and> i_sub j = i_sub k"
    if "inodes fs' q = Some j" for q j
    using that at f by (auto split: if_splits)
  have kept: "\<exists>k. inodes fs' q = Some k \<and> i_number j = i_number k \<and> i_parent j = i_parent k \<and> i_sub j = i_sub k"
    if "inodes fs q = Some j" for q j
    using that at f by (auto split: if_splits)
  have dom: "dom (inodes fs') = dom (inodes fs)" using i fs' by auto
  have "fs_tables fs'"
  proof -
    have "{q. \<exists>j. inodes fs' q = Some j \<and> i_number j mod CO_FS_HASH_TABLE_SIZE = h} =
        {q. \<exists>j. inodes fs q = Some j \<and> i_number j mod CO_FS_HASH_TABLE_SIZE = h}" for h
      using i fs' f(1) by auto
    then show ?thesis using t unfolding fs_tree_def fs_tables_def dom by (simp add: fs')
  qed
  moreover have "fs_numbers fs'"
  proof -
    obtain r k where rk: "fs_root fs = Some r" "inodes fs r = Some k" "i_number k = 1" "i_parent k = None"
      by (rule fs_root_inode [OF t])
    then have "\<exists>r k. fs_root fs' = Some r \<and> inodes fs' r = Some k \<and> i_number k = 1 \<and> i_parent k = None"
      using at f fs' by (intro exI [of _ r]) auto
    moreover have "1 \<le> i_number j \<and> i_number j < next_inode_num fs'" if "inodes fs' q = Some j" for q j
      using old [OF that] fs_inode_number [OF t] fs' by fastforce
    moreover have "q = q'" if "inodes fs' q = Some j" "inodes fs' q' = Some j'" "i_number j = i_number j'" for q q' j j'
      using old [OF that(1)] old [OF that(2)] that(3) fs_number_inj [OF t] by metis
    ultimately show ?thesis unfolding fs_numbers_def by blast
  qed
  moreover have "fs_dirs fs'"
  proof -
    have d: "fs_dirs fs" using t by (simp add: fs_tree_def)
    have "\<exists>k. inodes fs' e = Some k \<and> q \<in> set (i_sub k)" if "inodes fs' q = Some j" "i_parent j = Some e" for q j e
      using old [OF that(1)] that(2) fs_dirsD(1) [OF d] kept by metis
    moreover have "\<exists>k. inodes fs' q = Some k \<and> i_parent k = Some e" if "inodes fs' e = Some j" "q \<in> set (i_sub j)" for q j e
      using old [OF that(1)] that(2) fs_dirsD(2) [OF d] kept by metis
    moreover have "distinct (i_sub j)" if "inodes fs' e = Some j" for e j
      using old [OF that] fs_dirsD(3) [OF d] by metis
    ultimately show ?thesis unfolding fs_dirs_def by blast
  qed
  moreover have "fs_fresh fs'"
    using t dom by (simp add: fs_tree_def fs_fresh_def fs')
  ultimately show ?thesis by (simp add: fs_tree_def)
qed

section \<open>Moving an inode\<close>

definition moved_inode :: "iptr \<Rightarrow> iptr \<Rightarrow> iptr \<Rightarrow> iptr \<Rightarrow> co_inode \<Rightarrow> co_inode" where
  "moved_inode p q d x j =
     (let sub = (if x = q then remove1 p (i_sub j) else i_sub j) in
      j\<lparr>i_sub := (if x = d then p # sub else sub), i_parent := (if x = p then Some d else i_parent j)\<rparr>)"

lemma moved_inode_other:
  "x \<noteq> p \<Longrightarrow> x \<noteq> q \<Longrightarrow> x \<noteq> d \<Longrightarrow> map_option (moved_inode p q d x) y = y"
  by (cases y) (simp_all add: moved_inode_def Let_def)

lemma reparent_inode_moves:
  assumes "inodes fs p = Some i" "i_parent i = Some q" "inodes fs q = Some qi" "inodes fs d = Some di"
  shows "reparent_inode p d fs = Some (fs\<lparr>inodes := (\<lambda>x. map_option (moved_inode p q d x) (inodes fs x))\<rparr>)"
proof -
  have "((inodes fs)(q \<mapsto> qi\<lparr>i_sub := remove1 p (i_sub qi)\<rparr>)) d \<noteq> None" "p = q \<Longrightarrow> qi = i" "d = q \<Longrightarrow> qi = di" "p = d \<Longrightarrow> di = i"
    using assms by auto
  then show ?thesis
    using assms
    by (auto simp: moved_inode_other reparent_inode_def unlink_inode_def update_inode_def moved_inode_def Let_def
        intro!: co_filesystem.equality ext split: option.splits)
qed

lemma fs_tables_numbers_same:
  assumes t: "fs_tree fs" and fs': "fs' = fs\<lparr>inodes := f\<rparr>"
    and num: "\<And>x. map_option i_number (f x) = map_option i_number (inodes fs x)"
    and root: "\<And>x i j. f x = Some i \<Longrightarrow> inodes fs x = Some j \<Longrightarrow> i_parent j = None \<Longrightarrow> i_number j = 1 \<Longrightarrow> i_parent i = None"
  shows "fs_tables fs'" "fs_numbers fs'" "fs_fresh fs'"
proof -
  have dom: "dom f = dom (inodes fs)" using num by (auto simp: dom_def) (metis map_option_is_None option.exhaust)+
  have old: "\<exists>j. inodes fs x = Some j \<and> i_number j = i_number i" if "f x = Some i" for x i
    using num [of x] that by (cases "inodes fs x"; cases "f x") auto
  have kept: "\<exists>j. f x = Some j \<and> i_number j = i_number i" if "inodes fs x = Some i" for x i
    using num [of x] that by (cases "inodes fs x"; cases "f x") auto
  have "{q. \<exists>j. f q = Some j \<and> i_number j mod CO_FS_HASH_TABLE_SIZE = h} =
      {q. \<exists>j. inodes fs q = Some j \<and> i_number j mod CO_FS_HASH_TABLE_SIZE = h}" for h
    using old kept by (intro Collect_cong) metis
  then show "fs_tables fs'" using t dom unfolding fs_tree_def fs_tables_def by (simp add: fs')
  show "fs_fresh fs'" using t dom unfolding fs_tree_def fs_fresh_def by (simp add: fs')
  obtain r k where r: "fs_root fs = Some r" "inodes fs r = Some k" "i_number k = 1" "i_parent k = None"
    by (rule fs_root_inode [OF t])
  have "\<exists>r k. fs_root fs' = Some r \<and> inodes fs' r = Some k \<and> i_number k = 1 \<and> i_parent k = None"
    using r kept [OF r(2)] root fs' by (intro exI [of _ r]) auto
  moreover have "1 \<le> i_number j \<and> i_number j < next_inode_num fs'" if "inodes fs' q = Some j" for q j
    using old [of q j] that fs_inode_number [OF t] fs' by fastforce
  moreover have "q = q'" if "inodes fs' q = Some j" "inodes fs' q' = Some j'" "i_number j = i_number j'" for q q' j j'
    using old [of q j] old [of q' j'] that fs' fs_number_inj [OF t] by (metis co_filesystem.select_convs(1) co_filesystem.surjective co_filesystem.update_convs(1))
  ultimately show "fs_numbers fs'" unfolding fs_numbers_def by blast
qed

lemma reparent_inode_tree:
  assumes t: "fs_tree fs" and p: "inodes fs p = Some i" "i_parent i = Some q" and d: "inodes fs d = Some di"
    and re: "reparent_inode p d fs = Some fs'"
  shows "fs_tree fs'"
proof -
  have dirs: "fs_dirs fs" using t by (simp add: fs_tree_def)
  obtain qi where q: "inodes fs q = Some qi" "p \<in> set (i_sub qi)" using fs_dirsD(1) [OF dirs p] by blast
  let ?f = "\<lambda>x. map_option (moved_inode p q d x) (inodes fs x)"
  have fs': "fs' = fs\<lparr>inodes := ?f\<rparr>" using reparent_inode_moves [OF p q(1) d] re by simp
  have only: "x = q" if "inodes fs x = Some j" "p \<in> set (i_sub j)" for x j
    using fs_dirsD(2) [OF dirs that] p by simp
  have one: "distinct (i_sub j)" if "inodes fs x = Some j" for x j using fs_dirsD(3) [OF dirs that] .
  have gone: "p \<notin> set (if x = q then remove1 p (i_sub j) else i_sub j)" if "inodes fs x = Some j" for x j
    using only [OF that] one [OF that] by auto
  have "fs_dirs fs'"
    unfolding fs_dirs_def
  proof (intro conjI allI impI)
    fix x j e assume x: "inodes fs' x = Some j" "i_parent j = Some e"
    then obtain j' where j': "inodes fs x = Some j'" "j = moved_inode p q d x j'" using fs' by auto
    show "\<exists>k. inodes fs' e = Some k \<and> x \<in> set (i_sub k)"
    proof (cases "x = p")
      case True
      then show ?thesis using x j' d fs' by (auto simp: moved_inode_def Let_def)
    next
      case False
      then have "i_parent j' = Some e" using x j' by (simp add: moved_inode_def Let_def)
      from fs_dirsD(1) [OF dirs j'(1) this] obtain k where "inodes fs e = Some k" "x \<in> set (i_sub k)" by blast
      then show ?thesis using fs' False by (auto simp: moved_inode_def Let_def)
    qed
  next
    fix e k x assume e: "inodes fs' e = Some k" "x \<in> set (i_sub k)"
    then obtain k' where k': "inodes fs e = Some k'" "k = moved_inode p q d e k'" using fs' by auto
    show "\<exists>j. inodes fs' x = Some j \<and> i_parent j = Some e"
    proof (cases "x = p")
      case True
      then have "e = d" using e k' gone [OF k'(1)] by (auto simp: moved_inode_def Let_def split: if_splits)
      then show ?thesis using True p(1) fs' by (auto simp: moved_inode_def Let_def)
    next
      case False
      then have "x \<in> set (i_sub k')" using e k' by (auto simp: moved_inode_def Let_def split: if_splits dest: notin_set_remove1 set_remove1_subset [THEN subsetD])
      from fs_dirsD(2) [OF dirs k'(1) this] obtain j where "inodes fs x = Some j" "i_parent j = Some e" by blast
      then show ?thesis using False fs' by (auto simp: moved_inode_def Let_def)
    qed
  next
    fix e k assume "inodes fs' e = Some k"
    then obtain k' where k': "inodes fs e = Some k'" "k = moved_inode p q d e k'" using fs' by auto
    have "i_sub k = (if e = d then p # (if e = q then remove1 p (i_sub k') else i_sub k')
        else (if e = q then remove1 p (i_sub k') else i_sub k'))"
      using k'(2) by (simp add: moved_inode_def Let_def)
    then show "distinct (i_sub k)"
      using one [OF k'(1)] gone [OF k'(1)] by (cases "e = q"; cases "e = d") auto
  qed
  moreover have "map_option i_number (?f x) = map_option i_number (inodes fs x)" for x
    by (cases "inodes fs x") (auto simp: moved_inode_def Let_def)
  moreover have non_root: "i_number i \<noteq> 1"
  proof
    assume "i_number i = 1"
    moreover obtain r k where "inodes fs r = Some k" "i_number k = 1" "i_parent k = None" by (rule fs_root_inode [OF t])
    ultimately show False using fs_number_inj [OF t p(1), of r k] p by simp
  qed
  have "i_parent k = None" if "?f x = Some k" "inodes fs x = Some j" "i_parent j = None" "i_number j = 1" for x j k
  proof -
    have "x \<noteq> p" using that p non_root by auto
    then show ?thesis using that by (auto simp: moved_inode_def Let_def)
  qed
  ultimately show ?thesis
    using fs_tables_numbers_same [OF t fs'] unfolding fs_tree_def by blast
qed

section \<open>Requests\<close>

text \<open>The path functions and the flat mode only use memory.\<close>

definition uses_memory :: "co_filesystem \<Rightarrow> co_filesystem \<Rightarrow> bool" where
  "uses_memory fs fs' \<longleftrightarrow> (\<exists>ms. fs' = fs\<lparr>mallocs := ms\<rparr>) \<and> (fs_tree fs \<longrightarrow> fs_tree fs')"

lemma uses_memory_refl [simp]: "uses_memory fs fs"
  by (auto simp: uses_memory_def intro: exI [of _ "mallocs fs"])

lemma uses_memory_trans: "uses_memory fs fs' \<Longrightarrow> uses_memory fs' fs'' \<Longrightarrow> uses_memory fs fs''"
  by (auto simp: uses_memory_def)

lemma uses_memory_malloc: "fs_malloc fs = (a, fs') \<Longrightarrow> uses_memory fs fs'"
proof -
  assume m: "fs_malloc fs = (a, fs')"
  then have "fs' = fs\<lparr>mallocs := mallocs fs'\<rparr>" by (auto simp: fs_malloc_def split: list.splits)
  then show ?thesis using fs_malloc_tree(1) [OF _ m] unfolding uses_memory_def by blast
qed

text \<open>The path of an inode: the base path and the names from the root down, closed by a separator when a name
  is to follow. It fits its buffer.\<close>

definition host_path :: "co_filesystem \<Rightarrow> string list \<Rightarrow> bool \<Rightarrow> string" where
  "host_path fs names sep =
     (let path = base_path fs @ concat (map (\<lambda>n. CHR 0x5C # n) (rev names)) in
      if sep \<and> path \<noteq> [] \<and> last path \<noteq> CHR 0x5C then path @ [CHR 0x5C] else path)"

lemma length_host_path:
  "length (host_path fs names sep) \<le> length (base_path fs) + sum_list (map (\<lambda>n. length n + 1) names) + (if sep then 1 else 0)"
proof -
  have "length (concat (map (\<lambda>n. CHR 0x5C # n) (rev names))) = sum_list (map (\<lambda>n. length n + 1) names)"
    by (induction names) auto
  then show ?thesis by (simp add: host_path_def Let_def)
qed

lemma inode_to_path_exact:
  assumes "path_names 256 fs dir = Some names" "fs_malloc fs = (a, fs')"
  shows "co_os_fs_inode_to_path fs dir add =
    Some (if a = None then (RC_OUT_OF_MEMORY, [], 0, fs')
          else (RC_OK, host_path fs names (add > 0),
                length (base_path fs) + (add + sum_list (map (\<lambda>n. length n + 1) names)) + 2, fs'))"
proof -
  have base: "base_path fs' = base_path fs"
    using assms(2) by (auto simp: fs_malloc_def split: list.splits)
  have "length (host_path fs names (add > 0)) + 1 \<le>
      length (base_path fs) + (add + sum_list (map (\<lambda>n. length n + 1) names)) + 2"
    using length_host_path [of fs names "add > 0"] by (simp split: if_splits)
  then show ?thesis
    using assms by (simp add: co_os_fs_inode_to_path_def base host_path_def Let_def)
qed

lemma dir_inode_to_path_exact:
  assumes "path_names 256 fs dir = Some names" "fs_malloc fs = (a, fs')"
  shows "co_os_fs_dir_inode_to_path fs dir (Some name) =
    Some (if a = None then (RC_OUT_OF_MEMORY, [], fs') else (RC_OK, host_path fs names (name \<noteq> []) @ name, fs'))"
  using length_host_path [of fs names "name \<noteq> []"]
  by (cases "name = []") (simp_all add: co_os_fs_dir_inode_to_path_def inode_to_path_exact [OF assms] rc_ok_def)

lemma uses_memory_path:
  assumes "co_os_fs_inode_to_path fs dir n = Some (rc, path, room, fs')"
  shows "uses_memory fs fs'"
proof -
  obtain names where n: "path_names 256 fs dir = Some names"
    using assms by (auto simp: co_os_fs_inode_to_path_def bind_Some_iff)
  obtain a fsm where m: "fs_malloc fs = (a, fsm)" by fastforce
  then show ?thesis using assms uses_memory_malloc [OF m]
    by (simp add: inode_to_path_exact [OF n m] split: if_splits)
qed

lemma uses_memory_dir_path:
  assumes "co_os_fs_dir_inode_to_path fs dir (Some name) = Some (rc, path, fs')"
  shows "uses_memory fs fs'"
proof -
  obtain names where n: "path_names 256 fs dir = Some names"
    using assms by (cases "path_names 256 fs dir") (auto simp: co_os_fs_dir_inode_to_path_def co_os_fs_inode_to_path_def Let_def)
  obtain a fsm where m: "fs_malloc fs = (a, fsm)" by fastforce
  then show ?thesis using assms uses_memory_malloc [OF m]
    by (simp add: dir_inode_to_path_exact [OF n m] split: if_splits)
qed

lemma uses_memory_flat_mode:
  "flat_mode_getattr api fs dir name w = Some (rc, attr, fs', w') \<Longrightarrow> uses_memory fs fs'"
  "flat_mode_getdir api fs dir w = Some (rc, names, fs', w') \<Longrightarrow> uses_memory fs fs'"
  "flat_mode_inode_read_write api m fs inode off n buf rd w = Some (rc, m', fs', w') \<Longrightarrow> uses_memory fs fs'"
  "flat_mode_inode_mknod api fs inode mo name w = Some (rc, fs', w') \<Longrightarrow> uses_memory fs fs'"
  "flat_mode_inode_set_attr api fs inode valid a w = Some (rc, fs', w') \<Longrightarrow> uses_memory fs fs'"
  "flat_mode_on_path os_op fs inode name w = Some (rc, fs', w') \<Longrightarrow> uses_memory fs fs'"
  by (auto simp: flat_mode_getattr_def flat_mode_getdir_def flat_mode_inode_read_write_def flat_mode_inode_mknod_def
      flat_mode_inode_set_attr_def flat_mode_on_path_def bind_Some_iff Let_def
      split: prod.splits if_splits dest: uses_memory_path uses_memory_dir_path intro: uses_memory_trans)

lemma uses_memory_rename:
  assumes "flat_mode_inode_rename api fs dir inode old nm w = Some (rc, fs', w')"
  shows "uses_memory fs fs'"
proof -
  obtain rc1 path1 fs1 where p1: "co_os_fs_dir_inode_to_path fs dir (Some old) = Some (rc1, path1, fs1)"
    using assms by (auto simp: flat_mode_inode_rename_def bind_Some_iff)
  show ?thesis
  proof (cases "rc_ok rc1")
    case True
    then obtain rc2 path2 fs2 where p2: "co_os_fs_dir_inode_to_path fs1 inode (Some nm) = Some (rc2, path2, fs2)"
      using assms p1 by (auto simp: flat_mode_inode_rename_def bind_Some_iff)
    then have "fs' = fs2" using assms p1 True by (auto simp: flat_mode_inode_rename_def Let_def split: if_splits prod.splits)
    then show ?thesis using uses_memory_dir_path [OF p1] uses_memory_dir_path [OF p2] uses_memory_trans by blast
  qed (use assms p1 uses_memory_dir_path [OF p1] in \<open>simp add: flat_mode_inode_rename_def\<close>)
qed

lemma uses_memory_tree:
  "uses_memory fs fs' \<Longrightarrow> fs_tree fs \<Longrightarrow> fs_tree fs'"
  "uses_memory fs fs' \<Longrightarrow> inodes fs' = inodes fs"
  by (auto simp: uses_memory_def)

lemma find_named_mem: "find_named fs ps name = Some (Some p) \<Longrightarrow> p \<in> set ps"
  by (induction ps) (auto simp: bind_Some_iff split: if_splits)

lemma find_inode_entry:
  assumes "fs_tree fs" "find_inode fs dir name = Some (Some p)"
  obtains d i where "dir = Some d" "inodes fs p = Some i" "i_parent i = Some d"
  using assms fs_dirsD(2) find_named_mem
  by (fastforce simp: find_inode_def bind_Some_iff fs_tree_def)

lemma find_or_alloc_tree:
  assumes t: "fs_tree fs" and f: "find_or_alloc fs dir name = Some (ino, fs')"
  shows "fs_tree fs'"
proof -
  obtain d di where d: "dir = Some d" "inodes fs d = Some di"
    using f by (auto simp: find_or_alloc_def find_inode_def bind_Some_iff)
  then show ?thesis
    using f t alloc_inode_tree [OF t d(2)] by (auto simp: find_or_alloc_def bind_Some_iff split: option.splits)
qed

section \<open>Forgetting\<close>

text \<open>What freeing does: inodes go, entries go, an inode may lose its parent; nothing else.\<close>

definition smaller :: "co_inode \<Rightarrow> co_inode \<Rightarrow> bool" where
  "smaller i i' \<longleftrightarrow> set (i_sub i') \<subseteq> set (i_sub i) \<and> (i_parent i' = i_parent i \<or> i_parent i' = None)"

lemma smaller_trans: "smaller i j \<Longrightarrow> smaller j k \<Longrightarrow> smaller i k"
  by (auto simp: smaller_def)

definition shrinks :: "co_filesystem \<Rightarrow> co_filesystem \<Rightarrow> bool" where
  "shrinks fs fs' \<longleftrightarrow> fs_tree fs' \<and> fs_root fs' = fs_root fs \<and>
     (\<forall>x i'. inodes fs' x = Some i' \<longrightarrow> (\<exists>i. inodes fs x = Some i \<and> smaller i i'))"

lemma shrinksD: "shrinks fs fs' \<Longrightarrow> inodes fs' x = Some i' \<Longrightarrow> \<exists>i. inodes fs x = Some i \<and> smaller i i'"
  by (simp add: shrinks_def)

lemma shrinks_refl: "fs_tree fs \<Longrightarrow> shrinks fs fs"
  by (simp add: shrinks_def smaller_def)

lemma shrinks_trans:
  assumes "shrinks fs fs'" "shrinks fs' fs''"
  shows "shrinks fs fs''"
proof -
  have "\<exists>i. inodes fs x = Some i \<and> smaller i k" if "inodes fs'' x = Some k" for x k
    using shrinksD [OF assms(2) that] shrinksD [OF assms(1)] smaller_trans by blast
  then show ?thesis using assms by (simp add: shrinks_def)
qed

lemma shrinks_gone: "shrinks fs fs' \<Longrightarrow> inodes fs x = None \<Longrightarrow> inodes fs' x = None"
  unfolding shrinks_def by (metis not_Some_eq)

text \<open>One inode without entries is freed.\<close>

definition without_entry :: "iptr \<Rightarrow> co_inode \<Rightarrow> co_inode" where
  "without_entry p j = j\<lparr>i_sub := remove1 p (i_sub j)\<rparr>"

lemma free_inode_exact:
  assumes t: "fs_tree fs" and p: "inodes fs p = Some i" "i_sub i = []"
  shows "free_inode p fs =
    Some (fs\<lparr>inodes := (\<lambda>x. if x = p then None else map_option (without_entry p) (inodes fs x)),
      list_inodes := remove1 p (list_inodes fs),
      inode_hashes := (\<lambda>h. remove1 p (inode_hashes fs h)), inodes_count := inodes_count fs - 1\<rparr>)"
proof -
  have d: "fs_dirs fs" and tab: "fs_tables fs" using t by (simp_all add: fs_tree_def)
  have "p \<notin> set (inode_hashes fs h)" if "h \<noteq> i_number i mod CO_FS_HASH_TABLE_SIZE" for h
    using fs_hash_set [OF t, of h] p(1) that by auto
  then have hashes: "(inode_hashes fs)(i_number i mod CO_FS_HASH_TABLE_SIZE :=
      remove1 p (inode_hashes fs (i_number i mod CO_FS_HASH_TABLE_SIZE))) = (\<lambda>h. remove1 p (inode_hashes fs h))"
    by (auto simp: remove1_idem)
  have other: "map_option (without_entry p) (inodes fs x) = inodes fs x" if "i_parent i \<noteq> Some x" for x
  proof (cases "inodes fs x")
    case (Some k)
    then have "p \<notin> set (i_sub k)" using fs_dirsD(2) [OF d Some, of p] that p(1) by auto
    then show ?thesis using Some by (simp add: without_entry_def remove1_idem)
  qed simp
  show ?thesis
  proof (cases "i_parent i")
    case None
    then show ?thesis using p hashes other by (auto simp: free_inode_def unlink_inode_def Let_def intro!: co_filesystem.equality)
  next
    case (Some q)
    then obtain qi where q: "inodes fs q = Some qi" "p \<in> set (i_sub qi)" using fs_dirsD(1) [OF d p(1)] by blast
    then have "q \<noteq> p" using p by auto
    then show ?thesis using p hashes other q Some
      by (auto simp: free_inode_def unlink_inode_def update_inode_def Let_def without_entry_def intro!: co_filesystem.equality)
  qed
qed

lemma free_inode_shrinks:
  assumes t: "fs_tree fs" and p: "inodes fs p = Some i" "i_sub i = []" "fs_root fs \<noteq> Some p"
    and f: "free_inode p fs = Some fs'"
  shows "shrinks fs fs' \<and> inodes fs' p = None"
proof -
  have fs': "fs' = fs\<lparr>inodes := (\<lambda>x. if x = p then None else map_option (without_entry p) (inodes fs x)),
      list_inodes := remove1 p (list_inodes fs),
      inode_hashes := (\<lambda>h. remove1 p (inode_hashes fs h)), inodes_count := inodes_count fs - 1\<rparr>"
    using free_inode_exact [OF t p(1,2)] f by simp
  have old: "\<exists>k. inodes fs x = Some k \<and> j = without_entry p k \<and> x \<noteq> p" if "inodes fs' x = Some j" for x j
    using that fs' by (auto split: if_splits)
  have kept: "inodes fs' x = Some (without_entry p k)" if "inodes fs x = Some k" "x \<noteq> p" for x k
    using that fs' by simp
  have d: "fs_dirs fs" using t by (simp add: fs_tree_def)
  have gone: "inodes fs' p = None" using fs' by simp
  have dom: "dom (inodes fs') = dom (inodes fs) - {p}" using fs' by (auto split: if_splits)
  have "fs_tables fs'"
  proof -
    have tab: "distinct (list_inodes fs)" "set (list_inodes fs) = dom (inodes fs)"
      "inodes_count fs = int (length (list_inodes fs))" "distinct (inode_hashes fs h)" for h
      using t by (auto simp: fs_tree_def fs_tables_def)
    have "p \<in> set (list_inodes fs)" using tab p by auto
    then have "inodes_count fs - 1 = int (length (remove1 p (list_inodes fs)))"
    proof -
      have "length (list_inodes fs) = Suc (length (remove1 p (list_inodes fs)))"
        by (metis Suc_pred' \<open>p \<in> set (list_inodes fs)\<close> length_pos_if_in_set length_remove1)
      then show ?thesis using tab(3) by simp
    qed
    moreover have "{x. \<exists>j. inodes fs' x = Some j \<and> i_number j mod CO_FS_HASH_TABLE_SIZE = h} =
        set (inode_hashes fs h) - {p}" for h
      unfolding fs_hash_set [OF t] using old kept by (fastforce simp: without_entry_def)
    ultimately show ?thesis
      using tab dom unfolding fs_tables_def by (simp add: fs' set_remove1_eq)
  qed
  moreover have "fs_numbers fs'"
  proof -
    obtain r k where r: "fs_root fs = Some r" "inodes fs r = Some k" "i_number k = 1" "i_parent k = None"
      by (rule fs_root_inode [OF t])
    then have "r \<noteq> p" using p(3) by auto
    then have "\<exists>r k. fs_root fs' = Some r \<and> inodes fs' r = Some k \<and> i_number k = 1 \<and> i_parent k = None"
      using r kept [OF r(2)] fs' by (intro exI [of _ r]) (auto simp: without_entry_def)
    moreover have "1 \<le> i_number j \<and> i_number j < next_inode_num fs'" if "inodes fs' q = Some j" for q j
      using old [OF that] fs_inode_number [OF t] fs' by (fastforce simp: without_entry_def)
    moreover have "x = y" if xy: "inodes fs' x = Some j" "inodes fs' y = Some j'" "i_number j = i_number j'" for x y j j'
    proof -
      obtain k k' where "inodes fs x = Some k" "j = without_entry p k" "inodes fs y = Some k'" "j' = without_entry p k'"
        using old [OF xy(1)] old [OF xy(2)] by blast
      then show ?thesis using xy(3) fs_number_inj [OF t, of x k y k'] by (simp add: without_entry_def)
    qed
    ultimately show ?thesis unfolding fs_numbers_def by blast
  qed
  moreover have "fs_dirs fs'"
  proof -
    have "\<exists>k. inodes fs' e = Some k \<and> x \<in> set (i_sub k)" if x: "inodes fs' x = Some j" "i_parent j = Some e" for x j e
    proof -
      obtain j' where j': "inodes fs x = Some j'" "j = without_entry p j'" "x \<noteq> p" using old [OF x(1)] by blast
      then have "i_parent j' = Some e" using x(2) by (simp add: without_entry_def)
      from fs_dirsD(1) [OF d j'(1) this] obtain k where k: "inodes fs e = Some k" "x \<in> set (i_sub k)" by blast
      then have "e \<noteq> p" using p by auto
      then show ?thesis using kept [OF k(1)] k(2) j'(3) by (simp add: without_entry_def in_set_remove1)
    qed
    moreover have "\<exists>j. inodes fs' x = Some j \<and> i_parent j = Some e" if e: "inodes fs' e = Some k" "x \<in> set (i_sub k)" for x k e
    proof -
      obtain k' where k': "inodes fs e = Some k'" "k = without_entry p k'" "e \<noteq> p" using old [OF e(1)] by blast
      have "x \<noteq> p" "x \<in> set (i_sub k')"
        using e(2) k' fs_dirsD(3) [OF d k'(1)] by (auto simp: without_entry_def)
      then show ?thesis using fs_dirsD(2) [OF d k'(1)] kept by (fastforce simp: without_entry_def)
    qed
    moreover have "distinct (i_sub j)" if "inodes fs' e = Some j" for e j
      using old [OF that] fs_dirsD(3) [OF d] by (auto simp: without_entry_def)
    ultimately show ?thesis unfolding fs_dirs_def by blast
  qed
  moreover have "fs_fresh fs'" using t dom by (auto simp: fs_tree_def fs_fresh_def fs')
  ultimately have "fs_tree fs'" by (simp add: fs_tree_def)
  moreover have "\<exists>k. inodes fs x = Some k \<and> smaller k j" if "inodes fs' x = Some j" for x j
    using old [OF that] by (auto simp: smaller_def without_entry_def dest: set_remove1_subset [THEN subsetD])
  ultimately show ?thesis using gone fs' by (simp add: shrinks_def)
qed

text \<open>One inode is taken out of its directory.\<close>

lemma detach_shrinks:
  assumes t: "fs_tree fs" and p: "inodes fs p = Some i" "i_number i \<noteq> 1"
    and u: "unlink_inode p fs = Some fs1" "update_inode p (\<lambda>i. i\<lparr>i_parent := None\<rparr>) fs1 = Some fs'"
  shows "shrinks fs fs' \<and> (\<exists>j. inodes fs' p = Some j \<and> i_parent j = None)"
proof -
  define g where "g x j = (if x = p then (without_entry p j)\<lparr>i_parent := None\<rparr> else without_entry p j)" for x j
  have d: "fs_dirs fs" using t by (simp add: fs_tree_def)
  have other: "map_option (without_entry p) (inodes fs x) = inodes fs x" if "i_parent i \<noteq> Some x" for x
  proof (cases "inodes fs x")
    case (Some k)
    then have "p \<notin> set (i_sub k)" using fs_dirsD(2) [OF d Some, of p] that p(1) by auto
    then show ?thesis using Some by (simp add: without_entry_def remove1_idem)
  qed simp
  have fs': "fs' = fs\<lparr>inodes := (\<lambda>x. map_option (g x) (inodes fs x))\<rparr>"
  proof (cases "i_parent i")
    case None
    then have "map_option (g x) (inodes fs x) = ((inodes fs)(p \<mapsto> i\<lparr>i_parent := None\<rparr>)) x" for x
      using other [of x] p(1) by (cases "x = p"; cases "inodes fs x") (auto simp: g_def without_entry_def)
    then show ?thesis using u p None by (auto simp: unlink_inode_def update_inode_def intro!: co_filesystem.equality ext)
  next
    case (Some q)
    then obtain qi where q: "inodes fs q = Some qi" using fs_dirsD(1) [OF d p(1)] by blast
    have "map_option (g x) (inodes fs x) =
        ((inodes fs)(q \<mapsto> without_entry p qi, p \<mapsto> g p i)) x" for x
    proof (cases "x = q \<or> x = p")
      case False
      then have "i_parent i \<noteq> Some x" using Some by simp
      then show ?thesis using False other [of x] by (cases "inodes fs x") (auto simp: g_def)
    qed (use p q in \<open>auto simp: g_def\<close>)
    moreover have "(if p = q then without_entry p qi else i)\<lparr>i_parent := None\<rparr> = g p i"
      using other [of p] p q Some by (auto simp: g_def)
    ultimately show ?thesis using u p Some q
      by (auto simp: unlink_inode_def update_inode_def without_entry_def intro!: co_filesystem.equality ext split: if_splits)
  qed
  have num: "map_option i_number (map_option (g x) (inodes fs x)) = map_option i_number (inodes fs x)" for x
    by (cases "inodes fs x") (auto simp: g_def without_entry_def)
  have old: "\<exists>k. inodes fs x = Some k \<and> j = g x k" if "inodes fs' x = Some j" for x j
    using that fs' by auto
  have kept: "inodes fs' x = Some (g x k)" if "inodes fs x = Some k" for x k
    using that fs' by simp
  have "fs_dirs fs'"
  proof -
    have "\<exists>k. inodes fs' e = Some k \<and> x \<in> set (i_sub k)" if x: "inodes fs' x = Some j" "i_parent j = Some e" for x j e
    proof -
      obtain j' where j': "inodes fs x = Some j'" "j = g x j'" using old [OF x(1)] by blast
      have xp: "x \<noteq> p" using x(2) j'(2) by (auto simp: g_def)
      then have "i_parent j' = Some e" using x(2) j'(2) by (simp add: g_def without_entry_def)
      from fs_dirsD(1) [OF d j'(1) this] obtain k where k: "inodes fs e = Some k" "x \<in> set (i_sub k)" by blast
      then show ?thesis using kept [OF k(1)] xp by (simp add: g_def without_entry_def in_set_remove1)
    qed
    moreover have "\<exists>j. inodes fs' x = Some j \<and> i_parent j = Some e" if e: "inodes fs' e = Some k" "x \<in> set (i_sub k)" for x k e
    proof -
      obtain k' where k': "inodes fs e = Some k'" "k = g e k'" using old [OF e(1)] by blast
      have "x \<noteq> p" "x \<in> set (i_sub k')"
        using e(2) k' fs_dirsD(3) [OF d k'(1)] by (auto simp: g_def without_entry_def split: if_splits)
      obtain j where "inodes fs x = Some j" "i_parent j = Some e"
        using fs_dirsD(2) [OF d k'(1) \<open>x \<in> set (i_sub k')\<close>] by blast
      then show ?thesis using kept [of x j] \<open>x \<noteq> p\<close> by (simp add: g_def without_entry_def)
    qed
    moreover have "distinct (i_sub j)" if "inodes fs' e = Some j" for e j
      using old [OF that] fs_dirsD(3) [OF d] by (auto simp: g_def without_entry_def)
    ultimately show ?thesis unfolding fs_dirs_def by blast
  qed
  have root: "i_parent k = None"
    if "map_option (g x) (inodes fs x) = Some k" "inodes fs x = Some j" "i_parent j = None" "i_number j = 1" for x k j
  proof -
    have "k = g x j" using that(1,2) by simp
    then show ?thesis using that(3) by (simp add: g_def without_entry_def)
  qed
  note same = fs_tables_numbers_same [OF t fs' num]
  have "fs_tables fs'" by (rule same(1)) (rule root)
  moreover have "fs_numbers fs'" by (rule same(2)) (rule root)
  moreover have "fs_fresh fs'" by (rule same(3)) (rule root)
  ultimately have "fs_tree fs'" using \<open>fs_dirs fs'\<close> by (simp add: fs_tree_def)
  moreover have "\<exists>k. inodes fs x = Some k \<and> smaller k j" if x: "inodes fs' x = Some j" for x j
  proof -
    obtain k where k: "inodes fs x = Some k" "j = g x k" using old [OF x] by blast
    have "smaller k (g x k)" using set_remove1_subset [of p "i_sub k"] by (simp add: smaller_def g_def without_entry_def)
    then show ?thesis using k by blast
  qed
  moreover have "\<exists>j. inodes fs' p = Some j \<and> i_parent j = None" using kept [OF p(1)] by (simp add: g_def)
  moreover have "fs_root fs' = fs_root fs" using fs' by simp
  ultimately show ?thesis by (simp add: shrinks_def)
qed

text \<open>After \<open>free_inode_children\<close> the inodes of the list are gone or on the list for later.\<close>

definition parted :: "co_filesystem \<Rightarrow> iptr \<Rightarrow> bool" where
  "parted fs p \<longleftrightarrow> (\<forall>i. inodes fs p = Some i \<longrightarrow> i_parent i = None)"

lemma parted_shrinks: "parted fs p \<Longrightarrow> shrinks fs fs' \<Longrightarrow> parted fs' p"
  unfolding parted_def by (metis shrinksD smaller_def)

lemma root_is: "fs_tree fs \<Longrightarrow> inodes fs p = Some i \<Longrightarrow> i_number i = 1 \<longleftrightarrow> fs_root fs = Some p"
  by (metis fs_root_inode fs_number_inj option.inject)

lemma detach_all_shrinks:
  assumes "fs_tree fs" "fs_root fs \<notin> Some ` set ps" "fs_root fs \<notin> Some ` set later"
    and "detach_all ps later fs = Some (later', fs')"
  shows "shrinks fs fs' \<and> (\<forall>p \<in> set ps. parted fs' p) \<and> fs_root fs \<notin> Some ` set later'"
  using assms
proof (induction ps arbitrary: later fs)
  case Nil
  then show ?case by (simp add: shrinks_refl)
next
  case (Cons p ps)
  obtain fs1 fs2 where u: "unlink_inode p fs = Some fs1" "update_inode p (\<lambda>i. i\<lparr>i_parent := None\<rparr>) fs1 = Some fs2"
    and rest: "detach_all ps (p # later) fs2 = Some (later', fs')"
    using Cons.prems(4) by (auto simp: bind_Some_iff)
  obtain i where i: "inodes fs p = Some i" using u(1) by (auto simp: unlink_inode_def bind_Some_iff)
  have "i_number i \<noteq> 1" using root_is [OF Cons.prems(1) i] Cons.prems(2) by auto
  note d = detach_shrinks [OF Cons.prems(1) i this u]
  then have r: "fs_tree fs2" "fs_root fs2 = fs_root fs" by (auto simp: shrinks_def)
  have "parted fs2 p" using d by (auto simp: parted_def)
  moreover have "shrinks fs2 fs' \<and> (\<forall>p \<in> set ps. parted fs' p) \<and> fs_root fs2 \<notin> Some ` set later'"
    using Cons.IH [OF r(1) _ _ rest] Cons.prems(2,3) r by auto
  ultimately show ?case using d parted_shrinks shrinks_trans r by (auto simp: r)
qed

lemma parted_no_entries:
  assumes t: "fs_tree fs" and p: "inodes fs p = Some i" and sub: "\<And>x. x \<in> set (i_sub i) \<Longrightarrow> parted fs x"
  shows "i_sub i = []"
proof (rule ccontr)
  assume "i_sub i \<noteq> []"
  then obtain x where x: "x \<in> set (i_sub i)" by (cases "i_sub i") auto
  have "fs_dirs fs" using t by (simp add: fs_tree_def)
  from fs_dirsD(2) [OF this p x] show False using sub [OF x] by (auto simp: parted_def)
qed

text \<open>So an inode whose entries were dealt with has none left and can be freed.\<close>

lemma free_after_children:
  assumes t: "fs_tree fs" and i: "inodes fs p = Some i" and s: "shrinks fs fs1"
    and gone: "\<forall>x \<in> set (i_sub i). parted fs1 x" and f: "free_inode p fs1 = Some fs2" and r: "fs_root fs \<noteq> Some p"
  shows "shrinks fs fs2 \<and> inodes fs2 p = None"
proof -
  have t1: "fs_tree fs1" and r1: "fs_root fs1 \<noteq> Some p" using s r by (auto simp: shrinks_def)
  obtain i1 where i1: "inodes fs1 p = Some i1" using f by (auto simp: free_inode_def bind_Some_iff)
  then have "set (i_sub i1) \<subseteq> set (i_sub i)" using shrinksD [OF s i1] i by (auto simp: smaller_def)
  then have "i_sub i1 = []" using parted_no_entries [OF t1 i1] gone by blast
  from free_inode_shrinks [OF t1 i1 this r1 f] show ?thesis using shrinks_trans [OF s] by blast
qed

lemma free_inode_children_shrinks:
  assumes "fs_tree fs" "fs_root fs \<notin> Some ` set ps" "fs_root fs \<notin> Some ` set later"
    and "free_inode_children level ps later fs = Some (later', fs')"
  shows "shrinks fs fs' \<and> (\<forall>p \<in> set ps. parted fs' p) \<and> fs_root fs \<notin> Some ` set later'"
  using assms
proof (induction level ps later fs arbitrary: later' fs' rule: free_inode_children.induct)
  case (1 level ps later fs)
  note t = "1.prems"(1)
  show ?case
  proof (cases "level > 5")
    case True
    then have "detach_all ps later fs = Some (later', fs')"
      using "1.prems"(4) by (simp add: free_inode_children.simps [of level ps later fs])
    then show ?thesis using detach_all_shrinks "1.prems"(1-3) by blast
  next
    case False
    show ?thesis
    proof (cases ps)
      case Nil
      then show ?thesis using "1.prems" False by (simp add: free_inode_children.simps [of level "[]" later fs] shrinks_refl)
    next
      case (Cons p qs)
      obtain i later1 fs1 fs2 where i: "inodes fs p = Some i"
        and c: "free_inode_children (level + 1) (i_sub i) later fs = Some (later1, fs1)"
        and f: "free_inode p fs1 = Some fs2"
        and rest: "free_inode_children level qs later1 fs2 = Some (later', fs')"
        using "1.prems"(4) False Cons by (auto simp: free_inode_children.simps [of level "p # qs" later fs] bind_Some_iff)
      have "fs_root fs \<notin> Some ` set (i_sub i)"
      proof
        assume "fs_root fs \<in> Some ` set (i_sub i)"
        then obtain x where x: "fs_root fs = Some x" "x \<in> set (i_sub i)" by auto
        obtain r k where "fs_root fs = Some r" "inodes fs r = Some k" "i_parent k = None" by (rule fs_root_inode [OF t])
        then show False using x fs_dirsD(2) [OF _ i x(2)] t by (auto simp: fs_tree_def)
      qed
      note ih1 = "1.IH"(1) [OF False Cons i t this "1.prems"(3) c]
      have r: "fs_root fs \<noteq> Some p" using "1.prems"(2) Cons by auto
      note s2 = free_after_children [OF t i conjunct1 [OF ih1] _ f r]
      then have s2: "shrinks fs fs2" "inodes fs2 p = None" using ih1 by blast+
      have r2: "fs_root fs2 = fs_root fs" "fs_tree fs2" using s2(1) by (simp_all add: shrinks_def)
      have "shrinks fs2 fs' \<and> (\<forall>p \<in> set qs. parted fs' p) \<and> fs_root fs2 \<notin> Some ` set later'"
        using "1.IH"(2) [OF False Cons i c [symmetric, THEN sym] refl f r2(2) _ _ rest] "1.prems"(2) Cons ih1 r2(1) by auto
      moreover have "parted fs2 p" using s2 by (simp add: parted_def)
      ultimately show ?thesis using s2 shrinks_trans parted_shrinks r2 Cons by auto
    qed
  qed
qed

lemma free_deferred_shrinks:
  assumes "fs_tree fs" "fs_root fs \<notin> Some ` set ps" "free_deferred k ps fs = Some fs'"
  shows "shrinks fs fs'"
  using assms
proof (induction k arbitrary: ps fs)
  case 0
  then show ?case by (auto simp: shrinks_refl split: if_splits)
next
  case (Suc k)
  show ?case
  proof (cases "ps = []")
    case True
    then show ?thesis using Suc.prems by (simp add: shrinks_refl)
  next
    case False
    then obtain deferred fs1 where c: "free_inode_children 0 ps [] fs = Some (deferred, fs1)"
      using Suc.prems(3) by (auto simp: bind_Some_iff)
    have "fs_root fs \<notin> Some ` set []" by simp
    note s1 = free_inode_children_shrinks [OF Suc.prems(1,2) this c]
    show ?thesis
    proof (cases "deferred = []")
      case True
      then show ?thesis using Suc.prems(3) False c s1 by simp
    next
      case no: False
      then obtain again fs2 where c2: "free_inode_children 0 deferred [] fs1 = Some (again, fs2)"
        and rest: "free_deferred k again fs2 = Some fs'"
        using Suc.prems(3) False c by (auto simp: bind_Some_iff)
      have r1: "fs_tree fs1" "fs_root fs1 = fs_root fs" using s1 by (simp_all add: shrinks_def)
      have s2: "shrinks fs1 fs2 \<and> fs_root fs1 \<notin> Some ` set again"
        using free_inode_children_shrinks [OF r1(1) _ _ c2] s1 r1(2) by simp
      then have "fs_tree fs2" "fs_root fs2 \<notin> Some ` set again" by (simp_all add: shrinks_def)
      from Suc.IH [OF this rest] show ?thesis using s1 s2 shrinks_trans by blast
    qed
  qed
qed

lemma free_inode_with_children_shrinks:
  assumes t: "fs_tree fs" and r: "fs_root fs \<noteq> Some p" and f: "free_inode_with_children p fs = Some fs'"
  shows "shrinks fs fs' \<and> inodes fs' p = None"
proof -
  obtain i later fs1 fs2 where i: "inodes fs p = Some i"
    and c: "free_inode_children 0 (i_sub i) [] fs = Some (later, fs1)"
    and f2: "free_inode p fs1 = Some fs2" and rest: "free_deferred (length (list_inodes fs2)) later fs2 = Some fs'"
    using f by (auto simp: free_inode_with_children_def bind_Some_iff)
  have nr: "fs_root fs \<notin> Some ` set (i_sub i)"
  proof
    assume "fs_root fs \<in> Some ` set (i_sub i)"
    then obtain x where x: "fs_root fs = Some x" "x \<in> set (i_sub i)" by auto
    obtain r k where "fs_root fs = Some r" "inodes fs r = Some k" "i_parent k = None" by (rule fs_root_inode [OF t])
    then show False using x fs_dirsD(2) [OF _ i x(2)] t by (auto simp: fs_tree_def)
  qed
  have s1: "shrinks fs fs1" "\<forall>x \<in> set (i_sub i). parted fs1 x" "fs_root fs \<notin> Some ` set later"
    using free_inode_children_shrinks [OF t nr _ c] by simp_all
  have s2: "shrinks fs fs2" "inodes fs2 p = None" using free_after_children [OF t i s1(1,2) f2 r] by simp_all
  then have "fs_tree fs2" "fs_root fs2 = fs_root fs" by (simp_all add: shrinks_def)
  then have "shrinks fs2 fs'" using free_deferred_shrinks [OF _ _ rest] s1(3) by simp
  then show ?thesis using s2 shrinks_trans shrinks_gone by blast
qed

section \<open>The invariant of the requests\<close>

lemma inode_rename_tree:
  assumes t: "fs_tree fs" and r: "inode_rename api fs dir n old nm w = Some (rc, fs', w')"
  shows "fs_tree fs'"
proof -
  obtain d where d: "ino_num_to_inode n fs = Some d" using r by (auto simp: inode_rename_def bind_Some_iff)
  show ?thesis
  proof (cases d)
    case None
    then show ?thesis using r d t by (simp add: inode_rename_def)
  next
    case (Some e)
    obtain rc1 fs1 w1 where f: "flat_mode_inode_rename api fs dir (Some e) old nm w = Some (rc1, fs1, w1)"
      using r d Some by (auto simp: inode_rename_def bind_Some_iff)
    note u = uses_memory_rename [OF f]
    have t1: "fs_tree fs1" by (rule uses_memory_tree(1) [OF u t])
    show ?thesis
    proof (cases "rc_ok rc1")
      case False
      then show ?thesis using r d Some f t1 by (simp add: inode_rename_def)
    next
      case ok: True
      obtain q where q: "find_inode fs1 dir old = Some q" using r d Some f ok by (auto simp: inode_rename_def bind_Some_iff)
      show ?thesis
      proof (cases q)
        case None
        then show ?thesis using r d Some f ok q t1 by (simp add: inode_rename_def)
      next
        case p: (Some p)
        then obtain q' i where i: "inodes fs1 p = Some i" "i_parent i = Some q'"
          using find_inode_entry [OF t1] q by metis
        obtain fs2 where re: "reparent_inode p e fs1 = Some fs2"
          using r d Some f ok q p by (auto simp: inode_rename_def bind_Some_iff)
        then obtain ei where "inodes fs1 e = Some ei"
          by (auto simp: reparent_inode_def unlink_inode_def update_inode_def bind_Some_iff split: option.splits if_splits)
        note t2 = reparent_inode_tree [OF t1 i this re]
        obtain a fs3 where m: "fs_malloc fs2 = (a, fs3)" by fastforce
        have t3: "fs_tree fs3" by (rule fs_malloc_tree(1) [OF t2 m])
        show ?thesis
          using r d Some f ok q p re m update_inode_tree [OF t3]
          by (auto simp: inode_rename_def bind_Some_iff split: if_splits)
      qed
    qed
  qed
qed

lemma inode_dirs_tree:
  assumes t: "fs_tree fs"
  shows "inode_dir_open api fs inode w = Some (rc, fs', w') \<Longrightarrow> fs_tree fs'"
    "inode_dir_release fs inode = Some (rc, fs') \<Longrightarrow> fs_tree fs'"
    "inode_mknod api fs inode mo name w = Some (rc, at, fs', w') \<Longrightarrow> fs_tree fs'"
    "inode_lookup api fs inode name w = Some (rc, at', fs', w') \<Longrightarrow> fs_tree fs'"
    "inode_get_attr api fs inode w = Some (rc, at'', fs', w') \<Longrightarrow> fs_tree fs'"
proof -
  have upd: "fs_tree fs1 \<Longrightarrow> update_inode p (\<lambda>i. i\<lparr>i_names := x\<rparr>) fs1 = Some fs2 \<Longrightarrow> fs_tree fs2" for fs1 fs2 p x
    using update_inode_tree [of fs1 p "\<lambda>i. i\<lparr>i_names := x\<rparr>" fs2] by simp
  show "fs_tree fs'" if o: "inode_dir_open api fs inode w = Some (rc, fs', w')"
  proof (cases inode)
    case None
    then show ?thesis using o t by (simp add: inode_dir_open_def)
  next
    case (Some p)
    then obtain i where i: "inodes fs p = Some i" using o by (auto simp: inode_dir_open_def bind_Some_iff)
    obtain a fs1 where m: "fs_malloc fs = (a, fs1)" by fastforce
    have t1: "fs_tree fs1" by (rule fs_malloc_tree(1) [OF t m])
    show ?thesis
    proof (cases "i_names i = None \<and> a \<noteq> None")
      case True
      then obtain rc2 names fs2 w2 where g: "flat_mode_getdir api fs1 (Some p) w = Some (rc2, names, fs2, w2)"
        using o Some i m by (auto simp: inode_dir_open_def bind_Some_iff)
      have "fs_tree fs2" by (rule uses_memory_tree(1) [OF uses_memory_flat_mode(2) [OF g] t1])
      then show ?thesis using True o Some i m g upd by (auto simp: inode_dir_open_def bind_Some_iff split: if_splits)
    next
      case False
      show ?thesis
      proof (cases "i_names i")
        case None
        then show ?thesis using False o Some i m t1 by (simp add: inode_dir_open_def)
      next
        case names: (Some names)
        then obtain fs2 where "update_inode p (\<lambda>i. i\<lparr>i_names := Some (names\<lparr>dn_refcount := dn_refcount names + 1\<rparr>)\<rparr>) fs = Some fs2" "fs' = fs2"
          using o Some i by (auto simp: inode_dir_open_def bind_Some_iff)
        then show ?thesis using upd [OF t] by simp
      qed
    qed
  qed
  show "inode_dir_release fs inode = Some (rc, fs') \<Longrightarrow> fs_tree fs'"
    using t upd by (auto simp: inode_dir_release_def bind_Some_iff Let_def split: option.splits)
  show "fs_tree fs'" if m: "inode_mknod api fs inode mo name w = Some (rc, at, fs', w')"
  proof -
    obtain rc1 fs1 w1 where f: "flat_mode_inode_mknod api fs inode mo name w = Some (rc1, fs1, w1)"
      using m by (auto simp: inode_mknod_def Let_def bind_Some_iff)
    have t1: "fs_tree fs1" by (rule uses_memory_tree(1) [OF uses_memory_flat_mode(4) [OF f] t])
    show ?thesis using m f t1 find_or_alloc_tree [OF t1]
      by (cases "rc_ok rc1") (auto simp: inode_mknod_def Let_def bind_Some_iff)
  qed
  show "fs_tree fs'" if l: "inode_lookup api fs inode name w = Some (rc, at', fs', w')"
  proof -
    obtain rc1 attr fs1 w1 where f: "flat_mode_getattr api fs inode name w = Some (rc1, attr, fs1, w1)"
      using l by (auto simp: inode_lookup_def bind_Some_iff)
    have t1: "fs_tree fs1" by (rule uses_memory_tree(1) [OF uses_memory_flat_mode(1) [OF f] t])
    show ?thesis using l f t1 find_or_alloc_tree [OF t1]
      by (cases "rc_ok rc1") (auto simp: inode_lookup_def bind_Some_iff)
  qed
  show "inode_get_attr api fs inode w = Some (rc, at'', fs', w') \<Longrightarrow> fs_tree fs'"
    using t uses_memory_tree(1) [OF uses_memory_flat_mode(1)]
    by (auto simp: inode_get_attr_def bind_Some_iff)
qed

text \<open>C7: whatever the host answers and whichever allocations fail, a request that returns leaves the inode table
  consistent: the flat list, the hash table and the map of inodes hold the same inodes, numbers identify
  them, the entries of directories and the parents agree, and number 1 is the root. The one request
  that may break it is a FORGET of the root.\<close>

theorem co_monitor_file_system_keeps:
  assumes "fs_tree (st_fs s)" "r = FUSE_FORGET \<Longrightarrow> ino_num_to_inode ino (st_fs s) \<noteq> Some (fs_root (st_fs s))"
    and "co_monitor_file_system api dirent ino r (Some s) = Some (res, reply, st')"
  shows "\<exists>s'. st' = Some s' \<and> fs_tree (st_fs s')"
proof -
  note t = assms(1) and run = assms(3)
  note path = uses_memory_tree(1) [OF uses_memory_flat_mode(3) t] uses_memory_tree(1) [OF uses_memory_flat_mode(5) t]
    uses_memory_tree(1) [OF uses_memory_flat_mode(6) t]
  have mount: "fs_mount (st_fs s) p u g dm fm fl = Some (rc, fs') \<Longrightarrow> fs_tree fs'" for p u g dm fm fl rc fs'
    using t by (auto simp: fs_mount_def bind_Some_iff fs_tree_defs)
  have forget: "inode_forget (st_fs s) p = Some (rc, fs') \<Longrightarrow> p \<noteq> fs_root (st_fs s) \<Longrightarrow> fs_tree fs'" for p rc fs'
  proof (cases p)
    case (Some q)
    assume f: "inode_forget (st_fs s) p = Some (rc, fs')" and "p \<noteq> fs_root (st_fs s)"
    then have "fs_root (st_fs s) \<noteq> Some q" "free_inode_with_children q (st_fs s) = Some fs'"
      using Some by (auto simp: inode_forget_def bind_Some_iff)
    from free_inode_with_children_shrinks [OF t this] show ?thesis by (simp add: shrinks_def)
  qed (use t in \<open>simp add: inode_forget_def\<close>)
  have forgets: ?thesis if r: "r = FUSE_FORGET"
    using run assms(2) [OF r] forget
    by (auto simp: r co_monitor_file_system_def handle_inode_request_def bind_Some_iff)
  show ?thesis
    using run forgets
    by (cases r) (auto simp: co_monitor_file_system_def handle_inode_request_def bind_Some_iff fs_stat_def Let_def t
      inode_set_attr_def inode_mkdir_def inode_unlink_def inode_rmdir_def inode_read_def inode_write_def
      flat_mode_inode_mkdir_def flat_mode_inode_unlink_def flat_mode_inode_rmdir_def
      split: prod.splits dest: path mount inode_rename_tree [OF t] inode_dirs_tree [OF t])
qed

section \<open>A file system\<close>

text \<open>\<open>co_monitor_file_system_init\<close> makes a consistent table with the root alone.\<close>

lemma co_monitor_file_system_init_tree:
  assumes "co_monitor_file_system_init as path = Some (RC_OK, Some fs)" "distinct (answers as)"
  shows "fs_tree fs"
proof -
  obtain a as1 where as1: "as = Some a # as1"
    using assms(1) by (auto simp: co_monitor_file_system_init_def split: list.splits option.splits)
  obtain b as2 where as2: "as1 = Some b # as2"
  proof (cases as1)
    case Nil
    then show ?thesis using assms(1) as1 by (simp add: co_monitor_file_system_init_def alloc_inode_def fs_malloc_def)
  next
    case (Cons x xs)
    then show ?thesis using assms(1) as1 that
      by (cases x) (simp_all add: co_monitor_file_system_init_def alloc_inode_def fs_malloc_def)
  qed
  have "fs = \<lparr>inodes = [b \<mapsto> \<lparr>i_parent = None, i_sub = [], i_name = None, i_names = None, i_number = 1\<rparr>],
      list_inodes = [b], inode_hashes = (\<lambda>_. [])(1 := [b]), next_inode_num = 2, fs_root = Some b, inodes_count = 1,
      fs_desc_path = path, base_path = path, fs_uid = 0, fs_gid = 0, dir_mode = 0, file_mode = 0, fs_flags = 0,
      mallocs = as2\<rparr>"
    using assms(1) as1 as2
    by (auto simp: co_monitor_file_system_init_def alloc_inode_def fs_malloc_def ino_num_to_inode_def link_inode_def
        update_inode_def Let_def)
  then show ?thesis using assms(2) as1 as2 by (auto simp: fs_tree_defs)
qed

definition fs_example :: co_filesystem where
  "fs_example = (case co_monitor_file_system_init (map Some [4, 8, 12, 16, 20, 24, 28, 32]) ''c:'' of
     Some (rc, Some fs) \<Rightarrow> fs)"

lemma fs_example_tree: "fs_tree fs_example"
proof -
  have "\<exists>fs. co_monitor_file_system_init (map Some [4, 8, 12, 16, 20, 24, 28, 32]) ''c:'' = Some (RC_OK, Some fs)"
    by (simp add: co_monitor_file_system_init_def alloc_inode_def fs_malloc_def ino_num_to_inode_def link_inode_def
        update_inode_def Let_def)
  then obtain fs where fs: "co_monitor_file_system_init (map Some [4, 8, 12, 16, 20, 24, 28, 32]) ''c:'' = Some (RC_OK, Some fs)"
    by blast
  then have "fs_example = fs" by (simp add: fs_example_def)
  then show ?thesis using co_monitor_file_system_init_tree [OF fs] by simp
qed

definition fuse_attr_example :: fuse_attr where
  "fuse_attr_example = \<lparr>fa_size = 5, fa_mode = 0x81FF, fa_nlink = 1, fa_uid = 0, fa_gid = 0, fa_rdev = 0, fa_dummy = 0,
    fa_blocks = 1, fa_atime = 7, fa_mtime = 7, fa_ctime = 7\<rparr>"

text \<open>A host on which every operation succeeds.\<close>

definition file_api_example :: "unit os_file_api" where
  "file_api_example = \<lparr>os_file_get_attr = (\<lambda>f w. (RC_OK, fuse_attr_example, w)),
     os_file_getdir = (\<lambda>d w. (RC_OK, [(4, ''.''), (4, ''..''), (8, ''hosts'')], w)),
     os_file_read_write = (\<lambda>f off n buf rd m w. Some (RC_OK, m, w)),
     os_file_mknod = (\<lambda>f md w. (RC_OK, w)), os_file_set_attr = (\<lambda>f v a w. (RC_OK, w)),
     os_file_mkdir = (\<lambda>f w. (RC_OK, w)), os_file_unlink = (\<lambda>f w. (RC_OK, w)), os_file_rmdir = (\<lambda>f w. (RC_OK, w)),
     os_file_rename = (\<lambda>f g w. (RC_OK, w)), os_file_fs_stat = (\<lambda>f w. (RC_OK, [], w)), os_get_time = (\<lambda>w. 7)\<rparr>"

definition cofs_example :: "unit cofs_state" where
  "cofs_example = \<lparr>st_fs = fs_example, st_vm = vm_example, st_world = ()\<rparr>"

text \<open>A run of requests.\<close>

fun cofs_run :: "'w os_file_api \<Rightarrow> (int \<times> fuse_request) list \<Rightarrow> 'w cofs_state option \<Rightarrow> ((int \<times> fuse_reply) list \<times> 'w cofs_state option) option" where
  "cofs_run api [] st = Some ([], st)"
| "cofs_run api ((ino, r) # rs) st = do {
     (res, reply, st) \<leftarrow> co_monitor_file_system api (replicate 264 0) ino r st;
     (out, st) \<leftarrow> cofs_run api rs st;
     Some ((res, reply) # out, st) }"

theorem co_monitor_file_system_keeps_witness:
  "\<exists>res reply s'. co_monitor_file_system file_api_example [] 1 (FUSE_LOOKUP ''etc'') (Some cofs_example) =
     Some (res, reply, Some s') \<and> fs_tree (st_fs s')"
proof -
  have "co_monitor_file_system file_api_example [] 1 (FUSE_LOOKUP ''etc'') (Some cofs_example) \<noteq> None" by code_simp
  then obtain res reply st' where run:
    "co_monitor_file_system file_api_example [] 1 (FUSE_LOOKUP ''etc'') (Some cofs_example) = Some (res, reply, st')"
    by auto
  have "fs_tree (st_fs cofs_example)" by (simp add: cofs_example_def fs_example_tree)
  from co_monitor_file_system_keeps [OF this _ run] show ?thesis using run by auto
qed

text \<open>The names from an inode up to the inode without a name, the root, all of them.\<close>

inductive dir_names :: "co_filesystem \<Rightarrow> iptr option \<Rightarrow> string list \<Rightarrow> bool" for fs where
  no_dir: "dir_names fs None []"
| root: "inodes fs p = Some i \<Longrightarrow> i_name i = None \<Longrightarrow> dir_names fs (Some p) []"
| entry: "inodes fs p = Some i \<Longrightarrow> i_name i = Some n \<Longrightarrow> dir_names fs (i_parent i) ns \<Longrightarrow> dir_names fs (Some p) (n # ns)"

lemma path_names_take: "dir_names fs dir ns \<Longrightarrow> path_names k fs dir = Some (take k ns)"
proof (induction arbitrary: k rule: dir_names.induct)
  case no_dir
  then show ?case by (cases k) simp_all
next
  case (root p i)
  then show ?case by (cases k) simp_all
next
  case (entry p i n ns)
  then show ?case by (cases k) simp_all
qed

text \<open>C35: a path is built inside its buffer. For every directory whose parents can be followed up to the root,
  \<open>co_os_fs_dir_inode_to_path\<close> answers the base path, the names from the root down and the name, separated by
  backslashes, or that there is no memory. Of the directory's names only the 256 nearest to it are taken: the path of
  a directory at most that deep is complete, and that of a deeper one loses its topmost names.\<close>

theorem co_os_fs_dir_inode_to_path_fits:
  assumes "dir_names fs dir names"
  shows "co_os_fs_dir_inode_to_path fs dir (Some name) =
    (case fs_malloc fs of
       (None, fs') \<Rightarrow> Some (RC_OUT_OF_MEMORY, [], fs')
     | (Some a, fs') \<Rightarrow> Some (RC_OK, host_path fs (take 256 names) (name \<noteq> []) @ name, fs')) \<and>
    (length names \<le> 256 \<longrightarrow> take 256 names = names)"
proof -
  obtain a fs' where "fs_malloc fs = (a, fs')" by fastforce
  then show ?thesis using dir_inode_to_path_exact [OF path_names_take [OF assms]] by (cases a) auto
qed

theorem co_os_fs_dir_inode_to_path_fits_witness:
  "\<exists>fs'. co_os_fs_dir_inode_to_path fs_example (fs_root fs_example) (Some ''etc'') =
    Some (RC_OK, ''c:'' @ [CHR 0x5C] @ ''etc'', fs')"
proof -
  have "map_option i_name (fs_root fs_example \<bind> inodes fs_example) = Some None" by code_simp
  then have n: "dir_names fs_example (fs_root fs_example) []" by (auto simp: bind_Some_iff intro: dir_names.root)
  have "host_path fs_example [] True = ''c:'' @ [CHR 0x5C]" by code_simp
  moreover have "fst (fs_malloc fs_example) \<noteq> None" by code_simp
  ultimately show ?thesis
    using co_os_fs_dir_inode_to_path_fits [OF n, of "''etc''"] by (cases "fs_malloc fs_example") auto
qed

section \<open>Looking names up\<close>

lemma co_strcmp_same: "c_string s \<Longrightarrow> co_strcmp s s = 0"
  by (simp add: co_strcmp_def internal_strcmp_0_iff)

lemma find_named_cong:
  assumes "\<And>p. p \<in> set ps \<Longrightarrow> map_option i_name (inodes fs p) = map_option i_name (inodes fs' p)"
  shows "find_named fs ps name = find_named fs' ps name"
  using assms
proof (induction ps)
  case (Cons p ps)
  then show ?case using Cons.prems [of p] by (cases "inodes fs p"; cases "inodes fs' p"; cases "i_name (the (inodes fs' p))") auto
qed simp

lemma find_named_append:
  "find_named fs ps name = Some None \<Longrightarrow> find_named fs (ps @ qs) name = find_named fs qs name"
  by (induction ps) (auto simp: bind_Some_iff split: if_splits)

lemma find_named_name:
  "find_named fs ps name = Some (Some p) \<Longrightarrow> \<exists>i nm. inodes fs p = Some i \<and> i_name i = Some nm \<and> co_strcmp nm name = 0"
  by (induction ps) (auto simp: bind_Some_iff split: if_splits)

lemma find_or_alloc_finds:
  assumes t: "fs_tree fs" and f: "find_or_alloc fs dir name = Some (n, fs')" and c: "c_string name"
  obtains d p i nm where "dir = Some d" "find_inode fs' dir name = Some (Some p)" "inodes fs' p = Some i"
    "i_parent i = Some d" "i_name i = Some nm" "co_strcmp nm name = 0" "i_number i = n"
proof -
  obtain d di q where d: "dir = Some d" "inodes fs d = Some di" and q: "find_named fs (i_sub di) name = Some q"
    using f by (auto simp: find_or_alloc_def find_inode_def bind_Some_iff)
  have fi: "find_inode fs dir name = Some q" using d q by (simp add: find_inode_def)
  show thesis
  proof (cases q)
    case (Some p)
    then obtain i where i: "inodes fs p = Some i" "i_number i = n" "fs' = fs"
      using f fi by (auto simp: find_or_alloc_def bind_Some_iff)
    obtain nm where nm: "i_name i = Some nm" "co_strcmp nm name = 0" using find_named_name [of fs "i_sub di" name p] q Some i by auto
    have "i_parent i = Some d" using find_inode_entry [OF t, of dir name p] fi Some i d by auto
    then show thesis using that d fi Some i nm by blast
  next
    case None
    then obtain r where a: "alloc_inode fs (Some d) (Some name) = Some (r, fs')" and r: "r \<noteq> None"
      and n: "inodes fs' (the r) \<bind> (\<lambda>i. Some (i_number i)) = Some n"
      using f fi d by (auto simp: find_or_alloc_def bind_Some_iff)
    from t d(2) a show thesis
    proof (cases rule: alloc_inode_cases)
      case failed
      then show ?thesis using r by simp
    next
      case (added p fs1)
      have at: "inodes fs' x = (if x = p then Some (new_inode d name (next_inode_num fs1))
          else if x = d then Some (di\<lparr>i_sub := i_sub di @ [p]\<rparr>) else inodes fs x)" for x
        using add_inode_lookup [of fs1 p d di name x] added d(2) by auto
      have pd: "p \<noteq> d" using added d by auto
      have "p \<notin> set (i_sub di)" using fs_dirsD(2) [OF _ d(2), of p] t added by (auto simp: fs_tree_def)
      then have "find_named fs' (i_sub di) name = find_named fs (i_sub di) name"
        using d(2) by (intro find_named_cong) (auto simp: at)
      then have "find_named fs' (i_sub di) name = Some None" using q None by simp
      then have "find_inode fs' dir name = Some (Some p)"
        using d(1) pd c by (simp add: find_inode_def at find_named_append new_inode_def co_strcmp_same)
      then show ?thesis using that [of d p "new_inode d name (next_inode_num fs1)" name] d(1) n added(1) c
        by (auto simp: at new_inode_def co_strcmp_same)
    qed
  qed
qed

text \<open>C13: a successful LOOKUP answers a number that means the entry: the number leads to an inode of the
  directory with that name, and finding the name again leads to the same inode and number.\<close>

theorem inode_lookup_number:
  assumes t: "fs_tree fs" and l: "inode_lookup api fs dir name w = Some (rc, (attr, Some n), fs', w')" and c: "c_string name"
  shows "\<exists>p d i nm. ino_num_to_inode n fs' = Some (Some p) \<and> dir = Some d \<and> inodes fs' p = Some i \<and> i_parent i = Some d \<and>
    i_name i = Some nm \<and> co_strcmp nm name = 0 \<and> find_or_alloc fs' dir name = Some (n, fs')"
proof -
  obtain attr1 fs1 where f: "flat_mode_getattr api fs dir name w = Some (rc, attr1, fs1, w')"
    and a: "find_or_alloc fs1 dir name = Some (n, fs')"
    using l by (auto simp: inode_lookup_def bind_Some_iff split: if_splits)
  have t1: "fs_tree fs1" by (rule uses_memory_tree(1) [OF uses_memory_flat_mode(1) [OF f] t])
  have t': "fs_tree fs'" by (rule find_or_alloc_tree [OF t1 a])
  obtain d p i nm where i: "dir = Some d" "find_inode fs' dir name = Some (Some p)" "inodes fs' p = Some i"
    "i_parent i = Some d" "i_name i = Some nm" "co_strcmp nm name = 0" "i_number i = n"
    by (rule find_or_alloc_finds [OF t1 a c])
  have "is_number fs' n p" using i by (simp add: is_number_def)
  moreover have "0 \<le> n" using fs_inode_number(1) [OF t' i(3)] i(7) by simp
  ultimately have "ino_num_to_inode n fs' = Some (Some p)" using ino_num_to_inode_iff [OF t', of n] by auto
  moreover have "find_or_alloc fs' dir name = Some (n, fs')" using i by (simp add: find_or_alloc_def)
  ultimately show ?thesis using i by blast
qed

theorem inode_lookup_number_witness:
  "\<exists>p d i nm fs'. ino_num_to_inode 2 fs' = Some (Some p) \<and> fs_root fs_example = Some d \<and> inodes fs' p = Some i \<and>
    i_parent i = Some d \<and> i_name i = Some nm \<and> co_strcmp nm ''etc'' = 0 \<and>
    find_or_alloc fs' (fs_root fs_example) ''etc'' = Some (2, fs')"
proof -
  have "map_option (snd \<circ> fst \<circ> snd) (inode_lookup file_api_example fs_example (fs_root fs_example) ''etc'' ()) = Some (Some 2)"
    by code_simp
  then obtain rc attr fs' where
    "inode_lookup file_api_example fs_example (fs_root fs_example) ''etc'' () = Some (rc, (attr, Some 2), fs', ())"
    by auto
  from inode_lookup_number [OF fs_example_tree this]
  have "\<exists>p d i nm. ino_num_to_inode 2 fs' = Some (Some p) \<and> fs_root fs_example = Some d \<and> inodes fs' p = Some i \<and>
    i_parent i = Some d \<and> i_name i = Some nm \<and> co_strcmp nm ''etc'' = 0 \<and>
    find_or_alloc fs' (fs_root fs_example) ''etc'' = Some (2, fs')" by simp
  then show ?thesis by blast
qed

text \<open>What the requests do not check. A FORGET of the root frees it, and the next request on it follows a
  dangling pointer; a negative number indexes before the hash table; a LOOKUP that cannot allocate the inode
  follows NULL; a RENAME that cannot allocate the name reports an error but leaves an entry without a name,
  on which the next LOOKUP faults; and a name of 258 characters or more makes DIR_READ copy beyond its record.\<close>

lemma co_monitor_file_system_defects:
  "cofs_run file_api_example [(1, FUSE_FORGET), (1, FUSE_GETATTR)] (Some cofs_example) = None \<and>
   cofs_run file_api_example [(- 5, FUSE_OPEN 0)] (Some cofs_example) = None \<and>
   cofs_run file_api_example [(1, FUSE_LOOKUP ''a'')]
     (Some (cofs_example\<lparr>st_fs := fs_example\<lparr>mallocs := [Some 12]\<rparr>\<rparr>)) = None \<and>
   map_option (map fst \<circ> fst) (cofs_run file_api_example [(1, FUSE_LOOKUP ''a''), (1, FUSE_RENAME 1 ''a'' ''b'')]
     (Some (cofs_example\<lparr>st_fs := fs_example\<lparr>mallocs := map Some [12, 16, 20, 24, 28] @ [None, Some 32]\<rparr>\<rparr>))) = Some [0, - 5] \<and>
   cofs_run file_api_example [(1, FUSE_LOOKUP ''a''), (1, FUSE_RENAME 1 ''a'' ''b''), (1, FUSE_LOOKUP ''b'')]
     (Some (cofs_example\<lparr>st_fs := fs_example\<lparr>mallocs := map Some [12, 16, 20, 24, 28] @ [None, Some 32]\<rparr>\<rparr>)) = None \<and>
   cofs_run (file_api_example\<lparr>os_file_getdir := (\<lambda>d w. (RC_OK, [(8, replicate 260 CHR ''x'')], w))\<rparr>)
     [(1, FUSE_DIR_OPEN), (1, FUSE_DIR_READ 0xc0000ffe 1000 0)] (Some cofs_example) = None"
  by (intro conjI; code_simp)

end
