(* ===== verification/CoManager.thy ===== *)
theory CoManager
  imports CoErrors
begin

text \<open>
  The manager of the driver: its open descriptors, the monitors they use and the messages that wait in them.
  Translated from \<open>src/colinux/kernel/manager.c\<close>, the reference counting of \<open>src/colinux/kernel/monitor.c\<close>
  (\<open>incoming_message\<close>, \<open>send_monitor_end_messages\<close>, \<open>co_monitor_refdown\<close> and what \<open>co_monitor_destroy\<close>
  takes from the manager) and the pending reads of \<open>src/colinux/os/winnt/kernel/{manager,interface}.c\<close>.
  Descriptors and monitors live in heaps; following an address that was freed, or an index outside
  \<open>connected_modules\<close>, is \<open>None\<close>. Locks are taken and released in one operation and are not part of the state.
\<close>

type_synonym optr = nat
type_synonym mptr = nat

abbreviation CO_MONITOR_MODULES_COUNT :: nat where "CO_MONITOR_MODULES_COUNT \<equiv> 156"
abbreviation CO_QUEUE_COUNT_LIMIT_BEFORE_SLEEP :: nat where "CO_QUEUE_COUNT_LIMIT_BEFORE_SLEEP \<equiv> 1024"
abbreviation CO_MAX_MONITORS :: nat where "CO_MAX_MONITORS \<equiv> 64"
abbreviation CO_INVALID_ID :: u32 where "CO_INVALID_ID \<equiv> - 1"
abbreviation sizeof_message :: nat where "sizeof_message \<equiv> 20"

text \<open>A message; \<open>size\<close> is the number of its data bytes.\<close>

record co_message =
  m_from :: u32
  m_to :: u32
  m_priority :: u32
  m_type :: u32
  m_data :: "u8 list"

definition message_bytes :: "co_message \<Rightarrow> nat" where
  "message_bytes msg = length (m_data msg) + sizeof_message"

text \<open>A read that waits, with the size of its buffer, and how the driver completed reads.\<close>

record irp =
  irp_id :: nat
  irp_room :: nat

datatype irp_status = IRP_SUCCESS | IRP_CANCELLED | IRP_PIPE_BROKEN | IRP_INVALID_PARAMETER | IRP_BUFFER_OVERFLOW

text \<open>The queue of a descriptor, head first: the tail is the oldest message.\<close>

record open_desc =
  od_active :: bool
  od_ref :: int
  od_owner :: bool
  od_monitor :: "mptr option"
  od_queue :: "co_message list"
  od_irp :: "irp option"

record mon_desc =
  md_ref :: int
  md_listed :: bool
  md_id :: u32
  md_modules :: "nat \<Rightarrow> optr option"
  md_memory :: u32
  md_video_dev :: bool
  md_video_user :: u32

record co_manager =
  mg_opens :: "optr \<rightharpoonup> open_desc"
  mg_open_list :: "optr list"
  mg_num_opens :: u32
  mg_mons :: "mptr \<rightharpoonup> mon_desc"
  mg_mon_list :: "mptr list"
  mg_monitors_count :: u32
  mg_hostmem_used :: u32
  mg_hostmem_limit :: u32
  mg_done :: "(nat \<times> irp_status \<times> co_message list) list"

definition update_open :: "optr \<Rightarrow> (open_desc \<Rightarrow> open_desc) \<Rightarrow> co_manager \<Rightarrow> co_manager option" where
  "update_open p f mg = do { d \<leftarrow> mg_opens mg p; Some (mg\<lparr>mg_opens := (mg_opens mg)(p \<mapsto> f d)\<rparr>) }"

definition update_mon :: "mptr \<Rightarrow> (mon_desc \<Rightarrow> mon_desc) \<Rightarrow> co_manager \<Rightarrow> co_manager option" where
  "update_mon m f mg = do { d \<leftarrow> mg_mons mg m; Some (mg\<lparr>mg_mons := (mg_mons mg)(m \<mapsto> f d)\<rparr>) }"

definition complete_irp :: "irp \<Rightarrow> irp_status \<Rightarrow> co_message list \<Rightarrow> co_manager \<Rightarrow> co_manager" where
  "complete_irp i st ms mg = mg\<lparr>mg_done := mg_done mg @ [(irp_id i, st, ms)]\<rparr>"

section \<open>Opening\<close>

text \<open>The answers of the host: the address of the descriptor, and whether the lock and the host part could be
  made. A descriptor whose lock could not be made is not freed.\<close>

definition zeroed_desc :: open_desc where
  "zeroed_desc = \<lparr>od_active = False, od_ref = 0, od_owner = False, od_monitor = None, od_queue = [], od_irp = None\<rparr>"

definition co_manager_open ::
    "optr option \<Rightarrow> co_rc \<Rightarrow> co_rc \<Rightarrow> co_manager \<Rightarrow> co_rc \<times> optr option \<times> co_manager" where
  "co_manager_open block mutex_rc user_rc mg =
     (case block of
        None \<Rightarrow> (RC_OUT_OF_MEMORY, None, mg)
      | Some p \<Rightarrow>
          if \<not> rc_ok mutex_rc then (mutex_rc, None, mg\<lparr>mg_opens := (mg_opens mg)(p \<mapsto> zeroed_desc)\<rparr>)
          else if \<not> rc_ok user_rc then (user_rc, None, mg)
          else (RC_OK, Some p,
            mg\<lparr>mg_opens := (mg_opens mg)(p \<mapsto> zeroed_desc\<lparr>od_ref := 1, od_active := True\<rparr>),
               mg_open_list := p # mg_open_list mg, mg_num_opens := mg_num_opens mg + 1\<rparr>))"

definition co_manager_open_ref :: "optr \<Rightarrow> co_manager \<Rightarrow> (co_rc \<times> co_manager) option" where
  "co_manager_open_ref p mg = do {
     d \<leftarrow> mg_opens mg p;
     if od_ref d = 0 then Some (RC_ERROR, mg)
     else do { mg \<leftarrow> update_open p (\<lambda>d. d\<lparr>od_ref := od_ref d + 1\<rparr>) mg; Some (RC_OK, mg) } }"

section \<open>Closing\<close>

text \<open>Closing a descriptor may end its monitor, which closes other descriptors: the operations in between take
  \<open>co_manager_close\<close> as an argument, and its own depth is counted down.\<close>

type_synonym closing = "optr \<Rightarrow> co_manager \<Rightarrow> co_manager option"

definition co_os_manager_userspace_eof :: "closing \<Rightarrow> optr \<Rightarrow> co_manager \<Rightarrow> co_manager option" where
  "co_os_manager_userspace_eof close p mg = do {
     d \<leftarrow> mg_opens mg p;
     (case od_irp d of
        None \<Rightarrow> Some mg
      | Some i \<Rightarrow> do {
          mg \<leftarrow> update_open p (\<lambda>d. d\<lparr>od_irp := None\<rparr>) mg;
          mg \<leftarrow> close p mg;
          Some (complete_irp i IRP_PIPE_BROKEN [] mg) }) }"

definition co_manager_send_eof :: "closing \<Rightarrow> optr \<Rightarrow> co_manager \<Rightarrow> co_manager option" where
  "co_manager_send_eof close p mg = do {
     mg \<leftarrow> update_open p (\<lambda>d. d\<lparr>od_active := False\<rparr>) mg;
     co_os_manager_userspace_eof close p mg }"

fun send_monitor_end_messages :: "closing \<Rightarrow> mptr \<Rightarrow> nat list \<Rightarrow> co_manager \<Rightarrow> co_manager option" where
  "send_monitor_end_messages close m [] mg = Some mg"
| "send_monitor_end_messages close m (i # is) mg = do {
     d \<leftarrow> mg_mons mg m;
     (case md_modules d i of
        None \<Rightarrow> send_monitor_end_messages close m is mg
      | Some p \<Rightarrow> do {
          mg \<leftarrow> co_manager_send_eof close p mg;
          mg \<leftarrow> update_mon m (\<lambda>d. d\<lparr>md_modules := (md_modules d)(i := None)\<rparr>) mg;
          mg \<leftarrow> close p mg;
          send_monitor_end_messages close m is mg }) }"

text \<open>What destroying a monitor takes from the manager; the monitor's own memory is freed.\<close>

definition co_monitor_destroy :: "mptr \<Rightarrow> co_manager \<Rightarrow> (co_rc \<times> co_manager) option" where
  "co_monitor_destroy m mg = do {
     d \<leftarrow> mg_mons mg m;
     Some (RC_OK, mg\<lparr>mg_hostmem_used := mg_hostmem_used mg - md_memory d, mg_mons := (mg_mons mg)(m := None)\<rparr>) }"

definition co_monitor_user_video_dettach :: "mon_desc \<Rightarrow> mon_desc" where
  "co_monitor_user_video_dettach d = (if md_video_dev d then d\<lparr>md_video_user := CO_INVALID_ID\<rparr> else d)"

definition unlist_monitor :: "mptr \<Rightarrow> co_manager \<Rightarrow> co_manager option" where
  "unlist_monitor m mg = do {
     mg \<leftarrow> update_mon m (\<lambda>d. d\<lparr>md_listed := False\<rparr>) mg;
     Some (mg\<lparr>mg_monitors_count := mg_monitors_count mg - 1, mg_mon_list := remove1 m (mg_mon_list mg)\<rparr>) }"

definition co_monitor_refdown :: "closing \<Rightarrow> u32 \<Rightarrow> mptr \<Rightarrow> bool \<Rightarrow> co_manager \<Rightarrow> (co_rc \<times> co_manager) option" where
  "co_monitor_refdown close pid m monitor_owner mg = do {
     d \<leftarrow> mg_mons mg m;
     if \<not> md_ref d > 0 then Some (RC_ERROR, mg)
     else do {
       mg \<leftarrow> (if pid = md_video_user d then update_mon m co_monitor_user_video_dettach mg else Some mg);
       mg \<leftarrow> (if monitor_owner \<and> md_listed d then unlist_monitor m mg else Some mg);
       mg \<leftarrow> (if monitor_owner then send_monitor_end_messages close m [0..<CO_MONITOR_MODULES_COUNT] mg else Some mg);
       mg \<leftarrow> update_mon m (\<lambda>d. d\<lparr>md_ref := md_ref d - 1\<rparr>) mg;
       d \<leftarrow> mg_mons mg m;
       if md_ref d = 0 then co_monitor_destroy m mg else Some (RC_OK, mg) } }"

definition co_os_manager_userspace_close :: "optr \<Rightarrow> co_manager \<Rightarrow> co_manager option" where
  "co_os_manager_userspace_close p mg = do {
     d \<leftarrow> mg_opens mg p;
     (case od_irp d of
        None \<Rightarrow> Some mg
      | Some i \<Rightarrow> do {
          mg \<leftarrow> update_open p (\<lambda>d. d\<lparr>od_irp := None\<rparr>) mg;
          Some (complete_irp i IRP_CANCELLED [] mg) }) }"

definition co_manager_close_last :: "closing \<Rightarrow> u32 \<Rightarrow> optr \<Rightarrow> co_manager \<Rightarrow> co_manager option" where
  "co_manager_close_last close pid p mg = do {
     mg \<leftarrow> co_os_manager_userspace_close p mg;
     d \<leftarrow> mg_opens mg p;
     mg \<leftarrow> (case od_monitor d of
        None \<Rightarrow> Some mg
      | Some mon \<Rightarrow> do {
          mg \<leftarrow> update_open p (\<lambda>d. d\<lparr>od_monitor := None\<rparr>) mg;
          (rc, mg) \<leftarrow> co_monitor_refdown close pid mon (od_owner d) mg;
          Some mg });
     Some (mg\<lparr>mg_open_list := remove1 p (mg_open_list mg), mg_num_opens := mg_num_opens mg - 1,
              mg_opens := (mg_opens mg)(p := None)\<rparr>) }"

fun co_manager_close :: "nat \<Rightarrow> u32 \<Rightarrow> closing" where
  "co_manager_close 0 pid p mg = None"
| "co_manager_close (Suc k) pid p mg = do {
     mg \<leftarrow> update_open p (\<lambda>d. d\<lparr>od_ref := od_ref d - 1\<rparr>) mg;
     d \<leftarrow> mg_opens mg p;
     if od_ref d = 0 then co_manager_close_last (co_manager_close k pid) pid p mg else Some mg }"

fun disconnect_modules :: "closing \<Rightarrow> mptr \<Rightarrow> optr \<Rightarrow> nat list \<Rightarrow> co_manager \<Rightarrow> co_manager option" where
  "disconnect_modules close m p [] mg = Some mg"
| "disconnect_modules close m p (i # is) mg = do {
     d \<leftarrow> mg_mons mg m;
     if md_modules d i \<noteq> Some p then disconnect_modules close m p is mg
     else do {
       mg \<leftarrow> update_mon m (\<lambda>d. d\<lparr>md_modules := (md_modules d)(i := None)\<rparr>) mg;
       mg \<leftarrow> close p mg;
       disconnect_modules close m p is mg } }"

definition co_manager_open_desc_deactive_and_close :: "closing \<Rightarrow> optr \<Rightarrow> co_manager \<Rightarrow> co_manager option" where
  "co_manager_open_desc_deactive_and_close close p mg = do {
     mg \<leftarrow> update_open p (\<lambda>d. d\<lparr>od_active := False\<rparr>) mg;
     d \<leftarrow> mg_opens mg p;
     mg \<leftarrow> (case od_monitor d of
        None \<Rightarrow> Some mg
      | Some m \<Rightarrow> disconnect_modules close m p [0..<CO_MONITOR_MODULES_COUNT] mg);
     close p mg }"

section \<open>Messages to user space\<close>

definition co_os_manager_userspace_try_send_direct ::
    "closing \<Rightarrow> optr \<Rightarrow> co_message \<Rightarrow> co_manager \<Rightarrow> (bool \<times> co_manager) option" where
  "co_os_manager_userspace_try_send_direct close p msg mg = do {
     d \<leftarrow> mg_opens mg p;
     (case od_irp d of
        None \<Rightarrow> Some (False, mg)
      | Some i \<Rightarrow> do {
          mg \<leftarrow> update_open p (\<lambda>d. d\<lparr>od_irp := None\<rparr>) mg;
          mg \<leftarrow> close p mg;
          if message_bytes msg \<le> irp_room i then Some (True, complete_irp i IRP_SUCCESS [msg] mg)
          else Some (False, complete_irp i IRP_CANCELLED [] mg) }) }"

text \<open>\<open>dup_rc\<close> is whether the message could be copied; the result also tells whether the sender then sleeps
  until the reader has caught up.\<close>

definition co_manager_send ::
    "closing \<Rightarrow> co_rc \<Rightarrow> optr \<Rightarrow> co_message \<Rightarrow> co_manager \<Rightarrow> (co_rc \<times> bool \<times> co_manager) option" where
  "co_manager_send close dup_rc p msg mg = do {
     (ret, mg) \<leftarrow> co_os_manager_userspace_try_send_direct close p msg mg;
     d \<leftarrow> mg_opens mg p;
     if \<not> ret \<and> od_active d then do {
       mg \<leftarrow> (if rc_ok dup_rc then update_open p (\<lambda>d. d\<lparr>od_queue := msg # od_queue d\<rparr>) mg else Some mg);
       d \<leftarrow> mg_opens mg p;
       Some (dup_rc, length (od_queue d) > CO_QUEUE_COUNT_LIMIT_BEFORE_SLEEP \<and> od_active d, mg) }
     else Some (RC_OK, False, mg) }"

text \<open>\<open>to_adapter\<close> is whether the kernel mode network took the message; the shadow console of
  \<open>incoming_message\<close> is modelled with the console.\<close>

definition incoming_message ::
    "closing \<Rightarrow> bool \<Rightarrow> co_rc \<Rightarrow> mptr \<Rightarrow> co_message \<Rightarrow> co_manager \<Rightarrow> co_manager option" where
  "incoming_message close to_adapter dup_rc m msg mg = do {
     d \<leftarrow> mg_mons mg m;
     if unat (m_to msg) \<ge> CO_MONITOR_MODULES_COUNT then None
     else case md_modules d (unat (m_to msg)) of
         None \<Rightarrow> Some mg
       | Some p \<Rightarrow> do {
           (rc, mg) \<leftarrow> co_manager_open_ref p mg;
           if \<not> rc_ok rc then Some mg
           else do {
             mg \<leftarrow> (if to_adapter then Some mg
                    else do { (rc, waits, mg) \<leftarrow> co_manager_send close dup_rc p msg mg; Some mg });
             close p mg } } }"

text \<open>\<open>manager_read\<close>: the messages that fit, oldest first; or the read waits and holds a reference.\<close>

fun read_queue :: "nat \<Rightarrow> co_message list \<Rightarrow> co_message list \<times> co_message list" where
  "read_queue room [] = ([], [])"
| "read_queue room (msg # rest) =
     (if message_bytes msg > room then ([], msg # rest)
      else let (out, left) = read_queue (room - message_bytes msg) rest in (msg # out, left))"

definition manager_read :: "optr \<Rightarrow> irp \<Rightarrow> co_manager \<Rightarrow> co_manager option" where
  "manager_read p i mg = do {
     d \<leftarrow> mg_opens mg p;
     if \<not> od_active d then Some (complete_irp i IRP_PIPE_BROKEN [] mg)
     else if od_queue d \<noteq> [] then do {
       let (out, left) = read_queue (irp_room i) (rev (od_queue d));
       mg \<leftarrow> update_open p (\<lambda>d. d\<lparr>od_queue := rev left\<rparr>) mg;
       Some (complete_irp i (if out = [] then IRP_BUFFER_OVERFLOW else IRP_SUCCESS) out mg) }
     else if od_irp d \<noteq> None then Some (complete_irp i IRP_INVALID_PARAMETER [] mg)
     else update_open p (\<lambda>d. d\<lparr>od_ref := od_ref d + 1, od_irp := Some i\<rparr>) mg }"

definition manager_irp_cancel :: "closing \<Rightarrow> optr \<Rightarrow> irp \<Rightarrow> co_manager \<Rightarrow> co_manager option" where
  "manager_irp_cancel close p i mg = do {
     d \<leftarrow> mg_opens mg p;
     let mine = (od_irp d = Some i);
     mg \<leftarrow> update_open p (\<lambda>d. d\<lparr>od_irp := None\<rparr>) mg;
     let mg = complete_irp i IRP_CANCELLED [] mg;
     if mine then close p mg else Some mg }"

section \<open>Monitors of a descriptor\<close>

text \<open>The end of \<open>co_monitor_create\<close>: the new monitor joins the manager. \<open>created\<close> is what the rest of it
  answers: the monitor's address, its id and its memory.\<close>

definition list_monitor :: "mptr \<Rightarrow> u32 \<Rightarrow> u32 \<Rightarrow> bool \<Rightarrow> co_manager \<Rightarrow> co_manager" where
  "list_monitor m mid memory video mg =
     mg\<lparr>mg_mons := (mg_mons mg)(m \<mapsto> \<lparr>md_ref = 1, md_listed = True, md_id = mid, md_modules = (\<lambda>_. None),
          md_memory = memory, md_video_dev = video, md_video_user = CO_INVALID_ID\<rparr>),
        mg_monitors_count := mg_monitors_count mg + 1, mg_mon_list := m # mg_mon_list mg\<rparr>"

text \<open>The memory of a monitor in bytes: the configured or a default number of megabytes, at least 8 and at
  most \<open>CO_LOWMEMORY_MAX_MB\<close>, and the accounting of what the monitors use.\<close>

abbreviation CO_LOWMEMORY_MAX_MB :: u32 where "CO_LOWMEMORY_MAX_MB \<equiv> 984"

definition monitor_memory_size :: "u32 \<Rightarrow> u32 \<Rightarrow> u32" where
  "monitor_memory_size hostmem_amount ram_size =
     (let mb = (if ram_size = 0 then (if hostmem_amount \<ge> 128 then hostmem_amount div 4 else 16) else ram_size);
          mb = (if mb < 8 then 8 else if mb > CO_LOWMEMORY_MAX_MB then CO_LOWMEMORY_MAX_MB else mb)
      in push_bit 20 mb)"

definition set_hostmem_usage_limit :: "u32 \<Rightarrow> u32" where
  "set_hostmem_usage_limit hostmem_amount =
     push_bit 20 (if hostmem_amount \<ge> 256 then hostmem_amount - 64 else hostmem_amount * 3 div 4)"

definition reserve_hostmem :: "u32 \<Rightarrow> co_manager \<Rightarrow> co_rc \<times> co_manager" where
  "reserve_hostmem memory mg =
     (if mg_hostmem_used mg + memory > mg_hostmem_limit mg then (RC_HOSTMEM_USE_LIMIT_REACHED, mg)
      else (RC_OK, mg\<lparr>mg_hostmem_used := mg_hostmem_used mg + memory\<rparr>))"

text \<open>\<open>CO_MANAGER_IOCTL_CREATE\<close>: \<open>built\<close> is the result of the parts of \<open>co_monitor_create\<close> after the memory
  was reserved, which give it back when they fail.\<close>

definition ioctl_create ::
    "u32 \<Rightarrow> u32 \<Rightarrow> u32 \<Rightarrow> bool \<Rightarrow> (co_rc \<times> mptr) \<Rightarrow> optr \<Rightarrow> co_manager \<Rightarrow> (co_rc \<times> co_manager) option" where
  "ioctl_create hostmem_amount ram_size mid video built p mg = do {
     d \<leftarrow> mg_opens mg p;
     if od_monitor d \<noteq> None then Some (RC_ERROR, mg)
     else
       let memory = monitor_memory_size hostmem_amount ram_size;
           (rc, mg) = reserve_hostmem memory mg
       in if \<not> rc_ok rc then Some (rc, mg)
          else if \<not> rc_ok (fst built) then Some (fst built, mg\<lparr>mg_hostmem_used := mg_hostmem_used mg - memory\<rparr>)
          else do {
            mg \<leftarrow> update_open p (\<lambda>d. d\<lparr>od_monitor := Some (snd built), od_owner := True\<rparr>)
                    (list_monitor (snd built) mid memory video mg);
            Some (RC_OK, mg) } }"

fun find_monitor :: "co_manager \<Rightarrow> u32 \<Rightarrow> mptr list \<Rightarrow> mptr option option" where
  "find_monitor mg mid [] = Some None"
| "find_monitor mg mid (m # ms) = do {
     d \<leftarrow> mg_mons mg m;
     if md_id d = mid then Some (Some m) else find_monitor mg mid ms }"

fun monitor_ids :: "co_manager \<Rightarrow> mptr list \<Rightarrow> u32 list option" where
  "monitor_ids mg [] = Some []"
| "monitor_ids mg (m # ms) = do { d \<leftarrow> mg_mons mg m; ids \<leftarrow> monitor_ids mg ms; Some (md_id d # ids) }"

definition ioctl_monitor_list :: "co_manager \<Rightarrow> u32 list option" where
  "ioctl_monitor_list mg = monitor_ids mg (take CO_MAX_MONITORS (mg_mon_list mg))"

fun connect_modules :: "closing \<Rightarrow> mptr \<Rightarrow> optr \<Rightarrow> nat list \<Rightarrow> co_manager \<Rightarrow> co_manager option" where
  "connect_modules close m p [] mg = Some mg"
| "connect_modules close m p (i # is) mg = do {
     d \<leftarrow> mg_mons mg m;
     if i \<ge> CO_MONITOR_MODULES_COUNT then None
     else do {
       mg \<leftarrow> (case md_modules d i of None \<Rightarrow> Some mg | Some old \<Rightarrow> close old mg);
       mg \<leftarrow> update_mon m (\<lambda>d. d\<lparr>md_modules := (md_modules d)(i \<mapsto> p)\<rparr>) mg;
       mg \<leftarrow> update_open p (\<lambda>d. d\<lparr>od_ref := od_ref d + 1\<rparr>) mg;
       connect_modules close m p is mg } }"

definition ioctl_attach :: "closing \<Rightarrow> u32 \<Rightarrow> nat list \<Rightarrow> optr \<Rightarrow> co_manager \<Rightarrow> (co_rc \<times> co_manager) option" where
  "ioctl_attach close mid modules p mg = do {
     found \<leftarrow> find_monitor mg mid (mg_mon_list mg);
     (case found of
        None \<Rightarrow> do { mg \<leftarrow> update_open p (\<lambda>d. d\<lparr>od_monitor := None\<rparr>) mg; Some (RC_ERROR, mg) }
      | Some m \<Rightarrow> do {
          mg \<leftarrow> update_mon m (\<lambda>d. d\<lparr>md_ref := md_ref d + 1\<rparr>) mg;
          mg \<leftarrow> update_open p (\<lambda>d. d\<lparr>od_monitor := Some m\<rparr>) mg;
          mg \<leftarrow> connect_modules close m p modules mg;
          Some (RC_OK, mg) }) }"

definition ioctl_close :: "closing \<Rightarrow> u32 \<Rightarrow> optr \<Rightarrow> co_manager \<Rightarrow> co_manager option" where
  "ioctl_close close pid p mg = do {
     d \<leftarrow> mg_opens mg p;
     (case od_monitor d of
        None \<Rightarrow> Some mg
      | Some m \<Rightarrow> do {
          (rc, mg) \<leftarrow> co_monitor_refdown close pid m (od_owner d) mg;
          update_open p (\<lambda>d. d\<lparr>od_monitor := None, od_owner := False\<rparr>) mg }) }"

end
