(* ===== verification/CoRefs.thy ===== *)
theory CoRefs
  imports CoManager
begin

text \<open>
  Reference counts of the manager. The invariant says what every count means: the count of a descriptor is its
  open handle, its connected modules and its waiting read; the count of a monitor is the descriptors that
  use it. Every operation keeps it and follows no freed address, as long as a descriptor takes at most one
  monitor (which is what the daemons do).
\<close>

section \<open>What the counts mean\<close>

definition slots :: "co_manager \<Rightarrow> optr \<Rightarrow> (mptr \<times> nat) set" where
  "slots mg p = {(m, i). \<exists>d. mg_mons mg m = Some d \<and> md_modules d i = Some p}"

definition user_set :: "optr set \<Rightarrow> co_manager \<Rightarrow> mptr \<Rightarrow> optr set" where
  "user_set X mg m = {p. p \<notin> X \<and> (\<exists>d. mg_opens mg p = Some d \<and> od_monitor d = Some m)}"

definition waiting :: "open_desc \<Rightarrow> int" where
  "waiting d = (if od_irp d = None then 0 else 1)"

lemma waiting_nonneg: "waiting d \<ge> 0"
  by (simp add: waiting_def)

text \<open>\<open>E\<close>: the open handles; \<open>T\<close>: references an operation under way holds on descriptors; \<open>R\<close>: the same on
  monitors; \<open>X\<close>: descriptors that are being closed, or whose monitor is being taken away.\<close>

definition counts :: "optr set \<Rightarrow> (optr \<Rightarrow> nat) \<Rightarrow> (mptr \<Rightarrow> nat) \<Rightarrow> optr set \<Rightarrow> co_manager \<Rightarrow> bool" where
  "counts E T R X mg \<longleftrightarrow>
     (\<forall>p d. mg_opens mg p = Some d \<longrightarrow>
        od_ref d = of_bool (p \<in> E) + int (T p) + int (card (slots mg p)) + waiting d \<and> (p \<notin> X \<longrightarrow> od_ref d > 0)) \<and>
     (\<forall>m d. mg_mons mg m = Some d \<longrightarrow> md_ref d = int (R m) + int (card (user_set X mg m)) \<and> md_ref d > 0)"

definition shape :: "optr set \<Rightarrow> (optr \<Rightarrow> nat) \<Rightarrow> (mptr \<Rightarrow> nat) \<Rightarrow> optr set \<Rightarrow> co_manager \<Rightarrow> bool" where
  "shape E T R X mg \<longleftrightarrow>
     finite (dom (mg_opens mg)) \<and> finite (dom (mg_mons mg)) \<and>
     E \<subseteq> dom (mg_opens mg) \<and> {p. T p > 0} \<subseteq> dom (mg_opens mg) \<and> {m. R m > 0} \<subseteq> dom (mg_mons mg) \<and>
     (\<forall>m d i p. mg_mons mg m = Some d \<longrightarrow> md_modules d i = Some p \<longrightarrow> i < CO_MONITOR_MODULES_COUNT \<and>
        (\<exists>dp. mg_opens mg p = Some dp \<and> (od_monitor dp = None \<or> p \<in> E \<and> od_monitor dp = Some m))) \<and>
     (\<forall>p d m. mg_opens mg p = Some d \<longrightarrow> od_monitor d = Some m \<longrightarrow> p \<notin> X \<longrightarrow> m \<in> dom (mg_mons mg)) \<and>
     distinct (mg_open_list mg) \<and> set (mg_open_list mg) = dom (mg_opens mg) \<and>
     mg_num_opens mg = of_nat (length (mg_open_list mg))"

definition refs :: "optr set \<Rightarrow> (optr \<Rightarrow> nat) \<Rightarrow> (mptr \<Rightarrow> nat) \<Rightarrow> optr set \<Rightarrow> co_manager \<Rightarrow> bool" where
  "refs E T R X mg \<longleftrightarrow> shape E T R X mg \<and> counts E T R X mg"

lemma refs_ref:
  "refs E T R X mg \<Longrightarrow> mg_opens mg p = Some d \<Longrightarrow>
    od_ref d = of_bool (p \<in> E) + int (T p) + int (card (slots mg p)) + waiting d"
  "refs E T R X mg \<Longrightarrow> mg_opens mg p = Some d \<Longrightarrow> p \<notin> X \<Longrightarrow> od_ref d > 0"
  unfolding refs_def counts_def by blast+

lemma refs_mon:
  "refs E T R X mg \<Longrightarrow> mg_mons mg m = Some d \<Longrightarrow> md_ref d = int (R m) + int (card (user_set X mg m))"
  "refs E T R X mg \<Longrightarrow> mg_mons mg m = Some d \<Longrightarrow> md_ref d > 0"
  unfolding refs_def counts_def by blast+

lemma refs_module:
  assumes "refs E T R X mg" "mg_mons mg m = Some d" "md_modules d i = Some p"
  obtains dp where "i < CO_MONITOR_MODULES_COUNT" "mg_opens mg p = Some dp"
    "od_monitor dp = None \<or> p \<in> E \<and> od_monitor dp = Some m"
  using assms unfolding refs_def shape_def by blast

lemma refs_user:
  "refs E T R X mg \<Longrightarrow> mg_opens mg p = Some d \<Longrightarrow> od_monitor d = Some m \<Longrightarrow> p \<notin> X \<Longrightarrow> m \<in> dom (mg_mons mg)"
  unfolding refs_def shape_def by blast

lemma refs_held:
  assumes "refs E T R X mg"
  shows "finite (dom (mg_opens mg))" "finite (dom (mg_mons mg))" "E \<subseteq> dom (mg_opens mg)"
    "T p > 0 \<Longrightarrow> p \<in> dom (mg_opens mg)" "R m > 0 \<Longrightarrow> m \<in> dom (mg_mons mg)"
    "distinct (mg_open_list mg)" "set (mg_open_list mg) = dom (mg_opens mg)"
    "mg_num_opens mg = of_nat (length (mg_open_list mg))"
  using assms unfolding refs_def shape_def by blast+

lemma refsI:
  assumes "\<And>p d. mg_opens mg p = Some d \<Longrightarrow>
      od_ref d = of_bool (p \<in> E) + int (T p) + int (card (slots mg p)) + waiting d"
    and "\<And>p d. mg_opens mg p = Some d \<Longrightarrow> p \<notin> X \<Longrightarrow> od_ref d > 0"
    and "\<And>m d. mg_mons mg m = Some d \<Longrightarrow> md_ref d = int (R m) + int (card (user_set X mg m))"
    and "\<And>m d. mg_mons mg m = Some d \<Longrightarrow> md_ref d > 0"
    and "finite (dom (mg_opens mg))" "finite (dom (mg_mons mg))" "E \<subseteq> dom (mg_opens mg)"
    and "\<And>p. T p > 0 \<Longrightarrow> p \<in> dom (mg_opens mg)" "\<And>m. R m > 0 \<Longrightarrow> m \<in> dom (mg_mons mg)"
    and "\<And>m d i p. mg_mons mg m = Some d \<Longrightarrow> md_modules d i = Some p \<Longrightarrow> i < CO_MONITOR_MODULES_COUNT"
    and "\<And>m d i p. mg_mons mg m = Some d \<Longrightarrow> md_modules d i = Some p \<Longrightarrow>
      \<exists>dp. mg_opens mg p = Some dp \<and> (od_monitor dp = None \<or> p \<in> E \<and> od_monitor dp = Some m)"
    and "\<And>p d m. mg_opens mg p = Some d \<Longrightarrow> od_monitor d = Some m \<Longrightarrow> p \<notin> X \<Longrightarrow> m \<in> dom (mg_mons mg)"
    and "distinct (mg_open_list mg)" "set (mg_open_list mg) = dom (mg_opens mg)"
    and "mg_num_opens mg = of_nat (length (mg_open_list mg))"
  shows "refs E T R X mg"
proof -
  have "counts E T R X mg" unfolding counts_def using assms(1-4) by blast
  moreover have "shape E T R X mg"
    unfolding shape_def using assms(5-7,10-15) assms(8,9) by (intro conjI) blast+
  ultimately show ?thesis by (simp add: refs_def)
qed

lemma refs_moduleD:
  assumes "refs E T R X mg" "mg_mons mg m = Some d" "md_modules d i = Some p"
  shows "i < CO_MONITOR_MODULES_COUNT"
    "\<exists>dp. mg_opens mg p = Some dp \<and> (od_monitor dp = None \<or> p \<in> E \<and> od_monitor dp = Some m)"
  using refs_module [OF assms] by metis+

lemma finite_slots: "refs E T R X mg \<Longrightarrow> finite (slots mg p)"
proof -
  assume r: "refs E T R X mg"
  have "slots mg p \<subseteq> dom (mg_mons mg) \<times> {..<CO_MONITOR_MODULES_COUNT}"
    using refs_module [OF r] by (fastforce simp: slots_def)
  then show ?thesis using r by (meson finite_SigmaI finite_lessThan finite_subset refs_def shape_def)
qed

lemma finite_user_set: "refs E T R X mg \<Longrightarrow> finite (user_set X mg m)"
  unfolding refs_def shape_def user_set_def
  by (elim conjE, rule finite_subset [of _ "dom (mg_opens mg)"]) auto

text \<open>Nothing but the tables matters.\<close>

lemma slots_cong: "mg_mons mg = mg_mons mg' \<Longrightarrow> slots mg p = slots mg' p"
  by (simp add: slots_def)

lemma user_set_cong:
  assumes "\<And>q. q \<notin> X \<Longrightarrow> map_option od_monitor (mg_opens mg q) = map_option od_monitor (mg_opens mg' q)"
  shows "user_set X mg m = user_set X mg' m"
proof -
  have "(\<exists>d. mg_opens mg q = Some d \<and> od_monitor d = Some m) \<longleftrightarrow> (\<exists>d. mg_opens mg' q = Some d \<and> od_monitor d = Some m)"
    if "q \<notin> X" for q
    using assms [OF that] by (cases "mg_opens mg q"; cases "mg_opens mg' q") auto
  then show ?thesis unfolding user_set_def by blast
qed

lemma refs_done [simp]:
  "refs E T R X (complete_irp i st ms mg) \<longleftrightarrow> refs E T R X mg"
  by (simp add: complete_irp_def refs_def shape_def counts_def slots_def user_set_def)

section \<open>Giving up a reference\<close>

text \<open>What closing leaves alone.\<close>

definition closes :: "co_manager \<Rightarrow> co_manager \<Rightarrow> bool" where
  "closes mg mg' \<longleftrightarrow>
     mg_mon_list mg' = mg_mon_list mg \<and> mg_monitors_count mg' = mg_monitors_count mg \<and>
     mg_hostmem_used mg' = mg_hostmem_used mg \<and> mg_hostmem_limit mg' = mg_hostmem_limit mg \<and>
     (\<forall>p d'. mg_opens mg' p = Some d' \<longrightarrow> (\<exists>d. mg_opens mg p = Some d \<and> od_monitor d' = od_monitor d \<and>
        od_owner d' = od_owner d \<and> (od_irp d' = od_irp d \<or> od_irp d' = None))) \<and>
     (\<forall>p d. mg_opens mg p = Some d \<longrightarrow> od_monitor d \<noteq> None \<longrightarrow> mg_opens mg' p \<noteq> None)"

lemma closes_trans:
  assumes "closes mg mg'" "closes mg' mg''"
  shows "closes mg mg''"
proof -
  have "mg_opens mg'' p \<noteq> None" if p: "mg_opens mg p = Some d" "od_monitor d \<noteq> None" for p d
  proof -
    obtain d' where d': "mg_opens mg' p = Some d'" using assms(1) p unfolding closes_def by blast
    then have "od_monitor d' = od_monitor d" using assms(1) p unfolding closes_def by fastforce
    then show ?thesis using assms(2) d' p unfolding closes_def by metis
  qed
  moreover have "\<exists>d. mg_opens mg p = Some d \<and> od_monitor d'' = od_monitor d \<and> od_owner d'' = od_owner d \<and>
      (od_irp d'' = od_irp d \<or> od_irp d'' = None)" if d'': "mg_opens mg'' p = Some d''" for p d''
  proof -
    obtain d' where d': "mg_opens mg' p = Some d'" "od_monitor d'' = od_monitor d'" "od_owner d'' = od_owner d'"
      "od_irp d'' = od_irp d' \<or> od_irp d'' = None" using assms(2) d'' unfolding closes_def by fast
    obtain d where "mg_opens mg p = Some d" "od_monitor d' = od_monitor d" "od_owner d' = od_owner d"
      "od_irp d' = od_irp d \<or> od_irp d' = None" using assms(1) d'(1) unfolding closes_def by fast
    then show ?thesis using d' by auto
  qed
  ultimately show ?thesis using assms unfolding closes_def by simp
qed

lemma closes_refl: "closes mg mg"
  by (simp add: closes_def)

text \<open>One descriptor changes its count, and what it waits for.\<close>

lemma refs_open_upd:
  assumes r: "refs E T R X mg" and d: "mg_opens mg p = Some d" and mon: "od_monitor d' = od_monitor d \<or> p \<in> X \<and> od_monitor d' = None"
    and ref: "od_ref d' - waiting d' - int t = od_ref d - waiting d - int (T p)" "p \<notin> X \<longrightarrow> od_ref d' > 0"
  shows "refs E (T(p := t)) R X (mg\<lparr>mg_opens := (mg_opens mg)(p \<mapsto> d')\<rparr>)"
proof -
  let ?mg = "mg\<lparr>mg_opens := (mg_opens mg)(p \<mapsto> d')\<rparr>"
  have u: "user_set X ?mg m = user_set X mg m" for m
  proof (rule user_set_cong)
    fix q assume "q \<notin> X"
    then show "map_option od_monitor (mg_opens ?mg q) = map_option od_monitor (mg_opens mg q)"
      using d mon by (cases "q = p") auto
  qed
  have sl: "slots ?mg q = slots mg q" for q by (simp add: slots_def)
  have dom: "dom (mg_opens ?mg) = dom (mg_opens mg)" using d by auto
  show ?thesis
  proof (rule refsI, unfold u sl dom)
    fix q e assume q: "mg_opens ?mg q = Some e"
    show "od_ref e = of_bool (q \<in> E) + int ((T(p := t)) q) + int (card (slots mg q)) + waiting e"
      using q refs_ref(1) [OF r, of q] refs_ref(1) [OF r d] ref by (cases "q = p") auto
    show "od_ref e > 0" if "q \<notin> X"
      using q refs_ref(2) [OF r _ that] ref that by (cases "q = p") auto
  next
    fix m dm i q assume m: "mg_mons ?mg m = Some dm" "md_modules dm i = Some q"
    then obtain dp where "mg_opens mg q = Some dp" "od_monitor dp = None \<or> q \<in> E \<and> od_monitor dp = Some m"
      using refs_moduleD(2) [OF r, of m dm i q] by auto
    then show "\<exists>dp. mg_opens ?mg q = Some dp \<and> (od_monitor dp = None \<or> q \<in> E \<and> od_monitor dp = Some m)"
      using d mon by (cases "q = p") auto
    show "i < CO_MONITOR_MODULES_COUNT" using m refs_moduleD(1) [OF r, of m dm i q] by simp
  next
    fix q e m assume q: "mg_opens ?mg q = Some e" "od_monitor e = Some m" "q \<notin> X"
    have "\<exists>e'. mg_opens mg q = Some e' \<and> od_monitor e' = Some m"
    proof (cases "q = p")
      case True
      then have "od_monitor d' = od_monitor d" "e = d'" using q(1,3) mon by auto
      then show ?thesis using d True q(2) by simp
    qed (use q in simp)
    then show "m \<in> dom (mg_mons ?mg)" using refs_user [OF r _ _ q(3)] by auto
  next
    fix q assume "(T(p := t)) q > 0"
    then show "q \<in> dom (mg_opens mg)" using refs_held(4) [OF r, of q] d by (cases "q = p") auto
  qed (use refs_mon [OF r] refs_held [OF r] in auto)
qed

text \<open>One monitor changes its modules or its count.\<close>

lemma refs_mon_upd:
  assumes r: "refs E T R X mg" and d: "mg_mons mg m = Some d"
    and ref: "md_ref d' - int k = md_ref d - int (R m)" "md_ref d' > 0"
    and mods: "\<And>i p. md_modules d' i = Some p \<Longrightarrow> md_modules d i = Some p \<or> (i < CO_MONITOR_MODULES_COUNT \<and>
        (\<exists>dp. mg_opens mg p = Some dp \<and> (od_monitor dp = None \<or> p \<in> E \<and> od_monitor dp = Some m)))"
    and t: "\<And>p. int (t p) + int (card (slots (mg\<lparr>mg_mons := (mg_mons mg)(m \<mapsto> d')\<rparr>) p)) = int (T p) + int (card (slots mg p))"
    and td: "\<And>p. t p > 0 \<Longrightarrow> p \<in> dom (mg_opens mg)"
  shows "refs E t (R(m := k)) X (mg\<lparr>mg_mons := (mg_mons mg)(m \<mapsto> d')\<rparr>)"
proof -
  let ?mg = "mg\<lparr>mg_mons := (mg_mons mg)(m \<mapsto> d')\<rparr>"
  have u: "user_set X ?mg m = user_set X mg m" for m by (simp add: user_set_def)
  have dom: "dom (mg_mons ?mg) = dom (mg_mons mg)" using d by auto
  show ?thesis
  proof (rule refsI, unfold u dom)
    fix q e assume q: "mg_opens ?mg q = Some e"
    show "od_ref e = of_bool (q \<in> E) + int (t q) + int (card (slots ?mg q)) + waiting e"
      using q refs_ref(1) [OF r, of q] t [of q] by simp
    show "q \<notin> X \<Longrightarrow> od_ref e > 0" using q refs_ref(2) [OF r] by simp
  next
    fix x dm i q assume m: "mg_mons ?mg x = Some dm" "md_modules dm i = Some q"
    show "i < CO_MONITOR_MODULES_COUNT"
      using m mods [of i q] refs_moduleD(1) [OF r, of x _ i q] d by (cases "x = m") auto
    show "\<exists>dp. mg_opens ?mg q = Some dp \<and> (od_monitor dp = None \<or> q \<in> E \<and> od_monitor dp = Some x)"
      using m mods [of i q] refs_moduleD(2) [OF r, of x _ i q] d by (cases "x = m") auto
  next
    fix x dm assume "mg_mons ?mg x = Some dm"
    then show "md_ref dm = int ((R(m := k)) x) + int (card (user_set X mg x))" "md_ref dm > 0"
      using refs_mon [OF r] d ref by (cases "x = m"; fastforce)+
  next
    fix x assume "(R(m := k)) x > 0"
    then show "x \<in> dom (mg_mons mg)" using refs_held(5) [OF r, of x] d by (cases "x = m") auto
  qed (use refs_held [OF r] refs_user [OF r] td in auto)
qed

lemma slots_mon_upd:
  "slots (mg\<lparr>mg_mons := (mg_mons mg)(m \<mapsto> d')\<rparr>) p = {(x, i) \<in> slots mg p. x \<noteq> m} \<union> {(x, i). x = m \<and> md_modules d' i = Some p}"
  by (auto simp: slots_def split: if_splits)

lemma slot_out:
  assumes r: "refs E T R X mg" and d: "mg_mons mg m = Some d" and i: "md_modules d i = Some p"
  shows "refs E (T(p := T p + 1)) R X (mg\<lparr>mg_mons := (mg_mons mg)(m \<mapsto> d\<lparr>md_modules := (md_modules d)(i := None)\<rparr>)\<rparr>)"
proof -
  let ?d = "d\<lparr>md_modules := (md_modules d)(i := None)\<rparr>"
  have sl: "slots (mg\<lparr>mg_mons := (mg_mons mg)(m \<mapsto> ?d)\<rparr>) q = (if q = p then slots mg q - {(m, i)} else slots mg q)" for q
    unfolding slots_mon_upd using d i by (auto simp: slots_def split: if_splits)
  have "(m, i) \<in> slots mg p" using d i by (simp add: slots_def)
  then have c: "card (slots mg p) = Suc (card (slots mg p - {(m, i)}))"
    using finite_slots [OF r, of p] by (metis card.remove)
  have "refs E (T(p := T p + 1)) (R(m := R m)) X (mg\<lparr>mg_mons := (mg_mons mg)(m \<mapsto> ?d)\<rparr>)"
  proof (rule refs_mon_upd [OF r d])
    show "(T(p := T p + 1)) q > 0 \<Longrightarrow> q \<in> dom (mg_opens mg)" for q
      using refs_held(4) [OF r, of q] refs_moduleD(2) [OF r d i] by (cases "q = p") auto
  qed (use refs_mon(2) [OF r d] c in \<open>auto simp: sl split: if_splits\<close>)
  then show ?thesis by simp
qed

lemma refs_free:
  assumes r: "refs E T R X mg" and d: "mg_opens mg p = Some d" and p: "p \<notin> E" "slots mg p = {}"
    and mon: "od_monitor d = None" and Y: "Y - {p} = X - {p}"
  shows "refs E (T(p := 0)) R Y (mg\<lparr>mg_open_list := remove1 p (mg_open_list mg), mg_num_opens := mg_num_opens mg - 1,
      mg_opens := (mg_opens mg)(p := None)\<rparr>)"
proof -
  let ?mg = "mg\<lparr>mg_open_list := remove1 p (mg_open_list mg), mg_num_opens := mg_num_opens mg - 1,
      mg_opens := (mg_opens mg)(p := None)\<rparr>"
  have Y': "q \<noteq> p \<Longrightarrow> q \<in> Y \<longleftrightarrow> q \<in> X" for q using Y by blast
  have u: "user_set Y ?mg m = user_set X mg m" for m
    unfolding user_set_def using d mon Y' by (intro Collect_cong) auto
  have sl: "slots ?mg q = slots mg q" for q by (simp add: slots_def)
  have "p \<in> set (mg_open_list mg)" using refs_held(7) [OF r] d by auto
  then have len: "length (mg_open_list mg) = Suc (length (remove1 p (mg_open_list mg)))"
    by (metis Suc_pred' length_pos_if_in_set length_remove1)
  have nomod: "q \<noteq> p" if "mg_mons mg m = Some dm" "md_modules dm i = Some q" for m dm i q
    using p(2) that by (auto simp: slots_def)
  show ?thesis
  proof (rule refsI, unfold u sl)
    fix m dm i q assume m: "mg_mons ?mg m = Some dm" "md_modules dm i = Some q"
    then show "i < CO_MONITOR_MODULES_COUNT"
      "\<exists>dp. mg_opens ?mg q = Some dp \<and> (od_monitor dp = None \<or> q \<in> E \<and> od_monitor dp = Some m)"
      using refs_moduleD [OF r, of m dm i q] nomod [of m dm i q] by auto
  next
    fix q e m assume "mg_opens ?mg q = Some e" "od_monitor e = Some m" "q \<notin> Y"
    then show "m \<in> dom (mg_mons ?mg)" using refs_user [OF r, of q e] Y' by (auto split: if_splits)
  next
    fix q assume "(T(p := 0)) q > 0"
    then show "q \<in> dom (mg_opens ?mg)" using refs_held(4) [OF r, of q] by (auto split: if_splits)
  next
    fix q e assume "mg_opens ?mg q = Some e" "q \<notin> Y"
    then show "od_ref e > 0" using refs_ref(2) [OF r, of q e] Y' by (auto split: if_splits)
  next
    show "mg_num_opens ?mg = of_nat (length (mg_open_list ?mg))" using refs_held(8) [OF r] len by simp
  qed (use refs_mon [OF r] refs_ref(1) [OF r] refs_held [OF r] p in \<open>auto split: if_splits\<close>)
qed

text \<open>Closing when the descriptor has no monitor: it stays, or it goes.\<close>

lemma close_unit:
  assumes r: "refs E T R X mg" and T: "T p > 0" and k: "k > 0"
    and mon: "\<And>d. mg_opens mg p = Some d \<Longrightarrow> od_ref d = 1 \<Longrightarrow> od_monitor d = None"
  obtains mg' where "co_manager_close k pid p mg = Some mg'" "refs E (T(p := T p - 1)) R X mg'"
    "closes mg mg'" "mg_mons mg' = mg_mons mg" "\<And>x. co_manager_close k pid p (mg\<lparr>mg_mons := x\<rparr>) = Some (mg'\<lparr>mg_mons := x\<rparr>)"
    "\<And>q. q \<noteq> p \<Longrightarrow> mg_opens mg' q = mg_opens mg q"
proof -
  obtain d where d: "mg_opens mg p = Some d" using refs_held(4) [OF r T] by auto
  obtain k' where k': "k = Suc k'" using k gr0_implies_Suc by blast
  show thesis
  proof (cases "od_ref d = 1")
    case False
    have "od_ref d \<ge> 1" using refs_ref(1) [OF r d] T waiting_nonneg [of d] by simp
    then have pos: "od_ref d > 1" using False by simp
    show thesis
    proof (rule that)
      show "co_manager_close k pid p mg = Some (mg\<lparr>mg_opens := (mg_opens mg)(p \<mapsto> d\<lparr>od_ref := od_ref d - 1\<rparr>)\<rparr>)"
        using d False k' by (simp add: update_open_def)
      show "co_manager_close k pid p (mg\<lparr>mg_mons := x\<rparr>) =
          Some ((mg\<lparr>mg_opens := (mg_opens mg)(p \<mapsto> d\<lparr>od_ref := od_ref d - 1\<rparr>)\<rparr>)\<lparr>mg_mons := x\<rparr>)" for x
        using d False k' by (simp add: update_open_def)
    qed (use refs_open_upd [OF r d, of "d\<lparr>od_ref := od_ref d - 1\<rparr>" "T p - 1"] T pos d in \<open>auto simp: closes_def waiting_def\<close>)
  next
    case True
    have "of_bool (p \<in> E) + int (T p) + int (card (slots mg p)) + waiting d = 1"
      using refs_ref(1) [OF r d] True by simp
    then have z: "T p = 1" "p \<notin> E" "card (slots mg p) = 0" "waiting d = 0"
      using T waiting_nonneg [of d] by (cases "p \<in> E"; simp; linarith)+
    then have z': "slots mg p = {}" "od_irp d = None" using finite_slots [OF r, of p] by (auto simp: waiting_def split: if_splits)
    have T': "T(p := T p - 1) = T(p := 0)" using z by simp
    show thesis
    proof (rule that)
      show "co_manager_close k pid p mg = Some (mg\<lparr>mg_open_list := remove1 p (mg_open_list mg),
          mg_num_opens := mg_num_opens mg - 1, mg_opens := (mg_opens mg)(p := None)\<rparr>)"
        using d True mon [OF d True] z' k'
        by (simp add: update_open_def co_manager_close_last_def co_os_manager_userspace_close_def)
      show "co_manager_close k pid p (mg\<lparr>mg_mons := x\<rparr>) = Some ((mg\<lparr>mg_open_list := remove1 p (mg_open_list mg),
          mg_num_opens := mg_num_opens mg - 1, mg_opens := (mg_opens mg)(p := None)\<rparr>)\<lparr>mg_mons := x\<rparr>)" for x
        using d True mon [OF d True] z' k'
        by (simp add: update_open_def co_manager_close_last_def co_os_manager_userspace_close_def)
    qed (use refs_free [OF r d z(2) z'(1) mon [OF d True], of X] T' mon [OF d True] d in \<open>auto simp: closes_def split: if_splits\<close>)
  qed
qed

section \<open>End of file\<close>

lemma refs_fields [simp]:
  "refs E T R X (mg\<lparr>mg_mon_list := l\<rparr>) \<longleftrightarrow> refs E T R X mg"
  "refs E T R X (mg\<lparr>mg_monitors_count := c\<rparr>) \<longleftrightarrow> refs E T R X mg"
  "refs E T R X (mg\<lparr>mg_hostmem_used := u\<rparr>) \<longleftrightarrow> refs E T R X mg"
  by (simp_all add: refs_def shape_def counts_def slots_def user_set_def)

lemma done_fields [simp]:
  "mg_mons (complete_irp i st ms mg) = mg_mons mg" "mg_opens (complete_irp i st ms mg) = mg_opens mg"
  "closes mg0 (complete_irp i st ms mg) \<longleftrightarrow> closes mg0 mg"
  by (simp_all add: complete_irp_def closes_def)

text \<open>Closing gives back the reference that was just taken.\<close>

lemma close_back:
  assumes r: "refs E (T(p := T p + 1)) R X mg" and k: "k > 0"
    and mon: "\<And>d. mg_opens mg p = Some d \<Longrightarrow> od_ref d = 1 \<Longrightarrow> od_monitor d = None"
  shows "\<exists>mg'. co_manager_close k pid p mg = Some mg' \<and> refs E T R X mg' \<and> closes mg mg' \<and> mg_mons mg' = mg_mons mg \<and>
    (\<forall>x. co_manager_close k pid p (mg\<lparr>mg_mons := x\<rparr>) = Some (mg'\<lparr>mg_mons := x\<rparr>)) \<and>
    (\<forall>q. q \<noteq> p \<longrightarrow> mg_opens mg' q = mg_opens mg q)"
proof -
  have "(T(p := T p + 1)) p > 0" by simp
  from close_unit [where pid = pid, OF r this k mon] obtain mg' where
    c: "co_manager_close k pid p mg = Some mg'" "refs E ((T(p := T p + 1))(p := (T(p := T p + 1)) p - 1)) R X mg'"
      "closes mg mg'" "mg_mons mg' = mg_mons mg"
      "\<And>x. co_manager_close k pid p (mg\<lparr>mg_mons := x\<rparr>) = Some (mg'\<lparr>mg_mons := x\<rparr>)"
      "\<And>q. q \<noteq> p \<Longrightarrow> mg_opens mg' q = mg_opens mg q" by metis
  have "(T(p := T p + 1))(p := (T(p := T p + 1)) p - 1) = T" by simp
  then show ?thesis using c by metis
qed

lemma send_eof_unit:
  assumes r: "refs E T R X mg" and k: "k > 0" and d: "mg_opens mg p = Some d" and ref: "od_ref d > waiting d"
  obtains mg' where "co_manager_send_eof (co_manager_close k pid) p mg = Some mg'" "refs E T R X mg'"
    "closes mg mg'" "mg_mons mg' = mg_mons mg" "mg_opens mg' p \<noteq> None"
    "\<forall>q. q \<noteq> p \<longrightarrow> mg_opens mg' q = mg_opens mg q"
proof (cases "od_irp d")
  case None
  let ?mg = "mg\<lparr>mg_opens := (mg_opens mg)(p \<mapsto> d\<lparr>od_active := False\<rparr>)\<rparr>"
  have "refs E (T(p := T p)) R X ?mg"
    by (rule refs_open_upd [OF r d]) (use refs_ref(2) [OF r d] in \<open>auto simp: waiting_def\<close>)
  then show thesis
    using None d by (intro that [of ?mg]) (auto simp: co_manager_send_eof_def co_os_manager_userspace_eof_def update_open_def closes_def)
next
  case (Some i)
  let ?d = "d\<lparr>od_active := False, od_irp := None\<rparr>"
  let ?mg = "mg\<lparr>mg_opens := (mg_opens mg)(p \<mapsto> ?d)\<rparr>"
  have r1: "refs E (T(p := T p + 1)) R X ?mg"
    by (rule refs_open_upd [OF r d]) (use refs_ref(2) [OF r d] Some in \<open>auto simp: waiting_def\<close>)
  have "od_ref d \<noteq> 1" using ref Some by (simp add: waiting_def)
  then obtain mg' where c: "co_manager_close k pid p ?mg = Some mg'" "refs E T R X mg'" "closes ?mg mg'" "mg_mons mg' = mg_mons ?mg"
    "\<forall>q. q \<noteq> p \<longrightarrow> mg_opens mg' q = mg_opens ?mg q"
    using close_back [where pid = pid, OF r1 k] by auto
  have "mg_opens mg' p \<noteq> None"
  proof -
    obtain k' where "k = Suc k'" using k gr0_implies_Suc by blast
    then have "mg' = ?mg\<lparr>mg_opens := (mg_opens ?mg)(p \<mapsto> ?d\<lparr>od_ref := od_ref d - 1\<rparr>)\<rparr>"
      using c(1) \<open>od_ref d \<noteq> 1\<close> by (simp add: update_open_def)
    then show ?thesis by simp
  qed
  moreover have "closes mg (complete_irp i IRP_PIPE_BROKEN [] mg')"
  proof -
    have "closes mg ?mg" using d by (auto simp: closes_def)
    then show ?thesis using c(3) closes_trans by simp
  qed
  ultimately show thesis
    using c Some d
    by (intro that [of "complete_irp i IRP_PIPE_BROKEN [] mg'"])
      (auto simp: co_manager_send_eof_def co_os_manager_userspace_eof_def update_open_def)
qed

definition without_modules :: "nat set \<Rightarrow> mon_desc \<Rightarrow> mon_desc" where
  "without_modules I d = d\<lparr>md_modules := (\<lambda>i. if i \<in> I then None else md_modules d i)\<rparr>"

lemma without_modules_upd:
  "without_modules I (d\<lparr>md_modules := (md_modules d)(i := None)\<rparr>) = without_modules (insert i I) d"
  by (rule mon_desc.equality) (auto simp: without_modules_def)

lemma end_messages_refs:
  assumes k: "k > 0" and r: "refs E T R X mg" and m: "mg_mons mg m = Some d"
  shows "\<exists>mg'. send_monitor_end_messages (co_manager_close k pid) m is mg = Some mg' \<and> refs E T R X mg' \<and>
    closes mg mg' \<and> mg_mons mg' = (mg_mons mg)(m \<mapsto> without_modules (set is) d) \<and>
    (\<forall>q. (\<forall>i\<in>set is. md_modules d i \<noteq> Some q) \<longrightarrow> mg_opens mg' q = mg_opens mg q)"
  using r m
proof (induction "is" arbitrary: mg d)
  case Nil
  then show ?case by (auto simp: without_modules_def closes_refl fun_upd_idem)
next
  case (Cons i "is")
  note r = Cons.prems(1) and m = Cons.prems(2)
  show ?case
  proof (cases "md_modules d i")
    case None
    have "without_modules (set is) d = without_modules (set (i # is)) d"
    proof -
      have "(\<lambda>j. if j \<in> set is then None else md_modules d j) = (\<lambda>j. if j \<in> set (i # is) then None else md_modules d j)"
        using None by (intro ext) auto
      then show ?thesis unfolding without_modules_def by simp
    qed
    then show ?thesis using Cons.IH [OF r m] None m by simp
  next
    case (Some p)
    obtain dp where dp: "mg_opens mg p = Some dp" "od_monitor dp = None \<or> p \<in> E"
      using refs_moduleD(2) [OF r m Some] by auto
    have "(m, i) \<in> slots mg p" using m Some by (simp add: slots_def)
    then have "card (slots mg p) > 0" using finite_slots [OF r, of p] by (auto simp: card_gt_0_iff)
    then have "od_ref dp > waiting dp" using refs_ref(1) [OF r dp(1)] by simp
    then obtain mg1 where e: "co_manager_send_eof (co_manager_close k pid) p mg = Some mg1" "refs E T R X mg1"
      "closes mg mg1" "mg_mons mg1 = mg_mons mg" "mg_opens mg1 p \<noteq> None"
      "\<forall>q. q \<noteq> p \<longrightarrow> mg_opens mg1 q = mg_opens mg q"
      using send_eof_unit [OF r k dp(1)] by metis
    have m1: "mg_mons mg1 m = Some d" using e(4) m by simp
    let ?d = "d\<lparr>md_modules := (md_modules d)(i := None)\<rparr>"
    let ?mg = "mg1\<lparr>mg_mons := (mg_mons mg1)(m \<mapsto> ?d)\<rparr>"
    have r2: "refs E (T(p := T p + 1)) R X ?mg" by (rule slot_out [OF e(2) m1 Some])
    have mon: "od_monitor dd = None" if "mg_opens ?mg p = Some dd" "od_ref dd = 1" for dd
    proof -
      have "p \<notin> E" using refs_ref(1) [OF r2 that(1)] that(2) waiting_nonneg [of dd] by (cases "p \<in> E") auto
      then show ?thesis using refs_moduleD(2) [OF e(2) m1 Some] that(1) by auto
    qed
    obtain mg2 where c: "co_manager_close k pid p ?mg = Some mg2" "refs E T R X mg2" "closes ?mg mg2" "mg_mons mg2 = mg_mons ?mg"
      "\<forall>q. q \<noteq> p \<longrightarrow> mg_opens mg2 q = mg_opens ?mg q"
      using close_back [where pid = pid, OF r2 k mon] by metis
    have m2: "mg_mons mg2 m = Some ?d" using c(4) by simp
    have r3: "refs E T R X mg2" using c(2) .
    from Cons.IH [OF r3 m2] obtain mg3 where
      i: "send_monitor_end_messages (co_manager_close k pid) m is mg2 = Some mg3" "refs E T R X mg3"
        "closes mg2 mg3" "mg_mons mg3 = (mg_mons mg2)(m \<mapsto> without_modules (set is) ?d)"
        "\<forall>q. (\<forall>i\<in>set is. md_modules ?d i \<noteq> Some q) \<longrightarrow> mg_opens mg3 q = mg_opens mg2 q" by blast
    have "without_modules (set is) ?d = without_modules (set (i # is)) d"
      by (simp add: without_modules_upd)
    moreover have "closes mg mg3"
      using e(3) c(3) i(3) closes_trans [of mg mg1 mg2] closes_trans [of mg mg2 mg3] by (simp add: closes_def)
    moreover have "mg_mons mg3 = (mg_mons mg)(m \<mapsto> without_modules (set is) ?d)"
      using i(4) c(4) e(4) by simp
    moreover have "mg_opens mg3 q = mg_opens mg q" if "\<forall>j\<in>set (i # is). md_modules d j \<noteq> Some q" for q
    proof -
      have "q \<noteq> p" "\<forall>j\<in>set is. md_modules ?d j \<noteq> Some q" using that Some by auto
      then show ?thesis using i(5) c(5) e(6) by simp
    qed
    moreover have "send_monitor_end_messages (co_manager_close k pid) m (i # is) mg = Some mg3"
      using i(1) c(1) e(1) m Some m1 by (simp add: update_mon_def)
    ultimately show ?thesis using i(2) by (intro exI [of _ mg3]) simp
  qed
qed

section \<open>Giving up a monitor\<close>

lemma refs_mon_same:
  assumes r: "refs E T R X mg" and d: "mg_mons mg m = Some d"
    and s: "md_ref d' - int j = md_ref d - int (R m)" "md_ref d' > 0" "md_modules d' = md_modules d"
  shows "refs E T (R(m := j)) X (mg\<lparr>mg_mons := (mg_mons mg)(m \<mapsto> d')\<rparr>)"
proof (rule refs_mon_upd [OF r d s(1,2)])
  have "slots (mg\<lparr>mg_mons := (mg_mons mg)(m \<mapsto> d')\<rparr>) p = slots mg p" for p
    using d s(3) by (auto simp: slots_def split: if_splits)
  then show "int (T p) + int (card (slots (mg\<lparr>mg_mons := (mg_mons mg)(m \<mapsto> d')\<rparr>) p)) = int (T p) + int (card (slots mg p))" for p
    by simp
qed (use s(3) refs_held(4) [OF r] in auto)

lemma refs_mon_free:
  assumes r: "refs E T R X mg" and d: "mg_mons mg m = Some d" "md_ref d = 1" "R m = 1"
    and mods: "md_modules d = (\<lambda>_. None)"
  shows "refs E T (R(m := 0)) X (mg\<lparr>mg_mons := (mg_mons mg)(m := None)\<rparr>)"
proof -
  let ?mg = "mg\<lparr>mg_mons := (mg_mons mg)(m := None)\<rparr>"
  have sl: "slots ?mg q = slots mg q" for q using d mods by (auto simp: slots_def split: if_splits)
  have u: "user_set X ?mg x = user_set X mg x" for x by (simp add: user_set_def)
  have "card (user_set X mg m) = 0" using refs_mon(1) [OF r d(1)] d by simp
  then have nouser: "user_set X mg m = {}" using finite_user_set [OF r, of m] by simp
  show ?thesis
  proof (rule refsI, unfold sl u)
    fix x dm i q assume x: "mg_mons ?mg x = Some dm" "md_modules dm i = Some q"
    then have "mg_mons mg x = Some dm" by (simp split: if_splits)
    from refs_moduleD [OF r this x(2)]
    show "i < CO_MONITOR_MODULES_COUNT"
      "\<exists>dp. mg_opens ?mg q = Some dp \<and> (od_monitor dp = None \<or> q \<in> E \<and> od_monitor dp = Some x)" by simp_all
  next
    fix q e x assume q: "mg_opens ?mg q = Some e" "od_monitor e = Some x" "q \<notin> X"
    then have "x \<noteq> m" using nouser by (auto simp: user_set_def)
    then show "x \<in> dom (mg_mons ?mg)" using refs_user [OF r _ q(2,3)] q(1) by simp
  next
    fix x assume "(R(m := 0)) x > 0"
    then show "x \<in> dom (mg_mons ?mg)" using refs_held(5) [OF r, of x] by (auto split: if_splits)
  next
    fix x dm assume "mg_mons ?mg x = Some dm"
    then show "md_ref dm = int ((R(m := 0)) x) + int (card (user_set X mg x))" "md_ref dm > 0"
      using refs_mon [OF r, of x dm] by (simp_all split: if_splits)
  qed (use refs_ref [OF r] refs_held [OF r] in auto)
qed

definition opens_kept :: "co_manager \<Rightarrow> co_manager \<Rightarrow> bool" where
  "opens_kept mg mg' \<longleftrightarrow>
     (\<forall>p d'. mg_opens mg' p = Some d' \<longrightarrow> (\<exists>d. mg_opens mg p = Some d \<and> od_monitor d' = od_monitor d \<and> od_owner d' = od_owner d)) \<and>
     (\<forall>p d. mg_opens mg p = Some d \<longrightarrow> od_monitor d \<noteq> None \<longrightarrow> mg_opens mg' p \<noteq> None) \<and>
     (\<forall>q. slots mg q = {} \<longrightarrow> mg_opens mg' q = mg_opens mg q)"

definition gone :: "mptr \<Rightarrow> bool \<Rightarrow> mon_desc \<Rightarrow> co_manager \<Rightarrow> co_manager \<Rightarrow> bool" where
  "gone m mo d mg mg' \<longleftrightarrow>
     mg_mon_list mg' = (if mo \<and> md_listed d then remove1 m (mg_mon_list mg) else mg_mon_list mg) \<and>
     mg_monitors_count mg' = (if mo \<and> md_listed d then mg_monitors_count mg - 1 else mg_monitors_count mg) \<and>
     mg_hostmem_limit mg' = mg_hostmem_limit mg \<and>
     mg_hostmem_used mg' = (if md_ref d = 1 then mg_hostmem_used mg - md_memory d else mg_hostmem_used mg) \<and>
     (if md_ref d = 1 then mg_mons mg' = (mg_mons mg)(m := None)
      else \<exists>d'. mg_mons mg' = (mg_mons mg)(m \<mapsto> d') \<and> md_listed d' = (md_listed d \<and> \<not> mo) \<and> md_memory d' = md_memory d \<and>
        md_id d' = md_id d \<and> md_modules d' = (if mo then (\<lambda>_. None) else md_modules d))"

lemma end_all_messages:
  assumes k: "k > 0" and r: "refs E T R X mg" and m: "mg_mons mg m = Some d"
  obtains mg' d' where "send_monitor_end_messages (co_manager_close k pid) m [0..<CO_MONITOR_MODULES_COUNT] mg = Some mg'"
    "refs E T R X mg'" "closes mg mg'" "mg_mons mg' = (mg_mons mg)(m \<mapsto> d')" "d' = d\<lparr>md_modules := (\<lambda>_. None)\<rparr>"
    "\<forall>q. slots mg q = {} \<longrightarrow> mg_opens mg' q = mg_opens mg q"
proof -
  from end_messages_refs [OF k r m, of pid "[0..<CO_MONITOR_MODULES_COUNT]"] obtain mg' where
    e: "send_monitor_end_messages (co_manager_close k pid) m [0..<CO_MONITOR_MODULES_COUNT] mg = Some mg'"
    "refs E T R X mg'" "closes mg mg'" "mg_mons mg' = (mg_mons mg)(m \<mapsto> without_modules (set [0..<CO_MONITOR_MODULES_COUNT]) d)"
    "\<forall>q. (\<forall>i\<in>set [0..<CO_MONITOR_MODULES_COUNT]. md_modules d i \<noteq> Some q) \<longrightarrow> mg_opens mg' q = mg_opens mg q" by blast
  have "md_modules (without_modules (set [0..<CO_MONITOR_MODULES_COUNT]) d) i = None" for i
    using refs_moduleD(1) [OF r m, of i] by (cases "md_modules d i") (auto simp: without_modules_def)
  then have n: "without_modules (set [0..<CO_MONITOR_MODULES_COUNT]) d = d\<lparr>md_modules := (\<lambda>_. None)\<rparr>"
    by (intro mon_desc.equality) (auto simp: without_modules_def)
  have "mg_opens mg' q = mg_opens mg q" if "slots mg q = {}" for q
  proof -
    have "md_modules d i \<noteq> Some q" for i using that m by (auto simp: slots_def)
    then show ?thesis using e(5) by blast
  qed
  then show thesis using that [OF e(1-4) n] by blast
qed

lemma refdown_refs:
  assumes k: "k > 0" and r: "refs E T R X mg" and m: "mg_mons mg m = Some d" and R: "R m > 0"
    and nomod: "md_ref d = 1 \<Longrightarrow> \<not> mo \<Longrightarrow> md_modules d = (\<lambda>_. None)"
  shows "\<exists>mg'. co_monitor_refdown (co_manager_close k pid) pid m mo mg = Some (RC_OK, mg') \<and>
    refs E T (R(m := R m - 1)) X mg' \<and> opens_kept mg mg' \<and> gone m mo d mg mg'"
proof -
  define v where "v = (if pid = md_video_user d then co_monitor_user_video_dettach d else d)"
  define u where "u = (if mo \<and> md_listed d then v\<lparr>md_listed := False\<rparr> else v)"
  have fields: "md_ref u = md_ref d" "md_modules u = md_modules d" "md_memory u = md_memory d" "md_id u = md_id d"
    "md_listed u = (md_listed d \<and> \<not> mo)"
    by (auto simp: u_def v_def co_monitor_user_video_dettach_def)
  have pos: "md_ref d > 0" using refs_mon(2) [OF r m] .
  let ?l = "if mo \<and> md_listed d then remove1 m (mg_mon_list mg) else mg_mon_list mg"
  let ?c = "if mo \<and> md_listed d then mg_monitors_count mg - 1 else mg_monitors_count mg"
  define mg1 where "mg1 = mg\<lparr>mg_mons := (mg_mons mg)(m \<mapsto> u), mg_mon_list := ?l, mg_monitors_count := ?c\<rparr>"
  have s1: "(if pid = md_video_user d then update_mon m co_monitor_user_video_dettach mg else Some mg) =
      Some (mg\<lparr>mg_mons := (mg_mons mg)(m \<mapsto> v)\<rparr>)"
    using m by (simp add: update_mon_def v_def fun_upd_idem)
  have s2: "(if mo \<and> md_listed d then unlist_monitor m (mg\<lparr>mg_mons := (mg_mons mg)(m \<mapsto> v)\<rparr>)
      else Some (mg\<lparr>mg_mons := (mg_mons mg)(m \<mapsto> v)\<rparr>)) = Some mg1"
    by (simp add: unlist_monitor_def update_mon_def u_def mg1_def)
  have "refs E T (R(m := R m)) X (mg\<lparr>mg_mons := (mg_mons mg)(m \<mapsto> u)\<rparr>)"
    by (rule refs_mon_same [OF r m]) (simp_all add: fields pos)
  then have r1: "refs E T R X mg1" by (simp add: mg1_def)
  have m1: "mg_mons mg1 m = Some u" by (simp add: mg1_def)
  have sl1: "slots mg1 q = slots mg q" for q using m fields(2) by (auto simp: slots_def mg1_def split: if_splits)
  obtain mg2 w where s3: "(if mo then send_monitor_end_messages (co_manager_close k pid) m [0..<CO_MONITOR_MODULES_COUNT] mg1 else Some mg1) = Some mg2"
    and r2: "refs E T R X mg2" and c2: "closes mg1 mg2" and m2: "mg_mons mg2 = (mg_mons mg1)(m \<mapsto> w)"
    and w: "w = (if mo then u\<lparr>md_modules := (\<lambda>_. None)\<rparr> else u)"
    and o2: "\<forall>q. slots mg1 q = {} \<longrightarrow> mg_opens mg2 q = mg_opens mg1 q"
  proof (cases mo)
    case True
    then show thesis using end_all_messages [OF k r1 m1, of pid] that by metis
  next
    case False
    then show thesis using that [of mg1 u] r1 m1 closes_refl by (simp add: fun_upd_idem)
  qed
  let ?w = "w\<lparr>md_ref := md_ref d - 1\<rparr>"
  have wf: "md_ref w = md_ref d" "md_memory w = md_memory d" using w fields by simp_all
  have s4: "update_mon m (\<lambda>d. d\<lparr>md_ref := md_ref d - 1\<rparr>) mg2 = Some (mg2\<lparr>mg_mons := (mg_mons mg2)(m \<mapsto> ?w)\<rparr>)"
    using m2 wf by (simp add: update_mon_def)
  have opens: "opens_kept mg mg'" if "mg_opens mg' = mg_opens mg2" for mg'
    using that c2 o2 sl1 unfolding opens_kept_def closes_def by (simp add: mg1_def) blast
  have lists: "mg_mon_list mg2 = ?l" "mg_monitors_count mg2 = ?c" "mg_hostmem_used mg2 = mg_hostmem_used mg"
    "mg_hostmem_limit mg2 = mg_hostmem_limit mg" using c2 unfolding closes_def by (simp_all add: mg1_def)
  have down: "co_monitor_refdown (co_manager_close k pid) pid m mo mg =
      (if md_ref d = 1 then co_monitor_destroy m (mg2\<lparr>mg_mons := (mg_mons mg2)(m \<mapsto> ?w)\<rparr>)
       else Some (RC_OK, mg2\<lparr>mg_mons := (mg_mons mg2)(m \<mapsto> ?w)\<rparr>))"
    unfolding co_monitor_refdown_def using m pos s1 s2 s3 s4 by simp
  show ?thesis
  proof (cases "md_ref d = 1")
    case True
    have R1: "R m = 1" using refs_mon(1) [OF r m] True R by simp
    have nm: "md_modules w = (\<lambda>_. None)" using w nomod True fields by simp
    let ?mg = "mg2\<lparr>mg_mons := (mg_mons mg2)(m := None), mg_hostmem_used := mg_hostmem_used mg2 - md_memory d\<rparr>"
    have m2': "mg_mons mg2 m = Some w" using m2 by simp
    have "refs E T (R(m := R m - 1)) X ?mg"
      using refs_mon_free [OF r2 m2'] True wf nm R1 by simp
    moreover have "co_monitor_refdown (co_manager_close k pid) pid m mo mg = Some (RC_OK, ?mg)"
      using True down wf by (simp add: co_monitor_destroy_def)
    moreover have "gone m mo d mg ?mg"
      using True lists m2 by (simp add: gone_def mg1_def)
    ultimately show ?thesis using opens [of ?mg] by (intro exI [of _ ?mg]) simp
  next
    case False
    let ?mg = "mg2\<lparr>mg_mons := (mg_mons mg2)(m \<mapsto> ?w)\<rparr>"
    have m2': "mg_mons mg2 m = Some w" using m2 by simp
    have "refs E T (R(m := R m - 1)) X ?mg"
      by (rule refs_mon_same [OF r2 m2']) (use False wf pos R in simp_all)
    moreover have "gone m mo d mg ?mg"
      using False lists m2 w fields by (auto simp: gone_def mg1_def)
    ultimately show ?thesis using False down opens [of ?mg] by (intro exI [of _ ?mg]) simp
  qed
qed

section \<open>A descriptor without its monitor\<close>

text \<open>While its monitor is taken away the descriptor is in \<open>X\<close> and its share of the count is an operation's.\<close>

lemma refs_leave:
  assumes r: "refs E T R X mg" and d: "mg_opens mg p = Some d" "od_monitor d = Some m" and p: "p \<notin> X"
  shows "refs E T (R(m := R m + 1)) (insert p X) mg"
proof -
  have u: "user_set (insert p X) mg x = (if x = m then user_set X mg x - {p} else user_set X mg x)" for x
    using d by (auto simp: user_set_def)
  have "p \<in> user_set X mg m" using d p by (simp add: user_set_def)
  then have c: "card (user_set X mg m) = Suc (card (user_set X mg m - {p}))"
    using finite_user_set [OF r, of m] by (metis card.remove)
  show ?thesis
  proof (rule refsI, unfold u)
    fix x dm assume x: "mg_mons mg x = Some dm"
    then show "md_ref dm = int ((R(m := R m + 1)) x) + int (card (if x = m then user_set X mg x - {p} else user_set X mg x))"
      using refs_mon(1) [OF r x] c by auto
  next
    fix x assume "(R(m := R m + 1)) x > 0"
    then show "x \<in> dom (mg_mons mg)"
      using refs_held(5) [OF r, of x] refs_user [OF r d p] by (cases "x = m") auto
  qed (use refs_ref [OF r] refs_mon(2) [OF r] refs_moduleD [OF r] refs_user [OF r] refs_held [OF r] in auto)
qed

lemma refs_open_in:
  assumes r: "refs E T R X mg" and d: "mg_opens mg p = Some d" "od_monitor d = None" "od_ref d > 0"
  shows "refs E T R (X - {p}) mg"
proof -
  have u: "user_set (X - {p}) mg x = user_set X mg x" for x
    using d by (auto simp: user_set_def)
  show ?thesis
  proof (rule refsI, unfold u)
    fix q e assume q: "mg_opens mg q = Some e" "q \<notin> X - {p}"
    then show "od_ref e > 0" using refs_ref(2) [OF r q(1)] d by (cases "q = p") auto
  next
    fix q e x assume q: "mg_opens mg q = Some e" "od_monitor e = Some x" "q \<notin> X - {p}"
    then show "x \<in> dom (mg_mons mg)" using refs_user [OF r q(1,2)] d by (cases "q = p") auto
  qed (use refs_ref(1) [OF r] refs_mon [OF r] refs_moduleD [OF r] refs_held [OF r] in auto)
qed

section \<open>The list of monitors and the memory they use\<close>

definition users_kept :: "optr set \<Rightarrow> co_manager \<Rightarrow> co_manager \<Rightarrow> bool" where
  "users_kept P mg mg' \<longleftrightarrow> (\<forall>p d. p \<notin> P \<longrightarrow> mg_opens mg p = Some d \<longrightarrow> od_monitor d \<noteq> None \<longrightarrow>
     (\<exists>d'. mg_opens mg' p = Some d' \<and> od_monitor d' = od_monitor d \<and> od_owner d' = od_owner d))"

definition owned :: "co_manager \<Rightarrow> mptr \<Rightarrow> bool" where
  "owned mg m \<longleftrightarrow> (\<exists>p dp. mg_opens mg p = Some dp \<and> od_owner dp \<and> od_monitor dp = Some m)"

definition owners_have_monitors :: "co_manager \<Rightarrow> bool" where
  "owners_have_monitors mg \<longleftrightarrow> (\<forall>p d. mg_opens mg p = Some d \<longrightarrow> od_owner d \<longrightarrow> od_monitor d \<noteq> None)"

definition idle_unlisted :: "co_manager \<Rightarrow> bool" where
  "idle_unlisted mg \<longleftrightarrow> (\<forall>m d. mg_mons mg m = Some d \<longrightarrow> \<not> md_listed d \<longrightarrow> md_modules d = (\<lambda>_. None))"

definition books :: "co_manager \<Rightarrow> bool" where
  "books mg \<longleftrightarrow>
     distinct (mg_mon_list mg) \<and> set (mg_mon_list mg) = {m. \<exists>d. mg_mons mg m = Some d \<and> md_listed d} \<and>
     (\<forall>m \<in> set (mg_mon_list mg). owned mg m) \<and> idle_unlisted mg \<and> owners_have_monitors mg \<and>
     mg_monitors_count mg = of_nat (length (mg_mon_list mg)) \<and>
     mg_hostmem_used mg = (\<Sum>m \<in> dom (mg_mons mg). md_memory (the (mg_mons mg m)))"

lemma owned_kept: "users_kept P mg mg' \<Longrightarrow> mg_opens mg p = Some d \<Longrightarrow> od_owner d \<Longrightarrow> od_monitor d = Some m \<Longrightarrow> p \<notin> P \<Longrightarrow> owned mg' m"
  unfolding users_kept_def owned_def by fastforce

lemma books_keep:
  assumes b: "books mg"
    and l: "mg_mon_list mg' = mg_mon_list mg" "mg_monitors_count mg' = mg_monitors_count mg" "mg_hostmem_used mg' = mg_hostmem_used mg"
    and f: "\<And>m. map_option (\<lambda>d. (md_listed d, md_memory d)) (mg_mons mg' m) = map_option (\<lambda>d. (md_listed d, md_memory d)) (mg_mons mg m)"
    and i: "idle_unlisted mg'" and o: "owners_have_monitors mg'" and u: "users_kept {} mg mg'"
  shows "books mg'"
proof -
  have f': "(\<exists>d. mg_mons mg' m = Some d \<and> md_listed d) \<longleftrightarrow> (\<exists>d. mg_mons mg m = Some d \<and> md_listed d)" for m
    using f [of m] by (cases "mg_mons mg m"; cases "mg_mons mg' m") auto
  have "m \<in> dom (mg_mons mg') \<longleftrightarrow> m \<in> dom (mg_mons mg)" for m
    using f [of m] by (cases "mg_mons mg m"; cases "mg_mons mg' m") auto
  then have dom: "dom (mg_mons mg') = dom (mg_mons mg)" by blast
  have "(\<Sum>m \<in> dom (mg_mons mg'). md_memory (the (mg_mons mg' m))) = (\<Sum>m \<in> dom (mg_mons mg). md_memory (the (mg_mons mg m)))"
    unfolding dom
  proof (rule sum.cong)
    fix m assume "m \<in> dom (mg_mons mg)"
    then show "md_memory (the (mg_mons mg' m)) = md_memory (the (mg_mons mg m))" using f [of m] by (cases "mg_mons mg' m") auto
  qed simp
  moreover have "\<forall>m \<in> set (mg_mon_list mg'). owned mg' m"
  proof
    fix m assume "m \<in> set (mg_mon_list mg')"
    then have "owned mg m" using b l unfolding books_def by auto
    then obtain p dp where "mg_opens mg p = Some dp" "od_owner dp" "od_monitor dp = Some m" unfolding owned_def by blast
    then show "owned mg' m" using owned_kept [OF u] by blast
  qed
  ultimately show ?thesis using b l f' i o unfolding books_def by simp
qed

lemma books_gone:
  assumes b: "books mg" and fin: "finite (dom (mg_mons mg))" and p: "mg_opens mg p = Some dp" "od_monitor dp = Some m" "od_owner dp = mo"
    and m: "mg_mons mg m = Some d" and g: "gone m mo d mg mg'" and u: "users_kept {p} mg mg'" and o: "owners_have_monitors mg'"
    and last: "\<And>q dq. md_ref d = 1 \<Longrightarrow> mg_opens mg q = Some dq \<Longrightarrow> od_monitor dq = Some m \<Longrightarrow> q = p"
  shows "books mg'"
proof -
  let ?M = "mg_mons mg"
  have list: "mg_mon_list mg' = (if mo \<and> md_listed d then remove1 m (mg_mon_list mg) else mg_mon_list mg)"
    and cnt: "mg_monitors_count mg' = (if mo \<and> md_listed d then mg_monitors_count mg - 1 else mg_monitors_count mg)"
    and used: "mg_hostmem_used mg' = (if md_ref d = 1 then mg_hostmem_used mg - md_memory d else mg_hostmem_used mg)"
    using g by (simp_all add: gone_def)
  have D: "distinct (mg_mon_list mg)" "set (mg_mon_list mg) = {m. \<exists>d. ?M m = Some d \<and> md_listed d}"
    "\<And>x. x \<in> set (mg_mon_list mg) \<Longrightarrow> owned mg x" "mg_monitors_count mg = of_nat (length (mg_mon_list mg))"
    "mg_hostmem_used mg = (\<Sum>m \<in> dom ?M. md_memory (the (?M m)))"
    using b by (auto simp: books_def)
  have unl: "\<not> md_listed d" if "md_ref d = 1" "\<not> mo"
  proof
    assume "md_listed d"
    then have "owned mg m" using D(2,3) m by auto
    then obtain q dq where q: "mg_opens mg q = Some dq" "od_owner dq" "od_monitor dq = Some m" unfolding owned_def by blast
    have "q = p" by (rule last [OF that(1) q(1,3)])
    then show False using q p that by simp
  qed
  have mem: "x \<in> set (mg_mon_list mg') \<longleftrightarrow> (\<exists>d. mg_mons mg' x = Some d \<and> md_listed d)" for x
  proof (cases "x = m")
    case True
    then show ?thesis using D(1,2) g m unl unfolding gone_def by (cases "md_ref d = 1") auto
  next
    case False
    then have "mg_mons mg' x = ?M x" using g unfolding gone_def by (auto split: if_splits)
    then show ?thesis using False D(1,2) list by simp
  qed
  have owned: "owned mg' x" if x: "x \<in> set (mg_mon_list mg')" for x
  proof -
    have l: "x \<in> set (mg_mon_list mg)" using x list D(1) by (auto split: if_splits)
    then obtain q dq where q: "mg_opens mg q = Some dq" "od_owner dq" "od_monitor dq = Some x"
      using D(3) unfolding owned_def by blast
    have "q \<noteq> p"
    proof
      assume "q = p"
      then have "x = m" mo using q p by auto
      then show False using x list D(1,2) m l by (auto split: if_splits)
    qed
    then show ?thesis using owned_kept [OF u q] by simp
  qed
  have idle: "idle_unlisted mg'"
    unfolding idle_unlisted_def
  proof (intro allI impI)
    fix x dx assume x: "mg_mons mg' x = Some dx" "\<not> md_listed dx"
    have old: "?M x = Some e \<Longrightarrow> \<not> md_listed e \<Longrightarrow> md_modules e = (\<lambda>_. None)" for x e
      using b unfolding books_def idle_unlisted_def by blast
    show "md_modules dx = (\<lambda>_. None)"
    proof (cases "x = m")
      case True
      show ?thesis
      proof (cases "md_ref d = 1")
        case False
        then obtain d' where "mg_mons mg' = ?M(m \<mapsto> d')" "md_listed d' = (md_listed d \<and> \<not> mo)"
          "md_modules d' = (if mo then (\<lambda>_. None) else md_modules d)" using g by (auto simp: gone_def)
        note d' = this
        have dx: "dx = d'" using x(1) True d'(1) by simp
        show ?thesis
        proof (cases mo)
          case False
          then have "\<not> md_listed d" using x(2) dx d'(2) by simp
          then show ?thesis using old [OF m] dx d'(3) False by simp
        qed (use dx d'(3) in simp)
      qed (use x(1) g True in \<open>simp add: gone_def\<close>)
    next
      case False
      then have "mg_mons mg' x = ?M x" using g unfolding gone_def by (auto split: if_splits)
      then show ?thesis using old [of x dx] x by simp
    qed
  qed
  have sum: "mg_hostmem_used mg' = (\<Sum>m \<in> dom (mg_mons mg'). md_memory (the (mg_mons mg' m)))"
  proof (cases "md_ref d = 1")
    case True
    then have M: "mg_mons mg' = ?M(m := None)" using g by (simp add: gone_def)
    have "(\<Sum>x \<in> dom ?M. md_memory (the (?M x))) = md_memory d + (\<Sum>x \<in> dom ?M - {m}. md_memory (the (?M x)))"
      using sum.remove [OF fin, of m "\<lambda>x. md_memory (the (?M x))"] m by (simp add: domI)
    moreover have "(\<Sum>x \<in> dom ?M - {m}. md_memory (the (?M x))) = (\<Sum>x \<in> dom (?M(m := None)). md_memory (the ((?M(m := None)) x)))"
      by (rule sum.cong) auto
    moreover have "mg_hostmem_used mg' = mg_hostmem_used mg - md_memory d" using used True by simp
    ultimately show ?thesis unfolding M D(5) by (metis add_diff_cancel_left')
  next
    case False
    then obtain d' where M: "mg_mons mg' = ?M(m \<mapsto> d')" "md_memory d' = md_memory d" using g by (auto simp: gone_def)
    have "(\<Sum>x \<in> dom (?M(m \<mapsto> d')). md_memory (the ((?M(m \<mapsto> d')) x))) = (\<Sum>x \<in> dom ?M. md_memory (the (?M x)))"
      by (rule sum.cong) (use m M in auto)
    then show ?thesis using used False unfolding M(1) D(5) by simp
  qed
  have "mg_monitors_count mg' = of_nat (length (mg_mon_list mg'))"
  proof (cases "mo \<and> md_listed d")
    case True
    then have "m \<in> set (mg_mon_list mg)" using D(2) m by auto
    then have "length (mg_mon_list mg) = Suc (length (remove1 m (mg_mon_list mg)))"
      by (metis Suc_pred' length_pos_if_in_set length_remove1)
    then show ?thesis using True list cnt D(4) by simp
  qed (use list cnt D(4) in auto)
  moreover have "set (mg_mon_list mg') = {m. \<exists>d. mg_mons mg' m = Some d \<and> md_listed d}"
    using mem by blast
  moreover have "distinct (mg_mon_list mg')" using list D(1) by (simp add: distinct_remove1)
  ultimately show ?thesis using owned idle o sum unfolding books_def by simp
qed
section \<open>Between two operations\<close>

definition steady :: "optr set \<Rightarrow> (optr \<Rightarrow> nat) \<Rightarrow> co_manager \<Rightarrow> bool" where
  "steady E T mg \<longleftrightarrow> refs E T (\<lambda>_. 0) {} mg \<and> books mg"

lemma steadyD: "steady E T mg \<Longrightarrow> refs E T (\<lambda>_. 0) {} mg" "steady E T mg \<Longrightarrow> books mg"
  by (simp_all add: steady_def)

lemma closes_users: "closes mg mg' \<Longrightarrow> users_kept P mg mg'"
  unfolding closes_def users_kept_def by (intro allI impI) fastforce

lemma closes_owners: "closes mg mg' \<Longrightarrow> owners_have_monitors mg \<Longrightarrow> owners_have_monitors mg'"
  unfolding closes_def owners_have_monitors_def by (intro allI impI) fastforce

lemma kept_users: "opens_kept mg mg' \<Longrightarrow> users_kept P mg mg'"
  unfolding opens_kept_def users_kept_def by (intro allI impI) fastforce

lemma kept_owners: "opens_kept mg mg' \<Longrightarrow> owners_have_monitors mg \<Longrightarrow> owners_have_monitors mg'"
  unfolding opens_kept_def owners_have_monitors_def by (intro allI impI) fastforce

lemma books_owners: "books mg \<Longrightarrow> owners_have_monitors mg" "books mg \<Longrightarrow> idle_unlisted mg"
  by (simp_all add: books_def)

lemma steady_closes:
  assumes s: "steady E T mg" and r: "refs E' T' (\<lambda>_. 0) {} mg'" and c: "closes mg mg'" and m: "mg_mons mg' = mg_mons mg"
  shows "steady E' T' mg'"
proof -
  have b: "books mg" using steadyD(2) [OF s] .
  have "books mg'"
  proof (rule books_keep [OF b])
    show "idle_unlisted mg'" using books_owners(2) [OF b] m by (simp add: idle_unlisted_def)
  qed (use c m closes_users [OF c] closes_owners [OF c books_owners(1) [OF b]] in \<open>simp_all add: closes_def\<close>)
  then show ?thesis using r by (simp add: steady_def)
qed

lemma sole_user:
  assumes r: "refs E T (\<lambda>_. 0) {} mg" and m: "mg_mons mg m = Some d" "md_ref d = 1"
    and p: "mg_opens mg p = Some dp" "od_monitor dp = Some m" and q: "mg_opens mg q = Some dq" "od_monitor dq = Some m"
  shows "q = p"
proof -
  have "card (user_set {} mg m) = 1" using refs_mon(1) [OF r m(1)] m(2) by simp
  then obtain x where "user_set {} mg m = {x}" by (auto simp: card_1_singleton_iff)
  moreover have "p \<in> user_set {} mg m" "q \<in> user_set {} mg m" using p q by (auto simp: user_set_def)
  ultimately show ?thesis by simp
qed

lemma guest_modules:
  assumes s: "steady E T mg" and m: "mg_mons mg m = Some d" "md_ref d = 1"
    and p: "mg_opens mg p = Some dp" "od_monitor dp = Some m" "\<not> od_owner dp"
  shows "md_modules d = (\<lambda>_. None)"
proof -
  have b: "books mg" and r: "refs E T (\<lambda>_. 0) {} mg" using steadyD [OF s] by auto
  have "\<not> md_listed d"
  proof
    assume "md_listed d"
    then have "owned mg m" using b m(1) unfolding books_def by auto
    then obtain q dq where q: "mg_opens mg q = Some dq" "od_owner dq" "od_monitor dq = Some m" unfolding owned_def by blast
    then have "q = p" using sole_user [OF r m p(1,2) q(1,3)] by simp
    then show False using q p by simp
  qed
  then show ?thesis using books_owners(2) [OF b] m(1) unfolding idle_unlisted_def by blast
qed

lemma close_steady:
  assumes s: "steady E T mg" and T: "T p > 0" and k: "k > 1"
  shows "\<exists>mg'. co_manager_close k pid p mg = Some mg' \<and> steady E (T(p := T p - 1)) mg'"
proof -
  have r: "refs E T (\<lambda>_. 0) {} mg" and b: "books mg" using steadyD [OF s] by auto
  obtain d where d: "mg_opens mg p = Some d" using refs_held(4) [OF r T] by auto
  show ?thesis
  proof (cases "od_ref d = 1 \<and> od_monitor d \<noteq> None")
    case False
    have "od_monitor e = None" if "mg_opens mg p = Some e" "od_ref e = 1" for e using False d that by auto
    from close_unit [where pid = pid, OF r T _ this] k obtain mg' where
      c: "co_manager_close k pid p mg = Some mg'" "refs E (T(p := T p - 1)) (\<lambda>_. 0) {} mg'" "closes mg mg'" "mg_mons mg' = mg_mons mg"
      by (metis less_trans zero_less_one)
    then show ?thesis using steady_closes [OF s c(2-4)] by blast
  next
    case True
    then obtain m where mon: "od_monitor d = Some m" "od_ref d = 1" by auto
    have "of_bool (p \<in> E) + int (T p) + int (card (slots mg p)) + waiting d = 1"
      using refs_ref(1) [OF r d] mon by simp
    then have z: "T p = 1" "p \<notin> E" "card (slots mg p) = 0" "waiting d = 0"
      using T waiting_nonneg [of d] by (cases "p \<in> E"; simp; linarith)+
    then have z': "slots mg p = {}" "od_irp d = None" using finite_slots [OF r, of p] by (auto simp: waiting_def split: if_splits)
    obtain j where j: "k = Suc j" "j > 0" using k by (cases k) auto
    obtain dm where dm: "mg_mons mg m = Some dm" using refs_user [OF r d mon(1)] by auto
    let ?R = "(\<lambda>_. 0)(m := Suc 0)"
    let ?d = "d\<lparr>od_ref := 0, od_monitor := None\<rparr>"
    let ?mg1 = "mg\<lparr>mg_opens := (mg_opens mg)(p \<mapsto> ?d)\<rparr>"
    have "refs E T ?R {p} mg" using refs_leave [OF r d mon(1)] by simp
    then have r1: "refs E (T(p := 0)) ?R {p} ?mg1"
      by (rule refs_open_upd [OF _ d]) (use z z' mon in \<open>simp_all add: waiting_def\<close>)
    have dm1: "mg_mons ?mg1 m = Some dm" using dm by simp
    have nomod: "md_modules dm = (\<lambda>_. None)" if "md_ref dm = 1" "\<not> od_owner d"
      by (rule guest_modules [OF s dm that(1) d mon(1) that(2)])
    have Rm: "?R m > 0" by simp
    from refdown_refs [where mo = "od_owner d" and pid = pid, OF j(2) r1 dm1 Rm nomod] obtain mg2 where
      c: "co_monitor_refdown (co_manager_close j pid) pid m (od_owner d) ?mg1 = Some (RC_OK, mg2)"
      "refs E (T(p := 0)) (?R(m := ?R m - 1)) {p} mg2" "opens_kept ?mg1 mg2" "gone m (od_owner d) dm ?mg1 mg2" by blast
    have R0: "?R(m := ?R m - 1) = (\<lambda>_. 0)" by auto
    have sl1: "slots ?mg1 p = {}" using z'(1) by (simp add: slots_def)
    have d2: "mg_opens mg2 p = Some ?d" using c(3) sl1 unfolding opens_kept_def by auto
    let ?mg3 = "mg2\<lparr>mg_open_list := remove1 p (mg_open_list mg2), mg_num_opens := mg_num_opens mg2 - 1,
        mg_opens := (mg_opens mg2)(p := None)\<rparr>"
    have close: "co_manager_close k pid p mg = Some ?mg3"
      using d mon z' c(1) j(1)
      by (simp add: update_open_def co_manager_close_last_def co_os_manager_userspace_close_def)
    have slots2: "slots mg2 p = {}"
      using c(4) sl1 dm unfolding gone_def slots_def by (auto split: if_splits)
    have "refs E ((T(p := 0))(p := 0)) (\<lambda>_. 0) {} ?mg3"
      using refs_free [OF c(2)[unfolded R0] d2 z(2) slots2, of "{}"] by simp
    then have r3: "refs E (T(p := T p - 1)) (\<lambda>_. 0) {} ?mg3" using z by simp
    have g3: "gone m (od_owner d) dm mg ?mg3" using c(4) unfolding gone_def by (simp cong: if_cong)
    have u3: "users_kept {p} mg ?mg3" using kept_users [OF c(3), of "{p}"] by (simp add: users_kept_def)
    have o3: "owners_have_monitors ?mg3"
      unfolding owners_have_monitors_def
    proof (intro allI impI)
      fix q e assume q: "mg_opens ?mg3 q = Some e" "od_owner e"
      then have qp: "q \<noteq> p" "mg_opens mg2 q = Some e" by (auto split: if_splits)
      then obtain e0 where "mg_opens ?mg1 q = Some e0" "od_monitor e = od_monitor e0" "od_owner e = od_owner e0"
        using c(3) unfolding opens_kept_def by blast
      then show "od_monitor e \<noteq> None" using qp q(2) books_owners(1) [OF b] unfolding owners_have_monitors_def by auto
    qed
    have "books ?mg3"
      by (rule books_gone [OF b refs_held(2) [OF r] d mon(1) refl dm g3 u3 o3 sole_user [OF r dm _ d mon(1)]])
    then show ?thesis using close r3 by (auto simp: steady_def)
  qed
qed
section \<open>Operations of a descriptor\<close>

text \<open>An update of a descriptor that keeps its monitor.\<close>

lemma steady_open_upd:
  assumes s: "steady E T mg" and d: "mg_opens mg p = Some d"
    and f: "od_monitor d' = od_monitor d" "od_owner d' = od_owner d" "od_ref d' > 0"
      "od_ref d' - waiting d' - int t = od_ref d - waiting d - int (T p)"
  shows "steady E (T(p := t)) (mg\<lparr>mg_opens := (mg_opens mg)(p \<mapsto> d')\<rparr>)"
proof -
  let ?mg = "mg\<lparr>mg_opens := (mg_opens mg)(p \<mapsto> d')\<rparr>"
  have b: "books mg" using steadyD(2) [OF s] .
  have "refs E (T(p := t)) (\<lambda>_. 0) {} ?mg"
    by (rule refs_open_upd [OF steadyD(1) [OF s] d]) (use f in simp_all)
  moreover have "books ?mg"
  proof (rule books_keep [OF b])
    show "idle_unlisted ?mg" using books_owners(2) [OF b] by (simp add: idle_unlisted_def)
    show "owners_have_monitors ?mg" using books_owners(1) [OF b] d f by (auto simp: owners_have_monitors_def)
    show "users_kept {} mg ?mg" using d f by (auto simp: users_kept_def)
  qed simp_all
  ultimately show ?thesis by (simp add: steady_def)
qed

lemma steady_done [simp]: "steady E T (complete_irp i st ms mg) \<longleftrightarrow> steady E T mg"
  by (simp add: steady_def) (simp add: complete_irp_def books_def owned_def idle_unlisted_def owners_have_monitors_def)

lemma read_steady:
  assumes s: "steady E T mg" and p: "p \<in> E"
  shows "\<exists>mg'. manager_read p i mg = Some mg' \<and> steady E T mg'"
proof -
  obtain d where d: "mg_opens mg p = Some d" using refs_held(3) [OF steadyD(1) [OF s]] p by auto
  have pos: "od_ref d > 0" using refs_ref(2) [OF steadyD(1) [OF s] d] by simp
  show ?thesis
  proof (cases "od_active d \<and> od_queue d = [] \<and> od_irp d = None")
    case True
    have "steady E (T(p := T p)) (mg\<lparr>mg_opens := (mg_opens mg)(p \<mapsto> d\<lparr>od_ref := od_ref d + 1, od_irp := Some i\<rparr>)\<rparr>)"
      by (rule steady_open_upd [OF s d]) (use True pos in \<open>simp_all add: waiting_def\<close>)
    then show ?thesis using True d by (simp add: manager_read_def update_open_def)
  next
    case False
    have "steady E (T(p := T p)) (mg\<lparr>mg_opens := (mg_opens mg)(p \<mapsto> d\<lparr>od_queue := q\<rparr>)\<rparr>)" for q
      by (rule steady_open_upd [OF s d]) (use pos in \<open>simp_all add: waiting_def\<close>)
    then show ?thesis using False d s by (auto simp: manager_read_def update_open_def split: prod.split)
  qed
qed

lemma cancel_steady:
  assumes s: "steady E T mg" and d: "mg_opens mg p = Some d" and i: "od_irp d = Some i \<or> od_irp d = None" and k: "k > 1"
  shows "\<exists>mg'. manager_irp_cancel (co_manager_close k pid) p i mg = Some mg' \<and> steady E T mg'"
proof -
  let ?d = "d\<lparr>od_irp := None\<rparr>"
  have pos: "od_ref d > 0" using refs_ref(2) [OF steadyD(1) [OF s] d] by simp
  show ?thesis
  proof (cases "od_irp d")
    case None
    then have "mg\<lparr>mg_opens := (mg_opens mg)(p \<mapsto> ?d)\<rparr> = mg" using d by (simp add: fun_upd_idem)
    then show ?thesis using None d s by (simp add: manager_irp_cancel_def update_open_def)
  next
    case (Some j)
    let ?mg = "complete_irp i IRP_CANCELLED [] (mg\<lparr>mg_opens := (mg_opens mg)(p \<mapsto> ?d)\<rparr>)"
    have "steady E (T(p := T p + 1)) (mg\<lparr>mg_opens := (mg_opens mg)(p \<mapsto> ?d)\<rparr>)"
      by (rule steady_open_upd [OF s d]) (use Some pos in \<open>simp_all add: waiting_def\<close>)
    then have "steady E (T(p := T p + 1)) ?mg" by simp
    moreover have "(T(p := T p + 1)) p > 0" by simp
    ultimately obtain mg' where c: "co_manager_close k pid p ?mg = Some mg'"
      "steady E ((T(p := T p + 1))(p := (T(p := T p + 1)) p - 1)) mg'" using close_steady k by metis
    have "(T(p := T p + 1))(p := (T(p := T p + 1)) p - 1) = T" by simp
    then have "steady E T mg'" using c(2) by metis
    moreover have "manager_irp_cancel (co_manager_close k pid) p i mg = Some mg'"
      using c(1) i Some d by (simp add: manager_irp_cancel_def update_open_def)
    ultimately show ?thesis by blast
  qed
qed

text \<open>The user of a handle lets it go: what it held is an operation's until it is closed.\<close>

lemma handle_out:
  assumes s: "steady E T mg" and p: "p \<in> E" "mg_opens mg p = Some d"
    and sl: "od_monitor d = None \<or> slots mg p = {}"
  shows "steady (E - {p}) (T(p := T p + 1)) mg"
proof -
  have r: "refs E T (\<lambda>_. 0) {} mg" using steadyD(1) [OF s] .
  have "refs (E - {p}) (T(p := T p + 1)) (\<lambda>_. 0) {} mg"
  proof (rule refsI)
    fix q e assume "mg_opens mg q = Some e"
    then show "od_ref e = of_bool (q \<in> E - {p}) + int ((T(p := T p + 1)) q) + int (card (slots mg q)) + waiting e"
      using refs_ref(1) [OF r] p(1) by (cases "q = p") fastforce+
  next
    fix m dm i q assume m: "mg_mons mg m = Some dm" "md_modules dm i = Some q"
    have "q = p \<Longrightarrow> od_monitor d = None" using m sl by (auto simp: slots_def)
    then show "\<exists>dp. mg_opens mg q = Some dp \<and> (od_monitor dp = None \<or> q \<in> E - {p} \<and> od_monitor dp = Some m)"
      using refs_moduleD(2) [OF r m] p(2) by auto
    show "i < CO_MONITOR_MODULES_COUNT" using refs_moduleD(1) [OF r m] .
  next
    fix q assume "(T(p := T p + 1)) q > 0"
    then show "q \<in> dom (mg_opens mg)" using refs_held(4) [OF r, of q] p by (cases "q = p") auto
  qed (use refs_ref(2) [OF r] refs_mon [OF r] refs_user [OF r] refs_held [OF r] in auto)
  then show ?thesis using s by (simp add: steady_def)
qed

lemma disconnect_refs:
  assumes k: "k > 0" and p: "p \<in> E" and r: "refs E T R X mg" and m: "mg_mons mg m = Some d"
  shows "\<exists>mg'. disconnect_modules (co_manager_close k pid) m p is mg = Some mg' \<and> refs E T R X mg' \<and> closes mg mg' \<and>
    mg_mons mg' = (mg_mons mg)(m \<mapsto> d\<lparr>md_modules := (\<lambda>i. if i \<in> set is \<and> md_modules d i = Some p then None else md_modules d i)\<rparr>)"
  using r m
proof (induction "is" arbitrary: mg d)
  case Nil
  then show ?case by (auto simp: closes_refl fun_upd_idem)
next
  case (Cons i "is")
  note r = Cons.prems(1) and m = Cons.prems(2)
  let ?off = "\<lambda>I d. d\<lparr>md_modules := (\<lambda>i. if i \<in> I \<and> md_modules d i = Some p then None else md_modules d i)\<rparr>"
  show ?case
  proof (cases "md_modules d i = Some p")
    case False
    have "?off (set is) d = ?off (set (i # is)) d" using False by (intro mon_desc.equality) (auto intro!: ext)
    then show ?thesis using Cons.IH [OF r m] False m by simp
  next
    case True
    let ?d = "d\<lparr>md_modules := (md_modules d)(i := None)\<rparr>"
    let ?mg = "mg\<lparr>mg_mons := (mg_mons mg)(m \<mapsto> ?d)\<rparr>"
    have r1: "refs E (T(p := T p + 1)) R X ?mg" by (rule slot_out [OF r m True])
    have mon: "od_monitor dd = None" if "mg_opens ?mg p = Some dd" "od_ref dd = 1" for dd
      using refs_ref(1) [OF r1 that(1)] that(2) p waiting_nonneg [of dd] by simp
    obtain mg1 where c: "co_manager_close k pid p ?mg = Some mg1" "refs E T R X mg1" "closes ?mg mg1" "mg_mons mg1 = mg_mons ?mg"
      using close_back [where pid = pid, OF r1 k mon] by metis
    have m1: "mg_mons mg1 m = Some ?d" using c(4) by simp
    from Cons.IH [OF c(2) m1] obtain mg2 where
      i: "disconnect_modules (co_manager_close k pid) m p is mg1 = Some mg2" "refs E T R X mg2"
        "closes mg1 mg2" "mg_mons mg2 = (mg_mons mg1)(m \<mapsto> ?off (set is) ?d)" by blast
    have "?off (set is) ?d = ?off (set (i # is)) d" using True by (intro mon_desc.equality) (auto intro!: ext)
    then have "mg_mons mg2 = (mg_mons mg)(m \<mapsto> ?off (set (i # is)) d)" using i(4) c(4) by simp
    moreover have "closes mg mg2"
    proof -
      have "closes mg ?mg" by (simp add: closes_def)
      then show ?thesis using c(3) i(3) closes_trans by blast
    qed
    moreover have "disconnect_modules (co_manager_close k pid) m p (i # is) mg = Some mg2"
      using i(1) c(1) m True by (simp add: update_mon_def)
    ultimately show ?thesis using i(2) by blast
  qed
qed
lemma handle_close_steady:
  assumes s: "steady E T mg" and p: "p \<in> E" and k: "k > 1"
  shows "\<exists>mg'. co_manager_open_desc_deactive_and_close (co_manager_close k pid) p mg = Some mg' \<and> steady (E - {p}) T mg'"
proof -
  obtain d where d: "mg_opens mg p = Some d" using refs_held(3) [OF steadyD(1) [OF s]] p by auto
  have pos: "od_ref d > 0" using refs_ref(2) [OF steadyD(1) [OF s] d] by simp
  let ?d = "d\<lparr>od_active := False\<rparr>"
  let ?mg = "mg\<lparr>mg_opens := (mg_opens mg)(p \<mapsto> ?d)\<rparr>"
  have "steady E (T(p := T p)) ?mg"
    by (rule steady_open_upd [OF s d]) (use pos in \<open>simp_all add: waiting_def\<close>)
  then have s1: "steady E T ?mg" by simp
  have "\<exists>mg1 d1. (case od_monitor d of None \<Rightarrow> Some ?mg
        | Some m \<Rightarrow> disconnect_modules (co_manager_close k pid) m p [0..<CO_MONITOR_MODULES_COUNT] ?mg) = Some mg1 \<and>
      steady E T mg1 \<and> mg_opens mg1 p = Some d1 \<and> (od_monitor d1 = None \<or> slots mg1 p = {})"
  proof (cases "od_monitor d")
    case None
    then show ?thesis using s1 by simp
  next
    case (Some m)
    have r1: "refs E T (\<lambda>_. 0) {} ?mg" and b1: "books ?mg" using steadyD [OF s1] by auto
    obtain dm where m: "mg_mons ?mg m = Some dm" using refs_user [OF r1, of p ?d m] Some by auto
    from disconnect_refs [OF _ p r1 m, of k pid "[0..<CO_MONITOR_MODULES_COUNT]"] k obtain mg1 where
      c: "disconnect_modules (co_manager_close k pid) m p [0..<CO_MONITOR_MODULES_COUNT] ?mg = Some mg1"
      "refs E T (\<lambda>_. 0) {} mg1" "closes ?mg mg1"
      "mg_mons mg1 = (mg_mons ?mg)(m \<mapsto> dm\<lparr>md_modules := (\<lambda>i. if i \<in> set [0..<CO_MONITOR_MODULES_COUNT] \<and> md_modules dm i = Some p
         then None else md_modules dm i)\<rparr>)" by force
    obtain d1 where d1: "mg_opens mg1 p = Some d1" using refs_held(3) [OF c(2)] p by auto
    then have mon1: "od_monitor d1 = Some m" using c(3) Some unfolding closes_def by fastforce
    have "slots mg1 p = {}"
    proof (rule equals0I)
      fix x assume "x \<in> slots mg1 p"
      then obtain y i dy where y: "mg_mons mg1 y = Some dy" "md_modules dy i = Some p" by (auto simp: slots_def)
      have "y = m" using refs_moduleD(2) [OF c(2) y] d1 mon1 by auto
      then have "dy = dm\<lparr>md_modules := (\<lambda>i. if i \<in> set [0..<CO_MONITOR_MODULES_COUNT] \<and> md_modules dm i = Some p
         then None else md_modules dm i)\<rparr>" using y(1) c(4) by simp
      then show False using y(2) refs_moduleD(1) [OF c(2) y] by (auto split: if_splits)
    qed
    moreover have "books mg1"
    proof (rule books_keep [OF b1])
      show "idle_unlisted mg1"
        using books_owners(2) [OF b1] m unfolding idle_unlisted_def c(4) by auto
      show "map_option (\<lambda>d. (md_listed d, md_memory d)) (mg_mons mg1 x) =
          map_option (\<lambda>d. (md_listed d, md_memory d)) (mg_mons ?mg x)" for x
        unfolding c(4) using m by simp
    qed (use c(3) closes_users [OF c(3)] closes_owners [OF c(3) books_owners(1) [OF b1]] in \<open>simp_all add: closes_def\<close>)
    ultimately show ?thesis using c(1,2) d1 Some by (auto simp: steady_def)
  qed
  then obtain mg1 d1 where mg1: "(case od_monitor d of None \<Rightarrow> Some ?mg
        | Some m \<Rightarrow> disconnect_modules (co_manager_close k pid) m p [0..<CO_MONITOR_MODULES_COUNT] ?mg) = Some mg1"
      "steady E T mg1" "mg_opens mg1 p = Some d1" "od_monitor d1 = None \<or> slots mg1 p = {}" by blast
  have "steady (E - {p}) (T(p := T p + 1)) mg1" by (rule handle_out [OF mg1(2) p mg1(3,4)])
  moreover have "(T(p := T p + 1)) p > 0" by simp
  ultimately obtain mg' where c: "co_manager_close k pid p mg1 = Some mg'"
    "steady (E - {p}) ((T(p := T p + 1))(p := (T(p := T p + 1)) p - 1)) mg'" using close_steady k by metis
  have "(T(p := T p + 1))(p := (T(p := T p + 1)) p - 1) = T" by simp
  then have "steady (E - {p}) T mg'" using c(2) by metis
  moreover have "co_manager_open_desc_deactive_and_close (co_manager_close k pid) p mg = Some mg'"
    using d mg1(1) c(1) unfolding co_manager_open_desc_deactive_and_close_def update_open_def by (cases "od_monitor d") auto
  ultimately show ?thesis by blast
qed

lemma ioctl_close_steady:
  assumes s: "steady E T mg" and p: "p \<in> E" and k: "k > 0"
  shows "\<exists>mg'. ioctl_close (co_manager_close k pid) pid p mg = Some mg' \<and> steady E T mg'"
proof -
  have r: "refs E T (\<lambda>_. 0) {} mg" and b: "books mg" using steadyD [OF s] by auto
  obtain d where d: "mg_opens mg p = Some d" using refs_held(3) [OF r] p by auto
  show ?thesis
  proof (cases "od_monitor d")
    case None
    then show ?thesis using d s by (simp add: ioctl_close_def)
  next
    case (Some m)
    obtain dm where dm: "mg_mons mg m = Some dm" using refs_user [OF r d Some] by auto
    let ?R = "(\<lambda>_. 0)(m := Suc 0)"
    have r1: "refs E T ?R {p} mg" using refs_leave [OF r d Some] by simp
    have nomod: "md_modules dm = (\<lambda>_. None)" if "md_ref dm = 1" "\<not> od_owner d"
      by (rule guest_modules [OF s dm that(1) d Some that(2)])
    have Rm: "?R m > 0" by simp
    from refdown_refs [where mo = "od_owner d" and pid = pid, OF k r1 dm Rm nomod] obtain mg2 where
      c: "co_monitor_refdown (co_manager_close k pid) pid m (od_owner d) mg = Some (RC_OK, mg2)"
      "refs E T (?R(m := ?R m - 1)) {p} mg2" "opens_kept mg mg2" "gone m (od_owner d) dm mg mg2" by blast
    have R0: "?R(m := ?R m - 1) = (\<lambda>_. 0)" by auto
    obtain d2 where d2: "mg_opens mg2 p = Some d2" using refs_held(3) [OF c(2)] p by auto
    have pos: "od_ref d2 > 0"
      using refs_ref(1) [OF c(2) d2] p waiting_nonneg [of d2] by simp
    let ?d = "d2\<lparr>od_monitor := None, od_owner := False\<rparr>"
    let ?mg = "mg2\<lparr>mg_opens := (mg_opens mg2)(p \<mapsto> ?d)\<rparr>"
    have "refs E (T(p := T p)) (\<lambda>_. 0) {p} ?mg"
      by (rule refs_open_upd [OF c(2)[unfolded R0] d2]) (use pos in \<open>simp_all add: waiting_def\<close>)
    then have "refs E T (\<lambda>_. 0) ({p} - {p}) ?mg"
      using refs_open_in [of E T "\<lambda>_. 0" "{p}" ?mg p ?d] pos by simp
    then have r3: "refs E T (\<lambda>_. 0) {} ?mg" by simp
    have g3: "gone m (od_owner d) dm mg ?mg" using c(4) unfolding gone_def by (simp cong: if_cong)
    have u3: "users_kept {p} mg ?mg" using kept_users [OF c(3), of "{p}"] by (simp add: users_kept_def)
    have "owners_have_monitors mg2" using kept_owners [OF c(3) books_owners(1) [OF b]] .
    then have o3: "owners_have_monitors ?mg" by (simp add: owners_have_monitors_def)
    have "books ?mg"
      by (rule books_gone [OF b refs_held(2) [OF r] d Some refl dm g3 u3 o3 sole_user [OF r dm _ d Some]])
    then have "steady E T ?mg" using r3 by (simp add: steady_def)
    moreover have "ioctl_close (co_manager_close k pid) pid p mg = Some ?mg"
      using d Some c(1) d2 by (simp add: ioctl_close_def update_open_def)
    ultimately show ?thesis by blast
  qed
qed

lemma open_steady:
  assumes s: "steady E T mg" and p: "mg_opens mg p = None"
  shows "\<exists>mg'. co_manager_open (Some p) RC_OK RC_OK mg = (RC_OK, Some p, mg') \<and> steady (insert p E) T mg'"
proof -
  have r: "refs E T (\<lambda>_. 0) {} mg" and b: "books mg" using steadyD [OF s] by auto
  let ?d = "zeroed_desc\<lparr>od_ref := 1, od_active := True\<rparr>"
  let ?mg = "mg\<lparr>mg_opens := (mg_opens mg)(p \<mapsto> ?d), mg_open_list := p # mg_open_list mg, mg_num_opens := mg_num_opens mg + 1\<rparr>"
  have u: "user_set {} ?mg m = user_set {} mg m" for m
    using p unfolding user_set_def by (auto simp: zeroed_desc_def)
  have sl: "slots ?mg q = slots mg q" for q by (simp add: slots_def)
  have slp: "slots mg p = {}"
    using refs_moduleD(2) [OF r] p by (fastforce simp: slots_def)
  have T: "T p = 0" using refs_held(4) [OF r, of p] p by (cases "T p") auto
  have pl: "p \<notin> set (mg_open_list mg)" using refs_held(7) [OF r] p by auto
  have "refs (insert p E) T (\<lambda>_. 0) {} ?mg"
  proof (rule refsI, unfold u sl)
    fix q e assume "mg_opens ?mg q = Some e"
    then show "od_ref e = of_bool (q \<in> insert p E) + int (T q) + int (card (slots mg q)) + waiting e" "od_ref e > 0"
      using refs_ref [OF r, of q] slp T by (cases "q = p"; fastforce simp: zeroed_desc_def waiting_def)+
  next
    fix m dm i q assume m: "mg_mons ?mg m = Some dm" "md_modules dm i = Some q"
    then have m': "mg_mons mg m = Some dm" by simp
    have "q \<noteq> p" using refs_moduleD(2) [OF r m' m(2)] p by auto
    then show "\<exists>dp. mg_opens ?mg q = Some dp \<and> (od_monitor dp = None \<or> q \<in> insert p E \<and> od_monitor dp = Some m)"
      using refs_moduleD(2) [OF r m' m(2)] by auto
    show "i < CO_MONITOR_MODULES_COUNT" using refs_moduleD(1) [OF r m' m(2)] .
  next
    fix q e m assume "mg_opens ?mg q = Some e" "od_monitor e = Some m"
    then show "m \<in> dom (mg_mons ?mg)" using refs_user [OF r, of q e m] by (auto simp: zeroed_desc_def split: if_splits)
  next
    fix q assume "T q > 0"
    then show "q \<in> dom (mg_opens ?mg)" using refs_held(4) [OF r, of q] by auto
  qed (use refs_mon [OF r] refs_held [OF r] pl in auto)
  moreover have "books ?mg"
  proof (rule books_keep [OF b])
    show "idle_unlisted ?mg" using books_owners(2) [OF b] by (simp add: idle_unlisted_def)
    show "owners_have_monitors ?mg" using books_owners(1) [OF b] by (auto simp: owners_have_monitors_def zeroed_desc_def)
    show "users_kept {} mg ?mg" using p by (auto simp: users_kept_def)
  qed simp_all
  ultimately show ?thesis by (simp add: steady_def co_manager_open_def)
qed
section \<open>A descriptor takes a monitor\<close>

lemma refs_join:
  assumes r: "refs E T R {} mg" and d: "mg_opens mg p = Some d" "od_monitor d = None" and p: "p \<in> E" "slots mg p = {}"
    and m: "mg_mons mg m = Some dm"
  shows "refs E T R {} (mg\<lparr>mg_mons := (mg_mons mg)(m \<mapsto> dm\<lparr>md_ref := md_ref dm + 1\<rparr>),
      mg_opens := (mg_opens mg)(p \<mapsto> d\<lparr>od_monitor := Some m, od_owner := b\<rparr>)\<rparr>)" (is "refs _ _ _ _ ?mg")
proof -
  have sl: "slots ?mg q = slots mg q" for q using m by (auto simp: slots_def split: if_splits)
  have "p \<notin> user_set {} mg x" for x using d by (simp add: user_set_def)
  moreover have "user_set {} ?mg x = (if x = m then insert p (user_set {} mg x) else user_set {} mg x)" for x
    using d by (auto simp: user_set_def split: if_splits)
  ultimately have u: "card (user_set {} ?mg x) = card (user_set {} mg x) + of_bool (x = m)" for x
    using finite_user_set [OF r] by simp
  show ?thesis
  proof (rule refsI, unfold sl u)
    fix q e assume "mg_opens ?mg q = Some e"
    then show "od_ref e = of_bool (q \<in> E) + int (T q) + int (card (slots mg q)) + waiting e" "od_ref e > 0"
      using refs_ref [OF r, of q] d by (cases "q = p"; fastforce simp: waiting_def)+
  next
    fix x e assume "mg_mons ?mg x = Some e"
    then show "md_ref e = int (R x) + int (card (user_set {} mg x) + of_bool (x = m))" "md_ref e > 0"
      using refs_mon [OF r, of x] m by (cases "x = m"; fastforce)+
  next
    fix x e i q assume x: "mg_mons ?mg x = Some e" "md_modules e i = Some q"
    then obtain e' where e': "mg_mons mg x = Some e'" "md_modules e' i = Some q" using m by (auto split: if_splits)
    have "q \<noteq> p" using e' p(2) by (auto simp: slots_def)
    then show "\<exists>dp. mg_opens ?mg q = Some dp \<and> (od_monitor dp = None \<or> q \<in> E \<and> od_monitor dp = Some x)"
      using refs_moduleD(2) [OF r e'] by auto
    show "i < CO_MONITOR_MODULES_COUNT" using refs_moduleD(1) [OF r e'] .
  next
    fix q e x assume "mg_opens ?mg q = Some e" "od_monitor e = Some x"
    then show "x \<in> dom (mg_mons ?mg)" using refs_user [OF r, of q e x] m by (auto split: if_splits)
  next
    show "q \<in> dom (mg_opens ?mg)" if "T q > 0" for q using refs_held(4) [OF r that] by auto
    show "x \<in> dom (mg_mons ?mg)" if "R x > 0" for x using refs_held(5) [OF r that] by auto
  qed (use refs_held [OF r] d in auto)
qed

lemma refs_new_mon:
  assumes r: "refs E T R {} mg" and m: "mg_mons mg m = None" and dm: "md_ref dm = 1" "md_modules dm = (\<lambda>_. None)"
  shows "refs E T (R(m := 1)) {} (mg\<lparr>mg_mons := (mg_mons mg)(m \<mapsto> dm)\<rparr>)" (is "refs _ _ _ _ ?mg")
proof -
  have sl: "slots ?mg q = slots mg q" for q using m dm by (auto simp: slots_def split: if_splits)
  have u: "user_set {} ?mg x = user_set {} mg x" for x by (simp add: user_set_def)
  have nouser: "user_set {} mg m = {}" using refs_user [OF r] m by (fastforce simp: user_set_def)
  show ?thesis
  proof (rule refsI, unfold sl u)
    fix x e assume "mg_mons ?mg x = Some e"
    then show "md_ref e = int ((R(m := 1)) x) + int (card (user_set {} mg x))" "md_ref e > 0"
      using refs_mon [OF r, of x] dm nouser by (cases "x = m"; fastforce)+
  next
    fix x e i q assume "mg_mons ?mg x = Some e" "md_modules e i = Some q"
    then have "mg_mons mg x = Some e" "md_modules e i = Some q" using dm by (auto split: if_splits)
    note e = refs_moduleD [OF r this]
    show "i < CO_MONITOR_MODULES_COUNT"
      "\<exists>dp. mg_opens ?mg q = Some dp \<and> (od_monitor dp = None \<or> q \<in> E \<and> od_monitor dp = Some x)" using e by simp_all
  next
    fix q e x assume "mg_opens ?mg q = Some e" "od_monitor e = Some x"
    then show "x \<in> dom (mg_mons ?mg)" using refs_user [OF r, of q e x] by auto
  next
    show "x \<in> dom (mg_mons ?mg)" if "(R(m := 1)) x > 0" for x using refs_held(5) [OF r, of x] that by (auto split: if_splits)
  qed (use refs_held [OF r] refs_ref [OF r] in auto)
qed

lemma refs_cong:
  "mg_opens a = mg_opens b \<Longrightarrow> mg_mons a = mg_mons b \<Longrightarrow> mg_open_list a = mg_open_list b \<Longrightarrow>
    mg_num_opens a = mg_num_opens b \<Longrightarrow> refs E T R X a \<longleftrightarrow> refs E T R X b"
  by (simp add: refs_def shape_def counts_def slots_def user_set_def)

lemma limit_not_ok [simp]: "\<not> rc_ok RC_HOSTMEM_USE_LIMIT_REACHED"
  by (simp add: rc_ok_def)

lemma create_steady:
  assumes s: "steady E T mg" and p: "p \<in> E" "slots mg p = {}" and m: "mg_mons mg (snd built) = None"
  shows "\<exists>rc mg'. ioctl_create amount ram mid video built p mg = Some (rc, mg') \<and> steady E T mg'"
proof -
  have r: "refs E T (\<lambda>_. 0) {} mg" and b: "books mg" using steadyD [OF s] by auto
  obtain d where d: "mg_opens mg p = Some d" using refs_held(3) [OF r] p by auto
  let ?mem = "monitor_memory_size amount ram"
  let ?m = "snd built"
  show ?thesis
  proof (cases "od_monitor d = None \<and> rc_ok (fst (reserve_hostmem ?mem mg)) \<and> rc_ok (fst built)")
    case False
    have "mg\<lparr>mg_hostmem_used := mg_hostmem_used mg + ?mem, mg_hostmem_used := mg_hostmem_used mg\<rparr> = mg" by simp
    then show ?thesis
      using False d s by (auto simp: ioctl_create_def reserve_hostmem_def Let_def split: if_splits)
  next
    case True
    let ?dm = "\<lparr>md_ref = 1, md_listed = True, md_id = mid, md_modules = (\<lambda>_. None), md_memory = ?mem,
      md_video_dev = video, md_video_user = CO_INVALID_ID\<rparr>"
    let ?d = "d\<lparr>od_monitor := Some ?m, od_owner := True\<rparr>"
    let ?mg = "mg\<lparr>mg_hostmem_used := mg_hostmem_used mg + ?mem, mg_mons := (mg_mons mg)(?m \<mapsto> ?dm),
        mg_monitors_count := mg_monitors_count mg + 1, mg_mon_list := ?m # mg_mon_list mg,
        mg_opens := (mg_opens mg)(p \<mapsto> ?d)\<rparr>"
    have eq: "ioctl_create amount ram mid video built p mg = Some (RC_OK, ?mg)"
      using True d by (auto simp: ioctl_create_def reserve_hostmem_def list_monitor_def update_open_def Let_def split: if_splits)
    let ?old = "mg\<lparr>mg_mons := (mg_mons mg)(?m \<mapsto> ?dm)\<rparr>"
    let ?mg1 = "?old\<lparr>mg_mons := (mg_mons ?old)(?m \<mapsto> ?dm\<lparr>md_ref := md_ref ?dm + 1\<rparr>), mg_opens := (mg_opens ?old)(p \<mapsto> ?d)\<rparr>"
    have r0: "refs E T ((\<lambda>_. 0)(?m := 1)) {} ?old" by (rule refs_new_mon [OF r m]) simp_all
    have sl0: "slots ?old p = {}" using p(2) by (auto simp: slots_def split: if_splits)
    have r1: "refs E T ((\<lambda>_. 0)(?m := 1)) {} ?mg1"
      by (rule refs_join [OF r0 _ _ p(1) sl0]) (use d True in simp_all)
    have R0: "((\<lambda>_. 0)(?m := 1))(?m := 0) = (\<lambda>_. 0 :: nat)" by auto
    have m1: "mg_mons ?mg1 ?m = Some (?dm\<lparr>md_ref := md_ref ?dm + 1\<rparr>)" by simp
    have "refs E T (((\<lambda>_. 0)(?m := 1))(?m := 0)) {} (?mg1\<lparr>mg_mons := (mg_mons ?mg1)(?m \<mapsto> ?dm)\<rparr>)"
      by (rule refs_mon_same [OF r1 m1]) simp_all
    then have r2: "refs E T (\<lambda>_. 0) {} (?mg1\<lparr>mg_mons := (mg_mons ?mg1)(?m \<mapsto> ?dm)\<rparr>)"
      by (simp only: R0)
    have rr: "refs E T (\<lambda>_. 0) {} ?mg"
      by (rule iffD1 [OF refs_cong r2]) simp_all
    have ml: "?m \<notin> set (mg_mon_list mg)" using b m by (auto simp: books_def)
    have uk: "users_kept {} mg ?mg" using d True by (auto simp: users_kept_def)
    have own: "owned ?mg x" if "x \<in> set (mg_mon_list ?mg)" for x
    proof (cases "x = ?m")
      case True
      then show ?thesis by (auto simp: owned_def intro!: exI [of _ p])
    next
      case False
      then have "owned mg x" using that b by (simp add: books_def)
      then obtain q dq where "mg_opens mg q = Some dq" "od_owner dq" "od_monitor dq = Some x" unfolding owned_def by blast
      then show ?thesis using owned_kept [OF uk] by blast
    qed
    have "books ?mg"
      unfolding books_def
    proof (intro conjI ballI own)
      show "set (mg_mon_list ?mg) = {x. \<exists>d. mg_mons ?mg x = Some d \<and> md_listed d}"
        using b m by (auto simp: books_def)
      show "idle_unlisted ?mg" using books_owners(2) [OF b] by (simp add: idle_unlisted_def)
      show "owners_have_monitors ?mg" using books_owners(1) [OF b] by (simp add: owners_have_monitors_def)
      have "(\<Sum>x \<in> dom (mg_mons mg). md_memory (the (((mg_mons mg)(?m \<mapsto> ?dm)) x))) = (\<Sum>x \<in> dom (mg_mons mg). md_memory (the (mg_mons mg x)))"
        by (rule sum.cong) (use m in auto)
      then show "mg_hostmem_used ?mg = (\<Sum>x \<in> dom (mg_mons ?mg). md_memory (the (mg_mons ?mg x)))"
        using b refs_held(2) [OF r] m by (simp add: books_def domIff)
    qed (use b ml in \<open>simp_all add: books_def\<close>)
    then show ?thesis using eq rr by (simp add: steady_def)
  qed
qed
lemma slot_in:
  assumes r: "refs E T R X mg" and m: "mg_mons mg m = Some d" "md_modules d i = None" "i < CO_MONITOR_MODULES_COUNT"
    and p: "mg_opens mg p = Some dp" "p \<in> E" "od_monitor dp = None \<or> od_monitor dp = Some m"
  shows "refs E T R X (mg\<lparr>mg_mons := (mg_mons mg)(m \<mapsto> d\<lparr>md_modules := (md_modules d)(i \<mapsto> p)\<rparr>),
      mg_opens := (mg_opens mg)(p \<mapsto> dp\<lparr>od_ref := od_ref dp + 1\<rparr>)\<rparr>)"
proof -
  let ?d = "d\<lparr>md_modules := (md_modules d)(i \<mapsto> p)\<rparr>"
  let ?dp = "dp\<lparr>od_ref := od_ref dp + 1\<rparr>"
  let ?a = "mg\<lparr>mg_opens := (mg_opens mg)(p \<mapsto> ?dp)\<rparr>"
  have pos: "od_ref dp > 0" using refs_ref(1) [OF r p(1)] p(2) waiting_nonneg [of dp] by simp
  have ra: "refs E (T(p := T p + 1)) R X ?a"
    by (rule refs_open_upd [OF r p(1)]) (use pos in \<open>simp_all add: waiting_def\<close>)
  have ma: "mg_mons ?a m = Some d" using m by simp
  have sl: "slots (?a\<lparr>mg_mons := (mg_mons ?a)(m \<mapsto> ?d)\<rparr>) q = (if q = p then insert (m, i) (slots ?a q) else slots ?a q)" for q
    unfolding slots_mon_upd using m by (auto simp: slots_def split: if_splits)
  have "(m, i) \<notin> slots ?a p" using m by (simp add: slots_def)
  then have c: "card (insert (m, i) (slots ?a p)) = Suc (card (slots ?a p))" using finite_slots [OF ra, of p] by simp
  have "refs E T (R(m := R m)) X (?a\<lparr>mg_mons := (mg_mons ?a)(m \<mapsto> ?d)\<rparr>)"
  proof (rule refs_mon_upd [OF ra ma])
    show "md_modules ?d j = Some q \<Longrightarrow> md_modules d j = Some q \<or> (j < CO_MONITOR_MODULES_COUNT \<and>
        (\<exists>dq. mg_opens ?a q = Some dq \<and> (od_monitor dq = None \<or> q \<in> E \<and> od_monitor dq = Some m)))" for j q
      using m p by (auto split: if_splits)
    show "int (T q) + int (card (slots (?a\<lparr>mg_mons := (mg_mons ?a)(m \<mapsto> ?d)\<rparr>) q)) =
        int ((T(p := T p + 1)) q) + int (card (slots ?a q))" for q
      unfolding sl using c by simp
    show "T q > 0 \<Longrightarrow> q \<in> dom (mg_opens ?a)" for q using refs_held(4) [OF r, of q] by auto
  qed (use refs_mon(2) [OF r m(1)] in simp_all)
  then have rb: "refs E T R X (?a\<lparr>mg_mons := (mg_mons ?a)(m \<mapsto> ?d)\<rparr>)" by simp
  show ?thesis by (rule iffD1 [OF refs_cong rb]) simp_all
qed

lemma connect_refs:
  assumes k: "k > 0" and p: "p \<in> E" and "\<forall>i \<in> set is. i < CO_MONITOR_MODULES_COUNT" and r: "refs E T R X mg"
    and m: "mg_mons mg m = Some d" and dp: "mg_opens mg p = Some dp" "od_monitor dp = None \<or> od_monitor dp = Some m"
  shows "\<exists>mg'. connect_modules (co_manager_close k pid) m p is mg = Some mg' \<and> refs E T R X mg' \<and> closes mg mg' \<and>
    mg_mons mg' = (mg_mons mg)(m \<mapsto> d\<lparr>md_modules := (\<lambda>i. if i \<in> set is then Some p else md_modules d i)\<rparr>)"
  using assms(3-7)
proof (induction "is" arbitrary: mg d dp)
  case Nil
  then show ?case by (auto simp: closes_refl fun_upd_idem)
next
  case (Cons i "is")
  note r = Cons.prems(2) and m = Cons.prems(3) and dp = Cons.prems(4,5)
  have i: "i < CO_MONITOR_MODULES_COUNT" using Cons.prems(1) by simp
  let ?no = "d\<lparr>md_modules := (md_modules d)(i := None)\<rparr>"
  let ?d = "d\<lparr>md_modules := (md_modules d)(i \<mapsto> p)\<rparr>"
  have "\<exists>mc. (case md_modules d i of None \<Rightarrow> Some mg | Some q \<Rightarrow> co_manager_close k pid q mg) = Some (mc\<lparr>mg_mons := mg_mons mg\<rparr>) \<and>
      refs E T R X mc \<and> closes mg mc \<and> mg_mons mc = (mg_mons mg)(m \<mapsto> ?no)"
  proof (cases "md_modules d i")
    case None
    then have "?no = d" by (simp add: fun_upd_idem)
    then show ?thesis using None r m by (intro exI [of _ mg]) (simp add: closes_refl fun_upd_idem)
  next
    case (Some q)
    let ?mgo = "mg\<lparr>mg_mons := (mg_mons mg)(m \<mapsto> ?no)\<rparr>"
    have ro: "refs E (T(q := T q + 1)) R X ?mgo" by (rule slot_out [OF r m Some])
    have mon: "od_monitor dd = None" if "mg_opens ?mgo q = Some dd" "od_ref dd = 1" for dd
    proof -
      have "q \<notin> E" using refs_ref(1) [OF ro that(1)] that(2) waiting_nonneg [of dd] by (cases "q \<in> E") auto
      then show ?thesis using refs_moduleD(2) [OF r m Some] that(1) by auto
    qed
    obtain mc where c: "co_manager_close k pid q ?mgo = Some mc" "refs E T R X mc" "closes ?mgo mc" "mg_mons mc = mg_mons ?mgo"
      "\<forall>x. co_manager_close k pid q (?mgo\<lparr>mg_mons := x\<rparr>) = Some (mc\<lparr>mg_mons := x\<rparr>)"
      using close_back [where pid = pid, OF ro k mon] by metis
    have "?mgo\<lparr>mg_mons := mg_mons mg\<rparr> = mg" by simp
    then have "co_manager_close k pid q mg = Some (mc\<lparr>mg_mons := mg_mons mg\<rparr>)" using c(5) by metis
    moreover have "closes mg mc"
      using c(3) closes_trans [of mg ?mgo mc] by (simp add: closes_def)
    ultimately show ?thesis using Some c(2,4) by auto
  qed
  then obtain mc where mc: "(case md_modules d i of None \<Rightarrow> Some mg | Some q \<Rightarrow> co_manager_close k pid q mg) = Some (mc\<lparr>mg_mons := mg_mons mg\<rparr>)"
      "refs E T R X mc" "closes mg mc" "mg_mons mc = (mg_mons mg)(m \<mapsto> ?no)" by blast
  obtain dc where dc: "mg_opens mc p = Some dc" using refs_held(3) [OF mc(2)] p by auto
  then have monc: "od_monitor dc = od_monitor dp" using mc(3) dp unfolding closes_def by fastforce
  let ?dc = "dc\<lparr>od_ref := od_ref dc + 1\<rparr>"
  let ?n = "mc\<lparr>mg_mons := (mg_mons mg)(m \<mapsto> ?d), mg_opens := (mg_opens mc)(p \<mapsto> ?dc)\<rparr>"
  have mcm: "mg_mons mc m = Some ?no" "md_modules ?no i = None" using mc(4) by simp_all
  have "od_monitor dc = None \<or> od_monitor dc = Some m" using monc dp by simp
  from slot_in [OF mc(2) mcm i dc p this]
  have rn: "refs E T R X ?n" unfolding mc(4) by simp
  have cn: "closes mg ?n"
  proof -
    have "closes mc ?n" using dc by (auto simp: closes_def)
    then show ?thesis using mc(3) closes_trans by blast
  qed
  have step: "connect_modules (co_manager_close k pid) m p (i # is) mg = connect_modules (co_manager_close k pid) m p is ?n"
    using m i mc(1) dc by (simp add: update_mon_def update_open_def)
  have mn: "mg_mons ?n m = Some ?d" by simp
  have on: "mg_opens ?n p = Some ?dc" "od_monitor ?dc = None \<or> od_monitor ?dc = Some m" using monc dp by simp_all
  have isl: "\<forall>i \<in> set is. i < CO_MONITOR_MODULES_COUNT" using Cons.prems(1) by simp
  from Cons.IH [OF isl rn mn on] obtain mg' where
    e: "connect_modules (co_manager_close k pid) m p is ?n = Some mg'" "refs E T R X mg'" "closes ?n mg'"
      "mg_mons mg' = (mg_mons ?n)(m \<mapsto> ?d\<lparr>md_modules := (\<lambda>i. if i \<in> set is then Some p else md_modules ?d i)\<rparr>)" by blast
  have "?d\<lparr>md_modules := (\<lambda>j. if j \<in> set is then Some p else md_modules ?d j)\<rparr> =
      d\<lparr>md_modules := (\<lambda>j. if j \<in> set (i # is) then Some p else md_modules d j)\<rparr>"
    by (intro mon_desc.equality) (auto intro!: ext)
  then have "mg_mons mg' = (mg_mons mg)(m \<mapsto> d\<lparr>md_modules := (\<lambda>j. if j \<in> set (i # is) then Some p else md_modules d j)\<rparr>)"
    using e(4) by simp
  moreover have "closes mg mg'" using cn e(3) closes_trans by blast
  ultimately show ?case using step e(1,2) by auto
qed

lemma find_monitor_total:
  assumes "\<forall>m \<in> set ms. mg_mons mg m \<noteq> None"
  shows "\<exists>r. find_monitor mg mid ms = Some r \<and> (\<forall>m. r = Some m \<longrightarrow> m \<in> set ms \<and> map_option md_id (mg_mons mg m) = Some mid)"
  using assms by (induction ms) auto

lemma attach_steady:
  assumes s: "steady E T mg" and p: "p \<in> E" "slots mg p = {}" and d: "mg_opens mg p = Some d" "od_monitor d = None"
    and mods: "\<forall>i \<in> set modules. i < CO_MONITOR_MODULES_COUNT" and k: "k > 0"
  shows "\<exists>rc mg'. ioctl_attach (co_manager_close k pid) mid modules p mg = Some (rc, mg') \<and> steady E T mg'"
proof -
  have r: "refs E T (\<lambda>_. 0) {} mg" and b: "books mg" using steadyD [OF s] by auto
  have listed: "set (mg_mon_list mg) = {m. \<exists>d. mg_mons mg m = Some d \<and> md_listed d}" using b by (simp add: books_def)
  then have "\<forall>m \<in> set (mg_mon_list mg). mg_mons mg m \<noteq> None" by auto
  from find_monitor_total [OF this, of mid] obtain f where
    f: "find_monitor mg mid (mg_mon_list mg) = Some f" "\<And>m. f = Some m \<Longrightarrow> m \<in> set (mg_mon_list mg)" by blast
  show ?thesis
  proof (cases f)
    case None
    have "d\<lparr>od_monitor := None\<rparr> = d" using d by simp
    then have "ioctl_attach (co_manager_close k pid) mid modules p mg = Some (RC_ERROR, mg)"
      using f(1) None d by (simp add: ioctl_attach_def update_open_def fun_upd_idem)
    then show ?thesis using s by simp
  next
    case (Some m)
    then obtain dm where m: "mg_mons mg m = Some dm" "md_listed dm" using f(2) listed by auto
    have no: "\<not> od_owner d" using books_owners(1) [OF b] d unfolding owners_have_monitors_def by blast
    let ?dm = "dm\<lparr>md_ref := md_ref dm + 1\<rparr>"
    let ?d = "d\<lparr>od_monitor := Some m\<rparr>"
    let ?j = "mg\<lparr>mg_mons := (mg_mons mg)(m \<mapsto> ?dm), mg_opens := (mg_opens mg)(p \<mapsto> ?d)\<rparr>"
    have rj: "refs E T (\<lambda>_. 0) {} ?j" using refs_join [OF r d p m(1), of "od_owner d"] by simp
    have mj: "mg_mons ?j m = Some ?dm" and dj: "mg_opens ?j p = Some ?d" "od_monitor ?d = None \<or> od_monitor ?d = Some m" by simp_all
    from connect_refs [OF k p(1) mods rj mj dj, of pid] obtain mg' where
      c: "connect_modules (co_manager_close k pid) m p modules ?j = Some mg'" "refs E T (\<lambda>_. 0) {} mg'" "closes ?j mg'"
        "mg_mons mg' = (mg_mons ?j)(m \<mapsto> ?dm\<lparr>md_modules := (\<lambda>i. if i \<in> set modules then Some p else md_modules ?dm i)\<rparr>)" by blast
    have oj: "owners_have_monitors ?j" using books_owners(1) [OF b] by (simp add: owners_have_monitors_def)
    have uj: "users_kept {} mg ?j" using d by (auto simp: users_kept_def)
    have u': "users_kept {} mg mg'"
      unfolding users_kept_def
    proof (intro allI impI)
      fix q dq assume q: "q \<notin> {}" "mg_opens mg q = Some dq" "od_monitor dq \<noteq> None"
      then have "mg_opens ?j q = Some dq" using d by auto
      then show "\<exists>d'. mg_opens mg' q = Some d' \<and> od_monitor d' = od_monitor dq \<and> od_owner d' = od_owner dq"
        using closes_users [OF c(3), of "{}"] q(1,3) unfolding users_kept_def by blast
    qed
    have "books mg'"
    proof (rule books_keep [OF b])
      show "idle_unlisted mg'"
        unfolding idle_unlisted_def c(4) using books_owners(2) [OF b] m(2) by (simp add: idle_unlisted_def)
      show "map_option (\<lambda>d. (md_listed d, md_memory d)) (mg_mons mg' x) = map_option (\<lambda>d. (md_listed d, md_memory d)) (mg_mons mg x)" for x
        unfolding c(4) using m by simp
    qed (use c(3) u' closes_owners [OF c(3) oj] in \<open>simp_all add: closes_def\<close>)
    moreover have "ioctl_attach (co_manager_close k pid) mid modules p mg = Some (RC_OK, mg')"
      using f(1) Some m d c(1) by (simp add: ioctl_attach_def update_open_def update_mon_def)
    ultimately show ?thesis using c(2) by (auto simp: steady_def)
  qed
qed
section \<open>Messages\<close>

text \<open>Closing with a reference of the operation: the descriptor stays when another reference is left.\<close>

lemma close_one:
  assumes s: "steady E (T(p := T p + 1)) mg" and k: "k > 1"
  shows "\<exists>mg'. co_manager_close k pid p mg = Some mg' \<and> steady E T mg'"
proof -
  have "(T(p := T p + 1)) p > 0" by simp
  then obtain mg' where c: "co_manager_close k pid p mg = Some mg'"
    "steady E ((T(p := T p + 1))(p := (T(p := T p + 1)) p - 1)) mg'" using close_steady [OF s] k by metis
  have "(T(p := T p + 1))(p := (T(p := T p + 1)) p - 1) = T" by simp
  then show ?thesis using c by metis
qed

lemma try_send_steady:
  assumes s: "steady E T mg" and d: "mg_opens mg p = Some d" and k: "k > 1"
  shows "\<exists>ret mg'. co_os_manager_userspace_try_send_direct (co_manager_close k pid) p msg mg = Some (ret, mg') \<and> steady E T mg'"
proof (cases "od_irp d")
  case None
  then show ?thesis using d s
    by (intro exI [of _ False] exI [of _ mg]) (simp add: co_os_manager_userspace_try_send_direct_def)
next
  case (Some i)
  let ?mg = "mg\<lparr>mg_opens := (mg_opens mg)(p \<mapsto> d\<lparr>od_irp := None\<rparr>)\<rparr>"
  have pos: "od_ref d > 0" using refs_ref(2) [OF steadyD(1) [OF s] d] by simp
  have "steady E (T(p := T p + 1)) ?mg"
    by (rule steady_open_upd [OF s d]) (use Some pos in \<open>simp_all add: waiting_def\<close>)
  then obtain mg' where "co_manager_close k pid p ?mg = Some mg'" "steady E T mg'" using close_one k by blast
  then show ?thesis using Some d by (simp add: co_os_manager_userspace_try_send_direct_def update_open_def ex_bool_eq)
qed

lemma send_steady:
  assumes s: "steady E T mg" and T: "T p > 0" and k: "k > 1"
  shows "\<exists>rc waits mg'. co_manager_send (co_manager_close k pid) dup_rc p msg mg = Some (rc, waits, mg') \<and> steady E T mg'"
proof -
  obtain d where d: "mg_opens mg p = Some d" using refs_held(4) [OF steadyD(1) [OF s] T] by auto
  from try_send_steady [OF s d k] obtain ret mg1 where
    t: "co_os_manager_userspace_try_send_direct (co_manager_close k pid) p msg mg = Some (ret, mg1)" "steady E T mg1" by blast
  obtain d1 where d1: "mg_opens mg1 p = Some d1" using refs_held(4) [OF steadyD(1) [OF t(2)] T] by auto
  have pos: "od_ref d1 > 0" using refs_ref(2) [OF steadyD(1) [OF t(2)] d1] by simp
  have "steady E (T(p := T p)) (mg1\<lparr>mg_opens := (mg_opens mg1)(p \<mapsto> d1\<lparr>od_queue := q\<rparr>)\<rparr>)" for q
    by (rule steady_open_upd [OF t(2) d1]) (use pos in \<open>simp_all add: waiting_def\<close>)
  then show ?thesis using t d1 by (auto simp: co_manager_send_def update_open_def)
qed

lemma incoming_steady:
  assumes s: "steady E T mg" and m: "m \<in> dom (mg_mons mg)" and to: "unat (m_to msg) < CO_MONITOR_MODULES_COUNT" and k: "k > 1"
  shows "\<exists>mg'. incoming_message (co_manager_close k pid) to_adapter dup_rc m msg mg = Some mg' \<and> steady E T mg'"
proof -
  have r: "refs E T (\<lambda>_. 0) {} mg" using steadyD(1) [OF s] .
  obtain d where d: "mg_mons mg m = Some d" using m by auto
  show ?thesis
  proof (cases "md_modules d (unat (m_to msg))")
    case None
    then show ?thesis using d to s by (simp add: incoming_message_def)
  next
    case (Some p)
    obtain dp where dp: "mg_opens mg p = Some dp" using refs_moduleD(2) [OF r d Some] by auto
    have pos: "od_ref dp > 0" using refs_ref(2) [OF r dp] by simp
    let ?mg = "mg\<lparr>mg_opens := (mg_opens mg)(p \<mapsto> dp\<lparr>od_ref := od_ref dp + 1\<rparr>)\<rparr>"
    have s1: "steady E (T(p := T p + 1)) ?mg"
      by (rule steady_open_upd [OF s dp]) (use pos in \<open>simp_all add: waiting_def\<close>)
    have op: "co_manager_open_ref p mg = Some (RC_OK, ?mg)"
      using dp pos by (simp add: co_manager_open_ref_def update_open_def)
    have "(T(p := T p + 1)) p > 0" by simp
    from send_steady [OF s1 this k, of pid dup_rc msg] obtain rc waits mg2 where
      snd: "co_manager_send (co_manager_close k pid) dup_rc p msg ?mg = Some (rc, waits, mg2)" "steady E (T(p := T p + 1)) mg2" by blast
    obtain mg3 where c3: "co_manager_close k pid p mg2 = Some mg3" "steady E T mg3" using close_one [OF snd(2) k] by blast
    obtain mg4 where c4: "co_manager_close k pid p ?mg = Some mg4" "steady E T mg4" using close_one [OF s1 k] by blast
    show ?thesis
    proof (cases to_adapter)
      case True
      then show ?thesis using d to Some op c4 by (simp add: incoming_message_def)
    next
      case False
      then show ?thesis using d to Some op snd(1) c3 by (simp add: incoming_message_def)
    qed
  qed
qed
end
