(* ===== verification/CoManagerSteps.thy ===== *)
theory CoManagerSteps
  imports CoRefs
begin

text \<open>
  The manager as its clients drive it: opening and closing handles, reading, cancelling reads, creating, attaching
  to and letting go of monitors, and messages on their way to a descriptor, in any order. Every state that is
  reached keeps the counts of \<open>CoRefs\<close>, so no request follows a freed address; and what goes wrong outside the
  requests that are allowed here.
\<close>

section \<open>Requests\<close>

datatype request =
    OpenHandle optr
  | ReadHandle optr irp
  | CancelRead optr irp
  | CloseHandle optr
  | CreateMonitor u32 u32 u32 bool "co_rc \<times> mptr" optr
  | AttachMonitor u32 "nat list" optr
  | CloseMonitor optr
  | Deliver mptr bool co_rc co_message

text \<open>What a client can ask: it uses handles it has open; blocks the allocator returns are not in use; the
  modules are real ones; and a descriptor with a monitor, or with modules of one, does not take another.\<close>

primrec allowed :: "request \<Rightarrow> optr set \<times> co_manager \<Rightarrow> bool" where
  "allowed (OpenHandle p) s \<longleftrightarrow> mg_opens (snd s) p = None"
| "allowed (ReadHandle p i) s \<longleftrightarrow> p \<in> fst s"
| "allowed (CancelRead p i) s \<longleftrightarrow> (case mg_opens (snd s) p of None \<Rightarrow> False | Some d \<Rightarrow> od_irp d = Some i \<or> od_irp d = None)"
| "allowed (CloseHandle p) s \<longleftrightarrow> p \<in> fst s"
| "allowed (CreateMonitor amount ram mid video built p) s \<longleftrightarrow>
     p \<in> fst s \<and> slots (snd s) p = {} \<and> mg_mons (snd s) (snd built) = None"
| "allowed (AttachMonitor mid modules p) s \<longleftrightarrow>
     p \<in> fst s \<and> slots (snd s) p = {} \<and> map_option od_monitor (mg_opens (snd s) p) = Some None \<and>
     (\<forall>i \<in> set modules. i < CO_MONITOR_MODULES_COUNT)"
| "allowed (CloseMonitor p) s \<longleftrightarrow> p \<in> fst s"
| "allowed (Deliver m to_adapter dup_rc msg) s \<longleftrightarrow>
     mg_mons (snd s) m \<noteq> None \<and> unat (m_to msg) < CO_MONITOR_MODULES_COUNT"

text \<open>\<open>k\<close>: how deep closing may nest.\<close>

primrec perform :: "nat \<Rightarrow> u32 \<Rightarrow> request \<Rightarrow> optr set \<times> co_manager \<Rightarrow> (optr set \<times> co_manager) option" where
  "perform k pid (OpenHandle p) s =
     (case co_manager_open (Some p) RC_OK RC_OK (snd s) of
        (rc, None, mg) \<Rightarrow> Some (fst s, mg)
      | (rc, Some q, mg) \<Rightarrow> Some (insert q (fst s), mg))"
| "perform k pid (ReadHandle p i) s = map_option (Pair (fst s)) (manager_read p i (snd s))"
| "perform k pid (CancelRead p i) s = map_option (Pair (fst s)) (manager_irp_cancel (co_manager_close k pid) p i (snd s))"
| "perform k pid (CloseHandle p) s =
     map_option (Pair (fst s - {p})) (co_manager_open_desc_deactive_and_close (co_manager_close k pid) p (snd s))"
| "perform k pid (CreateMonitor amount ram mid video built p) s =
     map_option (\<lambda>r. (fst s, snd r)) (ioctl_create amount ram mid video built p (snd s))"
| "perform k pid (AttachMonitor mid modules p) s =
     map_option (\<lambda>r. (fst s, snd r)) (ioctl_attach (co_manager_close k pid) mid modules p (snd s))"
| "perform k pid (CloseMonitor p) s = map_option (Pair (fst s)) (ioctl_close (co_manager_close k pid) pid p (snd s))"
| "perform k pid (Deliver m to_adapter dup_rc msg) s =
     map_option (Pair (fst s)) (incoming_message (co_manager_close k pid) to_adapter dup_rc m msg (snd s))"

definition no_descriptors :: "u32 \<Rightarrow> co_manager" where
  "no_descriptors limit = \<lparr>mg_opens = Map.empty, mg_open_list = [], mg_num_opens = 0, mg_mons = Map.empty, mg_mon_list = [],
     mg_monitors_count = 0, mg_hostmem_used = 0, mg_hostmem_limit = limit, mg_done = []\<rparr>"

inductive reached :: "optr set \<times> co_manager \<Rightarrow> bool" where
  start: "reached ({}, no_descriptors limit)"
| request: "reached s \<Longrightarrow> allowed r s \<Longrightarrow> k > 1 \<Longrightarrow> perform k pid r s = Some s' \<Longrightarrow> reached s'"

inductive_cases reached_request: "reached s"

section \<open>Every request keeps the counts\<close>

abbreviation between_requests :: "optr set \<times> co_manager \<Rightarrow> bool" where
  "between_requests s \<equiv> steady (fst s) (\<lambda>_. 0) (snd s)"

lemma start_steady: "steady {} (\<lambda>_. 0) (no_descriptors limit)"
  by (simp add: steady_def refs_def shape_def counts_def books_def idle_unlisted_def owners_have_monitors_def no_descriptors_def)

lemmas request_steady = open_steady read_steady cancel_steady handle_close_steady create_steady attach_steady
  ioctl_close_steady incoming_steady

lemma perform_steady:
  assumes s: "between_requests s" and a: "allowed r s" and k: "k > 1"
  shows "\<exists>s'. perform k pid r s = Some s' \<and> between_requests s'"
proof (cases r)
  case (OpenHandle p)
  then show ?thesis using open_steady [OF s, of p] a by auto
next
  case (ReadHandle p i)
  then show ?thesis using read_steady [OF s, of p i] a by auto
next
  case (CancelRead p i)
  then obtain d where "mg_opens (snd s) p = Some d" "od_irp d = Some i \<or> od_irp d = None" using a by (auto split: option.splits)
  from cancel_steady [OF s this k, of pid] show ?thesis using CancelRead by auto
next
  case (CloseHandle p)
  then show ?thesis using handle_close_steady [OF s _ k, of p pid] a by auto
next
  case (CreateMonitor amount ram mid video built p)
  then show ?thesis using create_steady [OF s, of p built amount ram mid video] a by fastforce
next
  case (AttachMonitor mid modules p)
  then obtain d where d: "mg_opens (snd s) p = Some d" "od_monitor d = None" using a by auto
  have "k > 0" using k by simp
  from attach_steady [OF s _ _ d _ this, of modules pid mid] show ?thesis using AttachMonitor a by fastforce
next
  case (CloseMonitor p)
  have "k > 0" using k by simp
  from ioctl_close_steady [OF s _ this, of p pid] show ?thesis using CloseMonitor a by auto
next
  case (Deliver m to_adapter dup_rc msg)
  then show ?thesis using incoming_steady [OF s _ _ k, of m msg pid to_adapter dup_rc] a by auto
qed

lemma reached_steady: "reached s \<Longrightarrow> between_requests s"
proof (induction rule: reached.induct)
  case (start limit)
  then show ?case by (simp add: start_steady)
next
  case (request s r k pid s')
  then show ?case using perform_steady [of s r k pid] by auto
qed

text \<open>C3: Reference counts. In every state that is reached from the loaded driver by the requests of \<open>allowed\<close>, in
  any order, the count of a descriptor is one for its open handle, one for every place in a monitor's modules and
  one for a read that waits, and is positive; the count of a monitor is the number of descriptors that use it, and is
  positive; every place refers to a descriptor that exists, every used monitor exists, and the counters of
  descriptors and of listed monitors are the lengths of their lists. These requests are the
  opens that succeed, the reads, cancels, closes and deliveries, creating by a descriptor that has no place in a
  monitor, and attaching by one that has neither a place nor a monitor, to module numbers inside the table. Left out
  are what the driver does not refuse and what breaks the counts: a second ATTACH of a descriptor and an ATTACH by an
  owner (which leak a count of the monitor, \<open>attach_again_leaks\<close>, \<open>attach_unknown_leaks\<close>) and a module number past
  the table (\<open>attach_outside\<close>); and an open that fails for want of memory, and RESET.\<close>

theorem manager_counts:
  assumes "reached (H, mg)"
  shows "(\<forall>p d. mg_opens mg p = Some d \<longrightarrow>
       od_ref d = of_bool (p \<in> H) + int (card {(m, i). \<exists>e. mg_mons mg m = Some e \<and> md_modules e i = Some p}) +
         of_bool (od_irp d \<noteq> None) \<and> od_ref d > 0 \<and> (\<forall>m. od_monitor d = Some m \<longrightarrow> mg_mons mg m \<noteq> None)) \<and>
     (\<forall>m d. mg_mons mg m = Some d \<longrightarrow>
       md_ref d = int (card {p. \<exists>e. mg_opens mg p = Some e \<and> od_monitor e = Some m}) \<and> md_ref d > 0 \<and>
       (\<forall>i p. md_modules d i = Some p \<longrightarrow> i < CO_MONITOR_MODULES_COUNT \<and> mg_opens mg p \<noteq> None) \<and>
       (md_listed d \<longleftrightarrow> m \<in> set (mg_mon_list mg))) \<and>
     mg_num_opens mg = of_nat (card (dom (mg_opens mg))) \<and> mg_monitors_count mg = of_nat (length (mg_mon_list mg)) \<and>
     mg_hostmem_used mg = (\<Sum>m \<in> dom (mg_mons mg). md_memory (the (mg_mons mg m)))"
proof -
  have r: "refs H (\<lambda>_. 0) (\<lambda>_. 0) {} mg" and b: "books mg" using reached_steady [OF assms] steadyD by auto
  have n: "card (dom (mg_opens mg)) = length (mg_open_list mg)"
    using refs_held(6,7) [OF r] distinct_card by metis
  have "of_bool (od_irp d \<noteq> None) = waiting d" for d by (simp add: waiting_def)
  then have desc: "od_ref d = of_bool (p \<in> H) + int (card {(m, i). \<exists>e. mg_mons mg m = Some e \<and> md_modules e i = Some p}) +
       of_bool (od_irp d \<noteq> None) \<and> od_ref d > 0 \<and> (\<forall>m. od_monitor d = Some m \<longrightarrow> mg_mons mg m \<noteq> None)"
    if "mg_opens mg p = Some d" for p d
    using refs_ref [OF r that] refs_user [OF r that] by (simp add: slots_def domIff)
  have mon: "md_ref d = int (card {p. \<exists>e. mg_opens mg p = Some e \<and> od_monitor e = Some m}) \<and> md_ref d > 0 \<and>
       (\<forall>i p. md_modules d i = Some p \<longrightarrow> i < CO_MONITOR_MODULES_COUNT \<and> mg_opens mg p \<noteq> None) \<and>
       (md_listed d \<longleftrightarrow> m \<in> set (mg_mon_list mg))" if m: "mg_mons mg m = Some d" for m d
  proof (intro conjI allI impI)
    show "md_ref d = int (card {p. \<exists>e. mg_opens mg p = Some e \<and> od_monitor e = Some m})" "md_ref d > 0"
      using refs_mon [OF r m] by (simp_all add: user_set_def)
    show "i < CO_MONITOR_MODULES_COUNT" "mg_opens mg p \<noteq> None" if "md_modules d i = Some p" for i p
      using refs_moduleD [OF r m that] by auto
    show "md_listed d \<longleftrightarrow> m \<in> set (mg_mon_list mg)" using b m by (simp add: books_def)
  qed
  have cnt: "mg_num_opens mg = of_nat (card (dom (mg_opens mg)))" "mg_monitors_count mg = of_nat (length (mg_mon_list mg))"
    "mg_hostmem_used mg = (\<Sum>m \<in> dom (mg_mons mg). md_memory (the (mg_mons mg m)))"
    using n refs_held(8) [OF r] b by (simp_all add: books_def)
  have "\<forall>p d. mg_opens mg p = Some d \<longrightarrow>
       od_ref d = of_bool (p \<in> H) + int (card {(m, i). \<exists>e. mg_mons mg m = Some e \<and> md_modules e i = Some p}) +
         of_bool (od_irp d \<noteq> None) \<and> od_ref d > 0 \<and> (\<forall>m. od_monitor d = Some m \<longrightarrow> mg_mons mg m \<noteq> None)"
    by (intro allI impI desc)
  moreover have "\<forall>m d. mg_mons mg m = Some d \<longrightarrow>
       md_ref d = int (card {p. \<exists>e. mg_opens mg p = Some e \<and> od_monitor e = Some m}) \<and> md_ref d > 0 \<and>
       (\<forall>i p. md_modules d i = Some p \<longrightarrow> i < CO_MONITOR_MODULES_COUNT \<and> mg_opens mg p \<noteq> None) \<and>
       (md_listed d \<longleftrightarrow> m \<in> set (mg_mon_list mg))"
    by (intro allI impI mon)
  ultimately show ?thesis using cnt by (intro conjI)
qed

text \<open>C6: No request follows a freed address. In every state that is reached, every allowed request returns: none
  reads a descriptor or a monitor that was freed, and closing never nests deeper than two.\<close>

theorem manager_safe:
  assumes "reached s" and "allowed r s" and "k > 1"
  shows "perform k pid r s \<noteq> None"
  using perform_steady [OF reached_steady [OF assms(1)] assms(2,3), of pid] by auto

section \<open>A client that runs\<close>

text \<open>A daemon opens the driver and creates a monitor of 16 MB.\<close>

definition one_handle :: co_manager where
  "one_handle = (no_descriptors 0x10000000)\<lparr>mg_opens := [0 \<mapsto> zeroed_desc\<lparr>od_ref := 1, od_active := True\<rparr>],
     mg_open_list := [0], mg_num_opens := 1\<rparr>"

definition one_monitor :: co_manager where
  "one_monitor = one_handle\<lparr>mg_hostmem_used := 0x1000000,
     mg_mons := [5 \<mapsto> \<lparr>md_ref = 1, md_listed = True, md_id = 77, md_modules = (\<lambda>_. None), md_memory = 0x1000000,
       md_video_dev = True, md_video_user = CO_INVALID_ID\<rparr>],
     mg_monitors_count := 1, mg_mon_list := [5],
     mg_opens := [0 \<mapsto> zeroed_desc\<lparr>od_ref := 1, od_active := True, od_monitor := Some 5, od_owner := True\<rparr>]\<rparr>"

lemma one_handle_reached: "reached ({0}, one_handle)"
proof (rule reached.request [where r = "OpenHandle 0" and k = 2 and pid = 77, OF reached.start [where limit = "0x10000000"]])
  show "perform 2 77 (OpenHandle 0) ({}, no_descriptors 0x10000000) = Some ({0}, one_handle)"
    by (simp add: one_handle_def co_manager_open_def no_descriptors_def)
qed (simp_all add: no_descriptors_def)

lemma one_monitor_reached: "reached ({0}, one_monitor)"
proof (rule reached.request [where r = "CreateMonitor 512 16 77 True (RC_OK, 5) 0" and k = 2 and pid = 77, OF one_handle_reached])
  have "monitor_memory_size 512 16 = 0x1000000" by (simp add: monitor_memory_size_def)
  then show "perform 2 77 (CreateMonitor 512 16 77 True (RC_OK, 5) 0) ({0}, one_handle) = Some ({0}, one_monitor)"
    by (simp add: one_handle_def one_monitor_def ioctl_create_def reserve_hostmem_def list_monitor_def update_open_def
      no_descriptors_def zeroed_desc_def)
  show "allowed (CreateMonitor 512 16 77 True (RC_OK, 5) 0) ({0}, one_handle)"
    by (simp add: one_handle_def no_descriptors_def slots_def)
qed simp

theorem manager_counts_witness:
  "\<exists>d. mg_mons one_monitor 5 = Some d \<and> md_ref d = 1 \<and>
     int (card {p. \<exists>e. mg_opens one_monitor p = Some e \<and> od_monitor e = Some 5}) = 1"
proof -
  have m: "mg_mons one_monitor 5 = Some (the (mg_mons one_monitor 5))" "md_ref (the (mg_mons one_monitor 5)) = 1"
    by (simp_all add: one_monitor_def)
  have "md_ref (the (mg_mons one_monitor 5)) = int (card {p. \<exists>e. mg_opens one_monitor p = Some e \<and> od_monitor e = Some 5})"
    using manager_counts [OF one_monitor_reached, THEN conjunct2, THEN conjunct1] m(1) by blast
  then show ?thesis using m by (intro exI [of _ "the (mg_mons one_monitor 5)"]) simp
qed

theorem manager_safe_witness: "perform 2 77 (CloseHandle 0) ({0}, one_monitor) \<noteq> None"
  by (rule manager_safe [OF one_monitor_reached]) simp_all

section \<open>What the requests leave out\<close>

text \<open>An owner that attaches a second time leaves its monitor with a count nothing will give back; a failing
  attach takes the monitor from the descriptor that owns it, and its count stays.\<close>

lemma attach_again_leaks:
  "\<exists>mg. ioctl_attach (co_manager_close 2 77) 77 [] 0 one_monitor = Some (RC_OK, mg) \<and>
     map_option md_ref (mg_mons mg 5) = Some 2 \<and> {p. \<exists>e. mg_opens mg p = Some e \<and> od_monitor e = Some 5} = {0}"
  by (simp add: ioctl_attach_def one_monitor_def one_handle_def no_descriptors_def update_mon_def update_open_def)

lemma attach_unknown_leaks:
  "\<exists>mg. ioctl_attach (co_manager_close 2 77) 78 [] 0 one_monitor = Some (RC_ERROR, mg) \<and>
     map_option md_ref (mg_mons mg 5) = Some 1 \<and> {p. \<exists>e. mg_opens mg p = Some e \<and> od_monitor e = Some 5} = {}"
  by (simp add: ioctl_attach_def one_monitor_def one_handle_def no_descriptors_def update_open_def)

text \<open>A module past the table is written outside of it. (A message for such a module is not delivered:
  \<open>iteration\<close> compares its destination with the table before.)\<close>

lemma attach_outside: "ioctl_attach (co_manager_close 2 77) 77 [156] 0 one_monitor = None"
  by (simp add: ioctl_attach_def one_monitor_def one_handle_def no_descriptors_def update_mon_def update_open_def)

text \<open>The sum of the memory is kept in 32 bits: 3200 MB and 984 MB pass a limit of 4032 MB.\<close>

lemma hostmem_wraps:
  "rc_ok (fst (reserve_hostmem (monitor_memory_size 0 984)
     ((no_descriptors (set_hostmem_usage_limit 4096))\<lparr>mg_hostmem_used := push_bit 20 3200\<rparr>)))"
  by (simp add: reserve_hostmem_def no_descriptors_def set_hostmem_usage_limit_def monitor_memory_size_def)
end
