(* ===== verification/CoScsi.thy ===== *)
theory CoScsi
  imports CoWinNt
begin

text \<open>
  The SCSI controller: the requests of the guest (\<open>src/colinux/kernel/scsi.c\<close>) and the files behind the devices
  (\<open>src/colinux/os/winnt/kernel/scsi.c\<close>). A transfer is queued as a work item; when the item runs it copies the
  guest's scatter list, moves the data of each vector between the guest's pages and the file and sends the guest a
  message. The layout of a scatter list entry comes from the guest's kernel headers and is a parameter.
\<close>

abbreviation CO_MODULE_MAX_COSCSI :: nat where "CO_MODULE_MAX_COSCSI \<equiv> 32"
abbreviation COSCSI_DEVICE_ENABLED :: u32 where "COSCSI_DEVICE_ENABLED \<equiv> 0x80"
abbreviation IO_QUEUE_SIZE :: nat where "IO_QUEUE_SIZE \<equiv> 32"

abbreviation CO_SCSI_GET_CONFIG :: u32 where "CO_SCSI_GET_CONFIG \<equiv> 0"
abbreviation CO_SCSI_OPEN :: u32 where "CO_SCSI_OPEN \<equiv> 1"
abbreviation CO_SCSI_CLOSE :: u32 where "CO_SCSI_CLOSE \<equiv> 2"
abbreviation CO_SCSI_SIZE :: u32 where "CO_SCSI_SIZE \<equiv> 3"
abbreviation CO_SCSI_IO :: u32 where "CO_SCSI_IO \<equiv> 4"
abbreviation CO_SCSI_PASS :: u32 where "CO_SCSI_PASS \<equiv> 5"

section \<open>Data\<close>

text \<open>A device and its settings; a null handle is 0.\<close>

record co_scsi_dev =
  sc_unit :: u32
  sc_type :: u32
  sc_pathname :: "u8 list"
  sc_is_dev :: bool
  sc_size :: u32
  sc_shared :: bool
  sc_handle :: handle

record co_scsi_io =
  io_scp :: u32
  io_offset :: u64
  io_sg :: u32
  io_count :: u32
  io_write :: bool

record co_scsi_pass =
  pass_cdb :: "u8 list"
  pass_write :: bool
  pass_buffer :: u32
  pass_buflen :: u32

record io_req =
  rq_in_use :: bool
  rq_unit :: nat
  rq_io :: co_scsi_io

text \<open>The interrupt message: unit, context, result, and the bytes that were not moved.\<close>

record co_scsi_intr =
  intr_unit :: u32
  intr_ctx :: u32
  intr_result :: u32
  intr_delta :: u32

text \<open>The services of the host: those of files, setting the end of a file, the pass-through request (which may
  change the frame it gets), and what allocations answer. \<open>sg_decode\<close> reads length and bus address.\<close>

record 'w scsi_host =
  sh_nt :: "'w nt_api"
  ZwSetEndOfFile :: "handle \<Rightarrow> u64 \<Rightarrow> 'w \<Rightarrow> nt_status \<times> 'w"
  ZwScsiPassThrough :: "handle \<Rightarrow> co_scsi_pass \<Rightarrow> (nat \<times> page) option \<Rightarrow> 'w \<Rightarrow> nt_status \<times> u8 \<times> page option \<times> 'w"
  sizeof_sg :: u32
  sg_decode :: "u8 list \<Rightarrow> u32 \<times> u32"

record 'w scsi_state =
  ss_devs :: "co_scsi_dev option list"
  ss_queue :: "io_req list"
  ss_next :: nat
  ss_work :: "nat list"
  ss_vm :: vm
  ss_world :: 'w
  ss_sent :: "co_scsi_intr list"

section \<open>Opening and closing\<close>

text \<open>The file is opened; when a size is set it is given that size, and opened again: \<open>again\<close> is whether the
  jump back can still happen.\<close>

abbreviation FILE_OPEN_IF :: u32 where "FILE_OPEN_IF \<equiv> 3"
abbreviation FILE_ATTRIBUTE_NORMAL :: u32 where "FILE_ATTRIBUTE_NORMAL \<equiv> 0x80"

fun open_sized :: "nat \<Rightarrow> 'w scsi_host \<Rightarrow> u16 list \<Rightarrow> co_scsi_dev \<Rightarrow> 'w \<Rightarrow> (nt_status \<times> co_scsi_dev \<times> 'w) option" where
  "open_sized 0 h name d w = None"
| "open_sized (Suc k) h name d w =
     (let (status, fh, w) = ZwCreateFile (sh_nt h) name (FILE_READ_DATA OR FILE_WRITE_DATA OR SYNCHRONIZE)
            FILE_ATTRIBUTE_NORMAL (if sc_shared d then 3 else 0) (if sc_is_dev d then FILE_OPEN else FILE_OPEN_IF)
            FILE_SYNCHRONOUS_IO_NONALERT w;
          d = d\<lparr>sc_handle := fh\<rparr>
      in if status = STATUS_SUCCESS \<and> sc_size d \<noteq> 0 \<and> \<not> sc_is_dev d then
           let (status, w) = ZwSetEndOfFile h fh (scast (sc_size d) * 1048576) w
           in if status = STATUS_SUCCESS
              then let (status, w) = ZwClose (sh_nt h) fh w in open_sized k h name (d\<lparr>sc_size := 0\<rparr>) w
              else Some (status, d, w)
         else Some (status, d, w))"

definition scsi_file_open :: "'w scsi_host \<Rightarrow> co_scsi_dev \<Rightarrow> 'w \<Rightarrow> (u32 \<times> co_scsi_dev \<times> 'w) option" where
  "scsi_file_open h d w =
     (let (ok, w) = nt_malloc (sh_nt h) w in
      case co_winnt_utf8_to_unicode (sc_pathname d) ok of
        None \<Rightarrow> None
      | Some (Inl rc) \<Rightarrow> Some (1, d, w)
      | Some (Inr unipath) \<Rightarrow> do {
          (status, d, w) \<leftarrow> open_sized 2 h unipath d w;
          Some (if status \<noteq> STATUS_SUCCESS then 1 else 0, d, w) })"

definition scsi_file_close :: "'w scsi_host \<Rightarrow> co_scsi_dev \<Rightarrow> 'w \<Rightarrow> u32 \<times> co_scsi_dev \<times> 'w" where
  "scsi_file_close h d w =
     (if sc_handle d = 0 then (0, d, w)
      else let (status, w) = ZwClose (sh_nt h) (sc_handle d) w
           in if status = STATUS_SUCCESS then (0, d\<lparr>sc_handle := 0\<rparr>, w) else (1, d, w))"

definition scsi_file_size :: "'w scsi_host \<Rightarrow> co_scsi_dev \<Rightarrow> 'w \<Rightarrow> (u32 \<times> u64 option \<times> 'w) option" where
  "scsi_file_size h d w =
     (case co_os_file_get_size (sh_nt h) (sc_handle d) w of
        None \<Rightarrow> None
      | Some (Inl rc, w) \<Rightarrow> Some (1, None, w)
      | Some (Inr n, w) \<Rightarrow> Some (0, Some n, w))"

section \<open>Transfers\<close>

definition scsi_transfer_file_block :: "'w nt_api \<Rightarrow> bool \<Rightarrow> 'w transfer_file_data transfer_func" where
  "scsi_transfer_file_block api write d off n pg =
     (let (status, pg, w) =
        (if write
         then let (status, w) = ZwWriteFile api (tf_handle d) (tf_offset d) (get_bytes off n pg) (tf_world d) in (status, pg, w)
         else let (status, bs, w) = ZwReadFile api (tf_handle d) (tf_offset d) n (tf_world d) in (status, put_bytes off (take n bs) pg, w))
      in Some (if status \<noteq> STATUS_SUCCESS then (co_status_convert status, d\<lparr>tf_world := w\<rparr>, pg)
               else (RC_OK, d\<lparr>tf_offset := tf_offset d + word_of_nat n, tf_world := w\<rparr>, pg)))"

text \<open>The vectors, as length and address, until one fails; the bytes asked for are counted. A vector that lies beyond
  the copied list is read out of bounds.\<close>

fun dio_vectors ::
    "'w nt_api \<Rightarrow> bool \<Rightarrow> (u32 \<times> u32) option list \<Rightarrow> u32 \<Rightarrow> 'w transfer_file_data \<Rightarrow> vm \<Rightarrow>
     (co_rc \<times> u32 \<times> 'w transfer_file_data \<times> vm) option" where
  "dio_vectors api write [] req d m = Some (RC_OK, req, d, m)"
| "dio_vectors api write (None # sg) req d m = None"
| "dio_vectors api write (Some (len, dma) # sg) req d m = do {
     (rc, d, m) \<leftarrow> co_monitor_host_linuxvm_transfer m d (scsi_transfer_file_block api write) (dma + CO_ARCH_KERNEL_OFFSET) len;
     if \<not> rc_ok rc then Some (rc, req + len, d, m)
     else dio_vectors api write sg (req + len) d m }"

text \<open>The first \<open>k\<close> entries of the copied list, where it has them.\<close>

fun sg_vectors :: "'w scsi_host \<Rightarrow> nat \<Rightarrow> u8 list \<Rightarrow> (u32 \<times> u32) option list" where
  "sg_vectors h 0 bs = []"
| "sg_vectors h (Suc k) bs =
     (let n = unat (sizeof_sg h) in
      (if length bs < n then None else Some (sg_decode h (take n bs))) # sg_vectors h k (drop n bs))"

text \<open>\<open>_scsi_dio\<close>: the work item of a request. An empty list leaves the result of copying it.\<close>

definition scsi_dio :: "'w scsi_host \<Rightarrow> nat \<Rightarrow> 'w scsi_state \<Rightarrow> 'w scsi_state option" where
  "scsi_dio h i s = do {
     r \<leftarrow> (if i < length (ss_queue s) then Some (ss_queue s ! i) else None);
     dev \<leftarrow> (if rq_unit r < length (ss_devs s) then ss_devs s ! rq_unit r else None);
     let io = rq_io r;
     let sg_size = io_count io * sizeof_sg h;
     let (ok, w) = nt_malloc (sh_nt h) (ss_world s);
     let d = \<lparr>tf_handle = sc_handle dev, tf_offset = io_offset io, tf_world = w\<rparr>;
     (rc, req, d, m) \<leftarrow>
       (if \<not> ok then Some (RC_ERROR, 0, d, ss_vm s)
        else do {
          (rc, bs, m) \<leftarrow> co_monitor_linuxvm_to_host (ss_vm s) (io_sg io) (unat sg_size) sg_size;
          if \<not> rc_ok rc then Some (rc, 0, d, m)
          else dio_vectors (sh_nt h) (io_write io)
                 (if sint (io_count io) < 0 then [] else sg_vectors h (unat (io_count io)) bs) 0 d m });
     let intr = \<lparr>intr_unit = sc_unit dev, intr_ctx = io_scp io, intr_result = (if rc_ok rc then 0 else 1),
       intr_delta = req - ucast (tf_offset d - io_offset io)\<rparr>;
     Some (s\<lparr>ss_vm := m, ss_world := tf_world d, ss_sent := ss_sent s @ [intr],
       ss_queue := (ss_queue s)[i := r\<lparr>rq_in_use := False\<rparr>]\<rparr>) }"

text \<open>A free entry: the next one, else any; when all are in use the caller sleeps until one is freed, which this
  operation alone cannot: \<open>None\<close>.\<close>

fun first_free :: "io_req list \<Rightarrow> nat \<Rightarrow> nat option" where
  "first_free [] i = None"
| "first_free (r # rs) i = (if rq_in_use r then first_free rs (i + 1) else Some i)"

definition get_next_entry :: "'w scsi_state \<Rightarrow> (nat \<times> 'w scsi_state) option" where
  "get_next_entry s =
     (if ss_next s \<ge> length (ss_queue s) then None
      else let r = ss_queue s ! ss_next s;
               s' = s\<lparr>ss_next := (if ss_next s + 1 \<ge> IO_QUEUE_SIZE then 0 else ss_next s + 1)\<rparr>
           in do {
             i \<leftarrow> (if \<not> rq_in_use r then Some (ss_next s) else first_free (ss_queue s) 0);
             Some (i, s'\<lparr>ss_queue := (ss_queue s)[i := (ss_queue s ! i)\<lparr>rq_in_use := True\<rparr>]\<rparr>) })"

definition scsi_file_io :: "nat \<Rightarrow> co_scsi_io \<Rightarrow> 'w scsi_state \<Rightarrow> (u32 \<times> 'w scsi_state) option" where
  "scsi_file_io unit io s = do {
     (i, s) \<leftarrow> get_next_entry s;
     Some (0, s\<lparr>ss_queue := (ss_queue s)[i := (ss_queue s ! i)\<lparr>rq_unit := unit, rq_io := io\<rparr>], ss_work := ss_work s @ [i]\<rparr>) }"

text \<open>The pass-through of a command, with one page of the guest.\<close>

definition scsi_pass :: "'w scsi_host \<Rightarrow> co_scsi_dev \<Rightarrow> co_scsi_pass \<Rightarrow> vm \<Rightarrow> 'w \<Rightarrow> (u32 \<times> vm \<times> 'w) option" where
  "scsi_pass h d pass m w =
     (case (if pass_buflen pass \<noteq> 0 then map_sum id Some (co_monitor_host_linuxvm_transfer_map m (pass_buffer pass) (pass_buflen pass))
            else Inr None) of
        Inl rc \<Rightarrow> Some (1, m, w)
      | Inr None \<Rightarrow>
          let (status, scsi_status, pg, w) = ZwScsiPassThrough h (sc_handle d) pass None w
          in Some (if status = STATUS_SUCCESS then ucast (drop_bit 1 scsi_status) else 1, m, w)
      | Inr (Some (p, off)) \<Rightarrow> do {
          page \<leftarrow> phys m p;
          let (status, scsi_status, pg, w) = ZwScsiPassThrough h (sc_handle d) pass (Some (off, page)) w;
          let m = (case pg of None \<Rightarrow> m | Some pg \<Rightarrow> m\<lparr>phys := (phys m)(p \<mapsto> pg)\<rparr>);
          Some (if status = STATUS_SUCCESS then ucast (drop_bit 1 scsi_status) else 1, m, w) })"

section \<open>Requests of the guest\<close>

type_synonym params = "nat \<Rightarrow> u32"

text \<open>The byte \<open>k\<close> after the parameter \<open>i\<close>, and the 32 bits from there.\<close>

definition params_byte :: "params \<Rightarrow> nat \<Rightarrow> nat \<Rightarrow> u8" where
  "params_byte ps i k = ucast (drop_bit (8 * (k mod 4)) (ps (i + k div 4)))"

definition params_u32 :: "params \<Rightarrow> nat \<Rightarrow> nat \<Rightarrow> u32" where
  "params_u32 ps i k = ucast (params_byte ps i k) OR push_bit 8 (ucast (params_byte ps i (k + 1))) OR
     push_bit 16 (ucast (params_byte ps i (k + 2))) OR push_bit 24 (ucast (params_byte ps i (k + 3)))"

definition scsi_io_params :: "params \<Rightarrow> co_scsi_io" where
  "scsi_io_params ps = \<lparr>io_scp = ps 3, io_offset = ucast (ps 4) OR push_bit 32 (ucast (ps 5)), io_sg = ps 6,
     io_count = ps 7, io_write = (ps 9 \<noteq> 0)\<rparr>"

definition scsi_pass_params :: "params \<Rightarrow> co_scsi_pass" where
  "scsi_pass_params ps = \<lparr>pass_cdb = map (params_byte ps 3) [0..<16], pass_write = (params_byte ps 3 16 \<ge> 0x80),
     pass_buffer = params_u32 ps 3 17, pass_buflen = params_u32 ps 3 21\<rparr>"

fun write_params :: "nat \<Rightarrow> u32 list \<Rightarrow> params \<Rightarrow> params" where
  "write_params i [] ps = ps"
| "write_params i (v # vs) ps = write_params (i + 1) vs (ps(i := v))"

text \<open>\<open>unit\<close> is an \<open>int\<close>: one below zero is not rejected and reads before the table.\<close>

definition get_dp :: "'w scsi_state \<Rightarrow> int \<Rightarrow> co_scsi_dev option option" where
  "get_dp s unit =
     (if unit < int CO_MODULE_MAX_COSCSI
      then if unit < 0 \<or> length (ss_devs s) \<le> nat unit then None else Some (ss_devs s ! nat unit)
      else Some None)"

definition scsi_config :: "co_scsi_dev option \<Rightarrow> u32" where
  "scsi_config d = (case d of None \<Rightarrow> 0 | Some d \<Rightarrow> sc_type d OR COSCSI_DEVICE_ENABLED)"

definition co_scsi_request :: "'w scsi_host \<Rightarrow> u32 \<Rightarrow> int \<Rightarrow> params \<Rightarrow> 'w scsi_state \<Rightarrow> (params \<times> 'w scsi_state) option" where
  "co_scsi_request h op unit ps s = do {
     dp \<leftarrow> get_dp s unit;
     if op = CO_SCSI_GET_CONFIG then Some ((write_params 1 (map scsi_config (ss_devs s)) ps)(0 := 0), s)
     else (case dp of
         None \<Rightarrow> Some (ps(0 := 1), s)
       | Some d \<Rightarrow>
           if op = CO_SCSI_OPEN then do {
             (res, d, w) \<leftarrow> scsi_file_open h d (ss_world s);
             Some (ps(0 := res, 1 := sc_handle d), s\<lparr>ss_devs := (ss_devs s)[nat unit := Some d], ss_world := w\<rparr>) }
           else if op = CO_SCSI_CLOSE then
             (let (res, d, w) = scsi_file_close h d (ss_world s)
              in Some (ps(0 := res), s\<lparr>ss_devs := (ss_devs s)[nat unit := Some d], ss_world := w\<rparr>))
           else if op = CO_SCSI_SIZE then do {
             (res, size, w) \<leftarrow> scsi_file_size h d (ss_world s);
             (case size of
                None \<Rightarrow> None
              | Some n \<Rightarrow> Some (ps(0 := res, 1 := ucast n, 2 := ucast (drop_bit 32 n)), s\<lparr>ss_world := w\<rparr>)) }
           else if op = CO_SCSI_IO then do {
             (res, s) \<leftarrow> scsi_file_io (nat unit) (scsi_io_params ps) s;
             Some (ps(0 := res), s) }
           else if op = CO_SCSI_PASS then do {
             (res, m, w) \<leftarrow> scsi_pass h d (scsi_pass_params ps) (ss_vm s) (ss_world s);
             Some (ps(0 := res), s\<lparr>ss_vm := m, ss_world := w\<rparr>) }
           else Some (ps, s)) }"

fun unregister_scsi :: "'w scsi_host \<Rightarrow> co_scsi_dev option list \<Rightarrow> 'w \<Rightarrow> co_scsi_dev option list \<times> 'w" where
  "unregister_scsi h [] w = ([], w)"
| "unregister_scsi h (d # ds) w =
     (let w = (case d of Some d \<Rightarrow> (if sc_handle d \<noteq> 0 then snd (snd (scsi_file_close h d w)) else w) | None \<Rightarrow> w);
          (ds, w) = unregister_scsi h ds w
      in (None # ds, w))"

definition co_monitor_unregister_and_free_scsi_devices :: "'w scsi_host \<Rightarrow> 'w scsi_state \<Rightarrow> 'w scsi_state" where
  "co_monitor_unregister_and_free_scsi_devices h s =
     (let (ds, w) = unregister_scsi h (ss_devs s) (ss_world s) in s\<lparr>ss_devs := ds, ss_world := w\<rparr>)"

section \<open>The data of a transfer\<close>

lemma ucast_of_nat_u64: "ucast (word_of_nat n :: u64) = (word_of_nat n :: u32)"
  by (rule bit_word_eqI) (simp add: bit_simps)

lemma scsi_source:
  assumes "nt_file api h contents set_contents"
  shows "page_source (scsi_transfer_file_block api False) (file_ready contents h) (file_bytes contents) file_advance"
  using assms
  by unfold_locales
    (auto simp: nt_file_def file_ready_def file_bytes_def file_advance_def scsi_transfer_file_block_def
      unat_add_of_nat take_drop_split add.commute add.assoc simp flip: of_nat_add)

lemma scsi_sink:
  assumes "nt_file api h contents set_contents"
  shows "page_sink (scsi_transfer_file_block api True) (file_ready contents h) (file_append contents set_contents)"
  using assms
  by unfold_locales
    (auto simp: nt_file_def file_ready_def file_append_def scsi_transfer_file_block_def
      unat_add_of_nat length_splice splice_splice add.assoc splice_def [of _ "[]"])

text \<open>A vector lies in mapped memory of the guest; the bytes of all of them; and which addresses they take.\<close>

definition vector_at :: "u32 \<times> u32 \<Rightarrow> u32" where "vector_at v = snd v + CO_ARCH_KERNEL_OFFSET"

definition vector_ok :: "vm \<Rightarrow> u32 \<times> u32 \<Rightarrow> bool" where
  "vector_ok m v \<longleftrightarrow> CO_ARCH_KERNEL_OFFSET \<le> vector_at v \<and> vector_at v < end_physical m \<and>
     unat (vector_at v) + unat (fst v) \<le> unat (end_physical m) \<and> range_mapped m (vector_at v) (unat (fst v))"

definition vectors_total :: "(u32 \<times> u32) list \<Rightarrow> nat" where
  "vectors_total vs = sum_list (map (\<lambda>v. unat (fst v)) vs)"

definition vectors_bytes :: "vm \<Rightarrow> (u32 \<times> u32) list \<Rightarrow> u8 list" where
  "vectors_bytes m vs = concat (map (\<lambda>v. vread_bytes m (vector_at v) (unat (fst v))) vs)"

definition in_vector :: "u32 \<times> u32 \<Rightarrow> u32 \<Rightarrow> bool" where
  "in_vector v a \<longleftrightarrow> unat (vector_at v) \<le> unat a \<and> unat a < unat (vector_at v) + unat (fst v)"

definition vectors_apart :: "(u32 \<times> u32) list \<Rightarrow> bool" where
  "vectors_apart vs \<longleftrightarrow> sorted_wrt (\<lambda>v u. \<forall>a. \<not> (in_vector v a \<and> in_vector u a)) vs"

lemma vectors_simps [simp]:
  "vectors_total [] = 0" "vectors_total (v # vs) = unat (fst v) + vectors_total vs"
  "vectors_bytes m [] = []" "vectors_bytes m (v # vs) = vread_bytes m (vector_at v) (unat (fst v)) @ vectors_bytes m vs"
  by (simp_all add: vectors_total_def vectors_bytes_def)

lemma length_vread_bytes [simp]: "length (vread_bytes m v n) = n"
  by (simp add: vread_bytes_def)

lemma length_vectors_bytes [simp]: "length (vectors_bytes m vs) = vectors_total vs"
  by (induction vs) simp_all

lemma vector_ok_tables: "same_tables m m' \<Longrightarrow> vector_ok m' v \<longleftrightarrow> vector_ok m v"
  using same_tables_simps(3,4) [of m m'] by (simp add: vector_ok_def)

lemma vector_transfer: "vector_ok m v \<Longrightarrow> \<not> transfer_off_bounds m (vector_at v) (fst v)"
  "vector_ok m v \<Longrightarrow> unat (vector_at v) + unat (fst v) < 2 ^ 32"
  using transfer_not_off_bounds [of "vector_at v" m "fst v"] by (auto simp: vector_ok_def)

text \<open>When the size of the list does not wrap, every entry is inside.\<close>

lemma sg_vectors_inside:
  "k * unat (sizeof_sg h) \<le> length bs \<Longrightarrow> map Some (map the (sg_vectors h k bs)) = sg_vectors h k bs"
  by (induction k arbitrary: bs) (auto simp: Let_def)

text \<open>When it does, the copy has fewer bytes than the entries take, and the last entry is read beyond it.\<close>

lemma sg_vectors_wrapped:
  "length bs < k * unat (sizeof_sg h) \<Longrightarrow> None \<in> set (sg_vectors h k bs)"
proof (induction k arbitrary: bs)
  case (Suc k)
  then show ?case
    using Suc.IH [of "drop (unat (sizeof_sg h)) bs"] by (cases "length bs < unat (sizeof_sg h)") (auto simp: Let_def)
qed simp

lemma dio_write:
  assumes f: "nt_file api h contents set_contents" and "\<forall>v \<in> set vs. vector_ok m v" and "file_ready contents h d (vectors_total vs)"
  shows "dio_vectors api True (map Some vs) req d m =
    Some (RC_OK, req + word_of_nat (vectors_total vs), file_append contents set_contents d (vectors_bytes m vs), m)"
  using assms(2,3)
proof (induction vs arbitrary: req d)
  case Nil
  then show ?case using page_sink.append_nil [OF scsi_sink [OF f], of d] by simp
next
  case (Cons v vs)
  note sink = scsi_sink [OF f]
  have ok: "vector_ok m v" using Cons.prems(1) by simp
  let ?bs = "vread_bytes m (vector_at v) (unat (fst v))"
  let ?d = "file_append contents set_contents d ?bs"
  have ready: "file_ready contents h d (unat (fst v))" using Cons.prems(2) by (simp add: file_ready_def)
  have loop: "transfer_loop (scsi_transfer_file_block api True) (vector_at v) (fst v) d m = Some (RC_OK, ?d, m)"
    by (rule page_sink.transfer_out [OF sink _ vector_transfer(2) [OF ok] ready]) (use ok in \<open>simp add: vector_ok_def\<close>)
  have ready': "file_ready contents h ?d (vectors_total vs)"
    using page_sink.room_append [OF sink Cons.prems(2), of ?bs] by simp
  have "file_append contents set_contents ?d (vectors_bytes m vs) = file_append contents set_contents d (vectors_bytes m (v # vs))"
    using page_sink.append_append [OF sink Cons.prems(2), of ?bs "vectors_bytes m vs"] by simp
  then have rest: "dio_vectors api True (map Some vs) (req + fst v) ?d m = Some (RC_OK, req + fst v + word_of_nat (vectors_total vs),
      file_append contents set_contents d (vectors_bytes m (v # vs)), m)"
    using Cons.IH [OF _ ready', of "req + fst v"] Cons.prems(1) by simp
  have "co_monitor_host_linuxvm_transfer m d (scsi_transfer_file_block api True) (vector_at v) (fst v) = Some (RC_OK, ?d, m)"
    using loop vector_transfer(1) [OF ok] by (simp add: co_monitor_host_linuxvm_transfer_def)
  then show ?case using rest by (cases v) (simp add: vector_at_def ac_simps)
qed

lemma dio_read:
  assumes f: "nt_file api h contents set_contents" and "\<forall>v \<in> set vs. vector_ok m v" and "file_ready contents h d (vectors_total vs)"
    and "pp_inj m" "vectors_apart vs"
  shows "\<exists>m'. dio_vectors api False (map Some vs) req d m =
      Some (RC_OK, req + word_of_nat (vectors_total vs), file_advance d (vectors_total vs), m') \<and> same_tables m m' \<and>
    vectors_bytes m' vs = file_bytes contents d (vectors_total vs) \<and>
    (\<forall>a. (\<forall>v \<in> set vs. \<not> in_vector v a) \<longrightarrow> vread m' a = vread m a)"
  using assms(2-5)
proof (induction vs arbitrary: req d m)
  case Nil
  then show ?case
    using page_source.advance_0 [OF scsi_source [OF f], of d] by (simp add: same_tables_refl file_bytes_def)
next
  case (Cons v vs)
  note src = scsi_source [OF f]
  have ok: "vector_ok m v" using Cons.prems(1) by simp
  note v32 = vector_transfer(2) [OF ok]
  have apart: "vectors_apart vs" "\<And>u a. u \<in> set vs \<Longrightarrow> in_vector v a \<Longrightarrow> \<not> in_vector u a"
    using Cons.prems(4) by (auto simp: vectors_apart_def)
  have ready: "file_ready contents h d (unat (fst v))" using Cons.prems(2) by (simp add: file_ready_def)
  have map: "range_mapped m (vector_at v) (unat (fst v))" using ok by (simp add: vector_ok_def)
  from page_source.transfer_in [OF src Cons.prems(3) map v32 ready] obtain m1 where
    m1: "transfer_loop (scsi_transfer_file_block api False) (vector_at v) (fst v) d m = Some (RC_OK, file_advance d (unat (fst v)), m1)"
      "same_tables m m1"
      "\<And>a. vread m1 a = (if unat (vector_at v) \<le> unat a \<and> unat a < unat (vector_at v) + unat (fst v)
        then Some (file_bytes contents d (unat (fst v)) ! (unat a - unat (vector_at v))) else vread m a)" by blast
  let ?d = "file_advance d (unat (fst v))"
  have ready': "file_ready contents h ?d (vectors_total vs)"
    using page_source.ready_advance [OF src Cons.prems(2), of "unat (fst v)"] by simp
  have ok1: "\<forall>u \<in> set vs. vector_ok m1 u" using Cons.prems(1) vector_ok_tables [OF m1(2)] by simp
  have inj1: "pp_inj m1" using Cons.prems(3) same_tables_simps(2) [OF m1(2)] by simp
  from Cons.IH [OF ok1 ready' inj1 apart(1), of "req + fst v"] obtain m' where
    m': "dio_vectors api False (map Some vs) (req + fst v) ?d m1 =
        Some (RC_OK, req + fst v + word_of_nat (vectors_total vs), file_advance ?d (vectors_total vs), m')"
      "same_tables m1 m'" "vectors_bytes m' vs = file_bytes contents ?d (vectors_total vs)"
      "\<forall>a. (\<forall>u \<in> set vs. \<not> in_vector u a) \<longrightarrow> vread m' a = vread m1 a" by blast
  have lenb: "length (file_bytes contents d (unat (fst v))) = unat (fst v)"
    by (rule page_source.length_bytes [OF src Cons.prems(2)]) simp
  have head: "vread_bytes m' (vector_at v) (unat (fst v)) = file_bytes contents d (unat (fst v))"
  proof (rule vread_bytes_eq [OF _ lenb v32])
    fix a :: u32 assume a: "unat (vector_at v) \<le> unat a" "unat a < unat (vector_at v) + unat (fst v)"
    then have "in_vector v a" by (simp add: in_vector_def)
    then have "vread m' a = vread m1 a" using m'(4) apart(2) by blast
    then show "vread m' a = Some (file_bytes contents d (unat (fst v)) ! (unat a - unat (vector_at v)))"
      using m1(3) [of a] a by simp
  qed
  have split: "file_bytes contents d (vectors_total (v # vs)) = file_bytes contents d (unat (fst v)) @ file_bytes contents ?d (vectors_total vs)"
    using page_source.bytes_split [OF src Cons.prems(2), of "unat (fst v)"] by simp
  have adv: "file_advance ?d (vectors_total vs) = file_advance d (vectors_total (v # vs))"
    using page_source.advance_advance [OF src Cons.prems(2), of "unat (fst v)"] by simp
  have "co_monitor_host_linuxvm_transfer m d (scsi_transfer_file_block api False) (vector_at v) (fst v) = Some (RC_OK, ?d, m1)"
    using m1(1) vector_transfer(1) [OF ok] by (simp add: co_monitor_host_linuxvm_transfer_def)
  then have "dio_vectors api False (map Some (v # vs)) req d m = Some (RC_OK, req + word_of_nat (vectors_total (v # vs)), file_advance d (vectors_total (v # vs)), m')"
    using m'(1) adv by (cases v) (simp add: vector_at_def ac_simps)
  moreover have "vread m' a = vread m a" if "\<forall>u \<in> set (v # vs). \<not> in_vector u a" for a
    using that m'(4) m1(3) [of a] by (auto simp: in_vector_def)
  ultimately show ?case
    using same_tables_trans [OF m1(2) m'(2)] head m'(3) split by auto
qed

text \<open>C37: A SCSI transfer. When the number of vectors is not negative and their entries take less than \<open>2^32\<close> bytes
  (the code computes the size in 32 bits, and reads beyond its copy when that wraps), the list can be allocated, the
  scatter list and its vectors lie in mapped memory of the guest, the vectors apart from each other, and the range lies
  in the file, the work item of a write stores the bytes of the vectors, in order, at the
  offset of the request and changes nothing else of the file; that of a read stores the bytes of the file in the
  vectors and changes nothing else of the guest's memory. Either way the guest gets one message with result 0, with
  no byte left over, and the request entry is free again.\<close>

theorem scsi_dio_moves:
  assumes "nt_file (sh_nt h) (sc_handle dev) contents set_contents" "nt_malloc (sh_nt h) (ss_world s) = (True, w)"
    and "i < length (ss_queue s)" "io = rq_io (ss_queue s ! i)" "rq_unit (ss_queue s ! i) < length (ss_devs s)"
      "ss_devs s ! rq_unit (ss_queue s ! i) = Some dev"
    and "0 \<le> sint (io_count io)" "unat (io_count io) * unat (sizeof_sg h) < 2 ^ 32"
      "vector_ok (ss_vm s) (io_count io * sizeof_sg h, io_sg io - CO_ARCH_KERNEL_OFFSET)"
    and "vs = map the (sg_vectors h (unat (io_count io)) (vread_bytes (ss_vm s) (io_sg io) (unat (io_count io * sizeof_sg h))))"
    and "\<forall>v \<in> set vs. vector_ok (ss_vm s) v" "vectors_apart vs" "pp_inj (ss_vm s)"
    and "unat (io_offset io) + vectors_total vs \<le> length (contents w)" "length (contents w) < 2 ^ 64"
  shows "\<exists>s'. scsi_dio h i s = Some s' \<and> \<not> rq_in_use (ss_queue s' ! i) \<and>
    ss_sent s' = ss_sent s @ [\<lparr>intr_unit = sc_unit dev, intr_ctx = io_scp io, intr_result = 0, intr_delta = 0\<rparr>] \<and>
    (if io_write io
     then ss_vm s' = ss_vm s \<and> contents (ss_world s') = splice (unat (io_offset io)) (vectors_bytes (ss_vm s) vs) (contents w)
     else ss_world s' = w \<and>
       vectors_bytes (ss_vm s') vs = take (vectors_total vs) (drop (unat (io_offset io)) (contents w)) \<and>
       (\<forall>a. list_all (\<lambda>v. \<not> in_vector v a) vs \<longrightarrow> vread (ss_vm s') a = vread (ss_vm s) a))"
proof -
  let ?m = "ss_vm s" and ?n = "io_count io * sizeof_sg h"
  let ?d = "\<lparr>tf_handle = sc_handle dev, tf_offset = io_offset io, tf_world = w\<rparr>"
  have at: "vector_at (?n, io_sg io - CO_ARCH_KERNEL_OFFSET) = io_sg io" by (simp add: vector_at_def)
  note sg = vector_transfer [OF assms(9), unfolded at, simplified]
  have map: "range_mapped ?m (io_sg io) (unat ?n)" using assms(9) at by (simp add: vector_ok_def)
  have "transfer_loop (co_monitor_transfer_memcpy CO_MONITOR_TRANSFER_FROM_LINUX) (io_sg io) ?n (Destination [] (unat ?n)) ?m =
      Some (RC_OK, Destination (vread_bytes ?m (io_sg io) (unat ?n)) 0, ?m)"
    using memcpy_out.transfer_out [OF map, of "Destination [] (unat ?n)"] sg(2)
    by (simp add: buffer_room_def buffer_append_def)
  then have copy: "co_monitor_linuxvm_to_host ?m (io_sg io) (unat ?n) ?n = Some (RC_OK, vread_bytes ?m (io_sg io) (unat ?n), ?m)"
    using sg(1) by (simp add: co_monitor_linuxvm_to_host_def co_monitor_host_linuxvm_copy_def co_monitor_host_linuxvm_transfer_def)
  have ready: "file_ready contents (sc_handle dev) ?d (vectors_total vs)" using assms(14,15) by (simp add: file_ready_def)
  have "unat ?n = unat (io_count io) * unat (sizeof_sg h)" using assms(8) by (simp add: unat_word_ariths)
  then have sgv: "sg_vectors h (unat (io_count io)) (vread_bytes ?m (io_sg io) (unat ?n)) = map Some vs"
    using sg_vectors_inside [of "unat (io_count io)" h "vread_bytes ?m (io_sg io) (unat ?n)"] assms(10) by simp
  note run = scsi_dio_def Let_def
  show ?thesis
  proof (cases "io_write io")
    case True
    let ?e = "file_append contents set_contents ?d (vectors_bytes ?m vs)"
    have v: "dio_vectors (sh_nt h) True (map Some vs) 0 ?d ?m = Some (RC_OK, word_of_nat (vectors_total vs), ?e, ?m)"
      using dio_write [OF assms(1,11) ready, of 0] by simp
    have "contents (tf_world ?e) = splice (unat (io_offset io)) (vectors_bytes ?m vs) (contents w)"
      using assms(1) by (simp add: file_append_def nt_file_def)
    moreover have "tf_offset ?e - io_offset io = word_of_nat (vectors_total vs)" by (simp add: file_append_def)
    ultimately show ?thesis
      using True assms(2-7) sgv copy v by (simp add: run not_less ucast_of_nat_u64)
  next
    case False
    from dio_read [OF assms(1,11) ready assms(13,12), of 0] obtain m' where
      v: "dio_vectors (sh_nt h) False (map Some vs) 0 ?d ?m = Some (RC_OK, word_of_nat (vectors_total vs), file_advance ?d (vectors_total vs), m')"
        "vectors_bytes m' vs = file_bytes contents ?d (vectors_total vs)"
        "\<forall>a. (\<forall>v \<in> set vs. \<not> in_vector v a) \<longrightarrow> vread m' a = vread ?m a" by auto
    have "file_bytes contents ?d (vectors_total vs) = take (vectors_total vs) (drop (unat (io_offset io)) (contents w))"
      by (simp add: file_bytes_def)
    then show ?thesis
      using False assms(2-7) sgv copy v by (simp add: run not_less ucast_of_nat_u64 file_advance_def list_all_iff)
  qed
qed

text \<open>A device on a file of eight bytes, and a request to write the four bytes across a page boundary; the entry of
  the scatter list has four bytes, and lies there too.\<close>

definition scsi_host_example :: "u8 list scsi_host" where
  "scsi_host_example = \<lparr>sh_nt = nt_file_example, ZwSetEndOfFile = (\<lambda>h n w. (STATUS_SUCCESS, w)),
     ZwScsiPassThrough = (\<lambda>h p pg w. (STATUS_SUCCESS, 0, None, w)), sizeof_sg = 4, sg_decode = (\<lambda>bs. (4, 0xffe))\<rparr>"

definition scsi_example :: "u8 list scsi_state" where
  "scsi_example = \<lparr>ss_devs = [Some \<lparr>sc_unit = 0, sc_type = 0, sc_pathname = [], sc_is_dev = False, sc_size = 0,
       sc_shared = False, sc_handle = 1\<rparr>],
     ss_queue = [\<lparr>rq_in_use = True, rq_unit = 0,
       rq_io = \<lparr>io_scp = 77, io_offset = 2, io_sg = 0xc0000ffe, io_count = 1, io_write = True\<rparr>\<rparr>],
     ss_next = 0, ss_work = [0], ss_vm = vm_example, ss_world = [0, 1, 2, 3, 4, 5, 6, 7], ss_sent = []\<rparr>"

theorem scsi_dio_moves_witness:
  "\<exists>s'. scsi_dio scsi_host_example 0 scsi_example = Some s' \<and> \<not> rq_in_use (ss_queue s' ! 0) \<and>
    ss_sent s' = [\<lparr>intr_unit = 0, intr_ctx = 77, intr_result = 0, intr_delta = 0\<rparr>] \<and>
    ss_world s' = splice 2 (vread_bytes vm_example 0xc0000ffe 4) [0, 1, 2, 3, 4, 5, 6, 7]"
proof -
  have v: "vector_ok vm_example (4, 0xffe)"
    using vm_example_mapped by (simp add: vector_ok_def vector_at_def vm_example_def)
  have f: "nt_file nt_file_example 1 (\<lambda>w. w) (\<lambda>c w. c)" by (simp add: nt_file_def nt_file_example_def)
  let ?dev = "\<lparr>sc_unit = 0, sc_type = 0, sc_pathname = [], sc_is_dev = False, sc_size = 0, sc_shared = False, sc_handle = 1\<rparr>"
  let ?io = "\<lparr>io_scp = 77, io_offset = 2, io_sg = 0xc0000ffe, io_count = 1, io_write = True\<rparr>"
  have "\<exists>s'. scsi_dio scsi_host_example 0 scsi_example = Some s' \<and> \<not> rq_in_use (ss_queue s' ! 0) \<and>
    ss_sent s' = ss_sent scsi_example @ [\<lparr>intr_unit = sc_unit ?dev, intr_ctx = io_scp ?io, intr_result = 0, intr_delta = 0\<rparr>] \<and>
    (if io_write ?io
     then ss_vm s' = ss_vm scsi_example \<and>
       ss_world s' = splice (unat (io_offset ?io)) (vectors_bytes (ss_vm scsi_example) [(4, 0xffe)]) [0, 1, 2, 3, 4, 5, 6, 7]
     else ss_world s' = [0, 1, 2, 3, 4, 5, 6, 7] \<and>
       vectors_bytes (ss_vm s') [(4, 0xffe)] = take (vectors_total [(4, 0xffe)]) (drop (unat (io_offset ?io)) [0, 1, 2, 3, 4, 5, 6, 7]) \<and>
       (\<forall>a. list_all (\<lambda>v. \<not> in_vector v a) [(4, 0xffe)] \<longrightarrow> vread (ss_vm s') a = vread (ss_vm scsi_example) a))"
  proof (rule scsi_dio_moves [where contents = "\<lambda>w. w" and set_contents = "\<lambda>c w. c"])
    show "nt_file (sh_nt scsi_host_example) (sc_handle ?dev) (\<lambda>w. w) (\<lambda>c w. c)" using f by (simp add: scsi_host_example_def)
    show "nt_malloc (sh_nt scsi_host_example) (ss_world scsi_example) = (True, [0, 1, 2, 3, 4, 5, 6, 7])"
      by (simp add: scsi_host_example_def nt_file_example_def scsi_example_def)
    show "vector_ok (ss_vm scsi_example) (io_count ?io * sizeof_sg scsi_host_example, io_sg ?io - CO_ARCH_KERNEL_OFFSET)"
      using v by (simp add: scsi_example_def scsi_host_example_def)
    show "[(4, 0xffe)] = map the (sg_vectors scsi_host_example (unat (io_count ?io))
        (vread_bytes (ss_vm scsi_example) (io_sg ?io) (unat (io_count ?io * sizeof_sg scsi_host_example))))"
      by (simp add: scsi_host_example_def)
    show "unat (io_count ?io) * unat (sizeof_sg scsi_host_example) < 2 ^ 32" by (simp add: scsi_host_example_def)
    show "\<forall>u \<in> set [(4, 0xffe)]. vector_ok (ss_vm scsi_example) u" using v by (simp add: scsi_example_def)
    show "pp_inj (ss_vm scsi_example)" using vm_example_inj by (simp add: scsi_example_def)
  qed (simp_all add: scsi_example_def vectors_apart_def)
  then show ?thesis by (simp add: scsi_example_def vector_at_def) blast
qed

section \<open>The ring of requests\<close>

lemma first_free_ok: "first_free rs k = Some i \<Longrightarrow> k \<le> i \<and> i < k + length rs \<and> \<not> rq_in_use (rs ! (i - k))"
  by (induction rs k rule: first_free.induct) (fastforce split: if_splits simp: nth_Cons')+

lemma first_free_none: "first_free rs k = None \<longleftrightarrow> (\<forall>r \<in> set rs. rq_in_use r)"
  by (induction rs k rule: first_free.induct) auto

text \<open>An entry that is handed out was free, and is in use from then on; the caller waits only when none is free.\<close>

lemma get_next_entry_free:
  assumes "get_next_entry s = Some (i, s')"
  shows "i < length (ss_queue s) \<and> \<not> rq_in_use (ss_queue s ! i) \<and>
    ss_queue s' = (ss_queue s)[i := (ss_queue s ! i)\<lparr>rq_in_use := True\<rparr>]"
  using assms first_free_ok [of "ss_queue s" 0]
  by (auto simp: get_next_entry_def Let_def bind_eq_Some_conv split: if_splits)

lemma get_next_entry_waits:
  assumes "ss_next s < length (ss_queue s)"
  shows "get_next_entry s = None \<longleftrightarrow> (\<forall>r \<in> set (ss_queue s). rq_in_use r)"
  using assms nth_mem [OF assms]
  by (auto simp: get_next_entry_def Let_def first_free_none bind_eq_None_conv)

lemma get_next_entry_next:
  assumes "get_next_entry s = Some (i, s')" "length (ss_queue s) = IO_QUEUE_SIZE"
  shows "ss_next s' < length (ss_queue s')"
  using assms by (auto simp: get_next_entry_def Let_def bind_eq_Some_conv split: if_splits)

end
