(* ===== verification/CoDevices.thy ===== *)
theory CoDevices
  imports CoScsi
begin

text \<open>
  Small devices the guest asks for through the passage page: the PCI configuration space, the video buffer and
  the addresses of the network cards. Translated from \<open>src/colinux/kernel/{pci,video}.c\<close> and the network case of
  \<open>device_request\<close> in \<open>src/colinux/kernel/monitor.c\<close>.
\<close>

abbreviation CO_DEVICE_NETWORK :: u8 where "CO_DEVICE_NETWORK \<equiv> 3"
abbreviation CO_DEVICE_SCSI :: u8 where "CO_DEVICE_SCSI \<equiv> 9"
abbreviation COPCI_MAX_SLOTS :: nat where "COPCI_MAX_SLOTS \<equiv> 32"
abbreviation COPCI_MAX_FUNCS :: nat where "COPCI_MAX_FUNCS \<equiv> 8"
abbreviation CO_MODULE_MAX_CONET :: nat where "CO_MODULE_MAX_CONET \<equiv> 16"
abbreviation CO_MODULE_MAX_COVIDEO :: nat where "CO_MODULE_MAX_COVIDEO \<equiv> 2"

section \<open>pci.c\<close>

text \<open>The type and unit in each slot and function; type 0 is an empty place.\<close>

record pci_place =
  pp_type :: u8
  pp_unit :: u8

definition no_place :: pci_place where "no_place = \<lparr>pp_type = 0, pp_unit = 0\<rparr>"

type_synonym pci_space = "nat \<Rightarrow> nat \<Rightarrow> pci_place"

definition put_place :: "nat \<Rightarrow> nat \<Rightarrow> pci_place \<Rightarrow> pci_space \<Rightarrow> pci_space" where
  "put_place x y p s = s(x := (s x)(y := p))"

definition pci_places :: "(nat \<times> nat) list" where
  "pci_places = [(x, y). x \<leftarrow> [0..<COPCI_MAX_SLOTS], y \<leftarrow> [0..<COPCI_MAX_FUNCS]]"

definition pci_space_find :: "pci_space \<Rightarrow> u8 \<Rightarrow> u8 \<Rightarrow> bool" where
  "pci_space_find s type unit = list_ex (\<lambda>(x, y). pp_type (s x y) = type \<and> pp_unit (s x y) = unit) pci_places"

fun pci_space_add_from :: "nat list \<Rightarrow> nat \<Rightarrow> u8 \<Rightarrow> u8 \<Rightarrow> pci_space \<Rightarrow> pci_space" where
  "pci_space_add_from [] func type unit s = s"
| "pci_space_add_from (x # xs) func type unit s =
     (if pp_type (s x 0) = 0 \<or> pp_type (s x 0) = type
      then if \<not> pci_space_find s type unit
           then let func = (if func \<noteq> 0 \<and> pp_type (s x 0) = 0 then 0 else func)
                in put_place x func \<lparr>pp_type = type, pp_unit = unit\<rparr> s
           else s
      else pci_space_add_from xs func type unit s)"

definition pci_space_add :: "nat \<Rightarrow> u8 \<Rightarrow> u8 \<Rightarrow> pci_space \<Rightarrow> pci_space" where
  "pci_space_add func type unit s = pci_space_add_from [0..<COPCI_MAX_SLOTS] func type unit s"

text \<open>\<open>z\<close> is the place a setting of the user moves down to.\<close>

fun fixup_slot :: "nat \<Rightarrow> nat list \<Rightarrow> nat \<Rightarrow> pci_space \<Rightarrow> pci_space" where
  "fixup_slot x [] z s = s"
| "fixup_slot x (y # ys) z s =
     (if pp_type (s x y) = 0 then fixup_slot x ys z s
      else if y \<noteq> 0 \<and> pp_type (s x z) = 0
           then fixup_slot x ys (z + 1) (put_place x y no_place (put_place x z (s x y) s))
           else fixup_slot x ys z s)"

definition fixup_settings :: "pci_space \<Rightarrow> pci_space" where
  "fixup_settings s = fold (\<lambda>x. fixup_slot x [0..<8] 0) [0..<32] s"

fun add_networks :: "(nat \<times> bool) list \<Rightarrow> nat \<Rightarrow> pci_space \<Rightarrow> pci_space" where
  "add_networks [] y s = s"
| "add_networks ((unit, on) # rest) y s =
     (if \<not> on then add_networks rest y s
      else let s = pci_space_add y CO_DEVICE_NETWORK (of_nat unit) s; y = y + 1
           in add_networks rest (if y > 7 then 0 else y) s)"

text \<open>\<open>scsi\<close> and \<open>net\<close>: the enabled units.\<close>

definition co_pci_setconfig :: "bool list \<Rightarrow> bool list \<Rightarrow> pci_space \<Rightarrow> co_rc \<times> pci_space" where
  "co_pci_setconfig scsi net s =
     (let s = fixup_settings s;
          s = (if list_ex (\<lambda>on. on) scsi then pci_space_add 0 CO_DEVICE_SCSI 0 s else s)
      in (RC_OK, add_networks (enumerate 0 net) 0 s))"

text \<open>The records of \<open>copci_config_t\<close>, four bytes each, after the count.\<close>

definition pci_record :: "pci_space \<Rightarrow> nat \<times> nat \<Rightarrow> u32" where
  "pci_record s p = (let (x, y) = p in
     of_nat x OR push_bit 8 (of_nat y) OR push_bit 16 (ucast (pp_type (s x y))) OR push_bit 24 (ucast (pp_unit (s x y))))"

definition co_pci_request :: "pci_space \<Rightarrow> u32 \<Rightarrow> params \<Rightarrow> params" where
  "co_pci_request s op ps =
     (if op = 0 then
        let used = filter (\<lambda>(x, y). pp_type (s x y) \<noteq> 0) pci_places
        in (write_params 1 (map (pci_record s) used) ps)(0 := of_nat (length used))
      else ps(0 := 1))"

section \<open>video.c\<close>

text \<open>A device with the address and the contents of its buffer; \<open>None\<close> when the buffer was not allocated.\<close>

record co_video_dev =
  vd_unit :: u32
  vd_address :: u32
  vd_buffer :: "u8 list option"
  vd_size :: u32
  vd_width :: u16
  vd_height :: u16
  vd_bpp :: u8

text \<open>The unit is compared with \<open>>\<close>: the one after the last reads beyond the table.\<close>

definition video_get_dp :: "co_video_dev option list \<Rightarrow> int \<Rightarrow> co_video_dev option option" where
  "video_get_dp devs unit =
     (if unit < 0 \<or> unit > int CO_MODULE_MAX_COVIDEO then Some None
      else if length devs \<le> nat unit then None else Some (devs ! nat unit))"

text \<open>Pages alternate between \<open>a\<close> and \<open>b\<close>.\<close>

fun test_pages :: "nat \<Rightarrow> u8 \<Rightarrow> u8 \<Rightarrow> u8 list" where
  "test_pages 0 a b = []"
| "test_pages (Suc n) a b = replicate 4096 a @ test_pages n b a"

definition co_video_test :: "bool \<Rightarrow> bool \<Rightarrow> co_video_dev \<Rightarrow> (u32 \<times> co_video_dev) option" where
  "co_video_test malloc0 malloc1 d =
     (if \<not> malloc0 \<or> \<not> malloc1 then Some (1, d)
      else do {
        buf \<leftarrow> vd_buffer d;
        let n = 4096 * unat (drop_bit CO_ARCH_PAGE_SHIFT (vd_size d));
        if length buf < n then None
        else if take n buf \<noteq> test_pages (n div 4096) 0 0xFF then Some (1, d)
        else Some (0, d\<lparr>vd_buffer := Some (test_pages (n div 4096) 0xFF 0 @ drop n buf)\<rparr>) })"

definition video_geometry :: "co_video_dev \<Rightarrow> u32" where
  "video_geometry d =
     (let x = ucast (vd_width d); x = push_bit 13 x OR (0x1fff AND ucast (vd_height d))
      in push_bit 6 x OR (0x3f AND ucast (vd_bpp d)))"

definition co_video_request ::
    "bool \<Rightarrow> bool \<Rightarrow> u32 \<Rightarrow> int \<Rightarrow> params \<Rightarrow> co_video_dev option list \<Rightarrow> (params \<times> co_video_dev option list) option" where
  "co_video_request malloc0 malloc1 op unit ps devs = do {
     dp \<leftarrow> video_get_dp devs unit;
     (case dp of
        None \<Rightarrow> Some (ps(0 := 1), devs)
      | Some d \<Rightarrow>
          if op = 0 then Some (ps(1 := vd_address d, 2 := vd_size d, 3 := video_geometry d, 0 := 0), devs)
          else if op = 1 then do {
            (res, d) \<leftarrow> co_video_test malloc0 malloc1 d;
            Some (ps(0 := res), devs[nat unit := Some d]) }
          else Some (ps(0 := 1), devs)) }"

text \<open>Mapping the buffer for a process: \<open>user\<close> is who has it mapped, \<open>CO_INVALID_ID\<close> for nobody.\<close>

definition co_monitor_user_video_attach ::
    "(co_rc \<times> u32) \<Rightarrow> u32 \<Rightarrow> int \<Rightarrow> co_video_dev option list \<Rightarrow> u32 \<Rightarrow> (co_rc \<times> u32 \<times> u32) option" where
  "co_monitor_user_video_attach mapped pid unit devs user = do {
     dp \<leftarrow> video_get_dp devs unit;
     Some (case dp of
        None \<Rightarrow> (RC_OK, 0, user)
      | Some d \<Rightarrow>
          if user \<noteq> - 1 then (RC_ERROR, 0, user)
          else if \<not> rc_ok (fst mapped) then (fst mapped, 0, user)
          else (RC_OK, snd mapped, pid)) }"

section \<open>Network cards\<close>

record co_netdev_desc =
  nd_enabled :: bool
  nd_mac_address :: "u8 list"

text \<open>The request lies at the parameters: type, unit, address (6 bytes and padding), result.\<close>

definition device_request_network :: "co_netdev_desc list \<Rightarrow> params \<Rightarrow> params option" where
  "device_request_network devs ps =
     (let ps = ps(4 := 0) in
      if ps 1 \<ge> of_nat CO_MODULE_MAX_CONET then Some ps
      else if ps 0 \<noteq> 0 then Some ps
      else if length devs \<le> unat (ps 1) then None
      else let d = devs ! unat (ps 1);
               ps = ps(4 := of_bool (nd_enabled d))
           in if \<not> nd_enabled d then Some ps
              else if length (nd_mac_address d) < 6 then None
              else let a = (\<lambda>k. ucast (nd_mac_address d ! k) :: u32)
                   in Some (ps(2 := a 0 OR push_bit 8 (a 1) OR push_bit 16 (a 2) OR push_bit 24 (a 3),
                        3 := (ps 3 AND 0xFFFF0000) OR a 4 OR push_bit 8 (a 5))))"

section \<open>Facts\<close>

lemma length_pci_places: "length pci_places = 256"
  by code_simp

lemma pci_places_mem: "(x, y) \<in> set pci_places \<longleftrightarrow> x < COPCI_MAX_SLOTS \<and> y < COPCI_MAX_FUNCS"
  by (auto simp: pci_places_def image_iff)

text \<open>The answer counts the places that are used: at most as many as there are.\<close>

lemma pci_count: "unat (co_pci_request s 0 ps 0) = length (filter (\<lambda>(x, y). pp_type (s x y) \<noteq> 0) pci_places)"
proof -
  have "length (filter (\<lambda>(x, y). pp_type (s x y) \<noteq> 0) pci_places) \<le> 256"
    using length_filter_le [of _ pci_places] length_pci_places by metis
  then show ?thesis by (simp add: co_pci_request_def Let_def unsigned_of_nat take_bit_nat_eq_self)
qed

text \<open>Up to eight network cards get the functions of slot 0, one after another, when no place is set.\<close>

lemma pci_find: "pci_space_find s type u \<longleftrightarrow> (\<exists>x < COPCI_MAX_SLOTS. \<exists>y < COPCI_MAX_FUNCS. pp_type (s x y) = type \<and> pp_unit (s x y) = u)"
  unfolding pci_space_find_def list_ex_iff using pci_places_mem by fastforce

definition nets_at :: "nat list \<Rightarrow> pci_space \<Rightarrow> bool" where
  "nets_at us s \<longleftrightarrow> (\<forall>x y. s x y = (if x = 0 \<and> y < length us then \<lparr>pp_type = CO_DEVICE_NETWORK, pp_unit = of_nat (us ! y)\<rparr> else no_place))"

lemma add_one_network:
  assumes s: "nets_at us s" and n: "length us < 8" and u: "\<forall>v \<in> set us. v < 256" "u < 256" "u \<notin> set us"
  shows "nets_at (us @ [u]) (pci_space_add (length us) CO_DEVICE_NETWORK (of_nat u) s)"
proof -
  have up: "[0..<COPCI_MAX_SLOTS] = 0 # [1..<COPCI_MAX_SLOTS]" by (simp add: upt_rec)
  have "\<not> pci_space_find s CO_DEVICE_NETWORK (of_nat u)"
  proof
    assume "pci_space_find s CO_DEVICE_NETWORK (of_nat u)"
    then obtain y where y: "y < length us" "of_nat (us ! y) = (of_nat u :: u8)"
      using s unfolding pci_find nets_at_def by (auto simp: no_place_def split: if_splits)
    have "us ! y < 256" "us ! y \<in> set us" using y(1) u(1) by simp_all
    moreover from y(2) have "unat (of_nat (us ! y) :: u8) = unat (of_nat u :: u8)" by simp
    ultimately have "us ! y = u" using u(2) by (simp add: unsigned_of_nat take_bit_nat_eq_self)
    then show False using \<open>us ! y \<in> set us\<close> u(3) by simp
  qed
  moreover have z: "pp_type (s 0 0) = (if us = [] then 0 else CO_DEVICE_NETWORK)"
    using s by (simp add: nets_at_def no_place_def)
  ultimately have "pci_space_add (length us) CO_DEVICE_NETWORK (of_nat u) s =
      put_place 0 (length us) \<lparr>pp_type = CO_DEVICE_NETWORK, pp_unit = of_nat u\<rparr> s"
    unfolding pci_space_add_def up by simp
  then show ?thesis using s by (auto simp: nets_at_def put_place_def nth_append less_Suc_eq)
qed

lemma add_networks_all:
  assumes "nets_at us s" "length us + length (filter snd ns) \<le> 8" "distinct (us @ map fst (filter snd ns))"
    "\<forall>v \<in> set us. v < 256" "\<forall>v \<in> fst ` set ns. v < 256" "length us < 8 \<or> filter snd ns = []"
  shows "nets_at (us @ map fst (filter snd ns)) (add_networks ns (length us mod 8) s)"
  using assms
proof (induction ns arbitrary: us s)
  case (Cons n ns)
  obtain u on where n: "n = (u, on)" by force
  show ?case
  proof (cases on)
    case False
    then show ?thesis using Cons.IH [OF Cons.prems(1)] Cons.prems(2-6) n by simp
  next
    case True
    have l: "length us < 8" using Cons.prems(6) True n by auto
    have "nets_at (us @ [u]) (pci_space_add (length us) CO_DEVICE_NETWORK (of_nat u) s)"
      by (rule add_one_network [OF Cons.prems(1) l Cons.prems(4)]) (use Cons.prems n True in auto)
    moreover have "(if length us + 1 > 7 then 0 else length us + 1) = length (us @ [u]) mod 8" using l by (cases "length us = 7") auto
    moreover have "length us + 1 < 8 \<or> filter snd ns = []" using Cons.prems(2) n True by (cases "filter snd ns") auto
    ultimately have "nets_at ((us @ [u]) @ map fst (filter snd ns))
        (add_networks ns (length (us @ [u]) mod 8) (pci_space_add (length us) CO_DEVICE_NETWORK (of_nat u) s))"
      by (intro Cons.IH) (use Cons.prems n True in auto)
    moreover have "add_networks (n # ns) (length us mod 8) s =
        add_networks ns (length (us @ [u]) mod 8) (pci_space_add (length us) CO_DEVICE_NETWORK (of_nat u) s)"
      using n True l by (cases "length us = 7") simp_all
    ultimately show ?thesis using n True by simp
  qed
qed simp

lemma setconfig_networks:
  assumes "\<forall>x y. s x y = no_place" "length (filter (\<lambda>on. on) net) \<le> 8" "length net \<le> CO_MODULE_MAX_CONET"
    and "i < length net" "net ! i"
  shows "pci_space_find (snd (co_pci_setconfig [] net s)) CO_DEVICE_NETWORK (of_nat i)"
proof -
  have slot: "fixup_slot x ys z s = s" for x ys z
    using assms(1) by (induction ys arbitrary: z) (simp_all add: no_place_def)
  have f: "fold (\<lambda>x. fixup_slot x ys z) xs s = s" for xs ys z by (induction xs) (simp_all add: slot)
  let ?ns = "enumerate 0 net"
  have fl: "length (filter snd ?ns) = length (filter (\<lambda>on. on) net)"
    by (metis (no_types, lifting) length_filter_map map_snd_enumerate comp_apply filter_cong)
  have "distinct (map fst (filter snd ?ns))"
    by (rule distinct_map_filter) simp
  moreover have "\<forall>v \<in> fst ` set ?ns. v < 256" using assms(3) by (auto simp: in_set_enumerate_eq)
  moreover have "nets_at [] s" using assms(1) by (simp add: nets_at_def)
  ultimately have n: "nets_at (map fst (filter snd ?ns)) (add_networks ?ns 0 s)"
    using add_networks_all [of "[]" s ?ns] assms(2) fl by simp
  have "(i, True) \<in> set (filter snd ?ns)" using assms(4,5) by (simp add: in_set_enumerate_eq)
  then have "i \<in> set (map fst (filter snd ?ns))" by force
  then obtain k where k: "k < length (filter snd ?ns)" "map fst (filter snd ?ns) ! k = i" by (metis in_set_conv_nth length_map)
  then have "k < COPCI_MAX_FUNCS" using assms(2) fl by simp
  then have "pci_space_find (add_networks ?ns 0 s) CO_DEVICE_NETWORK (of_nat i)"
    unfolding pci_find using n k unfolding nets_at_def by (intro exI [of _ 0] exI [of _ k] conjI) simp_all
  then show ?thesis by (simp add: co_pci_setconfig_def fixup_settings_def f)
qed

text \<open>A ninth card takes the place of the first.\<close>

lemma setconfig_ninth:
  "\<not> pci_space_find (snd (co_pci_setconfig [] (replicate 9 True) (\<lambda>x y. no_place))) CO_DEVICE_NETWORK 0"
  by code_simp
end
