(* ===== verification/CoGuestCalls.thy ===== *)
theory CoGuestCalls
  imports CoManagerSteps CoConsole CoBlock CoFilesystem CoDevices
begin

text \<open>
  The monitor of one guest and the calls the guest makes through the passage page: handing over messages and the
  time that has passed, termination, pages, physical addresses and messages to user space. Translated from
  \<open>src/colinux/kernel/monitor.c\<close>; the layouts of the messages and the loop with which the guest receives them come
  from the kernel patch \<open>src/patched.diff\<close> (\<open>include/linux/cooperative.h\<close>, \<open>co_callback\<close>). The components the
  monitor is made of (memory, block devices, SCSI, file systems, network, video, console, manager) are those of the
  other theories. A read of data that is not there is \<open>None\<close>, and so is the use of a passage page that was not
  allocated.
\<close>

section \<open>Data\<close>

datatype co_monitor_state =
    CO_MONITOR_STATE_EMPTY
  | CO_MONITOR_STATE_INITIALIZED
  | CO_MONITOR_STATE_RUNNING
  | CO_MONITOR_STATE_STARTED
  | CO_MONITOR_STATE_TERMINATED

text \<open>Quantifiers over the states compute.\<close>

instantiation co_monitor_state :: enum
begin

definition enum_co_monitor_state :: "co_monitor_state list" where
  "enum_co_monitor_state = [CO_MONITOR_STATE_EMPTY, CO_MONITOR_STATE_INITIALIZED, CO_MONITOR_STATE_RUNNING,
     CO_MONITOR_STATE_STARTED, CO_MONITOR_STATE_TERMINATED]"

definition enum_all_co_monitor_state :: "(co_monitor_state \<Rightarrow> bool) \<Rightarrow> bool" where
  "enum_all_co_monitor_state P \<longleftrightarrow> list_all P enum_class.enum"

definition enum_ex_co_monitor_state :: "(co_monitor_state \<Rightarrow> bool) \<Rightarrow> bool" where
  "enum_ex_co_monitor_state P \<longleftrightarrow> list_ex P enum_class.enum"

instance
proof
  show univ: "(UNIV :: co_monitor_state set) = set enum_class.enum"
    using co_monitor_state.exhaust by (auto simp: enum_co_monitor_state_def)
  show "distinct (enum_class.enum :: co_monitor_state list)" by (simp add: enum_co_monitor_state_def)
  show "enum_class.enum_all P \<longleftrightarrow> Ball UNIV P" "enum_class.enum_ex P \<longleftrightarrow> Bex UNIV P" for P :: "co_monitor_state \<Rightarrow> bool"
    unfolding univ enum_all_co_monitor_state_def enum_ex_co_monitor_state_def by (simp_all add: list_all_iff list_ex_iff)
qed

end

abbreviation CO_MODULE_LINUX :: u32 where "CO_MODULE_LINUX \<equiv> 0"
abbreviation CO_MODULE_MONITOR :: u32 where "CO_MODULE_MONITOR \<equiv> 1"
abbreviation CO_MODULE_CONSOLE :: u32 where "CO_MODULE_CONSOLE \<equiv> 6"
abbreviation CO_MODULES_MAX :: u32 where "CO_MODULES_MAX \<equiv> 156"
abbreviation CO_DEVICES_TOTAL :: u32 where "CO_DEVICES_TOTAL \<equiv> 13"
abbreviation CO_VPTR_IO_AREA_SIZE :: nat where "CO_VPTR_IO_AREA_SIZE \<equiv> 0x10000"
abbreviation sizeof_io_buffer :: nat where "sizeof_io_buffer \<equiv> 4"

abbreviation CO_OPERATION_START :: u32 where "CO_OPERATION_START \<equiv> 1"
abbreviation CO_OPERATION_IDLE :: u32 where "CO_OPERATION_IDLE \<equiv> 2"
abbreviation CO_OPERATION_TERMINATE :: u32 where "CO_OPERATION_TERMINATE \<equiv> 3"
abbreviation CO_OPERATION_MESSAGE_TO_MONITOR :: u32 where "CO_OPERATION_MESSAGE_TO_MONITOR \<equiv> 4"
abbreviation CO_OPERATION_MESSAGE_FROM_MONITOR :: u32 where "CO_OPERATION_MESSAGE_FROM_MONITOR \<equiv> 5"
abbreviation CO_OPERATION_FORWARD_INTERRUPT :: u32 where "CO_OPERATION_FORWARD_INTERRUPT \<equiv> 6"
abbreviation CO_OPERATION_DEVICE :: u32 where "CO_OPERATION_DEVICE \<equiv> 7"
abbreviation CO_OPERATION_GET_TIME :: u32 where "CO_OPERATION_GET_TIME \<equiv> 8"
abbreviation CO_OPERATION_DEBUG_LINE :: u32 where "CO_OPERATION_DEBUG_LINE \<equiv> 9"
abbreviation CO_OPERATION_GET_HIGH_PREC_TIME :: u32 where "CO_OPERATION_GET_HIGH_PREC_TIME \<equiv> 10"
abbreviation CO_OPERATION_TRACE_POINT :: u32 where "CO_OPERATION_TRACE_POINT \<equiv> 11"
abbreviation CO_OPERATION_FREE_PAGES :: u32 where "CO_OPERATION_FREE_PAGES \<equiv> 12"
abbreviation CO_OPERATION_ALLOC_PAGES :: u32 where "CO_OPERATION_ALLOC_PAGES \<equiv> 13"
abbreviation CO_OPERATION_GETPP :: u32 where "CO_OPERATION_GETPP \<equiv> 15"

abbreviation CO_TERMINATE_END :: u32 where "CO_TERMINATE_END \<equiv> 0"
abbreviation CO_TERMINATE_PANIC :: u32 where "CO_TERMINATE_PANIC \<equiv> 3"
abbreviation CO_TERMINATE_BUG :: u32 where "CO_TERMINATE_BUG \<equiv> 9"
abbreviation CO_TERMINATE_VMXE :: u32 where "CO_TERMINATE_VMXE \<equiv> 10"

text \<open>The passage page as far as host and guest talk through it, the buffer for messages, and what the guest left
  when it ended.\<close>

record passage_page =
  pa_operation :: u32
  pa_params :: params

record co_io_buffer =
  messages_waiting :: u32
  io_bytes :: "u8 list"

record co_bug_info =
  bug_code :: u32
  bug_line :: u32
  bug_text :: "u8 list"

record co_config =
  cf_ram_size :: u32
  cf_scsi_devs :: "(bool \<times> co_scsi_dev) list"
  cf_block_devs :: "co_block_dev_desc list"
  cf_cofs_devs :: "(bool \<times> string) list"
  cf_video_devs :: "(bool \<times> co_video_dev) list"
  cf_net_devs :: "co_netdev_desc list"
  cf_pci :: pci_space
  cf_boot_line :: "u8 list"

record co_symbols_import =
  kernel_start :: u32
  kernel_end :: u32
  kernel_swapper_pg_dir :: u32

text \<open>\<open>cm_pp\<close> is whether \<open>pp_pfns\<close> was allocated; the table itself, like all of the guest's memory, is in \<open>cm_vm\<close>.
  The queue has its head first, like the queues of the manager: new messages come to the front and the last is the
  oldest. \<open>cm_self\<close> is the monitor's address in the manager.\<close>

record 'w co_monitor =
  cm_state :: co_monitor_state
  cm_termination_reason :: u32
  cm_bug_info :: co_bug_info
  cm_config :: co_config
  cm_passage :: "passage_page option"
  cm_import :: co_symbols_import
  cm_core_end :: u32
  cm_memory_size :: u32
  cm_pgd :: u32
  cm_pp :: bool
  cm_vm :: vm
  cm_timer_active :: bool
  cm_timer_interrupt :: bool
  cm_timestamp :: u64
  cm_timestamp_freq :: u64
  cm_timestamp_reminder :: u64
  cm_video_devs :: "co_video_dev option list"
  cm_scsi_devs :: "co_scsi_dev option list"
  cm_scsi_queue :: "io_req list"
  cm_scsi_next :: nat
  cm_scsi_work :: "nat list"
  cm_block_devs :: "u32 \<Rightarrow> co_monitor_file_block_dev option"
  cm_block_pending :: "callback_context list"
  cm_filesystems :: filesystems
  cm_queue :: "CoManager.co_message list"
  cm_io_buffer :: co_io_buffer
  cm_console :: co_console
  cm_initrd_address :: u32
  cm_initrd_size :: u32
  cm_manager :: co_manager
  cm_self :: mptr
  cm_world :: 'w

definition update_passage :: "(passage_page \<Rightarrow> passage_page) \<Rightarrow> 'w co_monitor \<Rightarrow> 'w co_monitor option" where
  "update_passage f cm = do { pa \<leftarrow> cm_passage cm; Some (cm\<lparr>cm_passage := Some (f pa)\<rparr>) }"

definition set_param :: "nat \<Rightarrow> u32 \<Rightarrow> 'w co_monitor \<Rightarrow> 'w co_monitor option" where
  "set_param i v = update_passage (\<lambda>pa. pa\<lparr>pa_params := (pa_params pa)(i := v)\<rparr>)"

section \<open>Messages to the guest\<close>

text \<open>A message in memory: five 32-bit fields, low byte first, and the data.\<close>

definition message_image :: "CoManager.co_message \<Rightarrow> u8 list" where
  "message_image msg = le_bytes 4 (m_from msg) @ le_bytes 4 (m_to msg) @ le_bytes 4 (m_priority msg) @
     le_bytes 4 (m_type msg) @ le_bytes 4 (word_of_nat (length (m_data msg))) @ m_data msg"

definition le_u32 :: "u8 list \<Rightarrow> nat \<Rightarrow> u32" where
  "le_u32 bs k = ucast (bs ! k) OR push_bit 8 (ucast (bs ! (k + 1))) OR push_bit 16 (ucast (bs ! (k + 2))) OR
     push_bit 24 (ucast (bs ! (k + 3)))"

text \<open>The loop of \<open>callback_return_messages\<close>, oldest message first: the bytes and the number of the messages handed
  over, and what stays in the queue. A message that names no module or no device is dropped and ends the loop.\<close>

fun hand_over :: "nat \<Rightarrow> CoManager.co_message list \<Rightarrow> (u8 list \<times> u32 \<times> CoManager.co_message list) option" where
  "hand_over room [] = Some ([], 0, [])"
| "hand_over room (msg # rest) =
     (if message_bytes msg > room then Some ([], 0, msg # rest)
      else if m_from msg \<ge> CO_MODULES_MAX \<or> m_to msg \<ge> CO_MODULES_MAX then Some ([], 0, rest)
      else if length (m_data msg) < 4 then None
      else if le_u32 (m_data msg) 0 \<ge> CO_DEVICES_TOTAL then Some ([], 0, rest)
      else do {
        (bs, n, left) \<leftarrow> hand_over (room - message_bytes msg) rest;
        Some (message_image msg @ bs, n + 1, left) })"

definition io_buffer_room :: nat where "io_buffer_room = CO_VPTR_IO_AREA_SIZE - sizeof_io_buffer"

definition callback_return_messages :: "'w co_monitor \<Rightarrow> (co_rc \<times> 'w co_monitor) option" where
  "callback_return_messages cm = do {
     cm \<leftarrow> set_param 0 0 cm;
     if messages_waiting (cm_io_buffer cm) \<noteq> 0 then Some (RC_OK, cm)
     else do {
       (bs, n, left) \<leftarrow> hand_over io_buffer_room (rev (cm_queue cm));
       let cm = cm\<lparr>cm_io_buffer := \<lparr>messages_waiting = n, io_bytes = overwrite 0 bs (io_bytes (cm_io_buffer cm))\<rparr>,
                   cm_queue := rev left\<rparr>;
       cm \<leftarrow> set_param 0 (word_of_nat (length bs)) cm;
       Some (RC_OK, cm) } }"

text \<open>The guest's side, \<open>co_callback\<close>: the messages in \<open>io_size\<close> bytes of the buffer. \<open>None\<close> is a \<open>BUG_ON\<close> or a
  read beyond the bytes.\<close>

function guest_receive :: "u8 list \<Rightarrow> CoManager.co_message list option" where
  "guest_receive bs =
     (if bs = [] then Some []
      else if length bs < sizeof_message + 4 then None
      else
        let n = unat (le_u32 bs 16) + sizeof_message;
            msg = \<lparr>m_from = le_u32 bs 0, m_to = le_u32 bs 4, m_priority = le_u32 bs 8, m_type = le_u32 bs 12,
                   m_data = drop sizeof_message (take n bs)\<rparr>
        in if length bs < n \<or> m_from msg \<ge> CO_MODULES_MAX \<or> m_to msg \<ge> CO_MODULES_MAX \<or>
             le_u32 bs sizeof_message \<ge> CO_DEVICES_TOTAL then None
           else do { ms \<leftarrow> guest_receive (drop n bs); Some (msg # ms) })"
  by pat_completeness auto
termination
  by (relation "measure length") auto

declare guest_receive.simps [simp del]

section \<open>Time\<close>

text \<open>\<open>HZ\<close> is 100; a time that does not advance leaves the old one.\<close>

definition callback_return_jiffies :: "u64 \<Rightarrow> 'w co_monitor \<Rightarrow> 'w co_monitor option" where
  "callback_return_jiffies now cm =
     (if now > cm_timestamp cm
      then let diff = cm_timestamp_reminder cm + 100 * (now - cm_timestamp cm)
           in do {
             (diff, reminder) \<leftarrow> co_div64_32 diff (ucast (cm_timestamp_freq cm));
             set_param 1 (ucast diff) (cm\<lparr>cm_timestamp_reminder := ucast reminder, cm_timestamp := now\<rparr>) }
      else set_param 1 0 cm)"

definition callback_return :: "u64 \<Rightarrow> 'w co_monitor \<Rightarrow> 'w co_monitor option" where
  "callback_return now cm = do {
     cm \<leftarrow> update_passage (\<lambda>pa. pa\<lparr>pa_operation := CO_OPERATION_MESSAGE_FROM_MONITOR\<rparr>) cm;
     (rc, cm) \<leftarrow> callback_return_messages cm;
     callback_return_jiffies now cm }"

section \<open>The guest receives what is handed over\<close>

lemma le_u32_bytes [simp]: "le_u32 (le_bytes 4 w @ bs) 0 = w"
proof -
  have "[0..<4] = [0 :: nat, 1, 2, 3]" by (simp add: upt_rec)
  then show ?thesis
    using read_write_u32 [of 0 w] by (simp add: le_bytes_def le_u32_def read_u32_def write_u32_def)
qed

lemma length_le_bytes [simp]: "length (le_bytes n w) = n" by (simp add: le_bytes_def)

lemma le_u32_append: "le_u32 (bs @ cs) (length bs + k) = le_u32 cs k"
  by (simp add: le_u32_def nth_append add.assoc)

lemma le_u32_front: "k + 4 \<le> length bs \<Longrightarrow> le_u32 (bs @ cs) k = le_u32 bs k"
  by (simp add: le_u32_def nth_append)

lemma length_message_image [simp]: "length (message_image msg) = message_bytes msg"
  by (simp add: message_image_def message_bytes_def)

lemma le_u32_skip: "k \<ge> 4 \<Longrightarrow> le_u32 (le_bytes 4 w @ cs) k = le_u32 cs (k - 4)"
  using le_u32_append [of "le_bytes 4 w" cs "k - 4"] by simp

lemma message_image_fields:
  "le_u32 (message_image msg @ bs) 0 = m_from msg" "le_u32 (message_image msg @ bs) 4 = m_to msg"
  "le_u32 (message_image msg @ bs) 8 = m_priority msg" "le_u32 (message_image msg @ bs) 12 = m_type msg"
  "le_u32 (message_image msg @ bs) 16 = word_of_nat (length (m_data msg))"
  "le_u32 (message_image msg @ bs) 20 = le_u32 (m_data msg @ bs) 0"
  by (simp_all add: message_image_def le_u32_skip)

text \<open>What the guest accepts without a \<open>BUG_ON\<close>.\<close>

definition message_valid :: "CoManager.co_message \<Rightarrow> bool" where
  "message_valid msg \<longleftrightarrow> m_from msg < CO_MODULES_MAX \<and> m_to msg < CO_MODULES_MAX \<and> 4 \<le> length (m_data msg) \<and>
     le_u32 (m_data msg) 0 < CO_DEVICES_TOTAL"

lemma guest_receive_image:
  assumes v: "message_valid msg" and small: "message_bytes msg \<le> io_buffer_room" and rest: "guest_receive bs = Some ms"
  shows "guest_receive (message_image msg @ bs) = Some (msg # ms)"
proof -
  have n: "unat (word_of_nat (length (m_data msg)) :: u32) = length (m_data msg)"
    using small by (simp add: unsigned_of_nat take_bit_nat_eq_self message_bytes_def io_buffer_room_def)
  have dev: "le_u32 (m_data msg @ bs) 0 = le_u32 (m_data msg) 0"
    using v by (simp add: le_u32_front message_valid_def)
  have ne: "message_image msg @ bs \<noteq> []" by (simp add: message_image_def le_bytes_def)
  have len: "\<not> length (message_image msg @ bs) < sizeof_message + 4" using v by (simp add: message_bytes_def message_valid_def)
  have "take (message_bytes msg) (message_image msg @ bs) = message_image msg"
    "drop (message_bytes msg) (message_image msg @ bs) = bs" by simp_all
  moreover have "drop sizeof_message (message_image msg) = m_data msg" by (simp add: message_image_def)
  moreover have "length (m_data msg) + sizeof_message = message_bytes msg" by (simp add: message_bytes_def)
  ultimately show ?thesis
    using v rest dev ne len n
    by (subst guest_receive.simps) (simp add: message_image_fields Let_def message_valid_def not_le del: append_is_Nil_conv)
qed

lemma hand_over_received:
  assumes "\<forall>msg \<in> set ms. 4 \<le> length (m_data msg)" "room \<le> io_buffer_room"
  shows "\<exists>bs given dropped left. hand_over room ms = Some (bs, word_of_nat (length given), left) \<and>
    ms = given @ dropped @ left \<and> length bs \<le> room \<and> guest_receive bs = Some given \<and>
    length dropped \<le> 1 \<and> (\<forall>msg \<in> set dropped. \<not> message_valid msg) \<and>
    (dropped = [] \<longrightarrow> left = [] \<or> message_bytes (hd left) > room - length bs)"
  using assms
proof (induction ms arbitrary: room)
  case Nil
  then show ?case by (simp add: guest_receive.simps)
next
  case (Cons msg rest)
  have four: "4 \<le> length (m_data msg)" using Cons.prems(1) by simp
  consider "message_bytes msg > room" | "message_bytes msg \<le> room" "\<not> message_valid msg"
    | "message_bytes msg \<le> room" "message_valid msg" by linarith
  then show ?case
  proof cases
    case 1
    then show ?thesis by (intro exI [of _ "[]"] exI [of _ "msg # rest"]) (simp add: guest_receive.simps)
  next
    case 2
    then have "hand_over room (msg # rest) = Some ([], 0, rest)"
      using four by (auto simp: message_valid_def not_less)
    then show ?thesis
      using 2 by (intro exI [of _ "[]"] exI [of _ "[msg]"] exI [of _ rest]) (simp add: guest_receive.simps)
  next
    case 3
    have "\<forall>m \<in> set rest. 4 \<le> length (m_data m)" "room - message_bytes msg \<le> io_buffer_room" using Cons.prems by auto
    from Cons.IH [OF this] obtain bs given dropped left where
      ih: "hand_over (room - message_bytes msg) rest = Some (bs, word_of_nat (length given), left)"
        "rest = given @ dropped @ left" "length bs \<le> room - message_bytes msg" "guest_receive bs = Some given"
        "length dropped \<le> 1" "\<forall>m \<in> set dropped. \<not> message_valid m"
        "dropped = [] \<longrightarrow> left = [] \<or> message_bytes (hd left) > room - message_bytes msg - length bs" by blast
    have "guest_receive (message_image msg @ bs) = Some (msg # given)"
      by (rule guest_receive_image [OF 3(2) _ ih(4)]) (use 3(1) Cons.prems(2) in simp)
    moreover have "hand_over room (msg # rest) = Some (message_image msg @ bs, word_of_nat (length (msg # given)), left)"
      using 3 ih(1) by (simp add: message_valid_def not_le add.commute linorder_not_le [THEN iffD2] del: not_less)
    ultimately show ?thesis
      using ih(2,3,5-7) 3(1)
      by (intro exI [of _ "message_image msg @ bs"] exI [of _ "msg # given"] exI [of _ dropped] exI [of _ left])
        (auto simp: diff_diff_left add.commute)
  qed
qed

text \<open>C1: Handing messages to the guest. When no messages wait in the buffer, the loop with which the guest reads the
  announced bytes receives, without running into a \<open>BUG_ON\<close>, exactly the oldest messages of the queue, in their
  order and unchanged; what is not handed over stays in the queue in its order, apart from at most one message that
  names no module or device. The bytes lie inside the buffer, and the loop stops only for want of messages or of
  room. The passage page and the buffer are there, and every message of the queue carries at least the four bytes of
  the device it names: the driver takes messages of any size, and reads the device of a shorter one beyond its end.\<close>

theorem callback_return_messages_received:
  assumes "cm_passage cm = Some pa" "messages_waiting (cm_io_buffer cm) = 0"
    and "length (io_bytes (cm_io_buffer cm)) = io_buffer_room" "\<forall>msg \<in> set (cm_queue cm). 4 \<le> length (m_data msg)"
  shows "\<exists>cm' pa' given dropped. callback_return_messages cm = Some (RC_OK, cm') \<and> cm_passage cm' = Some pa' \<and>
    cm_queue cm = cm_queue cm' @ dropped @ rev given \<and> length dropped \<le> 1 \<and> list_all (\<lambda>msg. \<not> message_valid msg) dropped \<and>
    guest_receive (take (unat (pa_params pa' 0)) (io_bytes (cm_io_buffer cm'))) = Some given \<and>
    unat (pa_params pa' 0) \<le> io_buffer_room \<and> length (io_bytes (cm_io_buffer cm')) = io_buffer_room \<and>
    messages_waiting (cm_io_buffer cm') = word_of_nat (length given) \<and>
    (dropped \<noteq> [] \<or> cm_queue cm' = [] \<or> message_bytes (last (cm_queue cm')) > io_buffer_room - unat (pa_params pa' 0))"
proof -
  have "\<forall>msg \<in> set (rev (cm_queue cm)). 4 \<le> length (m_data msg)" using assms(4) by simp
  from hand_over_received [OF this order_refl] obtain bs given dropped left where
    h: "hand_over io_buffer_room (rev (cm_queue cm)) = Some (bs, word_of_nat (length given), left)"
      "rev (cm_queue cm) = given @ dropped @ left" "length bs \<le> io_buffer_room" "guest_receive bs = Some given"
      "length dropped \<le> 1" "\<forall>msg \<in> set dropped. \<not> message_valid msg"
      "dropped = [] \<longrightarrow> left = [] \<or> message_bytes (hd left) > io_buffer_room - length bs" by blast
  have n: "unat (word_of_nat (length bs) :: u32) = length bs"
    using h(3) by (simp add: unsigned_of_nat take_bit_nat_eq_self io_buffer_room_def)
  let ?io = "\<lparr>messages_waiting = word_of_nat (length given), io_bytes = overwrite 0 bs (io_bytes (cm_io_buffer cm))\<rparr>"
  let ?pa = "pa\<lparr>pa_params := (pa_params pa)(0 := word_of_nat (length bs))\<rparr>"
  let ?cm = "cm\<lparr>cm_passage := Some ?pa, cm_io_buffer := ?io, cm_queue := rev left\<rparr>"
  have "callback_return_messages cm = Some (RC_OK, ?cm)"
    using assms(1,2) h(1) by (simp add: callback_return_messages_def set_param_def update_passage_def)
  moreover have "cm_queue cm = rev left @ rev dropped @ rev given" using arg_cong [OF h(2), of rev] by simp
  ultimately show ?thesis
    using h n assms(3)
    by (intro exI [of _ ?cm] exI [of _ ?pa] exI [of _ given] exI [of _ "rev dropped"])
      (auto simp: overwrite_def list_all_iff last_rev)
qed

text \<open>Two messages of the console wait.\<close>

abbreviation keyboard_message :: "u32 \<Rightarrow> CoManager.co_message" where
  "keyboard_message from \<equiv> \<lparr>m_from = from, m_to = CO_MODULE_LINUX, m_priority = 0, m_type = 1, m_data = [2, 0, 0, 0, 30]\<rparr>"

theorem callback_return_messages_received_witness:
  "\<forall>cm :: unit co_monitor. \<exists>cm' pa' given.
     callback_return_messages (cm\<lparr>cm_passage := Some \<lparr>pa_operation = 5, pa_params = (\<lambda>_. 0)\<rparr>,
       cm_io_buffer := \<lparr>messages_waiting = 0, io_bytes = replicate io_buffer_room 0\<rparr>,
       cm_queue := [keyboard_message 6, keyboard_message 6]\<rparr>) = Some (RC_OK, cm') \<and> cm_passage cm' = Some pa' \<and>
     guest_receive (take (unat (pa_params pa' 0)) (io_bytes (cm_io_buffer cm'))) = Some given \<and>
     messages_waiting (cm_io_buffer cm') = word_of_nat (length given)"
proof
  fix cm :: "unit co_monitor"
  let ?cm = "cm\<lparr>cm_passage := Some \<lparr>pa_operation = 5, pa_params = (\<lambda>_. 0)\<rparr>,
       cm_io_buffer := \<lparr>messages_waiting = 0, io_bytes = replicate io_buffer_room 0\<rparr>,
       cm_queue := [keyboard_message 6, keyboard_message 6]\<rparr>"
  have "cm_passage ?cm = Some \<lparr>pa_operation = 5, pa_params = (\<lambda>_. 0)\<rparr>" "messages_waiting (cm_io_buffer ?cm) = 0"
    "length (io_bytes (cm_io_buffer ?cm)) = io_buffer_room" "\<forall>msg \<in> set (cm_queue ?cm). 4 \<le> length (m_data msg)" by simp_all
  from callback_return_messages_received [OF this] show "\<exists>cm' pa' given. callback_return_messages ?cm = Some (RC_OK, cm') \<and>
     cm_passage cm' = Some pa' \<and> guest_receive (take (unat (pa_params pa' 0)) (io_bytes (cm_io_buffer cm'))) = Some given \<and>
     messages_waiting (cm_io_buffer cm') = word_of_nat (length given)" by blast
qed

section \<open>No time is lost\<close>

fun jiffies_run :: "u64 list \<Rightarrow> 'w co_monitor \<Rightarrow> (nat \<times> 'w co_monitor) option" where
  "jiffies_run [] cm = Some (0, cm)"
| "jiffies_run (now # nows) cm = do {
     cm \<leftarrow> callback_return_jiffies now cm;
     pa \<leftarrow> cm_passage cm;
     (n, cm) \<leftarrow> jiffies_run nows cm;
     Some (unat (pa_params pa 1) + n, cm) }"

lemma jiffies_step:
  assumes pa: "cm_passage cm = Some pa" and f: "cm_timestamp_freq cm = ucast (f :: u32)" "0 < f"
    and r: "cm_timestamp_reminder cm < ucast f" and far: "100 * unat now \<le> unat f * (2 ^ 32 - 1)"
  shows "\<exists>cm' pa'. callback_return_jiffies now cm = Some cm' \<and> cm_passage cm' = Some pa' \<and>
    cm_timestamp_freq cm' = ucast f \<and> cm_timestamp_reminder cm' < ucast f \<and> cm_timestamp cm' = max (cm_timestamp cm) now \<and>
    unat (pa_params pa' 1) * unat f + unat (cm_timestamp_reminder cm') =
      unat (cm_timestamp_reminder cm) + 100 * (unat (cm_timestamp cm') - unat (cm_timestamp cm))"
proof (cases "now > cm_timestamp cm")
  case False
  then show ?thesis
    using assms by (auto simp: callback_return_jiffies_def set_param_def update_passage_def max_def not_less)
next
  case True
  let ?d = "cm_timestamp_reminder cm + 100 * (now - cm_timestamp cm)"
  have f64: "unat (ucast x :: u64) = unat x" for x :: u32
    using unsigned_less [of x, where 'a = nat] by (simp add: unsigned_ucast_eq take_bit_nat_eq_self)
  have fb: "ucast (ucast f :: u64) = f"
    by (rule bit_word_eqI) (simp add: bit_simps)
  have fs: "unat f < 2 ^ 32" using unsigned_less [of f, where 'a = nat] by simp
  have rem: "unat (cm_timestamp_reminder cm) < unat f" using r f64 by (simp add: word_less_nat_alt)
  have sub: "unat (now - cm_timestamp cm) = unat now - unat (cm_timestamp cm)" using True by (simp add: unat_sub)
  have prod: "unat f * (2 ^ 32 - 1) + unat f < 2 ^ 64"
  proof -
    have "unat f * (2 ^ 32 - 1) + unat f = unat f * 2 ^ 32" by simp
    also have "\<dots> < 2 ^ 32 * 2 ^ 32" using fs by (simp only: mult_less_cancel2) simp
    finally show ?thesis by simp
  qed
  have le: "100 * (unat now - unat (cm_timestamp cm)) \<le> unat f * (2 ^ 32 - 1)" using far by simp
  have big: "unat (cm_timestamp_reminder cm) + 100 * (unat now - unat (cm_timestamp cm)) < 2 ^ 64"
    using le prod rem by linarith
  have d: "unat ?d = unat (cm_timestamp_reminder cm) + 100 * (unat now - unat (cm_timestamp cm))"
  proof -
    have "unat (r + 100 * t) = unat r + 100 * unat t" if "unat r + 100 * unat t < 2 ^ 64" for r t :: u64
      using that by (simp add: unat_word_ariths)
    then show ?thesis using big sub by metis
  qed
  have "f \<noteq> 0" using f(2) by auto
  from co_div64_32_correct [OF this, of ?d] obtain q m where
    qm: "co_div64_32 ?d f = Some (q, m)" "unat q = unat ?d div unat f" "unat m = unat ?d mod unat f" by blast
  have "unat ?d < unat f * 2 ^ 32" using d le rem by simp
  then have "unat q < 2 ^ 32" using qm(2) by (simp add: less_mult_imp_div_less mult.commute)
  then have q32: "unat (ucast q :: u32) = unat q" by (simp add: unsigned_ucast_eq take_bit_nat_eq_self)
  have mf: "unat m < unat f" using qm(3) f(2) by (simp add: word_less_nat_alt)
  have "unat q * unat f + unat m = unat ?d" using qm(2,3) by simp
  moreover have "max (cm_timestamp cm) now = now" using True by simp
  moreover have "(ucast m :: u64) < ucast f" using mf f64 by (simp add: word_less_nat_alt)
  ultimately show ?thesis
    using True pa f qm(1) fb q32 f64 d
    by (simp add: callback_return_jiffies_def set_param_def update_passage_def Let_def)
qed

text \<open>C11: No time is lost. Let the frequency of the clock be positive and fit the 32 bits of the divisor (the code
  cuts a larger one off), the passage page be there and the remainder that is kept be below the frequency. Over any
  sequence of times of less than \<open>2^32\<close> jiffies (a hundred times each is at most the frequency times \<open>2^32 - 1\<close>, so that
  no count is cut off), in which the clock may also jump back, the jiffies the guest is told, in units of the
  frequency, and the remainder account for exactly a hundred times the ticks between the first and the latest time;
  the remainder stays below the frequency.\<close>

theorem jiffies_run_exact:
  assumes "cm_passage cm \<noteq> None" "cm_timestamp_freq cm = ucast (f :: u32)" "0 < f"
    and "cm_timestamp_reminder cm < ucast f" "\<forall>now \<in> set nows. 100 * unat now \<le> unat f * (2 ^ 32 - 1)"
  shows "\<exists>n cm'. jiffies_run nows cm = Some (n, cm') \<and> cm_timestamp cm' = fold max nows (cm_timestamp cm) \<and>
    cm_timestamp_reminder cm' < ucast f \<and>
    n * unat f + unat (cm_timestamp_reminder cm') =
      unat (cm_timestamp_reminder cm) + 100 * (unat (cm_timestamp cm') - unat (cm_timestamp cm))"
  using assms
proof (induction nows arbitrary: cm)
  case (Cons now nows)
  from Cons.prems(1) obtain pa where "cm_passage cm = Some pa" by auto
  from jiffies_step [OF this Cons.prems(2-4), of now] Cons.prems(5) obtain c1 p1 where
    1: "callback_return_jiffies now cm = Some c1" "cm_passage c1 = Some p1" "cm_timestamp_freq c1 = ucast f"
      "cm_timestamp_reminder c1 < ucast f" "cm_timestamp c1 = max (cm_timestamp cm) now"
      "unat (pa_params p1 1) * unat f + unat (cm_timestamp_reminder c1) =
        unat (cm_timestamp_reminder cm) + 100 * (unat (cm_timestamp c1) - unat (cm_timestamp cm))" by auto
  have "cm_passage c1 \<noteq> None" using 1(2) by simp
  from Cons.IH [OF this 1(3) Cons.prems(3) 1(4)] Cons.prems(5) obtain n c2 where
    2: "jiffies_run nows c1 = Some (n, c2)" "cm_timestamp c2 = fold max nows (cm_timestamp c1)"
      "cm_timestamp_reminder c2 < ucast f"
      "n * unat f + unat (cm_timestamp_reminder c2) =
        unat (cm_timestamp_reminder c1) + 100 * (unat (cm_timestamp c2) - unat (cm_timestamp c1))" by auto
  have up: "x \<le> fold max xs x" for x :: u64 and xs
  proof (induction xs arbitrary: x)
    case (Cons y ys)
    then show ?case using order_trans [OF max.cobounded1 Cons.IH [of "max x y"]] by (simp add: max.commute)
  qed simp
  have "unat (cm_timestamp cm) \<le> unat (cm_timestamp c1)" "unat (cm_timestamp c1) \<le> unat (cm_timestamp c2)"
    using 1(5) 2(2) up [of "cm_timestamp c1" nows] by (auto simp: word_le_nat_alt [symmetric])
  then have "(unat (pa_params p1 1) + n) * unat f + unat (cm_timestamp_reminder c2) =
      unat (cm_timestamp_reminder cm) + 100 * (unat (cm_timestamp c2) - unat (cm_timestamp cm))"
    using 1(6) 2(4) by (simp add: add_mult_distrib)
  then show ?case using 1(1,2,5) 2(1-3) by (auto simp: max.commute)
qed simp

theorem jiffies_run_exact_witness:
  "\<forall>cm :: unit co_monitor. \<exists>n cm'.
     jiffies_run [1500, 1200, 9000] (cm\<lparr>cm_passage := Some \<lparr>pa_operation = 5, pa_params = (\<lambda>_. 0)\<rparr>,
       cm_timestamp := 1000, cm_timestamp_freq := 3579545, cm_timestamp_reminder := 7\<rparr>) = Some (n, cm') \<and>
     n * 3579545 + unat (cm_timestamp_reminder cm') = 800007"
proof
  fix cm :: "unit co_monitor"
  let ?cm = "cm\<lparr>cm_passage := Some \<lparr>pa_operation = 5, pa_params = (\<lambda>_. 0)\<rparr>,
       cm_timestamp := 1000, cm_timestamp_freq := 3579545, cm_timestamp_reminder := 7\<rparr>"
  have "cm_passage ?cm \<noteq> None" "cm_timestamp_freq ?cm = ucast (3579545 :: u32)" "0 < (3579545 :: u32)"
    "cm_timestamp_reminder ?cm < ucast (3579545 :: u32)"
    "\<forall>now \<in> set [1500, 1200, 9000]. 100 * unat (now :: u64) \<le> unat (3579545 :: u32) * (2 ^ 32 - 1)" by simp_all
  from jiffies_run_exact [OF this] show "\<exists>n cm'. jiffies_run [1500, 1200, 9000] ?cm = Some (n, cm') \<and>
     n * 3579545 + unat (cm_timestamp_reminder cm') = 800007" by (auto simp: max_def)
qed

section \<open>The end of the guest\<close>

text \<open>A string among the parameters, from the byte \<open>k\<close> after parameter \<open>i\<close>. The parameters lie in a page: a string
  that does not end within its bytes is read on beyond it.\<close>

abbreviation params_page :: nat where "params_page \<equiv> 4096"

fun params_string :: "nat \<Rightarrow> params \<Rightarrow> nat \<Rightarrow> nat \<Rightarrow> string option" where
  "params_string 0 ps i k = None"
| "params_string (Suc n) ps i k =
     (let b = params_byte ps i k
      in if b = 0 then Some [] else do { s \<leftarrow> params_string n ps i (k + 1); Some (char_of (unat b) # s) })"

abbreviation sizeof_bug_text :: nat where "sizeof_bug_text \<equiv> 128"

text \<open>The text of a panic is cut to the buffer; of the name of a file the end is kept.\<close>

definition panic_text :: "params \<Rightarrow> u8 list \<Rightarrow> u8 list" where
  "panic_text ps text =
     (let len = (if unat (ps 3) \<ge> sizeof_bug_text - 1 then sizeof_bug_text - 1 else unat (ps 3))
      in overwrite 0 (map (params_byte ps 4) [0..<len] @ [0]) text)"

definition bug_file :: "params \<Rightarrow> u8 list \<Rightarrow> u8 list option" where
  "bug_file ps text =
     (let len = unat (ps 3)
      in if len < sizeof_bug_text - 1 then Some (overwrite 0 (map (params_byte ps 4) [0..<len] @ [0]) text)
         else if len \<ge> params_page then None
         else do {
           s \<leftarrow> params_string (params_page - len) ps 4 (len - sizeof_bug_text + 4);
           (n, out) \<leftarrow> co_snprintf sizeof_bug_text (int sizeof_bug_text) ''...%s'' [VStr (Some s)];
           Some (overwrite 0 (map of_char out) text) })"

definition co_terminate :: "'w co_monitor \<Rightarrow> (bool \<times> 'w co_monitor) option" where
  "co_terminate cm = do {
     pa \<leftarrow> cm_passage cm;
     let ps = pa_params pa;
     let reason = ps 0;
     let info = cm_bug_info cm;
     let cm = cm\<lparr>cm_timer_active := False, cm_termination_reason := reason\<rparr>;
     info \<leftarrow>
       (if reason = CO_TERMINATE_PANIC then Some (info\<lparr>bug_text := panic_text ps (bug_text info)\<rparr>)
        else if reason = CO_TERMINATE_BUG then do {
          text \<leftarrow> bug_file ps (bug_text info);
          Some (info\<lparr>bug_code := ps 1, bug_line := ps 2, bug_text := text\<rparr>) }
        else Some info);
     Some (False, cm\<lparr>cm_bug_info := info, cm_state := CO_MONITOR_STATE_TERMINATED\<rparr>) }"

section \<open>Pages\<close>

fun free_pages :: "nat \<Rightarrow> u32 \<Rightarrow> vm \<Rightarrow> vm option" where
  "free_pages 0 address m = Some m"
| "free_pages (Suc n) address m = do {
     (rc, m) \<leftarrow> co_monitor_free_and_unmap_page m address;
     free_pages n (address + CO_ARCH_PAGE_SIZE) m }"

definition co_free_pages :: "u32 \<Rightarrow> u32 \<Rightarrow> vm \<Rightarrow> vm option" where
  "co_free_pages address num_pages m = free_pages (nat (sint num_pages)) address m"

text \<open>\<open>i\<close> pages from \<open>address\<close> on are done, \<open>n\<close> are left. When one fails, the pages before it are freed.\<close>

fun alloc_pages :: "nat \<Rightarrow> nat \<Rightarrow> u32 \<Rightarrow> vm \<Rightarrow> (co_rc \<times> vm) option" where
  "alloc_pages 0 i address m = Some (RC_OK, m)"
| "alloc_pages (Suc n) i address m = do {
     (rc, m) \<leftarrow> co_monitor_alloc_and_map_page m (address + of_nat i * CO_ARCH_PAGE_SIZE);
     if rc_ok rc then alloc_pages n (i + 1) address m
     else do { m \<leftarrow> free_pages i address m; Some (rc, m) } }"

definition co_alloc_pages :: "u32 \<Rightarrow> u32 \<Rightarrow> vm \<Rightarrow> (co_rc \<times> vm) option" where
  "co_alloc_pages address num_pages m = alloc_pages (nat (sint num_pages)) 0 address m"

text \<open>\<open>co_monitor_getpp\<close>: the physical addresses of the host's pages from \<open>buffer\<close> on, stored at the guest's address
  \<open>vaddr\<close>, \<open>bytes\<close> bytes of them. The answer is the result for the guest.\<close>

fun getpp_words :: "nat \<Rightarrow> (u32 \<Rightarrow> u32) \<Rightarrow> u32 \<Rightarrow> nat \<Rightarrow> page \<Rightarrow> page \<times> u32" where
  "getpp_words 0 v2p buf off pg = (pg, buf)"
| "getpp_words (Suc n) v2p buf off pg = getpp_words n v2p (buf + CO_ARCH_PAGE_SIZE) (off + 4) (write_u32 off (v2p buf) pg)"

function getpp_loop :: "(u32 \<Rightarrow> u32) \<Rightarrow> u32 \<Rightarrow> u32 \<Rightarrow> nat \<Rightarrow> vm \<Rightarrow> (u32 \<times> vm) option" where
  "getpp_loop v2p vaddr buf bytes m =
     (if bytes = 0 then Some (0, m)
      else case co_monitor_get_pfn m vaddr of
          Inl rc \<Rightarrow> Some (1, m)
        | Inr p \<Rightarrow>
            let len = min bytes (unat (page_rest vaddr)); off = page_offset vaddr; words = (len + 3) div 4
            in (case phys m p of
                  None \<Rightarrow> None
                | Some pg \<Rightarrow>
                    if off + 4 * words > 4096 then None
                    else let (pg, buf) = getpp_words words v2p buf off (put_bytes off (replicate len 0) pg)
                         in getpp_loop v2p (vaddr + of_nat len) buf (bytes - len) (m\<lparr>phys := (phys m)(p \<mapsto> pg)\<rparr>)))"
  by pat_completeness auto
termination
proof (relation "measure (\<lambda>(f, v, b, bytes, m). bytes)", simp)
  fix f :: "u32 \<Rightarrow> u32" and v b :: u32 and bytes :: nat and m p l x pg pg' b' and q :: "page \<times> u32"
  assume "bytes \<noteq> 0" "l = min bytes (unat (page_rest v))"
  then show "((f, v + of_nat l, b', bytes - l, m\<lparr>phys := (phys m)(p \<mapsto> pg')\<rparr>), f, v, b, bytes, m)
      \<in> measure (\<lambda>(f, v, b, bytes, m). bytes)"
    using page_rest_pos [of v] by (auto simp: unat_gt_0)
qed

declare getpp_loop.simps [simp del]

definition co_monitor_getpp :: "(u32 \<Rightarrow> u32) \<Rightarrow> u32 \<Rightarrow> u32 \<Rightarrow> u32 \<Rightarrow> vm \<Rightarrow> (u32 \<times> vm) option" where
  "co_monitor_getpp v2p pp_buffer host_buffer host_buffer_size m =
     getpp_loop v2p pp_buffer host_buffer (nat (sint (signed_drop_bit 10 host_buffer_size))) m"

section \<open>Messages of the guest\<close>

text \<open>A console message as the guest lays it out: the operation and 16-bit fields.\<close>

definition u16_at :: "u8 list \<Rightarrow> nat \<Rightarrow> u16" where
  "u16_at bs k = ucast (bs ! k) OR push_bit 8 (ucast (bs ! (k + 1)))"

definition console_cursor :: "u8 list \<Rightarrow> co_cursor_pos" where
  "console_cursor bs = \<lparr>cur_x = u16_at bs 4, cur_y = u16_at bs 6, cur_height = u16_at bs 8\<rparr>"

definition console_cells :: "u8 list \<Rightarrow> cell list" where
  "console_cells bs = map (\<lambda>i. u16_at bs (10 + 2 * i)) [0..<(length bs - 10) div 2]"

definition console_message :: "u8 list \<Rightarrow> co_console_message option" where
  "console_message bs =
     (let f = (\<lambda>i. u16_at bs (4 + 2 * i)); op = le_u32 bs 0 in
      if length bs < 16 then None
      else Some (if op = 0 then CONSOLE_STARTUP
        else if op = 3 then CONSOLE_CLEAR (f 0) (f 1) (f 2) (f 3) (f 4)
        else if op = 4 then CONSOLE_PUTC (f 0) (f 1) (f 2)
        else if op = 5 then CONSOLE_PUTCS (f 0) (f 1) (f 2) (console_cells bs)
        else if op = 6 then CONSOLE_CURSOR_DRAW (console_cursor bs)
        else if op = 7 then CONSOLE_CURSOR_ERASE (console_cursor bs)
        else if op = 8 then CONSOLE_CURSOR_MOVE (console_cursor bs)
        else if op = 9 then CONSOLE_SCROLL_UP (f 0) (f 1) (f 2) (f 3)
        else if op = 10 then CONSOLE_SCROLL_DOWN (f 0) (f 1) (f 2) (f 3)
        else if op = 11 then CONSOLE_BMOVE (f 0) (f 1) (f 2) (f 3) (f 4) (f 5)
        else if op = 12 then CONSOLE_SWITCH
        else if op = 21 then CONSOLE_INIT_SCROLLBUFFER (f 0) (f 1) (f 2) (console_cells bs)
        else CONSOLE_INIT))"

end
