(* ===== verification/CoMonitor.thy ===== *)
theory CoMonitor
  imports CoGuestCalls
begin

text \<open>
  The requests the guest makes to its devices through the passage page, and the iteration: one entry of the guest and
  the handling of what it asks for. Translated from \<open>device_request\<close>, \<open>incoming_message\<close>,
  \<open>co_monitor_message_from_user\<close>, \<open>iteration\<close> and \<open>run\<close> in \<open>src/colinux/kernel/monitor.c\<close>,
  \<open>co_host_switch_wrapper\<close> in \<open>src/colinux/arch/i386/passage.c\<close> and the parameters \<open>co_monitor_file_system\<close> reads and
  writes. What the guest does while it runs is the value \<open>guest_exit\<close>, a run of the monitor is over a list of them.
\<close>

section \<open>The host and the guest\<close>

record 'w mon_host =
  mh_scsi :: "'w scsi_host"
  mh_files :: "'w os_file_api"
  mh_virt_to_phys :: "u32 \<Rightarrow> u32"
  mh_passage_page :: u32
  mh_io_buffer :: u32
  mh_pid :: u32
  mh_cpu_khz :: u32
  mh_async :: bool

abbreviation mh_nt :: "'w mon_host \<Rightarrow> 'w nt_api" where "mh_nt h \<equiv> sh_nt (mh_scsi h)"

text \<open>What one entry of the guest leaves: the parameters and the message buffer, the guest's pages, and what the host
  answers until the next entry: the time stamps, whether the timer fired, the messages that were queued for the guest,
  whether the network took a message, whether memory was there, and the line and file of a return code.\<close>

record guest_exit =
  ge_now :: u64
  ge_vmxe :: bool
  ge_operation :: u32
  ge_params :: params
  ge_waiting :: u32
  ge_bytes :: "u8 list"
  ge_pages :: "pfn \<Rightarrow> page \<Rightarrow> page"
  ge_timer :: bool
  ge_arrived :: "CoManager.co_message list"
  ge_time :: u32
  ge_stamp :: u64
  ge_freq :: u64
  ge_to_adapter :: bool
  ge_dup :: co_rc
  ge_mallocs :: "bool \<times> bool"
  ge_dirent :: "u8 list"
  ge_place :: "int \<times> int"

section \<open>Messages\<close>

text \<open>A message for user space, and the shadow console for the operations of the guest; \<open>body\<close> is the memory from the
  message's data on. The answer to \<open>CONSOLE_STARTUP\<close> is written over the message.\<close>

definition console_answer :: "co_console_message \<Rightarrow> u8 list" where
  "console_answer msg =
     (case msg of
        CONSOLE_CONFIG rows cols attr \<Rightarrow> le_bytes 4 20 @ le_bytes 2 (ucast rows) @ le_bytes 2 (ucast cols) @ le_bytes 2 (ucast attr)
      | _ \<Rightarrow> [])"

definition monitor_incoming ::
    "u32 \<Rightarrow> bool \<Rightarrow> co_rc \<Rightarrow> CoManager.co_message \<Rightarrow> u8 list \<Rightarrow> 'w co_monitor \<Rightarrow> (u8 list \<times> 'w co_monitor) option" where
  "monitor_incoming pid to_adapter dup_rc msg body cm = do {
     mg \<leftarrow> incoming_message (co_manager_close 2 pid) to_adapter dup_rc (cm_self cm) msg (cm_manager cm);
     let cm = cm\<lparr>cm_manager := mg\<rparr>;
     if m_to msg = CO_MODULE_CONSOLE \<and> m_from msg = CO_MODULE_LINUX then do {
       op \<leftarrow> console_message body;
       (rc, con, op) \<leftarrow> co_console_op (cm_console cm) op;
       Some (console_answer op, cm\<lparr>cm_console := con\<rparr>) }
     else Some ([], cm) }"

text \<open>Messages for the guest; \<open>dup_rc\<close> is whether the message could be copied.\<close>

definition co_monitor_message_from_user :: "co_rc \<Rightarrow> CoManager.co_message \<Rightarrow> 'w co_monitor \<Rightarrow> co_rc \<times> 'w co_monitor" where
  "co_monitor_message_from_user dup_rc msg cm =
     (if m_to msg = CO_MODULE_LINUX
      then (dup_rc, if rc_ok dup_rc then cm\<lparr>cm_queue := msg # cm_queue cm\<rparr> else cm)
      else (RC_ERROR, cm))"

definition message_to_monitor :: "'w mon_host \<Rightarrow> guest_exit \<Rightarrow> 'w co_monitor \<Rightarrow> 'w co_monitor option" where
  "message_to_monitor h g cm =
     (let bs = io_bytes (cm_io_buffer cm);
          msg = \<lparr>m_from = le_u32 bs 0, m_to = le_u32 bs 4, m_priority = le_u32 bs 8, m_type = le_u32 bs 12,
                 m_data = take (unat (le_u32 bs 16)) (drop sizeof_message bs)\<rparr>
      in if length bs < sizeof_message \<or> length bs < sizeof_message + unat (le_u32 bs 16) then None
         else do {
           (answer, cm) \<leftarrow>
             (if m_to msg < of_nat CO_MONITOR_MODULES_COUNT
              then monitor_incoming (mh_pid h) (ge_to_adapter g) (ge_dup g) msg (drop sizeof_message bs) cm
              else Some ([], cm));
           Some (cm\<lparr>cm_io_buffer := \<lparr>messages_waiting = 0, io_bytes = overwrite sizeof_message answer bs\<rparr>\<rparr>) })"

section \<open>Devices\<close>

abbreviation CO_DEVICE_BLOCK :: u32 where "CO_DEVICE_BLOCK \<equiv> 0"
abbreviation CO_DEVICE_FILESYSTEM :: u32 where "CO_DEVICE_FILESYSTEM \<equiv> 7"
abbreviation CO_DEVICE_VIDEO :: u32 where "CO_DEVICE_VIDEO \<equiv> 10"
abbreviation CO_DEVICE_PCI :: u32 where "CO_DEVICE_PCI \<equiv> 12"

definition params_u64 :: "params \<Rightarrow> nat \<Rightarrow> u64" where
  "params_u64 ps i = ucast (ps i) OR push_bit 32 (ucast (ps (i + 1)))"

definition u64_words :: "u64 \<Rightarrow> u32 list" where
  "u64_words w = [ucast w, ucast (drop_bit 32 w)]"

text \<open>A block request lies from parameter 2 on: the type, the result, and the fields or the alias.\<close>

definition block_request_type :: "u32 \<Rightarrow> co_block_request_type" where
  "block_request_type t =
     (if t = 0 then CO_BLOCK_OPEN else if t = 1 then CO_BLOCK_STAT else if t = 2 then CO_BLOCK_READ
      else if t = 3 then CO_BLOCK_WRITE else if t = 4 then CO_BLOCK_CLOSE else if t = 5 then CO_BLOCK_GET_ALIAS
      else CO_BLOCK_UNKNOWN)"

definition block_request_of :: "params \<Rightarrow> co_block_request" where
  "block_request_of ps =
     \<lparr>req_type = block_request_type (ps 2), req_rc = sint (ps 3), req_offset = params_u64 ps 4, req_size = params_u64 ps 6,
      req_disk_size = params_u64 ps 8, req_address = ps 10, req_irq = ps 11, req_async = (ps 12 \<noteq> 0), req_alias = []\<rparr>"

text \<open>Bytes written into the parameters from \<open>i\<close> on, the rest of the last one kept.\<close>

fun write_param_bytes :: "nat \<Rightarrow> nat \<Rightarrow> u8 list \<Rightarrow> params \<Rightarrow> params" where
  "write_param_bytes i k [] ps = ps"
| "write_param_bytes i k (b # bs) ps =
     (let j = i + k div 4; s = 8 * (k mod 4)
      in write_param_bytes i (k + 1) bs (ps(j := (ps j AND NOT (push_bit s 0xFF)) OR push_bit s (ucast b))))"

definition block_request_to :: "co_block_request \<Rightarrow> params \<Rightarrow> params" where
  "block_request_to r ps =
     (let ps = ps(3 := word_of_int (req_rc r))
      in case req_type r of
           CO_BLOCK_GET_ALIAS \<Rightarrow> write_param_bytes 4 0 (map of_char (req_alias r)) ps
         | CO_BLOCK_STAT \<Rightarrow> write_params 8 (u64_words (req_disk_size r)) ps
         | CO_BLOCK_READ \<Rightarrow> (if req_async r then ps(12 := 1) else ps)
         | CO_BLOCK_WRITE \<Rightarrow> (if req_async r then ps(12 := 1) else ps)
         | _ \<Rightarrow> ps)"

definition block_device_request :: "'w mon_host \<Rightarrow> params \<Rightarrow> 'w co_monitor \<Rightarrow> (params \<times> 'w co_monitor) option" where
  "block_device_request h ps cm = do {
     let s = \<lparr>bh_vm = cm_vm cm, bh_world = cm_world cm, bh_pending = cm_block_pending cm, bh_sent = []\<rparr>;
     (s, devs, r) \<leftarrow> co_monitor_block_request (co_monitor_file_block_service (mh_nt h)) s (cm_block_devs cm) (ps 1) (block_request_of ps);
     Some (block_request_to r ps,
       cm\<lparr>cm_vm := bh_vm s, cm_world := bh_world s, cm_block_pending := bh_pending s, cm_block_devs := devs\<rparr>) }"

text \<open>The parameters of a file system request: the names from parameter 30 on.\<close>

definition fuse_name :: "params \<Rightarrow> string option" where
  "fuse_name ps = params_string (params_page - 120) ps 30 0"

definition fuse_attr_of :: "params \<Rightarrow> nat \<Rightarrow> fuse_attr" where
  "fuse_attr_of ps i = \<lparr>fa_size = params_u64 ps i, fa_mode = ps (i + 2), fa_nlink = ps (i + 3), fa_uid = ps (i + 4),
     fa_gid = ps (i + 5), fa_rdev = ps (i + 6), fa_dummy = ps (i + 7), fa_blocks = ps (i + 8), fa_atime = ps (i + 9),
     fa_mtime = ps (i + 10), fa_ctime = ps (i + 11)\<rparr>"

definition fuse_attr_words :: "fuse_attr \<Rightarrow> u32 list" where
  "fuse_attr_words a = u64_words (fa_size a) @ [fa_mode a, fa_nlink a, fa_uid a, fa_gid a, fa_rdev a, fa_dummy a,
     fa_blocks a, fa_atime a, fa_mtime a, fa_ctime a]"

definition fuse_request_of :: "params \<Rightarrow> fuse_request option" where
  "fuse_request_of ps =
     (let op = ps 2 in
      if op = 25 then do { s \<leftarrow> fuse_name ps; Some (FUSE_MOUNT s (ps 5) (ps 6) (ps 7) (ps 8) (ps 9)) }
      else if op = 17 then Some FUSE_STATFS
      else if op = 4 then Some (FUSE_SETATTR (ps 5) (fuse_attr_of ps 6))
      else if op = 12 then do {
        old \<leftarrow> fuse_name ps;
        new \<leftarrow> params_string (params_page - 120 - (length old + 1)) ps 30 (length old + 1);
        Some (FUSE_RENAME (sint (ps 5)) old new) }
      else if op = 2 then Some FUSE_FORGET
      else if op = 8 then do { s \<leftarrow> fuse_name ps; Some (FUSE_MKNOD (ps 5) (ps 6) s) }
      else if op = 9 then do { s \<leftarrow> fuse_name ps; Some (FUSE_MKDIR (ps 5) s) }
      else if op = 10 then do { s \<leftarrow> fuse_name ps; Some (FUSE_UNLINK s) }
      else if op = 11 then do { s \<leftarrow> fuse_name ps; Some (FUSE_RMDIR s) }
      else if op = 16 then Some (FUSE_WRITE (params_u64 ps 5) (ps 7) (ps 8))
      else if op = 15 then Some (FUSE_READ (params_u64 ps 5) (ps 7) (ps 8))
      else if op = 14 then Some (FUSE_OPEN (ps 5))
      else if op = 1 then do { s \<leftarrow> fuse_name ps; Some (FUSE_LOOKUP s) }
      else if op = 3 then Some FUSE_GETATTR
      else if op = 22 then Some FUSE_DIR_OPEN
      else if op = 23 then Some (FUSE_DIR_READ (ps 6) (unat (ps 5)) (unat (ps 8)))
      else if op = 24 then Some FUSE_DIR_RELEASE
      else Some FUSE_OTHER)"

definition fuse_reply_to :: "fuse_reply \<Rightarrow> params \<Rightarrow> params" where
  "fuse_reply_to reply ps =
     (let put = (\<lambda>i a ps. case a of None \<Rightarrow> ps | Some ws \<Rightarrow> write_params i ws ps);
          words = map_option fuse_attr_words; num = map_option (\<lambda>n. [word_of_int n :: u32])
      in case reply of
           NoReply \<Rightarrow> ps
         | Attr a \<Rightarrow> put 5 (words a) ps
         | AttrIno a ino \<Rightarrow> if ps 2 = 8 then put 7 (num ino) (put 8 (words a) ps) else put 17 (num ino) (put 5 (words a) ps)
         | Stat ws \<Rightarrow> write_params 5 ws ps
         | Filled n \<Rightarrow> put 7 (map_option (\<lambda>n. [word_of_nat n]) n) ps)"

text \<open>The unit is not compared with the number of file systems; one beyond reads past the table.\<close>

definition filesystem_request :: "'w mon_host \<Rightarrow> u8 list \<Rightarrow> params \<Rightarrow> 'w co_monitor \<Rightarrow> (params \<times> 'w co_monitor) option" where
  "filesystem_request h dirent ps cm = do {
     (if ps 1 \<ge> 32 then None else Some ());
     r \<leftarrow> fuse_request_of ps;
     let s = map_option (\<lambda>fs. \<lparr>st_fs = fs, st_vm = cm_vm cm, st_world = cm_world cm\<rparr>) (cm_filesystems cm (ps 1));
     (result, reply, s) \<leftarrow> co_monitor_file_system (mh_files h) dirent (sint (ps 3)) r s;
     let cm = (case s of None \<Rightarrow> cm
       | Some s \<Rightarrow> cm\<lparr>cm_vm := st_vm s, cm_world := st_world s, cm_filesystems := (cm_filesystems cm)(ps 1 \<mapsto> st_fs s)\<rparr>);
     Some ((fuse_reply_to reply ps)(4 := word_of_int result), cm) }"

definition scsi_state_of :: "'w co_monitor \<Rightarrow> 'w scsi_state" where
  "scsi_state_of cm = \<lparr>ss_devs = cm_scsi_devs cm, ss_queue = cm_scsi_queue cm, ss_next = cm_scsi_next cm,
     ss_work = cm_scsi_work cm, ss_vm = cm_vm cm, ss_world = cm_world cm, ss_sent = []\<rparr>"

definition scsi_state_to :: "'w scsi_state \<Rightarrow> 'w co_monitor \<Rightarrow> 'w co_monitor" where
  "scsi_state_to s cm = cm\<lparr>cm_scsi_devs := ss_devs s, cm_scsi_queue := ss_queue s, cm_scsi_next := ss_next s,
     cm_scsi_work := ss_work s, cm_vm := ss_vm s, cm_world := ss_world s\<rparr>"

definition scsi_device_request :: "'w mon_host \<Rightarrow> params \<Rightarrow> 'w co_monitor \<Rightarrow> (params \<times> 'w co_monitor) option" where
  "scsi_device_request h ps cm = do {
     (ps, s) \<leftarrow> co_scsi_request (mh_scsi h) (ps 1) (sint (ps 2)) ps (scsi_state_of cm);
     Some (ps, scsi_state_to s cm) }"

text \<open>The network request lies from parameter 1 on.\<close>

definition network_request :: "co_netdev_desc list \<Rightarrow> params \<Rightarrow> params option" where
  "network_request nets ps = do {
     qs \<leftarrow> device_request_network nets (\<lambda>i. ps (i + 1));
     Some (\<lambda>i. if i = 0 then ps 0 else qs (i - 1)) }"

definition device_request :: "'w mon_host \<Rightarrow> guest_exit \<Rightarrow> params \<Rightarrow> 'w co_monitor \<Rightarrow> (params \<times> 'w co_monitor) option" where
  "device_request h g ps cm =
     (let device = ps 0 in
      if device = CO_DEVICE_BLOCK then block_device_request h ps cm
      else if device = ucast CO_DEVICE_NETWORK then do { ps \<leftarrow> network_request (cf_net_devs (cm_config cm)) ps; Some (ps, cm) }
      else if device = CO_DEVICE_FILESYSTEM then filesystem_request h (ge_dirent g) ps cm
      else if device = CO_DEVICE_PCI then Some (co_pci_request (cf_pci (cm_config cm)) (ps 1) ps, cm)
      else if device = ucast CO_DEVICE_SCSI then scsi_device_request h ps cm
      else if device = CO_DEVICE_VIDEO then do {
        (ps, devs) \<leftarrow> co_video_request (fst (ge_mallocs g)) (snd (ge_mallocs g)) (ps 1) (sint (ps 2)) ps (cm_video_devs cm);
        Some (ps, cm\<lparr>cm_video_devs := devs\<rparr>) }
      else Some (ps, cm))"

section \<open>One iteration\<close>

text \<open>The guest runs: another hypervisor that owns the processor ends it before it starts.\<close>

definition co_host_switch_wrapper :: "guest_exit \<Rightarrow> 'w co_monitor \<Rightarrow> 'w co_monitor option" where
  "co_host_switch_wrapper g cm =
     (if ge_vmxe g
      then update_passage (\<lambda>pa. pa\<lparr>pa_operation := CO_OPERATION_TERMINATE, pa_params := (pa_params pa)(0 := CO_TERMINATE_VMXE)\<rparr>) cm
      else do {
        cm \<leftarrow> update_passage (\<lambda>pa. \<lparr>pa_operation = ge_operation g, pa_params = ge_params g\<rparr>) cm;
        let m = cm_vm cm;
        Some (cm\<lparr>cm_vm := m\<lparr>phys := (\<lambda>p. map_option (ge_pages g p) (phys m p))\<rparr>,
                cm_io_buffer := \<lparr>messages_waiting = ge_waiting g, io_bytes = ge_bytes g\<rparr>\<rparr>) })"

text \<open>What others do meanwhile: the timer and messages for the guest.\<close>

definition host_events :: "guest_exit \<Rightarrow> 'w co_monitor \<Rightarrow> 'w co_monitor" where
  "host_events g cm = cm\<lparr>cm_timer_interrupt := cm_timer_interrupt cm \<or> ge_timer g, cm_queue := rev (ge_arrived g) @ cm_queue cm\<rparr>"

definition co_idle :: "'w co_monitor \<Rightarrow> bool" where
  "co_idle cm \<longleftrightarrow> cm_queue cm \<noteq> []"

text \<open>The answer is whether the driver goes back to the guest without returning to user space.\<close>

definition handle_operation :: "'w mon_host \<Rightarrow> guest_exit \<Rightarrow> u32 \<Rightarrow> params \<Rightarrow> 'w co_monitor \<Rightarrow> (bool \<times> 'w co_monitor) option" where
  "handle_operation h g op ps cm =
     (if op = CO_OPERATION_FREE_PAGES then do {
        m \<leftarrow> co_free_pages (ps 0) (ps 1) (cm_vm cm);
        Some (True, cm\<lparr>cm_vm := m\<rparr>) }
      else if op = CO_OPERATION_ALLOC_PAGES then do {
        (rc, m) \<leftarrow> co_alloc_pages (ps 0) (ps 1) (cm_vm cm);
        cm \<leftarrow> set_param 4 (CO_RC rc (fst (ge_place g)) (snd (ge_place g))) (cm\<lparr>cm_vm := m\<rparr>);
        Some (True, cm) }
      else if op = CO_OPERATION_FORWARD_INTERRUPT then
        (if cm_timer_interrupt cm then Some (False, cm\<lparr>cm_timer_interrupt := False\<rparr>) else Some (True, cm))
      else if op = CO_OPERATION_TERMINATE then co_terminate cm
      else if op = CO_OPERATION_IDLE then Some (co_idle cm, cm)
      else if op = CO_OPERATION_GETPP then do {
        (result, m) \<leftarrow> co_monitor_getpp (mh_virt_to_phys h) (ps 0) (ps 1) (ps 2) (cm_vm cm);
        cm \<leftarrow> set_param 0 result (cm\<lparr>cm_vm := m\<rparr>);
        Some (True, cm) }
      else if op = CO_OPERATION_MESSAGE_TO_MONITOR then do { cm \<leftarrow> message_to_monitor h g cm; Some (True, cm) }
      else if op = CO_OPERATION_DEVICE then do {
        (ps, cm) \<leftarrow> device_request h g ps cm;
        cm \<leftarrow> update_passage (\<lambda>pa. pa\<lparr>pa_params := ps\<rparr>) cm;
        Some (True, cm) }
      else if op = CO_OPERATION_GET_TIME then do { cm \<leftarrow> set_param 0 (ge_time g) cm; Some (True, cm) }
      else if op = CO_OPERATION_GET_HIGH_PREC_TIME then do {
        cm \<leftarrow> update_passage (\<lambda>pa. pa\<lparr>pa_params := write_params 0 (u64_words (ge_stamp g) @ u64_words (ge_freq g)) (pa_params pa)\<rparr>) cm;
        Some (True, cm) }
      else if op = CO_OPERATION_DEBUG_LINE \<or> op = CO_OPERATION_TRACE_POINT then Some (True, cm)
      else Some (False, cm))"

definition iteration :: "'w mon_host \<Rightarrow> guest_exit \<Rightarrow> 'w co_monitor \<Rightarrow> (bool \<times> 'w co_monitor) option" where
  "iteration h g cm = do {
     pa \<leftarrow> cm_passage cm;
     cm \<leftarrow> (if pa_operation pa = CO_OPERATION_FORWARD_INTERRUPT \<or> pa_operation pa = CO_OPERATION_IDLE
           then callback_return (ge_now g) cm else Some cm);
     cm \<leftarrow> co_host_switch_wrapper g cm;
     pa \<leftarrow> cm_passage cm;
     handle_operation h g (pa_operation pa) (pa_params pa) (host_events g cm) }"

text \<open>\<open>run\<close> over what the guest does at each entry; \<open>None\<close> for a list that ends before the driver returns.\<close>

fun run_loop :: "'w mon_host \<Rightarrow> guest_exit list \<Rightarrow> 'w co_monitor \<Rightarrow> 'w co_monitor option" where
  "run_loop h [] cm = None"
| "run_loop h (g # gs) cm = do {
     (again, cm) \<leftarrow> iteration h g cm;
     if again then run_loop h gs cm else Some cm }"

definition run :: "'w mon_host \<Rightarrow> guest_exit list \<Rightarrow> 'w co_monitor \<Rightarrow> (co_rc \<times> 'w co_monitor) option" where
  "run h gs cm =
     (if cm_state cm = CO_MONITOR_STATE_RUNNING then do { cm \<leftarrow> run_loop h gs cm; Some (RC_OK, cm) }
      else if cm_state cm = CO_MONITOR_STATE_STARTED then
        (case gs of
           [] \<Rightarrow> None
         | g # gs \<Rightarrow> do {
             (again, cm) \<leftarrow> iteration h g (cm\<lparr>cm_state := CO_MONITOR_STATE_RUNNING\<rparr>);
             Some (RC_OK, cm) })
      else if cm_state cm = CO_MONITOR_STATE_TERMINATED then Some (RC_INSTANCE_TERMINATED, cm)
      else Some (RC_ERROR, cm))"

end
