(* ===== verification/CoLifecycle.thy ===== *)
theory CoLifecycle
  imports CoMonitor
begin

text \<open>
  The life of a monitor: its creation, the loading of the guest's kernel, the start, the run, the reset and the requests
  of the user. Translated from \<open>src/colinux/kernel/monitor.c\<close> (\<open>guest_address_space_init\<close>, \<open>load_configuration\<close>,
  \<open>alloc_pp_ram_mapping\<close>, \<open>free_pseudo_physical_memory\<close>, \<open>load_section\<close>, \<open>load_initrd\<close>, \<open>start\<close>,
  \<open>co_monitor_create\<close>, \<open>co_monitor_user_reset\<close>, \<open>co_monitor_user_get_state\<close>, \<open>co_monitor_user_get_console\<close>,
  \<open>co_monitor_ioctl\<close>) and the allocation of the passage page in \<open>src/colinux/arch/i386/passage.c\<close>. What the host
  answers to allocations are arguments or lists in the state; the use of memory that was never set up is \<open>None\<close>.
\<close>

abbreviation PGDIR_SHIFT :: nat where "PGDIR_SHIFT \<equiv> 22"
abbreviation CO_ARCH_PMD_SHIFT :: nat where "CO_ARCH_PMD_SHIFT \<equiv> 22"
abbreviation CO_VPTR_PASSAGE_PAGE :: u32 where "CO_VPTR_PASSAGE_PAGE \<equiv> CO_VPTR_BASE - 0x1101000"
abbreviation CO_VPTR_IO_AREA_START :: u32 where "CO_VPTR_IO_AREA_START \<equiv> CO_VPTR_BASE - 0x1200000"
abbreviation CO_VPTR_SELF_MAP :: u32 where "CO_VPTR_SELF_MAP \<equiv> CO_VPTR_BASE - 0x1400000"

section \<open>Memory of the guest\<close>

definition rc_then :: "(co_rc \<times> vm) option \<Rightarrow> (vm \<Rightarrow> (co_rc \<times> vm) option) \<Rightarrow> (co_rc \<times> vm) option" where
  "rc_then x f = do { (rc, m) \<leftarrow> x; if rc_ok rc then f m else Some (rc, m) }"

text \<open>The frames in a table, and in all tables.\<close>

definition table_pfns :: "(u32 \<Rightarrow> pfn) \<Rightarrow> pfn list" where
  "table_pfns table = map (\<lambda>j. table (of_nat j)) [0..<unat PTRS_PER_PTE]"

definition pp_frames :: "vm \<Rightarrow> pfn list" where
  "pp_frames m = concat (map (\<lambda>i. case pp_pfns m (of_nat i) of None \<Rightarrow> [] | Some table \<Rightarrow> filter (\<lambda>p. p \<noteq> 0) (table_pfns table))
     [0..<unat PTRS_PER_PGD])"

definition free_pseudo_physical_memory :: "'w co_monitor \<Rightarrow> 'w co_monitor option" where
  "free_pseudo_physical_memory cm =
     (if \<not> cm_pp cm then Some cm
      else do {
        m \<leftarrow> put_pages (pp_frames (cm_vm cm)) (cm_vm cm);
        Some (cm\<lparr>cm_vm := m\<lparr>pp_pfns := Map.empty\<rparr>, cm_pp := False\<rparr>) })"

definition alloc_pp_ram_mapping :: "'w co_monitor \<Rightarrow> (co_rc \<times> 'w co_monitor) option" where
  "alloc_pp_ram_mapping cm =
     (let (ok, m) = co_monitor_malloc (cm_vm cm) in
      if \<not> ok then Some (RC_OUT_OF_MEMORY, cm\<lparr>cm_vm := m\<rparr>)
      else
        let full = CO_ARCH_PAGE_SIZE * drop_bit CO_ARCH_PMD_SHIFT (cm_memory_size cm);
            partial = 4 * drop_bit CO_ARCH_PAGE_SHIFT (cm_memory_size cm AND mask CO_ARCH_PMD_SHIFT)
        in do {
          (rc, m) \<leftarrow> rc_then (co_monitor_scan_and_create_pfns (m\<lparr>pp_pfns := Map.empty\<rparr>) CO_VPTR_PSEUDO_RAM_PAGE_TABLES full)
            (\<lambda>m. if partial \<noteq> 0 then co_monitor_scan_and_create_pfns m (CO_VPTR_PSEUDO_RAM_PAGE_TABLES + full) partial
                 else Some (RC_OK, m));
          let cm = cm\<lparr>cm_vm := m, cm_pp := True\<rparr>;
          if rc_ok rc then Some (rc, cm)
          else do { cm \<leftarrow> free_pseudo_physical_memory cm; Some (rc, cm) } })"

section \<open>The guest's address space\<close>

text \<open>The allocation of the passage page: the answers to its steps, then what its initialisation answers.\<close>

record passage_answers =
  pn_archdep :: bool
  pn_pages :: bool
  pn_anti_nx :: co_rc
  pn_init :: co_rc

definition co_monitor_arch_passage_page_alloc :: "passage_answers \<Rightarrow> 'w co_monitor \<Rightarrow> co_rc \<times> 'w co_monitor" where
  "co_monitor_arch_passage_page_alloc a cm =
     (if \<not> pn_archdep a then (RC_OUT_OF_MEMORY, cm)
      else if \<not> pn_pages a then (RC_OUT_OF_MEMORY, cm\<lparr>cm_passage := None\<rparr>)
      else if \<not> rc_ok (pn_anti_nx a) then (pn_anti_nx a, cm\<lparr>cm_passage := None\<rparr>)
      else (RC_OK, cm\<lparr>cm_passage := Some \<lparr>pa_operation = 0, pa_params = (\<lambda>_. 0)\<rparr>\<rparr>))"

text \<open>Page table entries for the frames of a group. The code passes the table itself, which allocating the page at
  \<open>address\<close> may change first.\<close>

definition create_ptes_of_group :: "u32 \<Rightarrow> u32 \<Rightarrow> vm \<Rightarrow> (co_rc \<times> vm) option" where
  "create_ptes_of_group address grp m =
     rc_then (co_monitor_scan_and_create_pfns m address CO_ARCH_PAGE_SIZE)
       (\<lambda>m. do {
          table \<leftarrow> pp_pfns m grp;
          co_monitor_create_ptes m address CO_ARCH_PAGE_SIZE (table_pfns table) })"

fun map_io_pages :: "(u32 \<Rightarrow> u32) \<Rightarrow> nat \<Rightarrow> u32 \<Rightarrow> u32 \<Rightarrow> vm \<Rightarrow> (co_rc \<times> vm) option" where
  "map_io_pages v2p 0 offset address m = Some (RC_OK, m)"
| "map_io_pages v2p (Suc n) offset address m =
     rc_then (co_monitor_create_ptes m (CO_VPTR_SELF_MAP + offset) 4 [drop_bit CO_ARCH_PAGE_SHIFT (v2p address)])
       (map_io_pages v2p n (offset + 4) (address + CO_ARCH_PAGE_SIZE))"

text \<open>The offset of the entry for an address in the page table that covers it.\<close>

definition pte_offset :: "u32 \<Rightarrow> u32" where
  "pte_offset v = drop_bit CO_ARCH_PAGE_SHIFT (v AND mask PGDIR_SHIFT) * 4"

definition pgd_offset :: "u32 \<Rightarrow> u32" where
  "pgd_offset v = drop_bit PGDIR_SHIFT v * 4"

text \<open>The entries of the reversed map are copied; one that was never written is undefined.\<close>

definition map_address_space :: "'w mon_host \<Rightarrow> u32 \<Rightarrow> vm \<Rightarrow> (co_rc \<times> vm) option" where
  "map_address_space h pg_dir m =
     (let grp = drop_bit PGDIR_SHIFT CO_VPTR_PSEUDO_RAM_PAGE_TABLES in
      rc_then (create_ptes_of_group pg_dir grp m) (\<lambda>m.
      rc_then (do {
          pgds \<leftarrow> those (reversed_map_pgds m);
          co_monitor_copy_and_create_pfns m (pg_dir + pgd_offset CO_VPTR_PHYSICAL_TO_PSEUDO_PFN_MAP)
            (4 * reversed_map_pgds_count) (concat (map (le_bytes 4) pgds)) }) (\<lambda>m.
      rc_then (create_ptes_of_group CO_VPTR_SELF_MAP grp m) (\<lambda>m.
      (case co_monitor_get_pfn m CO_VPTR_SELF_MAP of
         Inl rc \<Rightarrow> Some (rc, m)
       | Inr self_map \<Rightarrow>
           rc_then (co_monitor_create_ptes m (pg_dir + pgd_offset CO_VPTR_SELF_MAP) 4 [self_map]) (\<lambda>m.
           rc_then (co_monitor_create_ptes m (CO_VPTR_SELF_MAP + pte_offset CO_VPTR_PASSAGE_PAGE) 4
               [drop_bit CO_ARCH_PAGE_SHIFT (mh_virt_to_phys h (mh_passage_page h))]) (\<lambda>m.
           rc_then (co_monitor_create_ptes m CO_VPTR_SELF_MAP 4 [self_map])
             (map_io_pages (mh_virt_to_phys h) (CO_VPTR_IO_AREA_SIZE div 4096) (pte_offset CO_VPTR_IO_AREA_START)
               (mh_io_buffer h)))))))))"

text \<open>When no table covers the page tables of the RAM, the code leaves with the result of the last call, \<open>OK\<close>.\<close>

definition guest_address_space_init ::
    "'w mon_host \<Rightarrow> passage_answers \<Rightarrow> 'w co_monitor \<Rightarrow> (co_rc \<times> 'w co_monitor) option" where
  "guest_address_space_init h a cm =
     (let pg_dir = kernel_swapper_pg_dir (cm_import cm) in
      case co_monitor_get_pfn (cm_vm cm) pg_dir of
        Inl rc \<Rightarrow> Some (rc, cm)
      | Inr p \<Rightarrow>
          let (rc, cm) = co_monitor_arch_passage_page_alloc a (cm\<lparr>cm_pgd := push_bit CO_ARCH_PAGE_SHIFT p\<rparr>)
          in if \<not> rc_ok rc then Some (rc, cm)
             else if \<not> rc_ok (pn_init a) then Some (pn_init a, cm)
             else if pp_pfns (cm_vm cm) (drop_bit PGDIR_SHIFT CO_VPTR_PSEUDO_RAM_PAGE_TABLES) = None then Some (RC_OK, cm)
             else do { (rc, m) \<leftarrow> map_address_space h pg_dir (cm_vm cm); Some (rc, cm\<lparr>cm_vm := m\<rparr>) })"

section \<open>Devices of the configuration\<close>

fun load_scsi :: "(bool \<times> co_scsi_dev) list \<Rightarrow> vm \<Rightarrow> co_rc \<times> co_scsi_dev option list \<times> vm" where
  "load_scsi [] m = (RC_OK, [], m)"
| "load_scsi ((enabled, conf) # cs) m =
     (if \<not> enabled then let (rc, ds, m) = load_scsi cs m in (rc, None # ds, m)
      else
        let (ok, m) = co_monitor_malloc m in
        if \<not> ok then (RC_OUT_OF_MEMORY, replicate (Suc (length cs)) None, m)
        else let (rc, ds, m) = load_scsi cs m in (rc, Some (conf\<lparr>sc_unit := 0, sc_handle := 0\<rparr>) # ds, m))"

fun load_blocks ::
    "bool \<Rightarrow> u32 \<Rightarrow> co_block_dev_desc list \<Rightarrow> (u32 \<Rightarrow> co_monitor_file_block_dev option) \<Rightarrow> vm \<Rightarrow>
     co_rc \<times> (u32 \<Rightarrow> co_monitor_file_block_dev option) \<times> vm" where
  "load_blocks async i [] devs m = (RC_OK, devs, m)"
| "load_blocks async i (conf # cs) devs m =
     (if \<not> bd_enabled conf then load_blocks async (i + 1) cs devs m
      else
        let (ok, m) = co_monitor_malloc m in
        if \<not> ok then (RC_OUT_OF_MEMORY, devs, m)
        else
          let (rc, dev) = co_monitor_file_block_init async (bd_pathname conf) in
          if rc_ok rc
          then load_blocks async (i + 1) cs (co_monitor_block_register_device devs i (dev\<lparr>dev_conf := Some conf\<rparr>)) m
          else (rc, devs, m))"

text \<open>\<open>as\<close> are the addresses the host gives for each file system.\<close>

fun load_cofs ::
    "iptr option list list \<Rightarrow> u32 \<Rightarrow> (bool \<times> string) list \<Rightarrow> filesystems \<Rightarrow> (co_rc \<times> filesystems) option" where
  "load_cofs as i [] fss = Some (RC_OK, fss)"
| "load_cofs as i ((enabled, path) # cs) fss =
     (if \<not> enabled then load_cofs as (i + 1) cs fss
      else case as of
          [] \<Rightarrow> Some (RC_OUT_OF_MEMORY, fss)
        | a # as \<Rightarrow> do {
            (rc, fs) \<leftarrow> co_monitor_file_system_init a path;
            if rc_ok rc then load_cofs as (i + 1) cs (fss(i := fs)) else Some (rc, fss) })"

text \<open>The memory of a video device is not set up: its fields are what was there, its buffer is no buffer.\<close>

fun load_video :: "co_video_dev \<Rightarrow> (bool \<times> co_video_dev) list \<Rightarrow> co_video_dev option list \<Rightarrow> vm \<Rightarrow> co_rc \<times> co_video_dev option list \<times> vm" where
  "load_video garbage ((enabled, conf) # cs) (old # ds) m =
     (if \<not> enabled then let (rc, ds, m) = load_video garbage cs ds m in (rc, old # ds, m)
      else
        let (ok, m) = co_monitor_malloc m in
        if \<not> ok then (RC_OUT_OF_MEMORY, old # ds, m)
        else let (rc, ds, m) = load_video garbage cs ds m in (rc, Some (garbage\<lparr>vd_buffer := None\<rparr>) # ds, m))"
| "load_video garbage cs ds m = (RC_OK, ds, m)"

text \<open>The error path frees the file systems, the block devices and the SCSI devices, from where the loading stopped
  on.\<close>

definition unregister_scsi_devices :: "'w mon_host \<Rightarrow> 'w co_monitor \<Rightarrow> 'w co_monitor" where
  "unregister_scsi_devices h cm =
     scsi_state_to (co_monitor_unregister_and_free_scsi_devices (mh_scsi h) (scsi_state_of cm)) cm"

definition unregister_block_devices :: "'w mon_host \<Rightarrow> 'w co_monitor \<Rightarrow> 'w co_monitor" where
  "unregister_block_devices h cm =
     (let (w, devs) = co_monitor_unregister_and_free_block_devices
            (\<lambda>w dev. snd (co_monitor_file_block_shutdown (mh_nt h) dev w)) (cm_world cm) (cm_block_devs cm)
      in cm\<lparr>cm_world := w, cm_block_devs := devs\<rparr>)"

definition unregister_filesystems :: "'w co_monitor \<Rightarrow> 'w co_monitor option" where
  "unregister_filesystems cm = do {
     fss \<leftarrow> co_monitor_unregister_filesystems (cm_filesystems cm);
     Some (cm\<lparr>cm_filesystems := fss\<rparr>) }"

definition load_configuration ::
    "'w mon_host \<Rightarrow> iptr option list list \<Rightarrow> co_video_dev \<Rightarrow> 'w co_monitor \<Rightarrow> (co_rc \<times> 'w co_monitor) option" where
  "load_configuration h as garbage cm =
     (let cf = cm_config cm; (rc, ds, m) = load_scsi (cf_scsi_devs cf) (cm_vm cm);
          cm = cm\<lparr>cm_scsi_devs := ds, cm_vm := m\<rparr>
      in if \<not> rc_ok rc then Some (rc, unregister_scsi_devices h cm)
         else
           let (rc, devs, m) = load_blocks (mh_async h) 0 (cf_block_devs cf) (cm_block_devs cm) (cm_vm cm);
               cm = cm\<lparr>cm_block_devs := devs, cm_vm := m\<rparr>
           in if \<not> rc_ok rc then Some (rc, unregister_scsi_devices h (unregister_block_devices h cm))
              else do {
                (rc, fss) \<leftarrow> load_cofs as 0 (cf_cofs_devs cf) (cm_filesystems cm);
                let cm = cm\<lparr>cm_filesystems := fss\<rparr>;
                let (rc, vds, m) = (if rc_ok rc then load_video garbage (cf_video_devs cf) (cm_video_devs cm) (cm_vm cm)
                  else (rc, cm_video_devs cm, cm_vm cm));
                let cm = cm\<lparr>cm_video_devs := vds, cm_vm := m\<rparr>;
                if \<not> rc_ok rc then do {
                  cm \<leftarrow> unregister_filesystems cm;
                  Some (rc, unregister_scsi_devices h (unregister_block_devices h cm)) }
                else
                  let (rc, s) = co_pci_setconfig (map (\<lambda>d. d \<noteq> None) (cm_scsi_devs cm)) (map nd_enabled (cf_net_devs cf)) (cf_pci cf)
                  in Some (rc, cm\<lparr>cm_config := cf\<lparr>cf_pci := s\<rparr>\<rparr>) })"

section \<open>Loading and starting the guest\<close>

definition load_section :: "u32 \<Rightarrow> u32 \<Rightarrow> u8 list option \<Rightarrow> 'w co_monitor \<Rightarrow> (co_rc \<times> 'w co_monitor) option" where
  "load_section address bytes data cm =
     (if cm_state cm \<noteq> CO_MONITOR_STATE_INITIALIZED then Some (RC_ERROR, cm)
      else do {
        (rc, m) \<leftarrow> co_monitor_copy_region (cm_vm cm) address bytes data;
        Some (rc, cm\<lparr>cm_vm := m\<rparr>) })"

definition load_initrd :: "u32 \<Rightarrow> u8 list \<Rightarrow> 'w co_monitor \<Rightarrow> (co_rc \<times> 'w co_monitor) option" where
  "load_initrd bytes data cm =
     (if cm_state cm \<noteq> CO_MONITOR_STATE_INITIALIZED then Some (RC_ERROR, cm)
      else
        let pages = drop_bit CO_ARCH_PAGE_SHIFT (bytes + CO_ARCH_PAGE_SIZE);
            address = CO_ARCH_KERNEL_OFFSET + cm_memory_size cm - push_bit CO_ARCH_PAGE_SHIFT pages
        in if address \<le> cm_core_end cm + 0x100000 then Some (RC_ERROR, cm)
           else do {
             (rc, m) \<leftarrow> co_monitor_copy_region (cm_vm cm) address bytes (Some data);
             let cm = cm\<lparr>cm_vm := m\<rparr>;
             Some (rc, if rc_ok rc then cm\<lparr>cm_initrd_address := address, cm_initrd_size := bytes\<rparr> else cm) })"

text \<open>The parameters of the boot: the layout of \<open>co_boot_params_t\<close>, with the boot line from parameter 10 on.\<close>

definition boot_params :: "'w mon_host \<Rightarrow> 'w co_monitor \<Rightarrow> params \<Rightarrow> params" where
  "boot_params h cm ps =
     write_param_bytes 10 0 (cf_boot_line (cm_config cm))
       (write_params 0 [cm_core_end cm, cm_memory_size cm, cm_initrd_address cm, cm_initrd_size cm, mh_cpu_khz h] ps)"

definition start :: "'w mon_host \<Rightarrow> passage_answers \<Rightarrow> u64 \<times> u64 \<Rightarrow> 'w co_monitor \<Rightarrow> (co_rc \<times> 'w co_monitor) option" where
  "start h a stamp cm =
     (if cm_state cm \<noteq> CO_MONITOR_STATE_INITIALIZED then Some (RC_ERROR, cm)
      else do {
        (rc, cm) \<leftarrow> guest_address_space_init h a cm;
        if \<not> rc_ok rc then Some (rc, cm)
        else do {
          let cm = cm\<lparr>cm_timestamp := fst stamp, cm_timestamp_freq := snd stamp, cm_timer_active := True\<rparr>;
          cm \<leftarrow> update_passage (\<lambda>pa. \<lparr>pa_operation = CO_OPERATION_START, pa_params = boot_params h cm (pa_params pa)\<rparr>) cm;
          Some (RC_OK, cm\<lparr>cm_state := CO_MONITOR_STATE_STARTED\<rparr>) } })"

section \<open>Creation\<close>

text \<open>The answers of the host: whether the versions agree, the memory of the monitor, the results of the lock, the wait
  object, the buffer, the shared page, the queue and the host's part in order, the timer, and the buffer of the
  video device with its address.\<close>

record create_answers =
  ca_magic :: bool
  ca_monitor :: "mptr option"
  ca_console :: bool
  ca_early :: "co_rc list"
  ca_timer :: co_rc
  ca_video :: "u32 option"
  ca_id :: u32

fun first_error :: "co_rc list \<Rightarrow> co_rc" where
  "first_error [] = RC_OK"
| "first_error (rc # rcs) = (if rc_ok rc then first_error rcs else rc)"

definition core_end_of :: "co_symbols_import \<Rightarrow> u32" where
  "core_end_of im = kernel_start im +
     push_bit CO_ARCH_PAGE_SHIFT (drop_bit CO_ARCH_PAGE_SHIFT (kernel_end im - kernel_start im + CO_ARCH_PAGE_SIZE - 1))"

definition zeroed_monitor ::
    "co_config \<Rightarrow> co_symbols_import \<Rightarrow> co_console \<Rightarrow> u32 \<Rightarrow> vm \<Rightarrow> co_manager \<Rightarrow> mptr \<Rightarrow> 'w \<Rightarrow> 'w co_monitor" where
  "zeroed_monitor cf im con memory m mg self w =
     \<lparr>cm_state = CO_MONITOR_STATE_EMPTY, cm_termination_reason = 0,
      cm_bug_info = \<lparr>bug_code = 0, bug_line = 0, bug_text = replicate sizeof_bug_text 0\<rparr>, cm_config = cf, cm_passage = None,
      cm_import = im, cm_core_end = core_end_of im, cm_memory_size = memory, cm_pgd = 0, cm_pp = False,
      cm_vm = m\<lparr>end_physical := CO_ARCH_KERNEL_OFFSET + memory\<rparr>, cm_timer_active = False, cm_timer_interrupt = False,
      cm_timestamp = 0, cm_timestamp_freq = 0, cm_timestamp_reminder = 0,
      cm_video_devs = replicate CO_MODULE_MAX_COVIDEO None, cm_scsi_devs = replicate CO_MODULE_MAX_COSCSI None,
      cm_scsi_queue = replicate IO_QUEUE_SIZE \<lparr>rq_in_use = False, rq_unit = 0,
        rq_io = \<lparr>io_scp = 0, io_offset = 0, io_sg = 0, io_count = 0, io_write = False\<rparr>\<rparr>,
      cm_scsi_next = 0, cm_scsi_work = [], cm_block_devs = (\<lambda>_. None), cm_block_pending = [],
      cm_filesystems = (\<lambda>_. None), cm_queue = [],
      cm_io_buffer = \<lparr>messages_waiting = 0, io_bytes = replicate io_buffer_room 0\<rparr>, cm_console = con,
      cm_initrd_address = 0, cm_initrd_size = 0, cm_manager = mg, cm_self = self, cm_world = w\<rparr>"

definition create_video :: "u32 option \<Rightarrow> 'w co_monitor \<Rightarrow> co_rc \<times> 'w co_monitor" where
  "create_video answer cm =
     (case (cm_video_devs cm, cf_video_devs (cm_config cm), answer) of
        (Some d # ds, (_, conf) # _, Some a) \<Rightarrow>
          (RC_OK, cm\<lparr>cm_video_devs := Some (d\<lparr>vd_size := vd_size conf, vd_address := a,
             vd_buffer := Some (replicate (unat (vd_size conf)) 0), vd_width := vd_width conf, vd_height := vd_height conf,
             vd_bpp := vd_bpp conf\<rparr>) # ds\<rparr>)
      | (Some d # ds, _, _) \<Rightarrow> (RC_OUT_OF_MEMORY, cm)
      | _ \<Rightarrow> (RC_OK, cm))"

text \<open>The parts that take memory: the guest's tables, the timer, the devices and the video buffer. Every error frees the
  guest's pages.\<close>

definition monitor_build ::
    "'w mon_host \<Rightarrow> create_answers \<Rightarrow> iptr option list list \<Rightarrow> co_video_dev \<Rightarrow> 'w co_monitor \<Rightarrow> (co_rc \<times> 'w co_monitor) option" where
  "monitor_build h a as garbage cm = do {
     (rc, cm) \<leftarrow> alloc_pp_ram_mapping cm;
     if \<not> rc_ok rc then Some (rc, cm)
     else if \<not> rc_ok (ca_timer a) then do { cm \<leftarrow> free_pseudo_physical_memory cm; Some (ca_timer a, cm) }
     else do {
       (rc, cm) \<leftarrow> load_configuration h as garbage cm;
       let (rc, cm) = (if rc_ok rc then create_video (ca_video a) cm else (rc, cm));
       if rc_ok rc then Some (rc, cm)
       else do { cm \<leftarrow> free_pseudo_physical_memory cm; Some (rc, cm) } } }"

text \<open>The result, the manager, the world and the monitor. Once the memory is accounted for, every error gives it back.\<close>

definition co_monitor_create ::
    "'w mon_host \<Rightarrow> create_answers \<Rightarrow> iptr option list list \<Rightarrow> co_video_dev \<Rightarrow> u32 \<Rightarrow> co_config \<Rightarrow> co_console_config \<Rightarrow>
     co_symbols_import \<Rightarrow> vm \<Rightarrow> co_manager \<Rightarrow> 'w \<Rightarrow> (co_rc \<times> co_manager \<times> 'w \<times> 'w co_monitor option) option" where
  "co_monitor_create h a as garbage hostmem_amount cf con_config im m mg w =
     (if \<not> ca_magic a then Some (RC_VERSION_MISMATCHED, mg, w, None)
      else case ca_monitor a of
        None \<Rightarrow> Some (RC_OUT_OF_MEMORY, mg, w, None)
      | Some self \<Rightarrow>
          (case co_console_create con_config (ca_console a) of
             None \<Rightarrow> None
           | Some (rc, None) \<Rightarrow> Some (rc, mg, w, None)
           | Some (rc, Some con) \<Rightarrow>
               if \<not> rc_ok rc then Some (rc, mg, w, None)
               else if \<not> rc_ok (first_error (ca_early a)) then Some (first_error (ca_early a), mg, w, None)
               else
                 let memory = monitor_memory_size hostmem_amount (cf_ram_size cf); (rc, mg') = reserve_hostmem memory mg
                 in if \<not> rc_ok rc then Some (rc, mg, w, None)
                    else do {
                      (rc, cm) \<leftarrow> monitor_build h a as garbage (zeroed_monitor cf im con memory m mg' self w);
                      if \<not> rc_ok rc then Some (rc, mg, cm_world cm, None)
                      else Some (RC_OK, list_monitor self (ca_id a) memory (cm_video_devs cm \<noteq> [] \<and> hd (cm_video_devs cm) \<noteq> None) mg',
                        cm_world cm,
                        Some (cm\<lparr>cm_state := CO_MONITOR_STATE_INITIALIZED,
                                 cm_manager := list_monitor self (ca_id a) memory (cm_video_devs cm \<noteq> [] \<and> hd (cm_video_devs cm) \<noteq> None) mg'\<rparr>)) }))"

section \<open>Reset\<close>

text \<open>The devices share their descriptors with the configuration: what was changed there is what the next devices get.\<close>

definition shared_descriptors :: "'w co_monitor \<Rightarrow> co_config" where
  "shared_descriptors cm =
     (let cf = cm_config cm in
      cf\<lparr>cf_scsi_devs := map (\<lambda>((enabled, conf), dev). (enabled, case dev of None \<Rightarrow> conf | Some d \<Rightarrow> conf\<lparr>sc_size := sc_size d\<rparr>))
           (zip (cf_scsi_devs cf) (cm_scsi_devs cm)),
         cf_block_devs := map (\<lambda>(i, conf). case cm_block_devs cm (of_nat i) of None \<Rightarrow> conf
             | Some d \<Rightarrow> (case dev_conf d of None \<Rightarrow> conf | Some c \<Rightarrow> c)) (enumerate 0 (cf_block_devs cf))\<rparr>)"

text \<open>Clearing the video buffer follows the device's pointer to it.\<close>

definition clear_video :: "'w co_monitor \<Rightarrow> 'w co_monitor option" where
  "clear_video cm =
     (case cm_video_devs cm of
        Some d # ds \<Rightarrow> do {
          buf \<leftarrow> vd_buffer d;
          if length buf < unat (vd_size d) then None
          else Some (cm\<lparr>cm_video_devs := Some (d\<lparr>vd_buffer := Some (overwrite 0 (replicate (unat (vd_size d)) 0) buf)\<rparr>) # ds\<rparr>) }
      | _ \<Rightarrow> Some cm)"

text \<open>A monitor that was taken off the list is put back; the count of monitors stays.\<close>

definition relist_monitor :: "'w co_monitor \<Rightarrow> 'w co_monitor option" where
  "relist_monitor cm = do {
     let mg = cm_manager cm;
     d \<leftarrow> mg_mons mg (cm_self cm);
     if md_listed d then Some cm
     else do {
       mg \<leftarrow> update_mon (cm_self cm) (\<lambda>d. d\<lparr>md_listed := True\<rparr>) mg;
       Some (cm\<lparr>cm_manager := mg\<lparr>mg_mon_list := cm_self cm # mg_mon_list mg\<rparr>\<rparr>) } }"

definition co_monitor_user_reset ::
    "'w mon_host \<Rightarrow> iptr option list list \<Rightarrow> co_video_dev \<Rightarrow> 'w co_monitor \<Rightarrow> (co_rc \<times> 'w co_monitor) option" where
  "co_monitor_user_reset h as garbage cm = do {
     cm \<leftarrow> free_pseudo_physical_memory (cm\<lparr>cm_state := CO_MONITOR_STATE_EMPTY, cm_queue := []\<rparr>);
     (rc, cm) \<leftarrow> alloc_pp_ram_mapping cm;
     if \<not> rc_ok rc then Some (rc, cm)
     else do {
       let cm = cm\<lparr>cm_config := shared_descriptors cm\<rparr>;
       cm \<leftarrow> unregister_filesystems (unregister_block_devices h (unregister_scsi_devices h cm));
       (rc, cm) \<leftarrow> load_configuration h as garbage cm;
       if \<not> rc_ok rc then do { cm \<leftarrow> free_pseudo_physical_memory cm; Some (rc, cm) }
       else do {
         cm \<leftarrow> relist_monitor cm;
         cm \<leftarrow> clear_video (cm\<lparr>cm_io_buffer := \<lparr>messages_waiting = 0, io_bytes = replicate io_buffer_room 0\<rparr>\<rparr>);
         Some (rc, cm\<lparr>cm_state := CO_MONITOR_STATE_INITIALIZED, cm_termination_reason := CO_TERMINATE_END\<rparr>) } } }"

section \<open>Requests of the user\<close>

text \<open>The console of a guest is sent to the modules as console messages: the buffer from row \<open>config.y\<close> on, the screen
  and the cursor.\<close>

definition console_header :: "u8 list \<Rightarrow> CoManager.co_message" where
  "console_header data = \<lparr>m_from = CO_MODULE_MONITOR, m_to = CO_MODULE_CONSOLE, m_priority = 0, m_type = 0, m_data = data\<rparr>"

definition console_row :: "co_console \<Rightarrow> u32 \<Rightarrow> int \<Rightarrow> int \<Rightarrow> CoManager.co_message" where
  "console_row con op base y =
     (let config_x = cfg_x (config con) in
      console_header (le_bytes 4 op @ le_bytes 2 (word_of_int y) @ le_bytes 2 0 @ le_bytes 2 (word_of_int config_x) @
        concat (map (\<lambda>c. le_bytes 2 (ucast c)) (take (nat config_x) (drop (nat (base + y * config_x)) (buffer con))))))"

definition console_messages :: "co_console \<Rightarrow> CoManager.co_message list" where
  "console_messages con =
     map (console_row con 21 0) [cfg_y (config con)..cfg_max_y (config con) - 1] @
     map (console_row con 5 (screen con)) [0..cfg_y (config con) - 1] @
     [console_header (le_bytes 4 8 @ le_bytes 2 (ucast (cur_x (cursor con))) @ le_bytes 2 (ucast (cur_y (cursor con))) @
        le_bytes 2 (ucast (cur_height (cursor con))))]"

text \<open>\<open>answers\<close>: for each message whether the network took it and whether it could be copied.\<close>

fun send_all :: "u32 \<Rightarrow> (bool \<times> co_rc) list \<Rightarrow> CoManager.co_message list \<Rightarrow> 'w co_monitor \<Rightarrow> 'w co_monitor option" where
  "send_all pid answers [] cm = Some cm"
| "send_all pid [] (msg # msgs) cm = None"
| "send_all pid ((to_adapter, dup_rc) # answers) (msg # msgs) cm = do {
     (answer, cm) \<leftarrow> monitor_incoming pid to_adapter dup_rc msg (m_data msg) cm;
     send_all pid answers msgs cm }"

definition co_monitor_user_get_console ::
    "'w mon_host \<Rightarrow> bool \<Rightarrow> (bool \<times> co_rc) list \<Rightarrow> 'w co_monitor \<Rightarrow> (co_rc \<times> 'w co_monitor) option" where
  "co_monitor_user_get_console h malloc answers cm =
     (if \<not> malloc then Some (RC_OUT_OF_MEMORY, cm)
      else if int (length (buffer (cm_console cm))) < cfg_x (config (cm_console cm)) * cfg_max_y (config (cm_console cm)) then None
      else do { cm \<leftarrow> send_all (mh_pid h) answers (console_messages (cm_console cm)) cm; Some (RC_OK, cm) })"

definition co_monitor_user_get_state :: "'w co_monitor \<Rightarrow> co_monitor_state \<times> u32 \<times> co_bug_info" where
  "co_monitor_user_get_state cm = (cm_state cm, cm_termination_reason cm, cm_bug_info cm)"

text \<open>What destroying a monitor does to its own parts; the manager's part is with the manager.\<close>

definition monitor_destroy :: "'w mon_host \<Rightarrow> 'w co_monitor \<Rightarrow> 'w co_monitor option" where
  "monitor_destroy h cm = do {
     let cm = (if cm_state cm = CO_MONITOR_STATE_RUNNING \<or> cm_state cm = CO_MONITOR_STATE_STARTED
               then cm\<lparr>cm_timer_active := False\<rparr> else cm);
     cm \<leftarrow> unregister_filesystems (unregister_block_devices h (unregister_scsi_devices h cm));
     cm \<leftarrow> free_pseudo_physical_memory cm;
     Some (cm\<lparr>cm_queue := [], cm_passage := None, cm_video_devs := (case cm_video_devs cm of [] \<Rightarrow> [] | d # ds \<Rightarrow> None # ds)\<rparr>) }"

text \<open>The requests, with the answers of the host they need. \<open>IOCTL_OTHER\<close> stands for the requests on the kernel mode
  network, of which only the result is known, and for unknown numbers.\<close>

datatype 'w monitor_request =
    IOCTL_CLOSE
  | IOCTL_GET_CONSOLE bool "(bool \<times> co_rc) list"
  | IOCTL_VIDEO_ATTACH "co_rc \<times> u32" int
  | IOCTL_GET_STATE
  | IOCTL_RESET "iptr option list list" co_video_dev
  | IOCTL_LOAD_SECTION u32 u32 "u8 list option"
  | IOCTL_LOAD_INITRD u32 "u8 list"
  | IOCTL_START passage_answers "u64 \<times> u64"
  | IOCTL_RUN "guest_exit list"
  | IOCTL_OTHER co_rc

datatype monitor_reply =
    NoData
  | StateData co_monitor_state u32 co_bug_info
  | ConsoleData co_console_config
  | VideoData u32

definition video_attach :: "'w mon_host \<Rightarrow> co_rc \<times> u32 \<Rightarrow> int \<Rightarrow> 'w co_monitor \<Rightarrow> (co_rc \<times> u32 \<times> 'w co_monitor) option" where
  "video_attach h mapped unit cm = do {
     d \<leftarrow> mg_mons (cm_manager cm) (cm_self cm);
     (rc, address, user) \<leftarrow> co_monitor_user_video_attach mapped (mh_pid h) unit (cm_video_devs cm) (md_video_user d);
     mg \<leftarrow> update_mon (cm_self cm) (\<lambda>d. d\<lparr>md_video_user := user\<rparr>) (cm_manager cm);
     Some (rc, address, cm\<lparr>cm_manager := mg\<rparr>) }"

text \<open>The request of descriptor \<open>p\<close>; the monitor is gone when the manager does not hold it any more.\<close>

definition co_monitor_ioctl ::
    "'w mon_host \<Rightarrow> optr \<Rightarrow> 'w monitor_request \<Rightarrow> 'w co_monitor \<Rightarrow> (co_rc \<times> monitor_reply \<times> 'w co_monitor) option" where
  "co_monitor_ioctl h p r cm = do {
     d \<leftarrow> mg_opens (cm_manager cm) p;
     let plain = map_option (\<lambda>(rc, cm). (rc, NoData, cm));
     (case r of
        IOCTL_CLOSE \<Rightarrow> do {
          mg \<leftarrow> ioctl_close (co_manager_close 2 (mh_pid h)) (mh_pid h) p (cm_manager cm);
          let cm = cm\<lparr>cm_manager := mg\<rparr>;
          cm \<leftarrow> (if mg_mons mg (cm_self cm) = None then monitor_destroy h cm else Some cm);
          Some (RC_OK, NoData, cm) }
      | IOCTL_GET_CONSOLE malloc answers \<Rightarrow> do {
          (rc, cm) \<leftarrow> co_monitor_user_get_console h malloc answers cm;
          Some (rc, ConsoleData (config (cm_console cm)), cm) }
      | IOCTL_VIDEO_ATTACH mapped unit \<Rightarrow> do {
          (rc, address, cm) \<leftarrow> video_attach h mapped unit cm;
          Some (rc, VideoData address, cm) }
      | IOCTL_OTHER rc \<Rightarrow> Some (rc, NoData, cm)
      | _ \<Rightarrow>
          if \<not> od_owner d then Some (RC_ERROR, NoData, cm)
          else case r of
              IOCTL_GET_STATE \<Rightarrow>
                let (state, reason, info) = co_monitor_user_get_state cm in Some (RC_OK, StateData state reason info, cm)
            | IOCTL_RESET as garbage \<Rightarrow> plain (co_monitor_user_reset h as garbage cm)
            | IOCTL_LOAD_SECTION address bytes data \<Rightarrow> plain (load_section address bytes data cm)
            | IOCTL_LOAD_INITRD bytes data \<Rightarrow> plain (load_initrd bytes data cm)
            | IOCTL_START a stamp \<Rightarrow> plain (start h a stamp cm)
            | IOCTL_RUN gs \<Rightarrow> plain (run h gs cm)
            | _ \<Rightarrow> Some (RC_ERROR, NoData, cm)) }"

section \<open>Work of the host\<close>

text \<open>A queued SCSI request runs, an accepted block transfer, the one at place \<open>k\<close>, completes: each sends the guest a
  message. The size field of
  the SCSI message is not set.\<close>

definition scsi_message :: "u32 \<Rightarrow> co_scsi_intr \<Rightarrow> CoManager.co_message" where
  "scsi_message garbage i = \<lparr>m_from = 120, m_to = CO_MODULE_LINUX, m_priority = 0, m_type = 1,
     m_data = concat (map (le_bytes 4) [ucast CO_DEVICE_SCSI, intr_unit i, garbage, intr_ctx i, intr_result i, intr_delta i])\<rparr>"

definition block_message :: "int \<times> u32 \<times> bool \<Rightarrow> CoManager.co_message" where
  "block_message i = (case i of (unit, irq, uptodate) \<Rightarrow>
     \<lparr>m_from = word_of_int (24 + unit), m_to = CO_MODULE_LINUX, m_priority = 0, m_type = 1,
      m_data = concat (map (le_bytes 4) [CO_DEVICE_BLOCK, word_of_int unit, 8, irq, of_bool uptodate])\<rparr>)"

definition send_to_guest :: "co_rc \<Rightarrow> CoManager.co_message list \<Rightarrow> 'w co_monitor \<Rightarrow> 'w co_monitor" where
  "send_to_guest dup_rc msgs cm = fold (\<lambda>msg cm. snd (co_monitor_message_from_user dup_rc msg cm)) msgs cm"

definition monitor_scsi_work :: "'w mon_host \<Rightarrow> u32 \<Rightarrow> co_rc \<Rightarrow> 'w co_monitor \<Rightarrow> 'w co_monitor option" where
  "monitor_scsi_work h garbage dup_rc cm =
     (case cm_scsi_work cm of
        [] \<Rightarrow> None
      | i # is \<Rightarrow> do {
          s \<leftarrow> scsi_dio (mh_scsi h) i (scsi_state_of (cm\<lparr>cm_scsi_work := is\<rparr>));
          Some (send_to_guest dup_rc (map (scsi_message garbage) (ss_sent s)) (scsi_state_to s cm)) })"

definition monitor_block_done :: "nat \<Rightarrow> nt_status \<Rightarrow> u8 list \<Rightarrow> co_rc \<Rightarrow> 'w co_monitor \<Rightarrow> 'w co_monitor option" where
  "monitor_block_done k status bs dup_rc cm = do {
     s \<leftarrow> transfer_file_block_callback k status bs
       \<lparr>bh_vm = cm_vm cm, bh_world = cm_world cm, bh_pending = cm_block_pending cm, bh_sent = []\<rparr>;
     Some (send_to_guest dup_rc (map block_message (bh_sent s)) (cm\<lparr>cm_vm := bh_vm s, cm_block_pending := bh_pending s\<rparr>)) }"

end
