(* ===== verification/CoLifecycleSteps.thy ===== *)
theory CoLifecycleSteps
  imports CoLifecycle
begin

text \<open>
  The states of a monitor as a transition system: a monitor is created, then requests of its descriptors, messages of
  other modules, the timer and the work of the host change it. The invariant says what each state promises (the
  passage page, the timer, the guest's memory), \<open>may_follow\<close> which states follow each other.
\<close>

section \<open>Steps\<close>

definition alive :: "'w co_monitor \<Rightarrow> bool" where
  "alive cm \<longleftrightarrow> mg_mons (cm_manager cm) (cm_self cm) \<noteq> None"

inductive monitor_step :: "'w mon_host \<Rightarrow> 'w co_monitor \<Rightarrow> 'w co_monitor \<Rightarrow> bool" for h where
  step_request: "co_monitor_ioctl h p r cm = Some (rc, reply, cm') \<Longrightarrow> alive cm' \<Longrightarrow> monitor_step h cm cm'"
| step_message: "co_monitor_message_from_user dup_rc msg cm = (rc, cm') \<Longrightarrow> monitor_step h cm cm'"
| step_timer: "cm_timer_active cm \<Longrightarrow> monitor_step h cm (cm\<lparr>cm_timer_interrupt := True\<rparr>)"
| step_scsi: "monitor_scsi_work h garbage dup_rc cm = Some cm' \<Longrightarrow> monitor_step h cm cm'"
| step_block: "monitor_block_done k status bs dup_rc cm = Some cm' \<Longrightarrow> monitor_step h cm cm'"

inductive_cases monitor_stepE: "monitor_step h cm cm'"

inductive monitor_reach :: "'w mon_host \<Rightarrow> 'w co_monitor \<Rightarrow> bool" for h where
  created: "co_monitor_create h a as garbage hostmem cf con im m mg w = Some (rc, mg', w', Some cm) \<Longrightarrow> monitor_reach h cm"
| stepped: "monitor_reach h cm \<Longrightarrow> monitor_step h cm cm' \<Longrightarrow> monitor_reach h cm'"

text \<open>What a state promises, and which state may follow which.\<close>

definition monitor_typed :: "'w co_monitor \<Rightarrow> bool" where
  "monitor_typed cm \<longleftrightarrow>
     (cm_state cm \<in> {CO_MONITOR_STATE_STARTED, CO_MONITOR_STATE_RUNNING} \<longrightarrow> cm_timer_active cm) \<and>
     (cm_state cm \<in> {CO_MONITOR_STATE_STARTED, CO_MONITOR_STATE_RUNNING, CO_MONITOR_STATE_TERMINATED} \<longrightarrow> cm_passage cm \<noteq> None) \<and>
     (cm_state cm \<noteq> CO_MONITOR_STATE_EMPTY \<longrightarrow> cm_pp cm)"

fun may_follow :: "co_monitor_state \<Rightarrow> co_monitor_state \<Rightarrow> bool" where
  "may_follow CO_MONITOR_STATE_EMPTY t \<longleftrightarrow> t \<in> {CO_MONITOR_STATE_EMPTY, CO_MONITOR_STATE_INITIALIZED}"
| "may_follow CO_MONITOR_STATE_INITIALIZED t \<longleftrightarrow>
     t \<in> {CO_MONITOR_STATE_EMPTY, CO_MONITOR_STATE_INITIALIZED, CO_MONITOR_STATE_STARTED}"
| "may_follow CO_MONITOR_STATE_STARTED t \<longleftrightarrow> True"
| "may_follow CO_MONITOR_STATE_RUNNING t \<longleftrightarrow> t \<noteq> CO_MONITOR_STATE_STARTED"
| "may_follow CO_MONITOR_STATE_TERMINATED t \<longleftrightarrow>
     t \<in> {CO_MONITOR_STATE_EMPTY, CO_MONITOR_STATE_INITIALIZED, CO_MONITOR_STATE_TERMINATED}"

section \<open>What the operations keep\<close>

text \<open>The state, the timer and the guest's table, and a passage page that is there.\<close>

definition keeps :: "'w co_monitor \<Rightarrow> 'w co_monitor \<Rightarrow> bool" where
  "keeps cm cm' \<longleftrightarrow> cm_state cm' = cm_state cm \<and> cm_timer_active cm' = cm_timer_active cm \<and> cm_pp cm' = cm_pp cm \<and>
     (cm_passage cm \<noteq> None \<longrightarrow> cm_passage cm' \<noteq> None)"

lemma keeps_refl [simp]: "keeps cm cm" by (simp add: keeps_def)

lemma keeps_trans [trans]: "keeps a b \<Longrightarrow> keeps b c \<Longrightarrow> keeps a c" by (auto simp: keeps_def)

text \<open>Statements about the result of an operation, if there is one.\<close>

definition ensures :: "('a \<Rightarrow> bool) \<Rightarrow> 'a option \<Rightarrow> bool" where
  "ensures P x \<longleftrightarrow> (\<forall>y. x = Some y \<longrightarrow> P y)"

lemma ensures_simps [simp]: "ensures P (Some y) \<longleftrightarrow> P y" "ensures P None"
  by (simp_all add: ensures_def)

lemma ensures_bind: "ensures (\<lambda>y. ensures P (f y)) x \<Longrightarrow> ensures P (x \<bind> f)"
  by (cases x) (simp_all add: ensures_def)

lemma ensures_after: "(\<And>y. ensures P (f y)) \<Longrightarrow> ensures P (x \<bind> f)"
  by (cases x) simp_all

lemma ensures_mono: "ensures P x \<Longrightarrow> (\<And>y. P y \<Longrightarrow> Q y) \<Longrightarrow> ensures Q x"
  by (auto simp: ensures_def)

lemma ensuresD: "ensures P x \<Longrightarrow> x = Some y \<Longrightarrow> P y"
  by (simp add: ensures_def)

text \<open>An operation on the monitor, with a result beside it or alone.\<close>

abbreviation keeping :: "'w co_monitor \<Rightarrow> 'w co_monitor option \<Rightarrow> bool" where
  "keeping cm x \<equiv> ensures (\<lambda>cm'. keeps cm cm') x"

abbreviation keeping_with :: "'w co_monitor \<Rightarrow> ('a \<times> 'w co_monitor) option \<Rightarrow> bool" where
  "keeping_with cm x \<equiv> ensures (\<lambda>r. keeps cm (snd r)) x"

lemma keeping_then: "keeping cm x \<Longrightarrow> (\<And>c. keeps cm c \<Longrightarrow> ensures P (f c)) \<Longrightarrow> ensures P (x \<bind> f)"
  by (auto intro!: ensures_bind elim: ensures_mono)

lemma keeping_with_then:
  "keeping_with cm x \<Longrightarrow> (\<And>r c. keeps cm c \<Longrightarrow> ensures P (f (r, c))) \<Longrightarrow> ensures P (x \<bind> f)"
  by (auto intro!: ensures_bind elim!: ensures_mono)

lemma update_passage_keeps: "keeps a cm \<Longrightarrow> keeping a (update_passage f cm)"
  by (auto simp: update_passage_def keeps_def intro!: ensures_after)

lemma set_param_keeps: "keeps a cm \<Longrightarrow> keeping a (set_param i v cm)"
  by (simp add: set_param_def update_passage_keeps)

lemma keeps_fields [simp]:
  "keeps a (cm\<lparr>cm_vm := m\<rparr>) = keeps a cm" "keeps a (cm\<lparr>cm_io_buffer := b\<rparr>) = keeps a cm"
  "keeps a (cm\<lparr>cm_queue := q\<rparr>) = keeps a cm" "keeps a (cm\<lparr>cm_timestamp := t\<rparr>) = keeps a cm"
  "keeps a (cm\<lparr>cm_timestamp_reminder := t\<rparr>) = keeps a cm" "keeps a (cm\<lparr>cm_manager := mg\<rparr>) = keeps a cm"
  "keeps a (cm\<lparr>cm_console := con\<rparr>) = keeps a cm" "keeps a (cm\<lparr>cm_timer_interrupt := i\<rparr>) = keeps a cm"
  "keeps a (cm\<lparr>cm_world := w\<rparr>) = keeps a cm" "keeps a (cm\<lparr>cm_block_pending := p\<rparr>) = keeps a cm"
  "keeps a (cm\<lparr>cm_block_devs := d\<rparr>) = keeps a cm" "keeps a (cm\<lparr>cm_filesystems := fss\<rparr>) = keeps a cm"
  "keeps a (cm\<lparr>cm_video_devs := v\<rparr>) = keeps a cm" "keeps a (cm\<lparr>cm_scsi_devs := sd\<rparr>) = keeps a cm"
  "keeps a (cm\<lparr>cm_config := cf\<rparr>) = keeps a cm" "keeps a (cm\<lparr>cm_pgd := pgd\<rparr>) = keeps a cm"
  "keeps a (cm\<lparr>cm_initrd_address := ia\<rparr>) = keeps a cm" "keeps a (cm\<lparr>cm_initrd_size := ib\<rparr>) = keeps a cm"
  "keeps a (cm\<lparr>cm_timestamp_freq := t\<rparr>) = keeps a cm" "keeps a (cm\<lparr>cm_termination_reason := tr\<rparr>) = keeps a cm"
  "keeps a (scsi_state_to s cm) = keeps a cm" "keeps a (host_events g cm) = keeps a cm"
  by (simp_all add: keeps_def scsi_state_to_def host_events_def)

lemmas keeping_rules = keeping_then [OF set_param_keeps] keeping_then [OF update_passage_keeps]

lemma messages_keeps: "keeps a cm \<Longrightarrow> keeping_with a (callback_return_messages cm)"
  unfolding callback_return_messages_def Let_def
  by (auto intro!: keeping_rules) (rule ensures_after, auto intro!: keeping_rules)

lemma jiffies_keeps: "keeps a cm \<Longrightarrow> keeping a (callback_return_jiffies now cm)"
  unfolding callback_return_jiffies_def Let_def
  by (auto intro: ensures_after intro!: set_param_keeps)

lemma callback_keeps: "keeps a cm \<Longrightarrow> keeping a (callback_return now cm)"
  unfolding callback_return_def
  by (auto intro: ensures_after intro!: keeping_rules keeping_with_then [OF messages_keeps] jiffies_keeps)

lemma switch_keeps: "keeps a cm \<Longrightarrow> keeping a (co_host_switch_wrapper g cm)"
  unfolding co_host_switch_wrapper_def Let_def
  by (auto intro: ensures_after intro!: update_passage_keeps keeping_rules)

lemma incoming_keeps: "keeps a cm \<Longrightarrow> keeping_with a (monitor_incoming pid ta dup_rc msg body cm)"
  unfolding monitor_incoming_def Let_def
  by (auto intro!: ensures_after)

lemma to_monitor_keeps: "keeps a cm \<Longrightarrow> keeping a (message_to_monitor h g cm)"
  unfolding message_to_monitor_def Let_def
  by (auto intro: ensures_after intro!: keeping_with_then [OF incoming_keeps])

lemma device_keeps: "keeps a cm \<Longrightarrow> keeping_with a (device_request h g ps cm)"
  unfolding device_request_def block_device_request_def filesystem_request_def scsi_device_request_def Let_def
  by (auto intro!: ensures_after split: option.splits)

lemma handle_keeps:
  "keeps a cm \<Longrightarrow> op \<noteq> CO_OPERATION_TERMINATE \<Longrightarrow> keeping_with a (handle_operation h g op ps cm)"
  unfolding handle_operation_def
  by (auto intro: ensures_after intro!: keeping_rules keeping_with_then [OF device_keeps] keeping_then [OF to_monitor_keeps])

lemma terminate_state:
  assumes "co_terminate cm = Some (again, cm')"
  shows "cm_state cm' = CO_MONITOR_STATE_TERMINATED \<and> \<not> again \<and> cm_pp cm' = cm_pp cm \<and> cm_passage cm' \<noteq> None \<and> \<not> cm_timer_active cm'"
  using assms unfolding co_terminate_def by (auto simp: bind_eq_Some_conv Let_def split: if_splits)

text \<open>An iteration keeps the monitor as it is, or ends the guest and then does not go back to it.\<close>

lemma iteration_result:
  assumes "iteration h g cm = Some (again, cm')"
  shows "keeps cm cm' \<or> cm_state cm' = CO_MONITOR_STATE_TERMINATED \<and> \<not> again \<and> cm_pp cm' = cm_pp cm \<and>
    cm_passage cm' \<noteq> None \<and> \<not> cm_timer_active cm'"
proof -
  from assms obtain pa c1 c2 pa2 where 1: "cm_passage cm = Some pa"
    "(if pa_operation pa = CO_OPERATION_FORWARD_INTERRUPT \<or> pa_operation pa = CO_OPERATION_IDLE then callback_return (ge_now g) cm else Some cm) = Some c1"
    "co_host_switch_wrapper g c1 = Some c2" "cm_passage c2 = Some pa2"
    "handle_operation h g (pa_operation pa2) (pa_params pa2) (host_events g c2) = Some (again, cm')"
    unfolding iteration_def by (auto simp: bind_eq_Some_conv)
  have "keeps cm c1" using 1(2) by (auto split: if_splits dest: ensuresD [OF callback_keeps [OF keeps_refl]])
  then have k: "keeps cm (host_events g c2)" using ensuresD [OF switch_keeps 1(3)] by simp
  show ?thesis
  proof (cases "pa_operation pa2 = CO_OPERATION_TERMINATE")
    case True
    then have "co_terminate (host_events g c2) = Some (again, cm')" using 1(5) by (simp add: handle_operation_def)
    from terminate_state [OF this] k show ?thesis by (auto simp: keeps_def)
  next
    case False
    from ensuresD [OF handle_keeps [OF k False] 1(5)] show ?thesis by simp
  qed
qed

lemma run_loop_result:
  assumes "run_loop h gs cm = Some cm'"
  shows "keeps cm cm' \<or> cm_state cm' = CO_MONITOR_STATE_TERMINATED \<and> cm_pp cm' = cm_pp cm \<and> cm_passage cm' \<noteq> None"
  using assms
proof (induction gs arbitrary: cm)
  case (Cons g gs)
  then obtain again c1 where 1: "iteration h g cm = Some (again, c1)" "(if again then run_loop h gs c1 else Some c1) = Some cm'"
    by (auto simp: bind_eq_Some_conv)
  from iteration_result [OF 1(1)] 1(2) show ?case
  proof (cases again)
    case True
    with iteration_result [OF 1(1)] have k: "keeps cm c1" by blast
    have "run_loop h gs c1 = Some cm'" using 1(2) True by simp
    from Cons.IH [OF this] k show ?thesis by (auto simp: keeps_def)
  qed auto
qed simp

lemma ensures_then: "ensures R x \<Longrightarrow> (\<And>y. R y \<Longrightarrow> ensures P (f y)) \<Longrightarrow> ensures P (x \<bind> f)"
  by (auto intro!: ensures_bind elim: ensures_mono)

lemma send_all_keeps: "keeps a cm \<Longrightarrow> keeping a (send_all pid answers msgs cm)"
proof (induction msgs arbitrary: answers cm)
  case (Cons msg msgs)
  show ?case
  proof (cases answers)
    case (Cons x xs)
    then show ?thesis using Cons.IH Cons.prems by (cases x) (auto intro!: keeping_with_then [OF incoming_keeps])
  qed simp
qed simp

lemma get_console_keeps: "keeps a cm \<Longrightarrow> keeping_with a (co_monitor_user_get_console h malloc answers cm)"
  unfolding co_monitor_user_get_console_def by (auto intro!: keeping_then [OF send_all_keeps])

lemma video_attach_keeps: "keeps a cm \<Longrightarrow> ensures (\<lambda>r. keeps a (snd (snd r))) (video_attach h mapped unit cm)"
  unfolding video_attach_def by (auto intro!: ensures_after)

lemma unregister_keeps [simp]:
  "keeps a (unregister_scsi_devices h cm) = keeps a cm" "keeps a (unregister_block_devices h cm) = keeps a cm"
  by (simp_all add: unregister_scsi_devices_def unregister_block_devices_def split: prod.split)

lemma unregister_fields [simp]:
  "cm_state (unregister_scsi_devices h cm) = cm_state cm" "cm_state (unregister_block_devices h cm) = cm_state cm"
  "cm_pp (unregister_scsi_devices h cm) = cm_pp cm" "cm_pp (unregister_block_devices h cm) = cm_pp cm"
  by (simp_all add: unregister_scsi_devices_def unregister_block_devices_def scsi_state_to_def split: prod.split)

lemma unregister_filesystems_keeps: "keeps a cm \<Longrightarrow> keeping a (unregister_filesystems cm)"
  unfolding unregister_filesystems_def by (auto intro!: ensures_after)

lemma load_configuration_keeps: "keeps a cm \<Longrightarrow> keeping_with a (load_configuration h as garbage cm)"
  unfolding load_configuration_def Let_def
  by (auto split: prod.split)
    (rule ensures_after, auto intro!: keeping_then [OF unregister_filesystems_keeps] split: prod.split)

lemma free_pp_result:
  "ensures (\<lambda>c. cm_state c = cm_state cm \<and> \<not> cm_pp c \<and> cm_timer_active c = cm_timer_active cm \<and> cm_passage c = cm_passage cm)
     (free_pseudo_physical_memory cm)"
  unfolding free_pseudo_physical_memory_def by (auto intro!: ensures_after)

lemma alloc_pp_result:
  "ensures (\<lambda>(rc, c). cm_state c = cm_state cm \<and> (rc_ok rc \<longrightarrow> cm_pp c)) (alloc_pp_ram_mapping cm)"
  unfolding alloc_pp_ram_mapping_def Let_def
  by (auto split: prod.split) (rule ensures_after, auto intro!: ensures_then [OF free_pp_result])

lemma relist_keeps: "keeps a cm \<Longrightarrow> keeping a (relist_monitor cm)"
  unfolding relist_monitor_def Let_def by (auto intro!: ensures_after)

lemma clear_video_keeps: "keeps a cm \<Longrightarrow> keeping a (clear_video cm)"
  unfolding clear_video_def by (auto intro!: ensures_after split: list.split option.split)

lemma address_space_result:
  "ensures (\<lambda>(rc, c). cm_state c = cm_state cm \<and> cm_pp c = cm_pp cm \<and> cm_timer_active c = cm_timer_active cm \<and>
     (rc_ok rc \<longrightarrow> cm_passage c \<noteq> None)) (guest_address_space_init h a cm)"
  unfolding guest_address_space_init_def co_monitor_arch_passage_page_alloc_def Let_def
  by (auto intro!: ensures_after simp: co_monitor_get_pfn_def split: option.split)

lemma start_result:
  "ensures (\<lambda>(rc, c). if rc_ok rc then cm_state cm = CO_MONITOR_STATE_INITIALIZED \<and> cm_state c = CO_MONITOR_STATE_STARTED \<and>
      cm_timer_active c \<and> cm_passage c \<noteq> None \<and> cm_pp c = cm_pp cm
     else cm_state c = cm_state cm \<and> cm_pp c = cm_pp cm \<and> (cm_state cm \<noteq> CO_MONITOR_STATE_INITIALIZED \<longrightarrow> keeps cm c))
     (start h a stamp cm)"
proof (cases "cm_state cm = CO_MONITOR_STATE_INITIALIZED")
  case True
  show ?thesis
    unfolding start_def using True
    by (auto intro!: ensures_then [OF address_space_result] simp: update_passage_def Let_def)
qed (simp add: start_def)

lemma reset_result:
  "ensures (\<lambda>(rc, c). if rc_ok rc then cm_state c = CO_MONITOR_STATE_INITIALIZED \<and> cm_pp c else cm_state c = CO_MONITOR_STATE_EMPTY)
     (co_monitor_user_reset h as garbage cm)"
  unfolding co_monitor_user_reset_def Let_def
  by (auto simp: keeps_def intro!: ensures_then [OF free_pp_result] ensures_then [OF alloc_pp_result]
      keeping_then [OF unregister_filesystems_keeps [OF keeps_refl]] keeping_with_then [OF load_configuration_keeps [OF keeps_refl]]
      keeping_then [OF relist_keeps [OF keeps_refl]] keeping_then [OF clear_video_keeps [OF keeps_refl]])

section \<open>Every step\<close>

lemma send_to_guest_keeps [simp]: "keeps a (send_to_guest dup_rc msgs cm) = keeps a cm"
  unfolding send_to_guest_def
  by (induction msgs arbitrary: cm) (simp_all add: co_monitor_message_from_user_def)

lemma scsi_work_keeps: "keeps a cm \<Longrightarrow> keeping a (monitor_scsi_work h garbage dup_rc cm)"
  unfolding monitor_scsi_work_def by (auto intro!: ensures_after split: list.split)

lemma block_done_keeps: "keeps a cm \<Longrightarrow> keeping a (monitor_block_done k status bs dup_rc cm)"
  unfolding monitor_block_done_def by (auto intro!: ensures_after)

lemma keeps_typed: "keeps cm cm' \<Longrightarrow> monitor_typed cm \<Longrightarrow> monitor_typed cm' \<and> cm_state cm' = cm_state cm"
  by (auto simp: keeps_def monitor_typed_def)

lemma may_follow_refl: "may_follow s s" by (cases s) simp_all

definition good_step :: "'w co_monitor \<Rightarrow> 'w co_monitor \<Rightarrow> bool" where
  "good_step cm cm' \<longleftrightarrow> monitor_typed cm' \<and> may_follow (cm_state cm) (cm_state cm')"

lemma keeps_good: "monitor_typed cm \<Longrightarrow> keeps cm cm' \<Longrightarrow> good_step cm cm'"
  using keeps_typed may_follow_refl by (auto simp: good_step_def)

lemma run_good:
  assumes "run h gs cm = Some (rc, cm')" "monitor_typed cm"
  shows "good_step cm cm'"
proof (cases "cm_state cm")
  case CO_MONITOR_STATE_RUNNING
  then have "run_loop h gs cm = Some cm'" using assms(1) by (simp add: run_def bind_eq_Some_conv)
  from run_loop_result [OF this] show ?thesis
  proof
    assume "keeps cm cm'"
    with keeps_good [OF assms(2)] show ?thesis .
  qed (use CO_MONITOR_STATE_RUNNING assms(2) in \<open>simp add: good_step_def monitor_typed_def\<close>)
next
  case CO_MONITOR_STATE_STARTED
  then obtain g again where "iteration h g (cm\<lparr>cm_state := CO_MONITOR_STATE_RUNNING\<rparr>) = Some (again, cm')"
    using assms(1) by (cases gs) (simp_all add: run_def bind_eq_Some_conv, blast)
  from iteration_result [OF this] show ?thesis
    by (elim disjE) (use CO_MONITOR_STATE_STARTED assms(2) in \<open>simp_all add: good_step_def monitor_typed_def keeps_def\<close>)
qed (use assms keeps_good [OF assms(2) keeps_refl] in \<open>simp_all add: run_def\<close>)

lemma ensures_if: "(c \<Longrightarrow> ensures P x) \<Longrightarrow> (\<not> c \<Longrightarrow> ensures P y) \<Longrightarrow> ensures P (if c then x else y)"
  by simp

lemma load_section_good:
  assumes "monitor_typed cm"
  shows "ensures (\<lambda>r. good_step cm (snd r)) (load_section address bytes data cm)"
  unfolding load_section_def
  by (intro ensures_if ensures_after) (simp_all add: keeps_good [OF assms] split: prod.split)

lemma load_initrd_good:
  assumes "monitor_typed cm"
  shows "ensures (\<lambda>r. good_step cm (snd r)) (load_initrd bytes data cm)"
  unfolding load_initrd_def Let_def
  by (intro ensures_if ensures_after) (auto intro!: keeps_good [OF assms] split: prod.split)

lemma start_good:
  fixes cm :: "'w co_monitor"
  assumes "monitor_typed cm"
  shows "ensures (\<lambda>r. good_step cm (snd r)) (start h a stamp cm)"
proof (rule ensures_mono [OF start_result], clarify)
  fix rc and c :: "'w co_monitor"
  assume r: "if rc_ok rc then cm_state cm = CO_MONITOR_STATE_INITIALIZED \<and> cm_state c = CO_MONITOR_STATE_STARTED \<and>
      cm_timer_active c \<and> cm_passage c \<noteq> None \<and> cm_pp c = cm_pp cm
     else cm_state c = cm_state cm \<and> cm_pp c = cm_pp cm \<and> (cm_state cm \<noteq> CO_MONITOR_STATE_INITIALIZED \<longrightarrow> keeps cm c)"
  show "good_step cm (snd (rc, c))"
  proof (cases "rc_ok rc \<or> cm_state cm = CO_MONITOR_STATE_INITIALIZED")
    case True
    with r assms show ?thesis by (cases "rc_ok rc") (simp_all add: good_step_def monitor_typed_def)
  next
    case False
    with r have "keeps cm c" by simp
    from keeps_good [OF assms this] show ?thesis by simp
  qed
qed

lemma reset_good:
  fixes cm :: "'w co_monitor"
  shows "ensures (\<lambda>r. good_step cm (snd r)) (co_monitor_user_reset h as garbage cm)"
proof (rule ensures_mono [OF reset_result], clarify)
  fix rc and c :: "'w co_monitor"
  assume "if rc_ok rc then cm_state c = CO_MONITOR_STATE_INITIALIZED \<and> cm_pp c else cm_state c = CO_MONITOR_STATE_EMPTY"
  then show "good_step cm (snd (rc, c))"
    by (cases "rc_ok rc"; cases "cm_state cm") (simp_all add: good_step_def monitor_typed_def)
qed

text \<open>Destroying a monitor leaves the manager alone.\<close>

lemma unregister_place [simp]:
  "cm_manager (unregister_scsi_devices h cm) = cm_manager cm" "cm_manager (unregister_block_devices h cm) = cm_manager cm"
  "cm_self (unregister_scsi_devices h cm) = cm_self cm" "cm_self (unregister_block_devices h cm) = cm_self cm"
  by (simp_all add: unregister_scsi_devices_def unregister_block_devices_def scsi_state_to_def split: prod.split)

abbreviation placed :: "'w co_monitor \<Rightarrow> 'w co_monitor \<Rightarrow> bool" where
  "placed cm c \<equiv> cm_manager c = cm_manager cm \<and> cm_self c = cm_self cm"

lemma unregister_filesystems_place: "ensures (placed cm) (unregister_filesystems cm)"
  unfolding unregister_filesystems_def by (auto intro!: ensures_after)

lemma free_pp_place: "ensures (placed cm) (free_pseudo_physical_memory cm)"
  unfolding free_pseudo_physical_memory_def by (auto intro!: ensures_after)

lemma destroyed_gone: "ensures (placed cm) (monitor_destroy h cm)"
  unfolding monitor_destroy_def Let_def
  by (rule ensures_then [OF unregister_filesystems_place], rule ensures_then [OF free_pp_place]) simp

lemma ioctl_good:
  assumes "co_monitor_ioctl h p r cm = Some (rc, reply, cm')" "alive cm'" "monitor_typed cm"
  shows "good_step cm cm'"
proof -
  from assms(1) obtain d where d: "mg_opens (cm_manager cm) p = Some d" by (auto simp: co_monitor_ioctl_def bind_eq_Some_conv)
  note run = co_monitor_ioctl_def bind_eq_Some_conv d
  note kg = keeps_good [OF assms(3)]
  show ?thesis
  proof (cases r)
    case IOCTL_CLOSE
    then obtain mg where mg: "(if mg_mons mg (cm_self cm) = None then monitor_destroy h (cm\<lparr>cm_manager := mg\<rparr>)
        else Some (cm\<lparr>cm_manager := mg\<rparr>)) = Some cm'"
      using assms(1) by (auto simp: run Let_def)
    show ?thesis
    proof (cases "mg_mons mg (cm_self cm) = None")
      case True
      with mg have "monitor_destroy h (cm\<lparr>cm_manager := mg\<rparr>) = Some cm'" by simp
      from ensuresD [OF destroyed_gone this] True assms(2) show ?thesis by (simp add: alive_def)
    next
      case False
      with mg have "cm' = cm\<lparr>cm_manager := mg\<rparr>" by simp
      then show ?thesis using kg [of cm'] by simp
    qed
  next
    case (IOCTL_GET_CONSOLE malloc answers)
    then have "co_monitor_user_get_console h malloc answers cm = Some (rc, cm')" using assms(1) by (auto simp: run)
    from ensuresD [OF get_console_keeps [OF keeps_refl] this] kg show ?thesis by simp
  next
    case (IOCTL_VIDEO_ATTACH mapped unit)
    then obtain a where "video_attach h mapped unit cm = Some (rc, a, cm')" using assms(1) by (auto simp: run)
    from ensuresD [OF video_attach_keeps [OF keeps_refl] this] kg show ?thesis by simp
  next
    case IOCTL_GET_STATE
    then have "cm' = cm" using assms(1) by (auto simp: run Let_def co_monitor_user_get_state_def split: if_splits)
    then show ?thesis using kg [of cm'] by simp
  next
    case (IOCTL_RESET as garbage)
    then have "cm' = cm \<or> co_monitor_user_reset h as garbage cm = Some (rc, cm')"
      using assms(1) by (auto simp: run Let_def split: if_splits)
    then show ?thesis using kg [of cm'] ensuresD [OF reset_good] by fastforce
  next
    case (IOCTL_LOAD_SECTION address bytes data)
    then have "cm' = cm \<or> load_section address bytes data cm = Some (rc, cm')"
      using assms(1) by (auto simp: run Let_def split: if_splits)
    then show ?thesis using kg [of cm'] ensuresD [OF load_section_good [OF assms(3)]] by fastforce
  next
    case (IOCTL_LOAD_INITRD bytes data)
    then have "cm' = cm \<or> load_initrd bytes data cm = Some (rc, cm')"
      using assms(1) by (auto simp: run Let_def split: if_splits)
    then show ?thesis using kg [of cm'] ensuresD [OF load_initrd_good [OF assms(3)]] by fastforce
  next
    case (IOCTL_START a stamp)
    then have "cm' = cm \<or> start h a stamp cm = Some (rc, cm')"
      using assms(1) by (auto simp: run Let_def split: if_splits)
    then show ?thesis using kg [of cm'] ensuresD [OF start_good [OF assms(3)]] by fastforce
  next
    case (IOCTL_RUN gs)
    then have "cm' = cm \<or> run h gs cm = Some (rc, cm')"
      using assms(1) by (auto simp: run Let_def split: if_splits)
    then show ?thesis using kg [of cm'] run_good [OF _ assms(3)] by fastforce
  next
    case (IOCTL_OTHER rc')
    then have "cm' = cm" using assms(1) by (auto simp: run)
    then show ?thesis using kg [of cm'] by simp
  qed
qed

lemma step_good:
  assumes "monitor_step h cm cm'" "monitor_typed cm"
  shows "good_step cm cm'"
  using assms(1)
proof cases
  case step_request
  from ioctl_good [OF this assms(2)] show ?thesis .
next
  case (step_message dup_rc msg rc)
  then have "keeps cm cm'" by (auto simp: co_monitor_message_from_user_def keeps_def split: if_splits)
  from keeps_good [OF assms(2) this] show ?thesis .
next
  case step_timer
  then show ?thesis using keeps_good [OF assms(2), of cm'] by simp
next
  case (step_scsi garbage dup_rc)
  from ensuresD [OF scsi_work_keeps [OF keeps_refl] this] keeps_good [OF assms(2)] show ?thesis by simp
next
  case (step_block k status bs dup_rc)
  from ensuresD [OF block_done_keeps [OF keeps_refl] this] keeps_good [OF assms(2)] show ?thesis by simp
qed

section \<open>Creation\<close>

lemma create_video_keeps: "keeps a cm \<Longrightarrow> keeps a (snd (create_video answer cm))"
  unfolding create_video_def by (auto split: list.split option.split prod.split)

lemma build_good: "ensures (\<lambda>(rc, c). rc_ok rc \<longrightarrow> cm_pp c) (monitor_build h a as garbage cm)"
  unfolding monitor_build_def
proof (rule ensures_then [OF alloc_pp_result], clarify)
  fix rc and c :: "'a co_monitor"
  assume pp: "cm_state c = cm_state cm" "rc_ok rc \<longrightarrow> cm_pp c"
  have load: "ensures (\<lambda>r. keeps c (snd (if rc_ok (fst r) then create_video (ca_video a) (snd r) else r))) (load_configuration h as garbage c)"
    by (rule ensures_mono [OF load_configuration_keeps [OF keeps_refl]]) (simp add: create_video_keeps)
  show "ensures (\<lambda>(rc, c). rc_ok rc \<longrightarrow> cm_pp c)
    (if \<not> rc_ok rc then Some (rc, c)
     else if \<not> rc_ok (ca_timer a) then do { cm \<leftarrow> free_pseudo_physical_memory c; Some (ca_timer a, cm) }
     else do {
       (rc, cm) \<leftarrow> load_configuration h as garbage c;
       let (rc, cm) = (if rc_ok rc then create_video (ca_video a) cm else (rc, cm));
       if rc_ok rc then Some (rc, cm)
       else do { cm \<leftarrow> free_pseudo_physical_memory cm; Some (rc, cm) } })"
    using pp(2)
    by (auto intro!: ensures_then [OF load] ensures_then [OF free_pp_result] simp: keeps_def split: prod.split)
qed

lemma create_good:
  "ensures (\<lambda>(rc, mg', w', c). \<forall>cm. c = Some cm \<longrightarrow> cm_state cm = CO_MONITOR_STATE_INITIALIZED \<and> cm_pp cm)
     (co_monitor_create h a as garbage hostmem cf con im m mg w)"
  unfolding co_monitor_create_def Let_def
  by (auto intro!: ensures_then [OF build_good] split: option.split prod.split)

lemma reach_typed: "monitor_reach h cm \<Longrightarrow> monitor_typed cm"
proof (induction rule: monitor_reach.induct)
  case (created a as garbage hostmem cf con im m mg w rc mg' w' cm)
  from ensuresD [OF create_good created] show ?case by (simp add: monitor_typed_def)
next
  case (stepped cm cm')
  then show ?case using step_good by (auto simp: good_step_def)
qed

section \<open>The states of a monitor\<close>

text \<open>C2: The life of a monitor. Whatever requests, messages, timer ticks and completions it has seen, a monitor that
  is started or runs has its timer active, one that is started, runs or has terminated has its passage page, and one
  that is not empty has the tables of its memory; and no step leaves the order of the states: a monitor is started
  only from the initialised state, runs only after it was started, and terminates only out of a run.\<close>

theorem monitor_lifecycle:
  assumes "monitor_reach h cm"
  shows "monitor_typed cm \<and> (\<forall>cm'. monitor_step h cm cm' \<longrightarrow> monitor_typed cm' \<and> may_follow (cm_state cm) (cm_state cm'))"
  using reach_typed [OF assms] step_good [of h cm] by (auto simp: good_step_def)

text \<open>A monitor of 8 MB without devices.\<close>

lemma load_disabled:
  "load_scsi (replicate n (False, sd)) m = (RC_OK, replicate n None, m)"
  "\<not> bd_enabled bd \<Longrightarrow> load_blocks async i (replicate n bd) devs m = (RC_OK, devs, m)"
  "load_cofs as i (replicate n (False, path)) fss = Some (RC_OK, fss)"
  "load_video garbage (replicate n (False, vd)) (replicate n None) m = (RC_OK, replicate n None, m)"
  by (induction n arbitrary: i) simp_all

definition example_config :: co_config where
  "example_config = \<lparr>cf_ram_size = 8,
     cf_scsi_devs = replicate CO_MODULE_MAX_COSCSI (False, \<lparr>sc_unit = 0, sc_type = 0, sc_pathname = [],
       sc_is_dev = False, sc_size = 0, sc_shared = False, sc_handle = 0\<rparr>),
     cf_block_devs = replicate 32 \<lparr>bd_enabled = False, bd_pathname = [], bd_alias_used = False, bd_alias = []\<rparr>,
     cf_cofs_devs = replicate 32 (False, []),
     cf_video_devs = replicate CO_MODULE_MAX_COVIDEO (False, \<lparr>vd_unit = 0, vd_address = 0, vd_buffer = None, vd_size = 0,
       vd_width = 0, vd_height = 0, vd_bpp = 0\<rparr>),
     cf_net_devs = replicate CO_MODULE_MAX_CONET \<lparr>nd_enabled = False, nd_mac_address = []\<rparr>,
     cf_pci = (\<lambda>x y. no_place), cf_boot_line = []\<rparr>"

definition example_answers :: create_answers where
  "example_answers = \<lparr>ca_magic = True, ca_monitor = Some 5, ca_console = True, ca_early = [], ca_timer = RC_OK,
     ca_video = None, ca_id = 77\<rparr>"

definition example_memory :: vm where
  "example_memory = \<lparr>phys = Map.empty, pp_pfns = Map.empty, hostmem_pages = 100, end_physical = 0, reversed_page_count = 0,
     reversed_map_pfns = [], reversed_map_pgds = [], os_pages = [Some 11, Some 12], os_fill = (\<lambda>p i. 0xcc),
     os_mallocs = [True, True]\<rparr>"

lemma example_scan:
  "\<exists>m. co_monitor_scan_and_create_pfns (example_memory\<lparr>os_mallocs := [True], end_physical := e\<rparr>)
     CO_VPTR_PSEUDO_RAM_PAGE_TABLES 0x2000 = Some (RC_OK, m)"
proof -
  have "part_of CO_VPTR_PSEUDO_RAM_PAGE_TABLES 0x2000 = 0x1000" "part_of (CO_VPTR_PSEUDO_RAM_PAGE_TABLES + 0x1000) 0x1000 = 0x1000"
    by code_simp+
  then show ?thesis
    by (simp add: co_monitor_scan_and_create_pfns_def co_manager_scan_pfns_and_callback_def co_split_by_pages_and_callback.simps
      scan_pfns_split_callback_def ensure_group_def co_monitor_malloc_def co_manager_get_page_def co_os_get_page_def set_pfn_def
      example_memory_def pfn_group_def pfn_index_def)
qed


abbreviation example_console :: co_console_config where
  "example_console \<equiv> \<lparr>cfg_x = 80, cfg_y = 25, cfg_max_y = 25, cfg_curs_type_size = 0, cfg_attr = 7\<rparr>"

abbreviation example_import :: co_symbols_import where
  "example_import \<equiv> \<lparr>kernel_start = 0xc0100000, kernel_end = 0xc0400000, kernel_swapper_pg_dir = 0xc0101000\<rparr>"

lemma example_alloc:
  assumes "cm_memory_size cm = 0x800000" "cm_vm cm = example_memory\<lparr>end_physical := e\<rparr>"
  shows "\<exists>m. alloc_pp_ram_mapping cm = Some (RC_OK, cm\<lparr>cm_vm := m, cm_pp := True\<rparr>)"
proof -
  obtain m where m: "co_monitor_scan_and_create_pfns (example_memory\<lparr>os_mallocs := [True], end_physical := e\<rparr>)
      CO_VPTR_PSEUDO_RAM_PAGE_TABLES 0x2000 = Some (RC_OK, m)" using example_scan by blast
  have malloc: "co_monitor_malloc (cm_vm cm) = (True, example_memory\<lparr>os_mallocs := [True], end_physical := e\<rparr>)"
    using assms(2) by (simp add: co_monitor_malloc_def example_memory_def)
  have pp: "example_memory\<lparr>os_mallocs := [True], end_physical := e, pp_pfns := Map.empty\<rparr> =
      example_memory\<lparr>os_mallocs := [True], end_physical := e\<rparr>" by (simp add: example_memory_def)
  have "(0x800000 :: u32) AND mask CO_ARCH_PMD_SHIFT = 0" "drop_bit CO_ARCH_PMD_SHIFT (0x800000 :: u32) = 2" by code_simp+
  then show ?thesis using m by (intro exI [of _ m]) (simp add: alloc_pp_ram_mapping_def assms(1) malloc pp rc_then_def Let_def)
qed

lemma example_load:
  "cm_config cm = example_config \<Longrightarrow> cm_video_devs cm = replicate CO_MODULE_MAX_COVIDEO None \<Longrightarrow>
   \<exists>c. load_configuration h as garbage cm = Some (RC_OK, c) \<and> cm_video_devs c = replicate CO_MODULE_MAX_COVIDEO None"
  by (simp add: load_configuration_def example_config_def load_disabled co_pci_setconfig_def Let_def)

lemma example_build:
  assumes "cm_memory_size cm = 0x800000" "cm_vm cm = example_memory\<lparr>end_physical := e\<rparr>" "cm_config cm = example_config"
    and "cm_video_devs cm = replicate CO_MODULE_MAX_COVIDEO None"
  shows "\<exists>c. monitor_build h example_answers as garbage cm = Some (RC_OK, c)"
proof -
  obtain m where 1: "alloc_pp_ram_mapping cm = Some (RC_OK, cm\<lparr>cm_vm := m, cm_pp := True\<rparr>)"
    using example_alloc [OF assms(1,2)] by blast
  obtain c where 2: "load_configuration h as garbage (cm\<lparr>cm_vm := m, cm_pp := True\<rparr>) = Some (RC_OK, c)"
    "cm_video_devs c = replicate CO_MODULE_MAX_COVIDEO None"
    using example_load [of "cm\<lparr>cm_vm := m, cm_pp := True\<rparr>"] assms(3,4) by fastforce
  then have "create_video None c = (RC_OK, c)" by (simp add: create_video_def numeral_2_eq_2)
  with 1 2 show ?thesis by (simp add: monitor_build_def example_answers_def)
qed

lemma example_created:
  "\<exists>mg w' cm. co_monitor_create h example_answers as garbage 512 example_config example_console example_import
     example_memory (no_descriptors 0x10000000) w = Some (RC_OK, mg, w', Some cm) \<and> cm_state cm = CO_MONITOR_STATE_INITIALIZED"
proof -
  let ?mg = "no_descriptors 0x10000000"
  obtain con where con: "co_console_create example_console True = Some (RC_OK, Some con)"
    using co_console_create_wf [of example_console] by auto
  let ?cm = "zeroed_monitor example_config example_import con 0x800000 example_memory (?mg\<lparr>mg_hostmem_used := 0x800000\<rparr>) 5 w"
  have size: "monitor_memory_size 512 8 = 0x800000" by code_simp
  have ram: "cf_ram_size example_config = 8" by (simp add: example_config_def)
  have res: "reserve_hostmem 0x800000 ?mg = (RC_OK, ?mg\<lparr>mg_hostmem_used := 0x800000\<rparr>)"
    by (simp add: reserve_hostmem_def no_descriptors_def)
  have ans: "ca_magic example_answers" "ca_monitor example_answers = Some 5" "ca_console example_answers"
    "first_error (ca_early example_answers) = RC_OK" by (simp_all add: example_answers_def)
  have "cm_memory_size ?cm = 0x800000" "cm_vm ?cm = example_memory\<lparr>end_physical := CO_ARCH_KERNEL_OFFSET + 0x800000\<rparr>"
    "cm_config ?cm = example_config" "cm_video_devs ?cm = replicate CO_MODULE_MAX_COVIDEO None"
    by (simp_all add: zeroed_monitor_def)
  from example_build [OF this] obtain c where "monitor_build h example_answers as garbage ?cm = Some (RC_OK, c)" ..
  then show ?thesis
    unfolding co_monitor_create_def using ans by (simp add: con ram size res)
qed

lemma example_reached: "\<exists>cm. monitor_reach h cm \<and> cm_state cm = CO_MONITOR_STATE_INITIALIZED"
  using example_created monitor_reach.created by meson

theorem monitor_lifecycle_witness:
  "\<forall>h :: unit mon_host. \<exists>cm. cm_state cm = CO_MONITOR_STATE_INITIALIZED \<and> monitor_typed cm"
  using example_reached monitor_lifecycle by blast

end
