(* ===== verification/CoPassagePage.thy ===== *)
theory CoPassagePage
  imports CoErrors
begin

text \<open>
  The passage page: the memory through which host and guest are switched. Translated from
  \<open>src/colinux/arch/i386/passage.c\<close> (the temporary address spaces and the guest's first state) and
  \<open>src/colinux/arch/i386/antinx.c\<close> (making the page executable); the layouts come from the kernel patch
  \<open>src/patched.diff\<close>. The code that switches is assembly; what it relies on is that the temporary address spaces map
  the passage page, and nothing else, at its two addresses. A table is a function of the index; \<open>v2p\<close> is
  \<open>co_os_virt_to_phys\<close>.
\<close>

abbreviation KERNPG_TABLE :: u32 where "KERNPG_TABLE \<equiv> 0x63"
abbreviation PMD_SHIFT :: nat where "PMD_SHIFT \<equiv> 22"
abbreviation PAE_PGD_SHIFT :: nat where "PAE_PGD_SHIFT \<equiv> 30"
abbreviation PAE_PMD_SHIFT :: nat where "PAE_PMD_SHIFT \<equiv> 21"
abbreviation PAGE_SHIFT :: nat where "PAGE_SHIFT \<equiv> 12"

section \<open>The temporary address spaces\<close>

record normal_address_space =
  ns_pgd :: "nat \<Rightarrow> u32"
  ns_pte :: "nat \<Rightarrow> nat \<Rightarrow> u32"

record pae_address_space =
  ps_main :: "nat \<Rightarrow> u64"
  ps_pgd :: "nat \<Rightarrow> nat \<Rightarrow> u64"
  ps_pte :: "nat \<Rightarrow> nat \<Rightarrow> u64"

abbreviation no_normal :: normal_address_space where "no_normal \<equiv> \<lparr>ns_pgd = (\<lambda>_. 0), ns_pte = (\<lambda>_ _. 0)\<rparr>"
abbreviation no_pae :: pae_address_space where "no_pae \<equiv> \<lparr>ps_main = (\<lambda>_. 0), ps_pgd = (\<lambda>_ _. 0), ps_pte = (\<lambda>_ _. 0)\<rparr>"

text \<open>The indices of an address in the tables, and the addresses of the tables of a space at \<open>base\<close>.\<close>

definition pmd_of :: "u32 \<Rightarrow> nat" where "pmd_of v = unat (drop_bit PMD_SHIFT v)"
definition pte_of_va :: "u32 \<Rightarrow> nat" where "pte_of_va v = unat (drop_bit PAGE_SHIFT (v AND mask PMD_SHIFT))"
definition pae_pgd_of :: "u32 \<Rightarrow> nat" where "pae_pgd_of v = unat (drop_bit PAE_PGD_SHIFT v)"
definition pae_pmd_of :: "u32 \<Rightarrow> nat" where "pae_pmd_of v = unat (drop_bit PAE_PMD_SHIFT (v AND mask PAE_PGD_SHIFT))"
definition pae_pte_of :: "u32 \<Rightarrow> nat" where "pae_pte_of v = unat (drop_bit PAGE_SHIFT (v AND mask PAE_PMD_SHIFT))"

definition normal_pte_at :: "u32 \<Rightarrow> nat \<Rightarrow> u32" where "normal_pte_at base j = base + 0x1000 + of_nat j * 0x1000"
definition pae_pgd_at :: "u32 \<Rightarrow> nat \<Rightarrow> u32" where "pae_pgd_at base j = base + 0x1000 + of_nat j * 0x1000"
definition pae_pte_at :: "u32 \<Rightarrow> nat \<Rightarrow> u32" where "pae_pte_at base k = base + 0x3000 + of_nat k * 0x1000"

definition short_temp_address_space_init ::
    "(u32 \<Rightarrow> u32) \<Rightarrow> u32 \<Rightarrow> u32 \<Rightarrow> u32 \<Rightarrow> u32 \<Rightarrow> normal_address_space \<Rightarrow> normal_address_space" where
  "short_temp_address_space_init v2p base pa va0 va1 as =
     (let pmd0 = pmd_of va0; pte0 = pte_of_va va0; paddr0 = v2p (normal_pte_at base 0);
          pmd1 = pmd_of va1; pte1 = pte_of_va va1; paddr1 = v2p (normal_pte_at base 1);
          pgd = ns_pgd as; pte = ns_pte as
      in if pmd0 = pmd1
         then as\<lparr>ns_pgd := pgd(pmd0 := KERNPG_TABLE OR paddr0),
                 ns_pte := pte(0 := (pte 0)(pte0 := KERNPG_TABLE OR pa, pte1 := KERNPG_TABLE OR pa))\<rparr>
         else as\<lparr>ns_pgd := pgd(pmd0 := KERNPG_TABLE OR paddr0, pmd1 := KERNPG_TABLE OR paddr1),
                 ns_pte := pte(0 := (pte 0)(pte0 := KERNPG_TABLE OR pa), 1 := (pte 1)(pte1 := KERNPG_TABLE OR pa))\<rparr>)"

text \<open>One round of the loop: the address \<open>v\<close> with table \<open>i\<close>, or table 0 when the directory has its entry.\<close>

definition normal_map :: "(u32 \<Rightarrow> u32) \<Rightarrow> u32 \<Rightarrow> u32 \<Rightarrow> nat \<Rightarrow> u32 \<Rightarrow> normal_address_space \<Rightarrow> normal_address_space" where
  "normal_map v2p base pa i v as =
     (let pmd = pmd_of v; pte = pte_of_va v; fresh = ns_pgd as pmd = 0; j = (if fresh then i else 0);
          as = (if fresh then as\<lparr>ns_pgd := (ns_pgd as)(pmd := KERNPG_TABLE OR v2p (normal_pte_at base j))\<rparr> else as)
      in as\<lparr>ns_pte := (ns_pte as)(j := (ns_pte as j)(pte := KERNPG_TABLE OR pa))\<rparr>)"

definition normal_temp_address_space_init ::
    "(u32 \<Rightarrow> u32) \<Rightarrow> u32 \<Rightarrow> u32 \<Rightarrow> u32 \<Rightarrow> normal_address_space \<Rightarrow> normal_address_space" where
  "normal_temp_address_space_init v2p base pa va as = normal_map v2p base pa 1 pa (normal_map v2p base pa 0 va as)"

definition pae_map :: "(u32 \<Rightarrow> u32) \<Rightarrow> u32 \<Rightarrow> u32 \<Rightarrow> nat \<Rightarrow> u32 \<Rightarrow> pae_address_space \<Rightarrow> pae_address_space" where
  "pae_map v2p base pa i v as =
     (let pgd = pae_pgd_of v; pmd = pae_pmd_of v; pte = pae_pte_of v;
          no_pgd = ps_main as pgd = 0; j = (if no_pgd then i else 0);
          as = (if no_pgd then as\<lparr>ps_main := (ps_main as)(pgd := ucast (1 OR v2p (pae_pgd_at base j)))\<rparr> else as);
          no_pmd = ps_pgd as j pmd = 0; k = (if no_pmd then i else 0);
          as = (if no_pmd
                then as\<lparr>ps_pgd := (ps_pgd as)(j := (ps_pgd as j)(pmd := ucast (KERNPG_TABLE OR v2p (pae_pte_at base k))))\<rparr>
                else as)
      in as\<lparr>ps_pte := (ps_pte as)(k := (ps_pte as k)(pte := ucast (KERNPG_TABLE OR pa)))\<rparr>)"

definition pae_temp_address_space_init ::
    "(u32 \<Rightarrow> u32) \<Rightarrow> u32 \<Rightarrow> u32 \<Rightarrow> u32 \<Rightarrow> pae_address_space \<Rightarrow> pae_address_space" where
  "pae_temp_address_space_init v2p base pa va as = pae_map v2p base pa 1 pa (pae_map v2p base pa 0 va as)"

section \<open>The passage page\<close>

datatype passage_func =
    co_monitor_passage_func_short_sysenter
  | co_monitor_passage_func_sysenter
  | co_monitor_passage_func_short
  | co_monitor_passage_func

text \<open>The fields of \<open>co_arch_state_stack_t\<close> that are set; \<open>temp_cr3\<close> and \<open>other_map\<close> share their place.\<close>

record arch_state =
  st_ds :: u32
  st_es :: u32
  st_fs :: u32
  st_gs :: u32
  st_ss :: u32
  st_cs :: u32
  st_cr0 :: u32
  st_cr3 :: u32
  st_cr4 :: u32
  st_gdt_base :: u32
  st_gdt_limit :: u16
  st_idt_table :: u32
  st_idt_size :: u16
  st_ldt :: u16
  st_tr :: u16
  st_return_eip :: u32
  st_flags :: u32
  st_esp :: u32
  st_dr :: "nat \<Rightarrow> u32"
  st_temp_cr3 :: u32
  st_va :: u32

text \<open>The first word is \<open>self_physical_address\<close> or \<open>temp_pgd_physical\<close>. Two spaces share the memory of each union.\<close>

record passage_memory =
  pm_physical :: u32
  pm_code :: "passage_func option"
  pm_host :: arch_state
  pm_linux :: arch_state
  pm_normal :: normal_address_space
  pm_pae :: pae_address_space

text \<open>What the monitor knows: the processor, the page's address, the kernel's symbols and segments.\<close>

record passage_config =
  pc_sizes :: "passage_func \<Rightarrow> nat"
  pc_caps :: u32
  pc_pae :: bool
  pc_page :: u32
  pc_guest_va :: u32
  pc_pgd :: u32
  pc_gdt_table :: u32
  pc_idt_table :: u32
  pc_init_task :: u32
  pc_colinux_start :: u32
  pc_kernel_cs :: u32
  pc_kernel_ds :: u32
  pc_dr :: "nat \<Rightarrow> u32"

abbreviation sizeof_code :: nat where "sizeof_code \<equiv> 0x260"
abbreviation FEATURE_SEP :: nat where "FEATURE_SEP \<equiv> 11"
abbreviation guest_normal_at :: "u32 \<Rightarrow> u32" where "guest_normal_at page \<equiv> page + 0x1000"
abbreviation host_pae_at :: "u32 \<Rightarrow> u32" where "host_pae_at page \<equiv> page + 0x4000"

definition passage_code :: "passage_config \<Rightarrow> passage_func" where
  "passage_code c =
     (if bit (pc_caps c) FEATURE_SEP
      then if \<not> pc_pae c then co_monitor_passage_func_short_sysenter else co_monitor_passage_func_sysenter
      else if \<not> pc_pae c then co_monitor_passage_func_short else co_monitor_passage_func)"

definition linuxvm_state_init :: "passage_config \<Rightarrow> u16 \<Rightarrow> arch_state \<Rightarrow> arch_state" where
  "linuxvm_state_init c host_limit s =
     s\<lparr>st_dr := (\<lambda>i. if i \<in> {0, 1, 2, 3, 6, 7} then pc_dr c i else st_dr s i), st_tr := 0, st_ldt := 0, st_cr4 := 0,
       st_cr3 := pc_pgd c, st_gdt_base := pc_gdt_table c,
       st_gdt_limit := (if 8 * 0x20 - 1 < host_limit then host_limit else 8 * 0x20 - 1),
       st_idt_table := pc_idt_table c, st_idt_size := 256 * 8 - 1, st_cr0 := 0x80010031,
       st_esp := pc_init_task c + 0x2000 - 0x50, st_flags := 0, st_return_eip := pc_colinux_start c,
       st_cs := pc_kernel_cs c, st_ds := pc_kernel_ds c, st_es := pc_kernel_ds c, st_fs := pc_kernel_ds c,
       st_gs := pc_kernel_ds c, st_ss := pc_kernel_ds c\<rparr>"

definition co_monitor_arch_passage_page_init ::
    "(u32 \<Rightarrow> u32) \<Rightarrow> passage_config \<Rightarrow> passage_memory \<Rightarrow> co_rc \<times> passage_memory" where
  "co_monitor_arch_passage_page_init v2p c pm =
     (if pc_sizes c co_monitor_passage_func_short_sysenter > sizeof_code \<or> pc_sizes c co_monitor_passage_func_sysenter > sizeof_code \<or>
        pc_sizes c co_monitor_passage_func_short > sizeof_code \<or> pc_sizes c co_monitor_passage_func > sizeof_code
      then (RC_ERROR, pm)
      else
        let page = pc_page c; pa = v2p page;
            pm = pm\<lparr>pm_code := Some (passage_code c), pm_physical := pa\<rparr>;
            pm = (if \<not> pc_pae c
              then pm\<lparr>pm_physical := v2p (guest_normal_at page),
                      pm_normal := short_temp_address_space_init v2p (guest_normal_at page) pa (pc_guest_va c) page (pm_normal pm),
                      pm_linux := (pm_linux pm)\<lparr>st_temp_cr3 := page - pc_guest_va c\<rparr>,
                      pm_host := (pm_host pm)\<lparr>st_temp_cr3 := pc_guest_va c - page\<rparr>\<rparr>
              else pm\<lparr>pm_pae := pae_temp_address_space_init v2p (host_pae_at page) pa page (pm_pae pm),
                      pm_host := (pm_host pm)\<lparr>st_temp_cr3 := v2p (host_pae_at page), st_va := page\<rparr>,
                      pm_normal := normal_temp_address_space_init v2p (guest_normal_at page) pa (pc_guest_va c) (pm_normal pm),
                      pm_linux := (pm_linux pm)\<lparr>st_temp_cr3 := v2p (guest_normal_at page), st_va := pc_guest_va c\<rparr>\<rparr>)
        in (RC_OK, pm\<lparr>pm_linux := linuxvm_state_init c (st_gdt_limit (pm_host pm)) (pm_linux pm)\<rparr>))"

section \<open>What the processor does with the tables\<close>

text \<open>Physical memory as tables of 32-bit or 64-bit entries, by frame.\<close>

definition translate :: "(u32 \<rightharpoonup> (nat \<Rightarrow> u32)) \<Rightarrow> u32 \<Rightarrow> u32 \<Rightarrow> u32 option" where
  "translate mem cr3 v = do {
     pgd \<leftarrow> mem (drop_bit PAGE_SHIFT cr3);
     let e = pgd (pmd_of v);
     if \<not> bit e 0 then None
     else if bit e 7 then Some ((e AND NOT (mask PMD_SHIFT)) OR (v AND mask PMD_SHIFT))
     else do {
       pte \<leftarrow> mem (drop_bit PAGE_SHIFT e);
       let e = pte (pte_of_va v);
       if bit e 0 then Some ((e AND NOT (mask PAGE_SHIFT)) OR (v AND mask PAGE_SHIFT)) else None } }"

text \<open>With PAE: the entry that maps an address, its frame and index, and whether it maps a large page.\<close>

definition pae_frame :: "u64 \<Rightarrow> u32" where "pae_frame e = ucast (drop_bit PAGE_SHIFT e)"

definition pae_leaf :: "(u32 \<rightharpoonup> (nat \<Rightarrow> u64)) \<Rightarrow> u32 \<Rightarrow> u32 \<Rightarrow> (u32 \<times> nat \<times> bool) option" where
  "pae_leaf mem cr3 v = do {
     main \<leftarrow> mem (drop_bit PAGE_SHIFT cr3);
     let e = main (unat (drop_bit 3 (cr3 AND 0xfe0)) + pae_pgd_of v);
     if \<not> bit e 0 then None
     else do {
       pgd \<leftarrow> mem (pae_frame e);
       let d = pgd (pae_pmd_of v);
       if \<not> bit d 0 then None
       else if bit d 7 then Some (pae_frame e, pae_pmd_of v, True)
       else do {
         pte \<leftarrow> mem (pae_frame d);
         if bit (pte (pae_pte_of v)) 0 then Some (pae_frame d, pae_pte_of v, False) else None } } }"

definition pae_translate :: "(u32 \<rightharpoonup> (nat \<Rightarrow> u64)) \<Rightarrow> u32 \<Rightarrow> u32 \<Rightarrow> u64 option" where
  "pae_translate mem cr3 v = do {
     (p, i, large) \<leftarrow> pae_leaf mem cr3 v;
     table \<leftarrow> mem p;
     let n = (if large then PAE_PMD_SHIFT else PAGE_SHIFT);
     Some (push_bit n (take_bit (52 - n) (drop_bit n (table i))) OR ucast (v AND mask n)) }"

text \<open>The tables of the passage page where the processor finds them.\<close>

definition normal_frames :: "(u32 \<Rightarrow> u32) \<Rightarrow> u32 \<Rightarrow> normal_address_space \<Rightarrow> u32 \<rightharpoonup> (nat \<Rightarrow> u32)" where
  "normal_frames v2p base as = map_of (map (\<lambda>(a, t). (drop_bit PAGE_SHIFT (v2p a), t))
     [(base, ns_pgd as), (normal_pte_at base 0, ns_pte as 0), (normal_pte_at base 1, ns_pte as 1)])"

definition pae_frames :: "(u32 \<Rightarrow> u32) \<Rightarrow> u32 \<Rightarrow> pae_address_space \<Rightarrow> u32 \<rightharpoonup> (nat \<Rightarrow> u64)" where
  "pae_frames v2p base as = map_of (map (\<lambda>(a, t). (drop_bit PAGE_SHIFT (v2p a), t))
     [(base, ps_main as), (pae_pgd_at base 0, ps_pgd as 0), (pae_pgd_at base 1, ps_pgd as 1),
      (pae_pte_at base 0, ps_pte as 0), (pae_pte_at base 1, ps_pte as 1)])"

text \<open>Pages have physical addresses of pages, different ones for the pages of the passage page.\<close>

definition passage_pages :: "u32 \<Rightarrow> u32 list" where
  "passage_pages page = map (\<lambda>k. page + of_nat k * 0x1000) [0..<9]"

definition pages_apart :: "(u32 \<Rightarrow> u32) \<Rightarrow> u32 \<Rightarrow> bool" where
  "pages_apart v2p page \<longleftrightarrow> distinct (map (\<lambda>a. drop_bit PAGE_SHIFT (v2p a)) (passage_pages page)) \<and>
     list_all (\<lambda>a. take_bit PAGE_SHIFT (v2p a) = 0) (passage_pages page)"

section \<open>The spaces map the passage page and nothing else\<close>

definition same_page :: "u32 \<Rightarrow> u32 \<Rightarrow> bool" where
  "same_page v w \<longleftrightarrow> drop_bit PAGE_SHIFT v = drop_bit PAGE_SHIFT w"

lemma split_field:
  fixes v w :: "'a :: len word"
  assumes "n \<le> m"
  shows "drop_bit n v = drop_bit n w \<longleftrightarrow>
    drop_bit m v = drop_bit m w \<and> drop_bit n (v AND mask m) = drop_bit n (w AND mask m)"
proof (intro iffI conjI)
  assume l: "drop_bit n v = drop_bit n w"
  have b: "bit v (n + i) = bit w (n + i)" for i using arg_cong [OF l, of "\<lambda>x. bit x i"] by (simp add: bit_simps)
  show "drop_bit m v = drop_bit m w"
    by (rule bit_word_eqI) (use b [of "m - n + _"] assms in \<open>simp add: bit_simps\<close>)
  show "drop_bit n (v AND mask m) = drop_bit n (w AND mask m)" by (rule bit_word_eqI) (use b in \<open>simp add: bit_simps\<close>)
next
  assume r: "drop_bit m v = drop_bit m w \<and> drop_bit n (v AND mask m) = drop_bit n (w AND mask m)"
  have h: "bit v (m + i) = bit w (m + i)" for i
    using arg_cong [OF conjunct1 [OF r], of "\<lambda>x. bit x i"] by (simp add: bit_simps)
  have l: "n + i < m \<Longrightarrow> bit v (n + i) = bit w (n + i)" for i
    using arg_cong [OF conjunct2 [OF r], of "\<lambda>x. bit x i"] by (auto simp: bit_simps dest: bit_imp_le_length)
  show "drop_bit n v = drop_bit n w"
  proof (rule bit_word_eqI)
    fix i assume "i < LENGTH('a)"
    show "bit (drop_bit n v) i = bit (drop_bit n w) i"
      using l [of i] h [of "n + i - m"] by (cases "n + i < m") (simp_all add: bit_simps)
  qed
qed

lemma same_page_normal: "same_page v w \<longleftrightarrow> pmd_of v = pmd_of w \<and> pte_of_va v = pte_of_va w"
  using split_field [of PAGE_SHIFT PMD_SHIFT v w] by (simp add: same_page_def pmd_of_def pte_of_va_def unsigned_word_eqI word_unat_eq_iff del: drop_bit_and)

lemma same_page_pae: "same_page v w \<longleftrightarrow> pae_pgd_of v = pae_pgd_of w \<and> pae_pmd_of v = pae_pmd_of w \<and> pae_pte_of v = pae_pte_of w"
  using split_field [of PAGE_SHIFT PAE_PMD_SHIFT v w] split_field [of PAE_PMD_SHIFT PAE_PGD_SHIFT v w]
  by (simp add: same_page_def pae_pgd_of_def pae_pmd_of_def pae_pte_of_def word_unat_eq_iff del: drop_bit_and)

lemma entry_bits [simp]: "bit (KERNPG_TABLE OR p) 0" "bit (1 OR p) 0"
  by (simp_all add: bit_simps)

lemma low_bit: "take_bit k p = 0 \<Longrightarrow> n < k \<Longrightarrow> \<not> bit p n" for p :: "'a :: len word"
  using bit_take_bit_iff [of k p n] by simp

lemma high_bit: "drop_bit k p = 0 \<Longrightarrow> k \<le> n \<Longrightarrow> \<not> bit p n" for p :: "'a :: len word"
  using fun_cong [OF bit_drop_bit_eq [of k p], of "n - k"] by (metis bit_0 comp_apply le_add_diff_inverse bit_0_eq bot_apply bot_bool_def)

lemma entry_no_large: "take_bit PAGE_SHIFT p = 0 \<Longrightarrow> \<not> bit (KERNPG_TABLE OR p) 7"
  using low_bit [of PAGE_SHIFT p 7] by (simp add: bit_simps)

lemma entry_frame [simp]:
  "drop_bit PAGE_SHIFT (KERNPG_TABLE OR p) = drop_bit PAGE_SHIFT p" "drop_bit PAGE_SHIFT (1 OR p :: u32) = drop_bit PAGE_SHIFT p"
  by simp_all

lemma entry_address:
  assumes "take_bit PAGE_SHIFT p = 0"
  shows "(KERNPG_TABLE OR p) AND NOT (mask PAGE_SHIFT) = p"
proof (rule bit_word_eqI)
  fix n assume n: "n < LENGTH(32)"
  have "drop_bit PAGE_SHIFT KERNPG_TABLE = 0" by simp
  from high_bit [OF this] low_bit [OF assms] show "bit ((KERNPG_TABLE OR p) AND NOT (mask PAGE_SHIFT)) n = bit p n"
    using n by (cases "PAGE_SHIFT \<le> n") (simp_all add: bit_or_iff bit_and_iff bit_not_iff bit_mask_iff)
qed

lemma entry_nonzero: "KERNPG_TABLE OR p \<noteq> 0" "(1 OR p :: u32) \<noteq> 0"
  using entry_bits [of p] by fastforce+

text \<open>The tables of a space with three frames.\<close>

lemma normal_frames_simps:
  assumes "distinct [drop_bit PAGE_SHIFT (v2p base), drop_bit PAGE_SHIFT (v2p (normal_pte_at base 0)),
    drop_bit PAGE_SHIFT (v2p (normal_pte_at base 1))]"
  shows "normal_frames v2p base as (drop_bit PAGE_SHIFT (v2p base)) = Some (ns_pgd as)"
    "normal_frames v2p base as (drop_bit PAGE_SHIFT (v2p (normal_pte_at base 0))) = Some (ns_pte as 0)"
    "normal_frames v2p base as (drop_bit PAGE_SHIFT (v2p (normal_pte_at base 1))) = Some (ns_pte as 1)"
  using assms by (auto simp: normal_frames_def)

abbreviation maps_page :: "u32 \<Rightarrow> (u32 \<Rightarrow> bool) \<Rightarrow> (u32 \<Rightarrow> u32 option) \<Rightarrow> bool" where
  "maps_page pa at tr \<equiv> \<forall>v. tr v = (if at v then Some (pa OR (v AND mask PAGE_SHIFT)) else None)"

lemma short_space_maps:
  assumes apart: "distinct [drop_bit PAGE_SHIFT (v2p base), drop_bit PAGE_SHIFT (v2p (normal_pte_at base 0)),
      drop_bit PAGE_SHIFT (v2p (normal_pte_at base 1))]"
    and low: "take_bit PAGE_SHIFT (v2p (normal_pte_at base 0)) = 0" "take_bit PAGE_SHIFT (v2p (normal_pte_at base 1)) = 0"
      "take_bit PAGE_SHIFT pa = 0"
  shows "maps_page pa (\<lambda>v. same_page v va0 \<or> same_page v va1)
    (translate (normal_frames v2p base (short_temp_address_space_init v2p base pa va0 va1 no_normal)) (v2p base))"
  using normal_frames_simps [OF apart] entry_no_large [OF low(1)] entry_no_large [OF low(2)] entry_address [OF low(3)]
  by (auto simp: translate_def short_temp_address_space_init_def Let_def same_page_normal)

lemma normal_space_maps:
  assumes apart: "distinct [drop_bit PAGE_SHIFT (v2p base), drop_bit PAGE_SHIFT (v2p (normal_pte_at base 0)),
      drop_bit PAGE_SHIFT (v2p (normal_pte_at base 1))]"
    and low: "take_bit PAGE_SHIFT (v2p (normal_pte_at base 0)) = 0" "take_bit PAGE_SHIFT (v2p (normal_pte_at base 1)) = 0"
      "take_bit PAGE_SHIFT pa = 0"
  shows "maps_page pa (\<lambda>v. same_page v va \<or> same_page v pa)
    (translate (normal_frames v2p base (normal_temp_address_space_init v2p base pa va no_normal)) (v2p base))"
  using normal_frames_simps [OF apart] entry_no_large [OF low(1)] entry_no_large [OF low(2)] entry_address [OF low(3)]
  by (auto simp: translate_def normal_temp_address_space_init_def normal_map_def Let_def same_page_normal entry_nonzero)

lemma pae_frames_simps:
  assumes "distinct [drop_bit PAGE_SHIFT (v2p base), drop_bit PAGE_SHIFT (v2p (pae_pgd_at base 0)),
    drop_bit PAGE_SHIFT (v2p (pae_pgd_at base 1)), drop_bit PAGE_SHIFT (v2p (pae_pte_at base 0)), drop_bit PAGE_SHIFT (v2p (pae_pte_at base 1))]"
  shows "pae_frames v2p base as (drop_bit PAGE_SHIFT (v2p base)) = Some (ps_main as)"
    "pae_frames v2p base as (drop_bit PAGE_SHIFT (v2p (pae_pgd_at base 0))) = Some (ps_pgd as 0)"
    "pae_frames v2p base as (drop_bit PAGE_SHIFT (v2p (pae_pgd_at base 1))) = Some (ps_pgd as 1)"
    "pae_frames v2p base as (drop_bit PAGE_SHIFT (v2p (pae_pte_at base 0))) = Some (ps_pte as 0)"
    "pae_frames v2p base as (drop_bit PAGE_SHIFT (v2p (pae_pte_at base 1))) = Some (ps_pte as 1)"
  using assms by (auto simp: pae_frames_def)

lemma pae_entry_frame [simp]: "pae_frame (ucast w) = drop_bit PAGE_SHIFT w" for w :: u32
  unfolding pae_frame_def by (rule bit_word_eqI) (auto simp: bit_simps dest: bit_imp_le_length)

lemma pae_entry_bit [simp]: "bit (ucast w :: u64) n = bit w n" for w :: u32
  by (auto simp: bit_simps dest: bit_imp_le_length)

lemma pae_entry_nonzero: "(ucast (KERNPG_TABLE OR p) :: u64) \<noteq> 0" "(ucast (1 OR p :: u32) :: u64) \<noteq> 0"
  using pae_entry_bit [of "KERNPG_TABLE OR p" 0] pae_entry_bit [of "1 OR p" 0] by fastforce+

lemma pae_entry_address:
  assumes "take_bit PAGE_SHIFT p = 0"
  shows "push_bit PAGE_SHIFT (take_bit (52 - PAGE_SHIFT) (drop_bit PAGE_SHIFT (ucast (KERNPG_TABLE OR p) :: u64))) = ucast p"
proof (rule bit_word_eqI)
  fix n assume n: "n < LENGTH(64)"
  have "drop_bit PAGE_SHIFT KERNPG_TABLE = 0" by simp
  from high_bit [OF this] low_bit [OF assms] bit_imp_le_length [of p n]
  show "bit (push_bit PAGE_SHIFT (take_bit (52 - PAGE_SHIFT) (drop_bit PAGE_SHIFT (ucast (KERNPG_TABLE OR p) :: u64)))) n =
      bit (ucast p :: u64) n"
    using n by (cases "PAGE_SHIFT \<le> n") (auto simp: bit_push_bit_iff bit_take_bit_iff bit_drop_bit_eq bit_or_iff)
qed

lemma pae_space_maps:
  assumes apart: "distinct [drop_bit PAGE_SHIFT (v2p base), drop_bit PAGE_SHIFT (v2p (pae_pgd_at base 0)),
    drop_bit PAGE_SHIFT (v2p (pae_pgd_at base 1)), drop_bit PAGE_SHIFT (v2p (pae_pte_at base 0)), drop_bit PAGE_SHIFT (v2p (pae_pte_at base 1))]"
    and low: "take_bit PAGE_SHIFT (v2p base) = 0" "take_bit PAGE_SHIFT (v2p (pae_pte_at base 0)) = 0"
      "take_bit PAGE_SHIFT (v2p (pae_pte_at base 1)) = 0" "take_bit PAGE_SHIFT pa = 0"
  shows "pae_translate (pae_frames v2p base (pae_temp_address_space_init v2p base pa va no_pae)) (v2p base) v =
    (if same_page v va \<or> same_page v pa then Some (ucast pa OR ucast (v AND mask PAGE_SHIFT)) else None)"
proof -
  have "v2p base AND 0xfe0 = 0"
  proof (rule bit_word_eqI)
    fix n assume "n < LENGTH(32)"
    have "drop_bit PAGE_SHIFT (0xfe0 :: u32) = 0" by simp
    from high_bit [OF this] low_bit [OF low(1)] show "bit (v2p base AND 0xfe0) n = bit (0 :: u32) n"
      by (cases "PAGE_SHIFT \<le> n") (simp_all add: bit_and_iff)
  qed
  then show ?thesis
    using pae_frames_simps [OF apart] entry_no_large [OF low(2)] entry_no_large [OF low(3)] pae_entry_address [OF low(4)]
    by (auto simp: pae_translate_def pae_leaf_def pae_temp_address_space_init_def pae_map_def Let_def same_page_pae pae_entry_nonzero)
qed

lemma passage_pages_list:
  "passage_pages page = [page, page + 0x1000, page + 0x2000, page + 0x3000, page + 0x4000, page + 0x5000, page + 0x6000,
     page + 0x7000, page + 0x8000]"
  by (simp add: passage_pages_def upt_rec)

lemma passage_places:
  "normal_pte_at (guest_normal_at page) 0 = page + 0x2000" "normal_pte_at (guest_normal_at page) 1 = page + 0x3000"
  "pae_pgd_at (host_pae_at page) 0 = page + 0x5000" "pae_pgd_at (host_pae_at page) 1 = page + 0x6000"
  "pae_pte_at (host_pae_at page) 0 = page + 0x7000" "pae_pte_at (host_pae_at page) 1 = page + 0x8000"
  by (simp_all add: normal_pte_at_def pae_pgd_at_def pae_pte_at_def)

lemma pages_apart_parts:
  assumes "pages_apart v2p page"
  shows "distinct [drop_bit PAGE_SHIFT (v2p (guest_normal_at page)), drop_bit PAGE_SHIFT (v2p (normal_pte_at (guest_normal_at page) 0)),
      drop_bit PAGE_SHIFT (v2p (normal_pte_at (guest_normal_at page) 1))]"
    "distinct [drop_bit PAGE_SHIFT (v2p (host_pae_at page)), drop_bit PAGE_SHIFT (v2p (pae_pgd_at (host_pae_at page) 0)),
      drop_bit PAGE_SHIFT (v2p (pae_pgd_at (host_pae_at page) 1)), drop_bit PAGE_SHIFT (v2p (pae_pte_at (host_pae_at page) 0)),
      drop_bit PAGE_SHIFT (v2p (pae_pte_at (host_pae_at page) 1))]"
    "take_bit PAGE_SHIFT (v2p page) = 0" "take_bit PAGE_SHIFT (v2p (host_pae_at page)) = 0"
    "take_bit PAGE_SHIFT (v2p (normal_pte_at (guest_normal_at page) 0)) = 0"
    "take_bit PAGE_SHIFT (v2p (normal_pte_at (guest_normal_at page) 1)) = 0"
    "take_bit PAGE_SHIFT (v2p (pae_pte_at (host_pae_at page) 0)) = 0" "take_bit PAGE_SHIFT (v2p (pae_pte_at (host_pae_at page) 1)) = 0"
  using assms unfolding pages_apart_def passage_pages_list passage_places by (simp_all only: list.map distinct.simps list.set list.pred_inject) auto

text \<open>C5: The temporary address spaces. The initialisation of a zeroed passage page leaves, for the processor's mode,
  address spaces in which exactly two pages are mapped, both to the passage page: without PAE its address in the guest
  and in the host, whose distance is recorded on both sides; with PAE the guest's address and the physical one in the
  guest's space, the host's address and the physical one in the host's. Whether or not the two addresses share tables,
  nothing else is reached while neither of the systems is in place.\<close>

theorem passage_address_spaces:
  assumes "pages_apart v2p (pc_page c)" "list_all (\<lambda>f. pc_sizes c f \<le> sizeof_code)
      [co_monitor_passage_func_short_sysenter, co_monitor_passage_func_sysenter, co_monitor_passage_func_short, co_monitor_passage_func]"
    and "pm_normal pm = no_normal" "pm_pae pm = no_pae"
  shows "\<exists>pm'. co_monitor_arch_passage_page_init v2p c pm = (RC_OK, pm') \<and>
    (let page = pc_page c; pa = v2p page; va = pc_guest_va c; frames = normal_frames v2p (guest_normal_at page) (pm_normal pm')
     in if \<not> pc_pae c
        then (\<forall>v. translate frames (pm_physical pm') v =
               (if same_page v va \<or> same_page v page then Some (pa OR (v AND mask PAGE_SHIFT)) else None)) \<and>
             va + st_temp_cr3 (pm_linux pm') = page \<and> page + st_temp_cr3 (pm_host pm') = va
        else (\<forall>v. translate frames (st_temp_cr3 (pm_linux pm')) v =
               (if same_page v va \<or> same_page v pa then Some (pa OR (v AND mask PAGE_SHIFT)) else None)) \<and>
             (\<forall>v. pae_translate (pae_frames v2p (host_pae_at page) (pm_pae pm')) (st_temp_cr3 (pm_host pm')) v =
               (if same_page v page \<or> same_page v pa then Some (ucast pa OR ucast (v AND mask PAGE_SHIFT)) else None)) \<and>
             pm_physical pm' = pa \<and> st_va (pm_linux pm') = va \<and> st_va (pm_host pm') = page)"
proof -
  note parts = pages_apart_parts [OF assms(1)]
  note maps = short_space_maps [where pa = "v2p (pc_page c)", OF parts(1,5,6,3)]
    normal_space_maps [where pa = "v2p (pc_page c)", OF parts(1,5,6,3)] pae_space_maps [where pa = "v2p (pc_page c)", OF parts(2,4,7,8,3)]
  show ?thesis
    using assms(2-4) maps by (auto simp: co_monitor_arch_passage_page_init_def linuxvm_state_init_def Let_def not_less [symmetric])
qed

definition example_passage :: "bool \<Rightarrow> passage_config" where
  "example_passage pae = \<lparr>pc_sizes = (\<lambda>_. 0x200), pc_caps = 0x800, pc_pae = pae, pc_page = 0x81234000, pc_guest_va = 0xfeeff000,
     pc_pgd = 0x5000, pc_gdt_table = 0xc0300000, pc_idt_table = 0xc0301000, pc_init_task = 0xc0400000,
     pc_colinux_start = 0xc0100000, pc_kernel_cs = 0x60, pc_kernel_ds = 0x68, pc_dr = (\<lambda>_. 0)\<rparr>"

definition no_state :: arch_state where
  "no_state = \<lparr>st_ds = 0, st_es = 0, st_fs = 0, st_gs = 0, st_ss = 0, st_cs = 0, st_cr0 = 0, st_cr3 = 0, st_cr4 = 0, st_gdt_base = 0,
     st_gdt_limit = 0, st_idt_table = 0, st_idt_size = 0, st_ldt = 0, st_tr = 0, st_return_eip = 0, st_flags = 0, st_esp = 0,
     st_dr = (\<lambda>_. 0), st_temp_cr3 = 0, st_va = 0\<rparr>"

abbreviation zeroed_passage :: passage_memory where
  "zeroed_passage \<equiv> \<lparr>pm_physical = 0, pm_code = None, pm_host = no_state, pm_linux = no_state, pm_normal = no_normal, pm_pae = no_pae\<rparr>"

theorem passage_address_spaces_witness:
  "\<exists>pm'. co_monitor_arch_passage_page_init (\<lambda>a. a AND mask 31) (example_passage False) zeroed_passage = (RC_OK, pm') \<and>
     0xfeeff000 + st_temp_cr3 (pm_linux pm') = 0x81234000"
proof -
  have "pages_apart (\<lambda>a. a AND mask 31) (pc_page (example_passage False))"
    unfolding pages_apart_def passage_pages_list by (simp add: example_passage_def) code_simp
  moreover have "list_all (\<lambda>f. pc_sizes (example_passage False) f \<le> sizeof_code) [co_monitor_passage_func_short_sysenter,
      co_monitor_passage_func_sysenter, co_monitor_passage_func_short, co_monitor_passage_func]" by (simp add: example_passage_def)
  ultimately show ?thesis
    using passage_address_spaces [where c = "example_passage False" and pm = zeroed_passage]
    by (fastforce simp: example_passage_def Let_def)
qed

section \<open>Making the passage page executable\<close>

abbreviation FEATURE_NX :: nat where "FEATURE_NX \<equiv> 20"
abbreviation PAGE_NX :: nat where "PAGE_NX \<equiv> 63"

record anti_nx =
  nx_enabled :: bool
  nx_pte :: nat
  nx_pfn :: u32

text \<open>The host's page tables are walked by mapping one frame after the other; \<open>can_map\<close> is which frames the host can
  map. The result, the monitor's part and the memory.\<close>

definition co_arch_anti_nx_init ::
    "u32 \<Rightarrow> bool \<Rightarrow> u32 \<Rightarrow> (u32 \<Rightarrow> bool) \<Rightarrow> u32 \<Rightarrow> anti_nx \<Rightarrow> (u32 \<rightharpoonup> (nat \<Rightarrow> u64)) \<Rightarrow> (co_rc \<times> anti_nx \<times> (u32 \<rightharpoonup> (nat \<Rightarrow> u64))) option" where
  "co_arch_anti_nx_init caps1 pae_enabled cr3 can_map vaddr a mem =
     (if \<not> bit caps1 FEATURE_NX then Some (RC_OK, a, mem)
      else if \<not> pae_enabled then Some (RC_OK, a, mem)
      else
        let pfn = drop_bit PAGE_SHIFT cr3
        in if \<not> can_map pfn then Some (RC_ERROR, a, mem)
           else do {
             page \<leftarrow> mem pfn;
             let pfn = pae_frame (page (unat (drop_bit 3 (cr3 AND mask PAGE_SHIFT AND NOT 0x1f)) + pae_pgd_of vaddr));
             if \<not> can_map pfn then Some (RC_ERROR, a, mem)
             else do {
               page \<leftarrow> mem pfn;
               let i = pae_pmd_of vaddr;
               (if bit (page i) 7
                then Some (RC_OK, a\<lparr>nx_enabled := True, nx_pte := i, nx_pfn := pfn\<rparr>, mem(pfn \<mapsto> page(i := unset_bit PAGE_NX (page i))))
                else
                  let pfn = pae_frame (page i)
                  in if \<not> can_map pfn then Some (RC_ERROR, a, mem)
                     else do {
                       page \<leftarrow> mem pfn;
                       let i = pae_pte_of vaddr;
                       Some (RC_OK, a\<lparr>nx_enabled := True, nx_pte := i, nx_pfn := pfn\<rparr>, mem(pfn \<mapsto> page(i := unset_bit PAGE_NX (page i)))) }) } })"

definition co_arch_anti_nx_free :: "anti_nx \<Rightarrow> anti_nx" where
  "co_arch_anti_nx_free a = (if \<not> nx_enabled a then a else a\<lparr>nx_enabled := False\<rparr>)"

text \<open>Entries, tables and memories that differ in no more than NX bits translate alike.\<close>

definition nx_alike :: "u64 \<Rightarrow> u64 \<Rightarrow> bool" where
  "nx_alike e e' \<longleftrightarrow> unset_bit PAGE_NX e = unset_bit PAGE_NX e'"

lemma nx_alike_bit: "nx_alike e e' \<Longrightarrow> n < PAGE_NX \<Longrightarrow> bit e n = bit e' n"
  unfolding nx_alike_def by (metis bit_unset_bit_iff nat_neq_iff)

lemma nx_alike_unset [simp]: "nx_alike (unset_bit PAGE_NX e) e" "nx_alike e e"
  by (auto simp: nx_alike_def bit_simps intro: bit_word_eqI)

lemma nx_alike_frame: "nx_alike e e' \<Longrightarrow> pae_frame e = pae_frame e'"
  unfolding pae_frame_def by (rule bit_word_eqI) (auto simp: bit_simps nx_alike_bit)

lemma nx_alike_address:
  "nx_alike e e' \<Longrightarrow> push_bit n (take_bit (52 - n) (drop_bit n e)) = push_bit n (take_bit (52 - n) (drop_bit n e'))"
  by (rule bit_word_eqI) (auto simp: bit_simps nx_alike_bit)

lemma nx_alike_translate:
  assumes "\<forall>p. rel_option (\<lambda>t t'. \<forall>i. nx_alike (t i) (t' i)) (m p) (m' p)"
  shows "pae_leaf m cr3 v = pae_leaf m' cr3 v" "pae_translate m cr3 v = pae_translate m' cr3 v"
proof -
  have rel: "rel_option (\<lambda>t t'. \<forall>i. nx_alike (t i) (t' i)) (m p) (m' p)" for p using assms by blast
  have bits: "nx_alike e e' \<Longrightarrow> bit e 0 = bit e' 0 \<and> bit e 7 = bit e' 7 \<and> pae_frame e = pae_frame e'" for e e'
    using nx_alike_bit nx_alike_frame by simp
  show leaf: "pae_leaf m cr3 v = pae_leaf m' cr3 v"
  proof (cases "m (drop_bit PAGE_SHIFT cr3)")
    case None
    then show ?thesis using rel [of "drop_bit PAGE_SHIFT cr3"] by (simp add: pae_leaf_def)
  next
    case (Some t)
    let ?i = "unat (drop_bit 3 (cr3 AND 0xfe0)) + pae_pgd_of v"
    obtain t' where t': "m' (drop_bit PAGE_SHIFT cr3) = Some t'" "\<And>i. nx_alike (t i) (t' i)"
      using rel [of "drop_bit PAGE_SHIFT cr3"] Some by (auto simp: rel_option_iff split: option.splits)
    let ?f = "pae_frame (t ?i)"
    have f: "pae_frame (t' ?i) = ?f" "bit (t' ?i) 0 = bit (t ?i) 0" using bits [OF t'(2)] by auto
    show ?thesis
    proof (cases "m ?f")
      case None
      then show ?thesis using rel [of ?f] Some t'(1) f by (simp add: pae_leaf_def Let_def)
    next
      case d: (Some d)
      obtain d' where d': "m' ?f = Some d'" "\<And>i. nx_alike (d i) (d' i)"
        using rel [of ?f] d by (auto simp: rel_option_iff split: option.splits)
      let ?g = "pae_frame (d (pae_pmd_of v))"
      have g: "pae_frame (d' (pae_pmd_of v)) = ?g" "bit (d' (pae_pmd_of v)) 0 = bit (d (pae_pmd_of v)) 0"
        "bit (d' (pae_pmd_of v)) 7 = bit (d (pae_pmd_of v)) 7" using bits [OF d'(2)] by auto
      show ?thesis
        using rel [of ?g] Some t'(1) f d d' g bits
        by (cases "m ?g"; cases "m' ?g") (auto simp: pae_leaf_def Let_def)
    qed
  qed
  show "pae_translate m cr3 v = pae_translate m' cr3 v"
  proof (cases "pae_leaf m' cr3 v")
    case (Some r)
    obtain p i large where r: "r = (p, i, large)" by (cases r)
    show ?thesis
    proof (cases "m p")
      case None
      then show ?thesis using rel [of p] Some r leaf by (simp add: pae_translate_def)
    next
      case t: (Some t)
      obtain t' where t': "m' p = Some t'" "\<And>i. nx_alike (t i) (t' i)"
        using rel [of p] t by (auto simp: rel_option_iff split: option.splits)
      show ?thesis
        using Some r leaf t t'(1) nx_alike_address [OF t'(2) [of i], of "if large then PAE_PMD_SHIFT else PAGE_SHIFT"]
        by (simp only: pae_translate_def Let_def bind.simps prod.case)
    qed
  qed (simp add: pae_translate_def leaf)
qed

text \<open>C36: Making the passage page executable. On a host whose tables map the page, the entry that maps it, of a small or
  a large page, loses its NX bit; nothing else in the host's memory changes and every address translates as
  before.\<close>

theorem anti_nx_clears:
  assumes "bit caps1 FEATURE_NX" "pae_leaf mem cr3 vaddr = Some (p, i, large)" "\<forall>f. can_map f"
  shows "\<exists>a' table. mem p = Some table \<and>
    co_arch_anti_nx_init caps1 True cr3 can_map vaddr a mem = Some (RC_OK, a', mem(p \<mapsto> table(i := unset_bit PAGE_NX (table i)))) \<and>
    nx_enabled a' \<and> nx_pfn a' = p \<and> nx_pte a' = i \<and>
    (\<forall>v. pae_translate (mem(p \<mapsto> table(i := unset_bit PAGE_NX (table i)))) cr3 v = pae_translate mem cr3 v)"
proof -
  have "mask PAGE_SHIFT AND NOT 0x1f = (0xfe0 :: u32)" by code_simp
  then have "cr3 AND mask PAGE_SHIFT AND NOT 0x1f = cr3 AND 0xfe0" by (simp only: and.assoc)
  then obtain table where t: "mem p = Some table" "co_arch_anti_nx_init caps1 True cr3 can_map vaddr a mem =
      Some (RC_OK, a\<lparr>nx_enabled := True, nx_pte := i, nx_pfn := p\<rparr>, mem(p \<mapsto> table(i := unset_bit PAGE_NX (table i))))"
    using assms by (auto simp: pae_leaf_def co_arch_anti_nx_init_def Let_def bind_Some_iff simp del: drop_bit_and split: if_splits)
  have "\<forall>q. rel_option (\<lambda>t t'. \<forall>i. nx_alike (t i) (t' i)) ((mem(p \<mapsto> table(i := unset_bit PAGE_NX (table i)))) q) (mem q)"
    using t(1) by (auto simp: rel_option_iff split: option.splits)
  note same = nx_alike_translate(2) [OF this]
  show ?thesis by (intro exI conjI allI, rule t(1), rule t(2)) (simp_all only: same, simp_all)
qed

text \<open>A host that maps the page 0x80005000 by the frames 1, 2 and 3.\<close>

definition example_tables :: "u32 \<rightharpoonup> (nat \<Rightarrow> u64)" where
  "example_tables = [1 \<mapsto> (\<lambda>i. if i = 6 then 0x2001 else 0), 2 \<mapsto> (\<lambda>i. if i = 0 then 0x3063 else 0),
     3 \<mapsto> (\<lambda>i. if i = 5 then 0x8000000000777063 else 0)]"

theorem anti_nx_clears_witness:
  "\<exists>a'. co_arch_anti_nx_init 0x100000 True 0x1020 (\<lambda>_. True) 0x80005000 \<lparr>nx_enabled = False, nx_pte = 0, nx_pfn = 0\<rparr> example_tables =
     Some (RC_OK, a', example_tables(3 \<mapsto> (\<lambda>i. if i = 5 then 0x777063 else 0)))"
proof -
  have leaf: "pae_leaf example_tables 0x1020 0x80005000 = Some (3, 5, False)" by code_simp
  have e: "(\<lambda>i. if i = 5 then 0x8000000000777063 else 0)(5 := unset_bit PAGE_NX (0x8000000000777063 :: u64)) =
      (\<lambda>i :: nat. if i = 5 then 0x777063 else 0)"
    by (rule ext) simp
  have "bit (0x100000 :: u32) FEATURE_NX" by simp
  from anti_nx_clears [OF this leaf, of "\<lambda>_. True"] show ?thesis
    using e by (auto simp: example_tables_def)
qed

end
