(* ===== verification/CoCmdline.thy ===== *)
theory CoCmdline
  imports CoSnprintf
begin

text \<open>
  The command line of the daemon, \<open>src/colinux/user/cmdline.c\<close>: the parameter files it names are read by a state
  machine and put in its place, then the parsers of the configuration take the parameters they know from it. A
  parameter that was taken is \<open>NULL\<close> in \<open>argv\<close>, here \<open>None\<close>. A string is the list of its characters without the
  NUL. \<open>co_os_malloc\<close> answers as the list of the state says; reading memory that was not set, or writing beyond the
  new \<open>argv\<close>, is \<open>None\<close>.
\<close>

section \<open>The parameter file\<close>

datatype param_parse_state =
    PARAM_PARSE_STATE_INIT
  | PARAM_PARSE_STATE_WHITESPACE
  | PARAM_PARSE_STATE_COMMENT
  | PARAM_PARSE_STATE_PARAM
  | PARAM_PARSE_STATE_PARAM_EQUAL
  | PARAM_PARSE_STATE_PARAM_EQUAL_STR

datatype param_parse_mark = PARAM_PARSE_MARK_NONE | PARAM_PARSE_MARK_START_OF_PARAM | PARAM_PARSE_MARK_END_OF_PARAM

abbreviation ord :: "char \<Rightarrow> nat" where "ord \<equiv> of_char"

definition starts_param :: "char \<Rightarrow> bool" where
  "starts_param c \<longleftrightarrow> (97 \<le> ord c \<and> ord c \<le> 122) \<or> (65 \<le> ord c \<and> ord c \<le> 90) \<or> (48 \<le> ord c \<and> ord c \<le> 57) \<or> c = CHR ''.''"

definition is_blank :: "char \<Rightarrow> bool" where
  "is_blank c \<longleftrightarrow> ord c \<in> {32, 9, 10, 13}"

definition outside_param :: "char \<Rightarrow> param_parse_state \<times> param_parse_mark" where
  "outside_param c =
     (if c = CHR ''#'' then (PARAM_PARSE_STATE_COMMENT, PARAM_PARSE_MARK_NONE)
      else if starts_param c then (PARAM_PARSE_STATE_PARAM, PARAM_PARSE_MARK_START_OF_PARAM)
      else if is_blank c then (PARAM_PARSE_STATE_WHITESPACE, PARAM_PARSE_MARK_NONE)
      else (PARAM_PARSE_STATE_INIT, PARAM_PARSE_MARK_NONE))"

fun parser_states :: "param_parse_state \<Rightarrow> char \<Rightarrow> param_parse_state \<times> param_parse_mark" where
  "parser_states PARAM_PARSE_STATE_INIT c = outside_param c"
| "parser_states PARAM_PARSE_STATE_WHITESPACE c = outside_param c"
| "parser_states PARAM_PARSE_STATE_COMMENT c =
     (if ord c = 10 then PARAM_PARSE_STATE_INIT else PARAM_PARSE_STATE_COMMENT, PARAM_PARSE_MARK_NONE)"
| "parser_states PARAM_PARSE_STATE_PARAM c =
     (if c = CHR ''#'' then (PARAM_PARSE_STATE_COMMENT, PARAM_PARSE_MARK_END_OF_PARAM)
      else if c = CHR 0x22 then (PARAM_PARSE_STATE_PARAM_EQUAL_STR, PARAM_PARSE_MARK_NONE)
      else if c = CHR ''='' then (PARAM_PARSE_STATE_PARAM_EQUAL, PARAM_PARSE_MARK_NONE)
      else if ord c \<le> 0x20 then (PARAM_PARSE_STATE_INIT, PARAM_PARSE_MARK_END_OF_PARAM)
      else (PARAM_PARSE_STATE_PARAM, PARAM_PARSE_MARK_NONE))"
| "parser_states PARAM_PARSE_STATE_PARAM_EQUAL c =
     (if c = CHR ''#'' then (PARAM_PARSE_STATE_COMMENT, PARAM_PARSE_MARK_END_OF_PARAM)
      else if c = CHR 0x22 then (PARAM_PARSE_STATE_PARAM_EQUAL_STR, PARAM_PARSE_MARK_NONE)
      else if ord c \<le> 0x20 then (PARAM_PARSE_STATE_INIT, PARAM_PARSE_MARK_END_OF_PARAM)
      else (PARAM_PARSE_STATE_PARAM_EQUAL, PARAM_PARSE_MARK_NONE))"
| "parser_states PARAM_PARSE_STATE_PARAM_EQUAL_STR c =
     (if c = CHR ''#'' then (PARAM_PARSE_STATE_COMMENT, PARAM_PARSE_MARK_END_OF_PARAM)
      else if c = CHR 0x22 then (PARAM_PARSE_STATE_PARAM, PARAM_PARSE_MARK_NONE)
      else if ord c \<le> 0x1f then (PARAM_PARSE_STATE_INIT, PARAM_PARSE_MARK_END_OF_PARAM)
      else (PARAM_PARSE_STATE_PARAM_EQUAL_STR, PARAM_PARSE_MARK_NONE))"

text \<open>The new \<open>argv\<close>, the place that is filled next, and the answers of \<open>co_os_malloc\<close>.\<close>

record params_out =
  po_argv :: "string option list"
  po_pos :: nat
  po_mallocs :: "bool list"

fun user_malloc :: "bool list \<Rightarrow> bool \<times> bool list" where
  "user_malloc [] = (False, [])"
| "user_malloc (b # bs) = (b, bs)"

definition dup_param :: "string \<Rightarrow> params_out \<Rightarrow> (co_rc \<times> params_out) option" where
  "dup_param source po =
     (if length (po_argv po) \<le> po_pos po then None
      else
        let (ok, bs) = user_malloc (po_mallocs po) in
        if \<not> ok then Some (RC_OUT_OF_MEMORY, po\<lparr>po_argv := (po_argv po)[po_pos po := None], po_mallocs := bs\<rparr>)
        else Some (RC_OK, po\<lparr>po_argv := (po_argv po)[po_pos po := Some source], po_mallocs := bs\<rparr>))"

text \<open>What a scan of the file has found: the start of a parameter, the count, and the output when it fills. A parameter
  that cannot be copied is passed over, and no error comes of it.\<close>

record params_scan =
  ps_start :: "nat option"
  ps_count :: nat
  ps_out :: "params_out option"

definition params_mark :: "string \<Rightarrow> nat \<Rightarrow> param_parse_mark \<Rightarrow> params_scan \<Rightarrow> (co_rc \<times> params_scan) option" where
  "params_mark buf pos mark s =
     (case mark of
        PARAM_PARSE_MARK_START_OF_PARAM \<Rightarrow> Some (RC_OK, s\<lparr>ps_start := Some pos\<rparr>)
      | PARAM_PARSE_MARK_END_OF_PARAM \<Rightarrow>
          (case ps_out s of
             None \<Rightarrow> Some (RC_OK, s\<lparr>ps_count := ps_count s + 1\<rparr>)
           | Some po \<Rightarrow>
               (case ps_start s of
                  None \<Rightarrow> Some (RC_ERROR, s)
                | Some start \<Rightarrow> do {
                    (rc, po) \<leftarrow> dup_param (take (pos - start) (drop start buf)) po;
                    if \<not> rc_ok rc then Some (RC_OK, s\<lparr>ps_out := Some po\<rparr>)
                    else Some (RC_OK, s\<lparr>ps_out := Some (po\<lparr>po_pos := po_pos po + 1\<rparr>), ps_start := None,
                      ps_count := ps_count s + 1\<rparr>) }))
      | PARAM_PARSE_MARK_NONE \<Rightarrow> Some (RC_OK, s))"

function params_loop :: "string \<Rightarrow> nat \<Rightarrow> param_parse_state \<Rightarrow> params_scan \<Rightarrow> (co_rc \<times> params_scan) option" where
  "params_loop buf pos st s =
     (let cur_char = (if pos < length buf then buf ! pos else CHR 0x00);
          (st, mark) = parser_states st cur_char
      in do {
        (rc, s) \<leftarrow> params_mark buf pos mark s;
        if \<not> rc_ok rc then Some (rc, s)
        else if cur_char = CHR 0x00 then Some (RC_OK, s)
        else params_loop buf (pos + 1) st s })"
  by pat_completeness auto
termination
  by (relation "measure (\<lambda>(buf, pos, st, s). length buf - pos)") (auto split: if_splits)

declare params_loop.simps [simp del]

text \<open>\<open>load\<close> is \<open>co_os_file_load\<close>: the contents of a file.\<close>

definition get_params_list ::
    "(string \<Rightarrow> co_rc + string) \<Rightarrow> string \<Rightarrow> nat \<Rightarrow> params_out option \<Rightarrow> (co_rc \<times> nat \<times> params_out option) option" where
  "get_params_list load filename count po =
     (case load filename of
        Inl rc \<Rightarrow> Some (rc, count, po)
      | Inr buf \<Rightarrow>
          if length buf > 0 then do {
            (rc, s) \<leftarrow> params_loop buf 0 PARAM_PARSE_STATE_INIT \<lparr>ps_start = None, ps_count = count, ps_out = po\<rparr>;
            Some (rc, ps_count s, ps_out s) }
          else Some (RC_OK, count, po))"

section \<open>The command line\<close>

record command_line =
  cl_argv :: "string option list"
  cl_mallocs :: "bool list"

definition names_file :: "string \<Rightarrow> bool" where
  "names_file arg \<longleftrightarrow> co_strlen arg \<ge> 1 \<and> c_char arg = CHR ''@''"

fun count_params :: "(string \<Rightarrow> co_rc + string) \<Rightarrow> string list \<Rightarrow> nat \<Rightarrow> (co_rc \<times> nat) option" where
  "count_params load [] count = Some (RC_OK, count)"
| "count_params load (arg # rest) count =
     (if names_file arg then do {
        (rc, count, po) \<leftarrow> get_params_list load (tl arg) count None;
        if \<not> rc_ok rc then Some (rc, count) else count_params load rest count }
      else count_params load rest (count + 1))"

fun fill_params ::
    "(string \<Rightarrow> co_rc + string) \<Rightarrow> string list \<Rightarrow> nat \<Rightarrow> params_out \<Rightarrow> (co_rc \<times> nat \<times> params_out) option" where
  "fill_params load [] count po = Some (RC_OK, count, po)"
| "fill_params load (arg # rest) count po =
     (if names_file arg then do {
        (rc, count, po2) \<leftarrow> get_params_list load (tl arg) count (Some po);
        po \<leftarrow> po2;
        if \<not> rc_ok rc then Some (rc, count, po) else fill_params load rest count po }
      else do {
        (rc, po) \<leftarrow> dup_param arg po;
        if \<not> rc_ok rc then Some (rc, count, po)
        else fill_params load rest (count + 1) (po\<lparr>po_pos := po_pos po + 1\<rparr>) })"

text \<open>The files are read twice: \<open>load1\<close> to count, \<open>load2\<close> to fill. The new \<open>argc\<close> is the second count.\<close>

definition eval_params_file ::
    "(string \<Rightarrow> co_rc + string) \<Rightarrow> (string \<Rightarrow> co_rc + string) \<Rightarrow> string list \<Rightarrow> bool list \<Rightarrow> (co_rc \<times> command_line) option" where
  "eval_params_file load1 load2 argv bs = do {
     (rc, count) \<leftarrow> count_params load1 argv 0;
     if \<not> rc_ok rc then Some (rc, \<lparr>cl_argv = map Some argv, cl_mallocs = bs\<rparr>)
     else
       let (ok, bs) = user_malloc bs in
       if \<not> ok then Some (RC_OUT_OF_MEMORY, \<lparr>cl_argv = map Some argv, cl_mallocs = bs\<rparr>)
       else do {
         (rc, argc, po) \<leftarrow> fill_params load2 argv 0 \<lparr>po_argv = replicate count None, po_pos = 0, po_mallocs = bs\<rparr>;
         if \<not> rc_ok rc then Some (rc, \<lparr>cl_argv = map Some argv, cl_mallocs = po_mallocs po\<rparr>)
         else Some (RC_OK, \<lparr>cl_argv = take argc (po_argv po), cl_mallocs = po_mallocs po\<rparr>) } }"

definition co_cmdline_params_alloc ::
    "(string \<Rightarrow> co_rc + string) \<Rightarrow> (string \<Rightarrow> co_rc + string) \<Rightarrow> bool list \<Rightarrow> string list \<Rightarrow> (co_rc \<times> command_line option) option" where
  "co_cmdline_params_alloc load1 load2 bs argv =
     (let (ok, bs) = user_malloc bs in
      if \<not> ok then Some (RC_OUT_OF_MEMORY, None)
      else
        let (ok, bs) = user_malloc bs in
        if \<not> ok then Some (RC_OUT_OF_MEMORY, None)
        else do {
          (rc, cl) \<leftarrow> eval_params_file load1 load2 argv bs;
          Some (rc, if rc_ok rc then Some cl else None) })"

section \<open>Taking parameters\<close>

text \<open>The first parameter that satisfies a test, with its place.\<close>

definition find_param :: "(string \<Rightarrow> bool) \<Rightarrow> string option list \<Rightarrow> (nat \<times> string) option" where
  "find_param P argv =
     (case filter (\<lambda>(i, a). case a of None \<Rightarrow> False | Some arg \<Rightarrow> P arg) (enumerate 0 argv) of
        [] \<Rightarrow> None
      | (i, a) # _ \<Rightarrow> do { arg \<leftarrow> a; Some (i, arg) })"

definition drop_param :: "nat \<Rightarrow> command_line \<Rightarrow> command_line" where
  "drop_param i cl = cl\<lparr>cl_argv := (cl_argv cl)[i := None]\<rparr>"

definition co_cmdline_params_argumentless_parameter :: "string \<Rightarrow> command_line \<Rightarrow> co_rc \<times> bool \<times> command_line" where
  "co_cmdline_params_argumentless_parameter name cl =
     (case find_param (\<lambda>arg. co_strcmp arg name = 0) (cl_argv cl) of
        None \<Rightarrow> (RC_OK, False, cl)
      | Some (i, arg) \<Rightarrow> (RC_OK, True, drop_param i cl))"

text \<open>The place of the first \<open>=\<close>.\<close>

definition equality_at :: "string \<Rightarrow> nat" where
  "equality_at arg = length (takeWhile (\<lambda>c. c \<noteq> CHR ''='') arg)"

text \<open>A parameter \<open>prefix key=value\<close>. The key is written only when there is one: \<open>None\<close> is the buffer as it was. A
  value goes to a buffer of \<open>value_size\<close> bytes, or for size 0 to one that is allocated.\<close>

definition co_cmdline_get_next_equality_wrapper ::
    "string \<Rightarrow> nat \<Rightarrow> nat \<Rightarrow> command_line \<Rightarrow> co_rc \<times> (string option \<times> string) option \<times> command_line" where
  "co_cmdline_get_next_equality_wrapper expected_prefix key_size value_size cl =
     (case find_param (\<lambda>arg. CHR ''='' \<in> set arg \<and> co_strncmp expected_prefix arg (co_strlen expected_prefix) = 0) (cl_argv cl) of
        None \<Rightarrow> (RC_OK, None, cl)
      | Some (i, arg) \<Rightarrow>
          let cl = drop_param i cl;
              prefix_len = length expected_prefix; key_found = equality_at arg;
              key = drop prefix_len (take key_found arg); value = drop (key_found + 1) arg
          in if key \<noteq> [] \<and> key_size < length key + 1 then (RC_INVALID_PARAMETER, None, cl)
             else if value = [] then (RC_INVALID_PARAMETER, None, cl)
             else
               let (ok, bs) = (if value_size = 0 then user_malloc (cl_mallocs cl) else (True, cl_mallocs cl));
                   cl = cl\<lparr>cl_mallocs := bs\<rparr>
               in if \<not> ok then (RC_OUT_OF_MEMORY, None, cl)
                  else if value_size \<noteq> 0 \<and> length value \<ge> value_size - 1 then (RC_ERROR, None, cl)
                  else (RC_OK, Some (if key = [] then None else Some key, value), cl))"

definition co_cmdline_get_next_equality ::
    "string \<Rightarrow> nat \<Rightarrow> nat \<Rightarrow> command_line \<Rightarrow> co_rc \<times> (string option \<times> string) option \<times> command_line" where
  "co_cmdline_get_next_equality expected_prefix key_size value_size cl =
     co_cmdline_get_next_equality_wrapper expected_prefix key_size value_size cl"

definition co_cmdline_get_next_equality_alloc ::
    "string \<Rightarrow> nat \<Rightarrow> command_line \<Rightarrow> co_rc \<times> (string option \<times> string) option \<times> command_line" where
  "co_cmdline_get_next_equality_alloc expected_prefix key_size cl =
     co_cmdline_get_next_equality_wrapper expected_prefix key_size 0 cl"

text \<open>\<open>strtoul\<close> with base 10: the value and what follows the number. Without digits all of the text follows.\<close>

definition is_space :: "char \<Rightarrow> bool" where "is_space c \<longleftrightarrow> ord c = 32 \<or> (9 \<le> ord c \<and> ord c \<le> 13)"
definition is_digit :: "char \<Rightarrow> bool" where "is_digit c \<longleftrightarrow> 48 \<le> ord c \<and> ord c \<le> 57"

definition number_sign :: "string \<Rightarrow> bool \<times> string" where
  "number_sign s = (case s of [] \<Rightarrow> (False, []) | c # t \<Rightarrow> if c = CHR ''-'' then (True, t) else if c = CHR ''+'' then (False, t) else (False, s))"

definition digits_value :: "string \<Rightarrow> nat" where
  "digits_value ds = foldl (\<lambda>n c. 10 * n + (ord c - 48)) 0 ds"

definition strtoul10 :: "string \<Rightarrow> u32 \<times> string" where
  "strtoul10 s =
     (let (neg, t) = number_sign (dropWhile is_space s); ds = takeWhile is_digit t; n = digits_value ds
      in if ds = [] then (0, s)
         else (if int n \<ge> 0x100000000 then - 1 else if neg then - of_nat n else of_nat n, dropWhile is_digit t))"

text \<open>The number is parsed from the key; without a key, the buffer was never written.\<close>

definition co_cmdline_get_next_equality_int_prefix ::
    "string \<Rightarrow> nat \<Rightarrow> command_line \<Rightarrow> (co_rc \<times> (nat \<times> string) option \<times> command_line) option" where
  "co_cmdline_get_next_equality_int_prefix expected_prefix max_index cl =
     (case co_cmdline_get_next_equality_alloc expected_prefix 11 cl of
        (rc, None, cl) \<Rightarrow> Some (rc, None, cl)
      | (rc, Some (key, value), cl) \<Rightarrow> do {
          number \<leftarrow> key;
          let (n, number_parse) = strtoul10 number;
          if number_parse = number then Some (RC_INVALID_PARAMETER, None, cl)
          else if unat n \<ge> max_index then Some (RC_INVALID_PARAMETER, None, cl)
          else Some (RC_OK, Some (unat n, value), cl) })"

definition co_cmdline_get_next_equality_int_value :: "string \<Rightarrow> command_line \<Rightarrow> co_rc \<times> u32 option \<times> command_line" where
  "co_cmdline_get_next_equality_int_value expected_prefix cl =
     (case co_cmdline_get_next_equality expected_prefix 0 20 cl of
        (rc, None, cl) \<Rightarrow> (rc, None, cl)
      | (rc, Some (key, value), cl) \<Rightarrow>
          let (n, value_parse) = strtoul10 value
          in if value_parse = value then (RC_ERROR, None, cl) else (RC_OK, Some n, cl))"

text \<open>\<open>co_snprintf\<close> with strings only, read back up to the NUL.\<close>

definition print_strings :: "nat \<Rightarrow> string \<Rightarrow> string list \<Rightarrow> string option" where
  "print_strings room fmt ss = do {
     (n, buf) \<leftarrow> co_snprintf room (int room) fmt (map (\<lambda>s. VStr (Some s)) ss);
     Some (takeWhile (\<lambda>c. c \<noteq> CHR 0x00) buf) }"

text \<open>The parameter \<open>name\<close> and the one after it, if that is no switch. The results: whether the parameter was there, and
  its argument.\<close>

definition one_arugment_parameter ::
    "string \<Rightarrow> bool \<Rightarrow> nat \<Rightarrow> command_line \<Rightarrow> (co_rc \<times> bool \<times> string option \<times> command_line) option" where
  "one_arugment_parameter name argument arg_size cl =
     (case find_param (\<lambda>arg. co_strcmp arg name = 0) (cl_argv cl) of
        None \<Rightarrow> Some (RC_OK, False, None, cl)
      | Some (i, arg) \<Rightarrow>
          let following = (if i + 1 < length (cl_argv cl) then cl_argv cl ! (i + 1) else None)
          in (case following of
                Some value \<Rightarrow>
                  if c_char value = CHR ''-''
                  then Some (if argument then (RC_ERROR, False, None, cl) else (RC_OK, True, None, drop_param i cl))
                  else do {
                    text \<leftarrow> print_strings arg_size ''%s'' [value];
                    Some (RC_OK, True, Some text, drop_param i (drop_param (i + 1) cl)) }
              | None \<Rightarrow> Some (if argument then (RC_ERROR, False, None, cl) else (RC_OK, True, None, drop_param i cl))))"

definition co_cmdline_params_one_arugment_parameter ::
    "string \<Rightarrow> nat \<Rightarrow> command_line \<Rightarrow> (co_rc \<times> bool \<times> string option \<times> command_line) option" where
  "co_cmdline_params_one_arugment_parameter name arg_size cl = one_arugment_parameter name True arg_size cl"

definition co_cmdline_params_one_optional_arugment_parameter ::
    "string \<Rightarrow> nat \<Rightarrow> command_line \<Rightarrow> (co_rc \<times> bool \<times> string option \<times> command_line) option" where
  "co_cmdline_params_one_optional_arugment_parameter name arg_size cl = one_arugment_parameter name False arg_size cl"

definition co_cmdline_params_one_arugment_int_parameter ::
    "string \<Rightarrow> command_line \<Rightarrow> (co_rc \<times> u32 option \<times> command_line) option" where
  "co_cmdline_params_one_arugment_int_parameter name cl = do {
     (rc, exists, arg, cl) \<leftarrow> co_cmdline_params_one_arugment_parameter name 0x20 cl;
     if \<not> rc_ok rc \<or> \<not> exists then Some (rc, None, cl)
     else do {
       text \<leftarrow> arg;
       let (n, end_ptr) = strtoul10 text;
       Some (if end_ptr = text then (RC_ERROR, None, cl) else (RC_OK, Some n, cl)) } }"

definition co_cmdline_params_check_for_no_unparsed_parameters :: "command_line \<Rightarrow> co_rc" where
  "co_cmdline_params_check_for_no_unparsed_parameters cl =
     (if length (filter (\<lambda>a. a \<noteq> None) (cl_argv cl)) \<noteq> 0 then RC_ERROR else RC_OK)"

text \<open>The parameters nobody took, separated by blanks. \<open>room\<close> is what is left of the buffer.\<close>

fun format_loop :: "string option list \<Rightarrow> string \<Rightarrow> nat \<Rightarrow> (string \<times> string option list) option" where
  "format_loop [] text room = Some (text, [])"
| "format_loop (None # argv) text room = do {
     (text, argv) \<leftarrow> format_loop argv text room;
     Some (text, None # argv) }"
| "format_loop (Some arg # argv) text room = do {
     str_out \<leftarrow> print_strings room (if text = [] then ''%s'' else '' %s'') [arg];
     let room = room - length str_out;
     let text = text @ str_out;
     if room = 0 then Some (text, Some arg # argv)
     else do {
       (text, argv) \<leftarrow> format_loop argv text room;
       Some (text, None # argv) } }"

definition co_cmdline_params_format_remaining_parameters :: "nat \<Rightarrow> command_line \<Rightarrow> (co_rc \<times> string \<times> command_line) option" where
  "co_cmdline_params_format_remaining_parameters room cl = do {
     (text, argv) \<leftarrow> format_loop (cl_argv cl) [] room;
     Some (RC_OK, text, cl\<lparr>cl_argv := argv\<rparr>) }"

text \<open>A single quotation mark makes the length of the copy negative.\<close>

definition co_remove_quotation_marks :: "string \<Rightarrow> string option" where
  "co_remove_quotation_marks value =
     (if c_char value = CHR 0x22
      then let n = nat (co_strlen value) - 1
           in if value ! n = CHR 0x22 then if n = 0 then None else Some (take (n - 1) (tl value))
              else Some value
      else Some value)"

section \<open>A file of parameters is put in its place\<close>

text \<open>What a file means, without the machine: outside of parameters, \<open>#\<close> begins a comment that lasts to the end of the
  line, a letter, a digit or a dot begins a parameter, and everything else is passed over. A parameter ends before a
  \<open>#\<close>, before a character that is not above the blank, or, between quotation marks, before a control character; a
  quotation mark in it opens or closes. The text ends at its first NUL.\<close>

abbreviation ends_param :: "bool \<Rightarrow> char \<Rightarrow> bool" where
  "ends_param quoted c \<equiv> c = CHR ''#'' \<or> ord c \<le> (if quoted then 0x1f else 0x20)"

fun param_end :: "bool \<Rightarrow> string \<Rightarrow> string \<times> string" where
  "param_end quoted [] = ([], [])"
| "param_end quoted (c # cs) =
     (if ends_param quoted c then ([], c # cs)
      else case param_end (if c = CHR 0x22 then \<not> quoted else quoted) cs of (p, rest) \<Rightarrow> (c # p, rest))"

lemma param_end_split: "param_end quoted cs = (p, rest) \<Longrightarrow> cs = p @ rest"
  by (induction quoted cs arbitrary: p rule: param_end.induct) (auto split: if_splits prod.splits)

function text_params :: "string \<Rightarrow> string list" where
  "text_params [] = []"
| "text_params (c # cs) =
     (if c = CHR ''#'' then text_params (dropWhile (\<lambda>c. c \<noteq> CHR 0x0A) cs)
      else if starts_param c then (c # fst (param_end False cs)) # text_params (snd (param_end False cs))
      else text_params cs)"
  by pat_completeness auto
termination
proof (relation "measure length", simp_all add: le_imp_less_Suc length_dropWhile_le, goal_cases)
  case (1 c cs)
  have "cs = fst (param_end False cs) @ snd (param_end False cs)" by (rule param_end_split) simp
  then have "length cs = length (fst (param_end False cs)) + length (snd (param_end False cs))" by (metis length_append)
  then show ?case by simp
qed

definition file_params :: "string \<Rightarrow> string list" where
  "file_params buf = text_params (takeWhile (\<lambda>c. c \<noteq> CHR 0x00) buf)"

text \<open>A parameter as it is written in a file, with blanks only between quotation marks, is read as it stands, whatever
  stands before and after it: blanks and empty lines, a comment on a line of its own or right behind it, the next
  parameter of the line.\<close>

fun param_text :: "bool \<Rightarrow> string \<Rightarrow> bool" where
  "param_text quoted [] = (\<not> quoted)"
| "param_text quoted (c # cs) = (\<not> ends_param quoted c \<and> param_text (if c = CHR 0x22 then \<not> quoted else quoted) cs)"

lemma param_end_text:
  "param_text quoted p \<Longrightarrow> rest = [] \<or> ends_param False (hd rest) \<Longrightarrow> param_end quoted (p @ rest) = (p, rest)"
proof (induction quoted p rule: param_text.induct)
  case (1 quoted)
  then show ?case by (cases rest) auto
qed auto

lemma text_params_layout:
  "list_all is_blank bs \<Longrightarrow> text_params (bs @ rest) = text_params rest"
  "CHR 0x0A \<notin> set t \<Longrightarrow> text_params (CHR ''#'' # t @ CHR 0x0A # rest) = text_params rest"
  "starts_param c \<Longrightarrow> param_text False p \<Longrightarrow> ends_param False d \<Longrightarrow>
     text_params ((c # p) @ d # rest) = (c # p) # text_params (d # rest)"
  "starts_param c \<Longrightarrow> param_text False p \<Longrightarrow> text_params (c # p) = [c # p]"
proof -
  have b: "\<not> starts_param c \<and> c \<noteq> CHR ''#''" if "is_blank c" for c
    using that by (auto simp: is_blank_def starts_param_def)
  show "list_all is_blank bs \<Longrightarrow> text_params (bs @ rest) = text_params rest"
    by (induction bs) (auto dest: b)
  have "dropWhile (\<lambda>c. c \<noteq> CHR 0x0A) (t @ CHR 0x0A # rest) = CHR 0x0A # rest" if "CHR 0x0A \<notin> set t"
    using that by (induction t) auto
  moreover have "is_blank (CHR 0x0A)" by (simp add: is_blank_def)
  ultimately show "CHR 0x0A \<notin> set t \<Longrightarrow> text_params (CHR ''#'' # t @ CHR 0x0A # rest) = text_params rest"
    using b by simp
  have h: "c \<noteq> CHR ''#''" if "starts_param c" for c using that by (auto simp: starts_param_def)
  show "starts_param c \<Longrightarrow> param_text False p \<Longrightarrow> ends_param False d \<Longrightarrow>
     text_params ((c # p) @ d # rest) = (c # p) # text_params (d # rest)"
    using param_end_text [of False p "d # rest"] by (simp add: h)
  show "starts_param c \<Longrightarrow> param_text False p \<Longrightarrow> text_params (c # p) = [c # p]"
    using param_end_text [of False p "[]"] by (simp add: h)
qed

text \<open>The scan over a piece of the file: from a state at a position to a state after it.\<close>

abbreviation inside :: "bool \<Rightarrow> param_parse_state \<Rightarrow> bool" where
  "inside quoted st \<equiv> (if quoted then st = PARAM_PARSE_STATE_PARAM_EQUAL_STR
     else st = PARAM_PARSE_STATE_PARAM \<or> st = PARAM_PARSE_STATE_PARAM_EQUAL)"

abbreviation outside :: "param_parse_state \<Rightarrow> bool" where
  "outside st \<equiv> st = PARAM_PARSE_STATE_INIT \<or> st = PARAM_PARSE_STATE_WHITESPACE"

lemma params_loop_step:
  assumes "buf = pre @ c # suf" "length pre = pos" "c \<noteq> CHR 0x00" "parser_states st c = (st', mark)"
    "params_mark buf pos mark s = Some (RC_OK, s')"
  shows "params_loop buf pos st s = params_loop buf (pos + 1) st' s'"
  using assms by (subst params_loop.simps) (auto simp: nth_append)

lemma params_loop_none:
  assumes "buf = pre @ c # suf" "length pre = pos" "c \<noteq> CHR 0x00" "parser_states st c = (st', PARAM_PARSE_MARK_NONE)"
  shows "params_loop buf pos st s = params_loop buf (pos + 1) st' s"
  by (rule params_loop_step [OF assms]) (simp add: params_mark_def)

lemma params_loop_end:
  assumes "buf = pre @ tail" "length pre = pos" "tail = [] \<or> hd tail = CHR 0x00" "parser_states st (CHR 0x00) = (st', mark)"
    "params_mark buf pos mark s = Some (RC_OK, s')"
  shows "params_loop buf pos st s = Some (RC_OK, s')"
proof -
  have "(if pos < length buf then buf ! pos else CHR 0x00) = CHR 0x00" using assms(1-3) by (cases tail) auto
  with assms(4,5) show ?thesis by (subst params_loop.simps) (simp add: Let_def del: if_split)
qed

lemma scan_inside:
  assumes "inside q st" "param_end q tx = (p, rest)" "buf = pre @ tx @ tail" "length pre = pos" "CHR 0x00 \<notin> set tx"
  shows "\<exists>q' st'. inside q' st' \<and> params_loop buf pos st s = params_loop buf (pos + length p) st' s \<and>
    (rest = [] \<or> ends_param q' (hd rest))"
  using assms
proof (induction q tx arbitrary: p st pre pos rule: param_end.induct)
  case (1 q)
  then show ?case by (intro exI [of _ q] exI [of _ st]) simp
next
  case (2 q c cs)
  show ?case
  proof (cases "ends_param q c")
    case True
    then show ?thesis using "2.prems"(1,2) by (intro exI [of _ q] exI [of _ st]) auto
  next
    case False
    let ?q = "if c = CHR 0x22 then \<not> q else q"
    obtain p' where p': "param_end ?q cs = (p', rest)" "p = c # p'"
      using "2.prems"(2) False by (auto split: prod.splits)
    have "\<exists>st'. parser_states st c = (st', PARAM_PARSE_MARK_NONE) \<and> inside ?q st'"
      using "2.prems"(1) False by (cases st) (auto split: if_splits)
    then obtain st' where st': "parser_states st c = (st', PARAM_PARSE_MARK_NONE)" "inside ?q st'" by blast
    from "2.IH" [OF False st'(2) p'(1), of "pre @ [c]" "pos + 1"] "2.prems"(3-5) obtain q'' st'' where
      "inside q'' st''" "params_loop buf (pos + 1) st' s = params_loop buf (pos + 1 + length p') st'' s"
      "rest = [] \<or> ends_param q'' (hd rest)" by auto
    moreover have "params_loop buf pos st s = params_loop buf (pos + 1) st' s"
      by (rule params_loop_none [OF _ "2.prems"(4) _ st'(1)]) (use "2.prems"(3,5) in auto)
    ultimately show ?thesis using p'(2) by (intro exI [of _ q''] exI [of _ st'']) (simp add: add.assoc)
  qed
qed

lemma ord_newline: "ord c = 10 \<longleftrightarrow> c = CHR 0x0A"
proof -
  have "ord (CHR 0x0A) = 10" by simp
  then show ?thesis by (metis char_of_char)
qed

text \<open>What filling does: the parameters stand at the next places.\<close>

definition add_params :: "string list \<Rightarrow> params_out \<Rightarrow> params_out" where
  "add_params ps po = po\<lparr>po_argv := take (po_pos po) (po_argv po) @ map Some ps @ drop (po_pos po + length ps) (po_argv po),
     po_pos := po_pos po + length ps, po_mallocs := drop (length ps) (po_mallocs po)\<rparr>"

definition has_room :: "nat \<Rightarrow> params_out \<Rightarrow> bool" where
  "has_room n po \<longleftrightarrow> po_pos po + n \<le> length (po_argv po) \<and> n \<le> length (po_mallocs po) \<and> False \<notin> set (po_mallocs po)"

lemma add_params_Nil [simp]: "add_params [] po = po" by (simp add: add_params_def)

lemma add_params_append: "has_room (length ps) po \<Longrightarrow> add_params qs (add_params ps po) = add_params (ps @ qs) po"
  by (simp add: add_params_def has_room_def ac_simps)

lemma has_room_less: "has_room n po \<Longrightarrow> m \<le> n \<Longrightarrow> has_room m po"
  by (simp add: has_room_def)

lemma has_room_add: "has_room (length ps + n) po \<Longrightarrow> has_room n (add_params ps po)"
  by (auto simp: has_room_def add_params_def dest: in_set_dropD)

lemma dup_param_room:
  assumes "has_room 1 po"
  shows "\<exists>po'. dup_param p po = Some (RC_OK, po') \<and> po'\<lparr>po_pos := po_pos po' + 1\<rparr> = add_params [p] po"
proof -
  obtain bs where "po_mallocs po = True # bs" using assms by (cases "po_mallocs po") (auto simp: has_room_def)
  then show ?thesis
    using assms by (auto simp: dup_param_def has_room_def add_params_def upd_conv_take_nth_drop)
qed

abbreviation scan_room :: "nat \<Rightarrow> params_scan \<Rightarrow> bool" where
  "scan_room n s \<equiv> pred_option (has_room n) (ps_out s)"

text \<open>The parameters that a text still holds, from a state of the machine outside of parameters.\<close>

abbreviation params_from :: "param_parse_state \<Rightarrow> string \<Rightarrow> string list" where
  "params_from st tx \<equiv> text_params (if st = PARAM_PARSE_STATE_COMMENT then dropWhile (\<lambda>c. c \<noteq> CHR 0x0A) tx else tx)"

abbreviation scanned :: "string \<Rightarrow> nat \<Rightarrow> param_parse_state \<Rightarrow> params_scan \<Rightarrow> string list \<Rightarrow> bool" where
  "scanned buf pos st s ps \<equiv> \<exists>s'. params_loop buf pos st s = Some (RC_OK, s') \<and> ps_count s' = ps_count s + length ps \<and>
     ps_out s' = map_option (add_params ps) (ps_out s)"

lemma mark_end:
  assumes "ps_start s = Some start" "take (pos - start) (drop start buf) = p" "scan_room 1 s"
  shows "\<exists>s'. params_mark buf pos PARAM_PARSE_MARK_END_OF_PARAM s = Some (RC_OK, s') \<and>
      ps_count s' = ps_count s + 1 \<and> ps_out s' = map_option (add_params [p]) (ps_out s)"
proof (cases "ps_out s")
  case (Some po)
  with assms(3) have "has_room 1 po" by simp
  from dup_param_room [OF this, of p] Some assms(1,2) show ?thesis by (auto simp: params_mark_def)
qed (use assms(1) in \<open>simp add: params_mark_def\<close>)

lemma scanned_after:
  assumes "scanned buf pos' st' s' ps" "params_loop buf pos st s = params_loop buf pos' st' s'"
    "ps_count s' = ps_count s + 1" "ps_out s' = map_option (add_params [p]) (ps_out s)" "scan_room (Suc (length ps)) s"
  shows "scanned buf pos st s (p # ps)"
proof -
  have "has_room (length [p]) po" if "ps_out s = Some po" for po
    using assms(5) that has_room_less [of "Suc (length ps)" po 1] by simp
  then show ?thesis using assms(1-4) by (cases "ps_out s") (auto simp: add_params_append)
qed

lemma scan_text:
  assumes "outside st \<or> st = PARAM_PARSE_STATE_COMMENT" "buf = pre @ tx @ tail" "length pre = pos"
    "tail = [] \<or> hd tail = CHR 0x00" "CHR 0x00 \<notin> set tx" "scan_room (length (params_from st tx)) s"
  shows "scanned buf pos st s (params_from st tx)"
  using assms
proof (induction tx arbitrary: st pre pos s rule: measure_induct_rule [of length])
  case (less tx)
  show ?case
  proof (cases tx)
    case Nil
    have "\<exists>st'. parser_states st (CHR 0x00) = (st', PARAM_PARSE_MARK_NONE)"
      using less.prems(1) by (auto simp: outside_param_def starts_param_def is_blank_def)
    then obtain st' where "parser_states st (CHR 0x00) = (st', PARAM_PARSE_MARK_NONE)" ..
    from params_loop_end [OF _ less.prems(3,4) this, of buf s s] less.prems(2) Nil show ?thesis
      by (simp add: params_mark_def option.map_ident cong: map_option_cong)
  next
    case (Cons c cs)
    have nz: "c \<noteq> CHR 0x00" "CHR 0x00 \<notin> set cs" using less.prems(5) Cons by auto
    have next_char: "scanned buf pos st s (params_from st tx)"
      if "parser_states st c = (st', PARAM_PARSE_MARK_NONE)" "outside st' \<or> st' = PARAM_PARSE_STATE_COMMENT"
        "params_from st tx = params_from st' cs" for st'
      using less.IH [of cs st' "pre @ [c]" "pos + 1" s] params_loop_none [OF _ less.prems(3) nz(1) that(1), of buf "cs @ tail" s]
        less.prems(2-4,6) Cons nz(2) that(2,3) by simp
    consider "st = PARAM_PARSE_STATE_COMMENT" | "outside st" "\<not> starts_param c" | "outside st" "starts_param c"
      using less.prems(1) by blast
    then show ?thesis
    proof cases
      case 1
      have "\<not> starts_param (CHR 0x0A)" by (simp add: starts_param_def)
      then show ?thesis
        using next_char [of "if c = CHR 0x0A then PARAM_PARSE_STATE_INIT else PARAM_PARSE_STATE_COMMENT"] 1 Cons
        by (auto simp: ord_newline)
    next
      case 2
      let ?st = "if c = CHR ''#'' then PARAM_PARSE_STATE_COMMENT
        else if is_blank c then PARAM_PARSE_STATE_WHITESPACE else PARAM_PARSE_STATE_INIT"
      have "parser_states st c = (?st, PARAM_PARSE_MARK_NONE)" using 2 by (auto simp: outside_param_def)
      moreover have "outside ?st \<or> ?st = PARAM_PARSE_STATE_COMMENT" by simp
      moreover have "params_from st tx = params_from ?st cs" using 2 Cons by auto
      ultimately show ?thesis by (rule next_char)
    next
      case 3
      obtain p rest where p: "param_end False cs = (p, rest)" by fastforce
      note split = param_end_split [OF p]
      have from_c: "params_from st tx = (c # p) # text_params rest"
        using 3 Cons p by (auto simp: starts_param_def)
      have start: "parser_states st c = (PARAM_PARSE_STATE_PARAM, PARAM_PARSE_MARK_START_OF_PARAM)"
        using 3 by (auto simp: outside_param_def starts_param_def)
      let ?s = "s\<lparr>ps_start := Some pos\<rparr>" and ?pos = "pos + 1 + length p"
      have 1: "params_loop buf pos st s = params_loop buf (pos + 1) PARAM_PARSE_STATE_PARAM ?s"
        by (rule params_loop_step [OF _ less.prems(3) nz(1) start]) (use less.prems(2) Cons in \<open>simp_all add: params_mark_def\<close>)
      obtain q st' where st': "inside q st'" "params_loop buf (pos + 1) PARAM_PARSE_STATE_PARAM ?s = params_loop buf ?pos st' ?s"
        "rest = [] \<or> ends_param q (hd rest)"
        using scan_inside [of False PARAM_PARSE_STATE_PARAM cs p rest buf "pre @ [c]" tail "pos + 1" ?s] p less.prems(2,3) Cons nz(2)
        by auto
      have buf: "buf = (pre @ c # p) @ rest @ tail" "length (pre @ c # p) = ?pos" using less.prems(2,3) Cons split by simp_all
      have "take (?pos - pos) (drop pos buf) = c # p" using buf less.prems(3) by simp
      moreover have "scan_room 1 ?s" using less.prems(6) from_c by (cases "ps_out s") (auto intro: has_room_less)
      ultimately obtain s' where s': "params_mark buf ?pos PARAM_PARSE_MARK_END_OF_PARAM ?s = Some (RC_OK, s')"
        "ps_count s' = ps_count s + 1" "ps_out s' = map_option (add_params [c # p]) (ps_out s)"
        using mark_end [of ?s pos ?pos buf "c # p"] by auto
      have rooms: "scan_room (Suc (length (text_params rest))) s" using less.prems(6) from_c by simp
      have room': "scan_room (length (text_params rest)) s'"
        using rooms s'(3) has_room_add [of "[c # p]"] by (cases "ps_out s") auto
      show ?thesis
      proof (cases rest)
        case Nil
        have "parser_states st' (CHR 0x00) = (PARAM_PARSE_STATE_INIT, PARAM_PARSE_MARK_END_OF_PARAM)"
          using st'(1) by (auto split: if_splits)
        from params_loop_end [OF _ buf(2) less.prems(4) this s'(1)] buf(1) Nil
        show ?thesis using 1 st'(2) s' from_c by simp
      next
        case rest: (Cons d r)
        let ?st = "if d = CHR ''#'' then PARAM_PARSE_STATE_COMMENT else PARAM_PARSE_STATE_INIT"
        have d: "parser_states st' d = (?st, PARAM_PARSE_MARK_END_OF_PARAM)"
          using st'(1,3) rest by (auto split: if_splits)
        have dz: "d \<noteq> CHR 0x00" "CHR 0x00 \<notin> set r" using nz(2) split rest by auto
        have "\<not> starts_param d" using st'(3) rest by (auto simp: starts_param_def split: if_splits)
        then have from_d: "text_params rest = params_from ?st r" using rest by auto
        have 2: "params_loop buf ?pos st' ?s = params_loop buf (?pos + 1) ?st s'"
          by (rule params_loop_step [OF _ buf(2) dz(1) d s'(1)]) (use buf(1) rest in simp)
        have "scanned buf (?pos + 1) ?st s' (params_from ?st r)"
          using less.IH [of r ?st "pre @ c # p @ [d]" "?pos + 1" s'] buf less.prems(4) rest dz(2) room' from_d split Cons
          by simp
        from scanned_after [OF this _ s'(2,3), of pos st] 1 st'(2) 2 rooms from_d from_c show ?thesis by simp
      qed
    qed
  qed
qed

lemma get_params_list_text:
  assumes "load f = Inr buf" "pred_option (has_room (length (file_params buf))) po"
  shows "get_params_list load f n po = Some (RC_OK, n + length (file_params buf), map_option (add_params (file_params buf)) po)"
proof (cases "buf = []")
  case True
  then show ?thesis
    using assms(1) by (simp add: get_params_list_def file_params_def option.map_ident cong: map_option_cong)
next
  case False
  define cut where "cut = takeWhile (\<lambda>c. c \<noteq> CHR 0x00) buf"
  define tail where "tail = dropWhile (\<lambda>c. c \<noteq> CHR 0x00) buf"
  have "tail = [] \<or> hd tail = CHR 0x00" using hd_dropWhile [of "\<lambda>c. c \<noteq> CHR 0x00" buf] by (auto simp: tail_def)
  moreover have "CHR 0x00 \<notin> set cut" by (auto simp: cut_def dest: set_takeWhileD)
  moreover have "buf = [] @ cut @ tail" by (simp add: cut_def tail_def)
  moreover have ps: "file_params buf = params_from PARAM_PARSE_STATE_INIT cut" by (simp add: file_params_def cut_def)
  ultimately obtain s' where
    "params_loop buf 0 PARAM_PARSE_STATE_INIT \<lparr>ps_start = None, ps_count = n, ps_out = po\<rparr> = Some (RC_OK, s')"
    "ps_count s' = n + length (file_params buf)" "ps_out s' = map_option (add_params (file_params buf)) po"
    using scan_text [of PARAM_PARSE_STATE_INIT buf "[]" cut tail 0 "\<lparr>ps_start = None, ps_count = n, ps_out = po\<rparr>"] assms(2)
    unfolding ps by fastforce
  then show ?thesis using False assms(1) by (simp add: get_params_list_def)
qed

definition expanded :: "(string \<Rightarrow> string) \<Rightarrow> string list \<Rightarrow> string list" where
  "expanded files argv = concat (map (\<lambda>arg. if names_file arg then file_params (files (tl arg)) else [arg]) argv)"

abbreviation holds_files :: "(string \<Rightarrow> string) \<Rightarrow> (string \<Rightarrow> co_rc + string) \<Rightarrow> string list \<Rightarrow> bool" where
  "holds_files files load argv \<equiv> \<forall>arg \<in> set argv. names_file arg \<longrightarrow> load (tl arg) = Inr (files (tl arg))"

lemma count_params_expanded:
  "holds_files files load argv \<Longrightarrow> count_params load argv n = Some (RC_OK, n + length (expanded files argv))"
  by (induction argv arbitrary: n) (simp_all add: expanded_def get_params_list_text)

lemma fill_params_expanded:
  "holds_files files load argv \<Longrightarrow> has_room (length (expanded files argv)) po \<Longrightarrow>
   fill_params load argv n po = Some (RC_OK, n + length (expanded files argv), add_params (expanded files argv) po)"
proof (induction argv arbitrary: n po)
  case (Cons arg argv)
  let ?ps = "if names_file arg then file_params (files (tl arg)) else [arg]"
  have ex: "expanded files (arg # argv) = ?ps @ expanded files argv" by (simp add: expanded_def)
  then have room: "has_room (length ?ps) po" "has_room (length (expanded files argv)) (add_params ?ps po)"
    using Cons.prems(2) has_room_add [of ?ps "length (expanded files argv)" po] by (auto intro: has_room_less)
  note rest = Cons.IH [OF _ room(2)]
  have app: "add_params (expanded files argv) (add_params ?ps po) = add_params (expanded files (arg # argv)) po"
    using room(1) ex by (simp add: add_params_append)
  show ?case
  proof (cases "names_file arg")
    case True
    then show ?thesis
      using Cons.prems(1) room(1) rest [of "n + length ?ps"] app ex by (simp add: get_params_list_text)
  next
    case False
    then have "has_room 1 po" using room(1) by simp
    from dup_param_room [OF this, of arg] obtain po' where
      "dup_param arg po = Some (RC_OK, po')" "po'\<lparr>po_pos := po_pos po' + 1\<rparr> = add_params [arg] po" by blast
    then show ?thesis using False Cons.prems(1) rest [of "n + 1"] app ex by simp
  qed
qed (simp add: expanded_def)

text \<open>C20: Parameter files. When memory is there and the files can be read and do not change between the two readings,
  the command line that is made has, in its order, the arguments it was given with every \<open>@file\<close> replaced by the
  parameters of the file, whatever the file contains: the parameters are those of the plain description
  \<open>file_params\<close> of a file, several on a line or one on each, each of them whole, with the blanks between its quotation
  marks, ending before a blank, a control character or a comment, which may follow it directly; comments last to the
  end of their line. The space that was counted before is exactly filled.\<close>

theorem co_cmdline_params_alloc_expands:
  assumes "\<forall>arg \<in> set argv. names_file arg \<longrightarrow> load (tl arg) = Inr (files (tl arg))"
    and "3 + length (expanded files argv) \<le> length bs" "False \<notin> set bs"
  shows "co_cmdline_params_alloc load load bs argv =
    Some (RC_OK, Some \<lparr>cl_argv = map Some (expanded files argv), cl_mallocs = drop (3 + length (expanded files argv)) bs\<rparr>)"
proof -
  obtain cs where bs: "bs = True # True # True # cs"
    using assms(2,3) by (cases bs; cases "tl bs"; cases "tl (tl bs)") auto
  let ?po = "\<lparr>po_argv = replicate (length (expanded files argv)) None, po_pos = 0, po_mallocs = cs\<rparr>"
  have "has_room (length (expanded files argv)) ?po" using assms(2,3) bs by (simp add: has_room_def)
  from fill_params_expanded [OF assms(1) this, of 0] count_params_expanded [OF assms(1), of 0]
  show ?thesis by (simp add: co_cmdline_params_alloc_def eval_params_file_def bs add_params_def numeral_3_eq_3)
qed

text \<open>Two parameters on a line, a comment right behind the second, a comment line.\<close>

definition example_file :: string where
  "example_file = ''mem=64 cobd0=root_fs# disk'' @ [CHR 0x0A] @ ''# eth0=tap'' @ [CHR 0x0A] @ ''root=/dev/cobd0''"

theorem co_cmdline_params_alloc_expands_witness:
  "co_cmdline_params_alloc (\<lambda>f. Inr example_file) (\<lambda>f. Inr example_file) (replicate 7 True) [''@a.conf'', ''single''] =
   Some (RC_OK, Some \<lparr>cl_argv = map Some [''mem=64'', ''cobd0=root_fs'', ''root=/dev/cobd0'', ''single''], cl_mallocs = []\<rparr>)"
proof -
  have ex: "expanded (\<lambda>f. example_file) [''@a.conf'', ''single''] = [''mem=64'', ''cobd0=root_fs'', ''root=/dev/cobd0'', ''single'']"
    by code_simp
  show ?thesis
    using co_cmdline_params_alloc_expands [of "[''@a.conf'', ''single'']" "\<lambda>f. Inr example_file" "\<lambda>f. example_file" "replicate 7 True"]
    unfolding ex by simp
qed

text \<open>A file that grows between the two readings overruns the new \<open>argv\<close>; a parameter there is no memory for is left
  out, and the call answers success.\<close>

lemma co_cmdline_params_alloc_gaps:
  "co_cmdline_params_alloc (\<lambda>f. Inr ''a'') (\<lambda>f. Inr ''a b'') (replicate 9 True) [''@f''] = None"
  "co_cmdline_params_alloc (\<lambda>f. Inr ''a b'') (\<lambda>f. Inr ''a b'') [True, True, True, False, True] [''@f''] =
     Some (RC_OK, Some \<lparr>cl_argv = [Some ''b''], cl_mallocs = []\<rparr>)"
  by code_simp+

end
