(* ===== verification/CoConfig.thy ===== *)
theory CoConfig
  imports CoCmdline CoBlock CoDevices CoConsole
begin

text \<open>
  The configuration of a machine from its parameters, \<open>src/colinux/user/config.c\<close>, with the MAC addresses of
  \<open>user/macaddress.c\<close> and the paths of \<open>os/winnt/user/cobdpath.c\<close>. Each parser takes the parameters it knows from
  the command line (\<open>CoCmdline\<close>) and enters them in the configuration \<open>co_config_t\<close>. The build is the one without
  \<open>COLINUX_DEBUG\<close>, video and audio devices. The path services of Windows and the bytes of uninitialised variables are
  parameters.
\<close>

section \<open>Data\<close>

abbreviation sizeof_pathname :: nat where "sizeof_pathname \<equiv> 0x100"
abbreviation CO_NETDEV_DESC_STR_SIZE :: nat where "CO_NETDEV_DESC_STR_SIZE \<equiv> 0x40"
abbreviation CO_NETDEV_REDIRDIR_STR_SIZE :: nat where "CO_NETDEV_REDIRDIR_STR_SIZE \<equiv> 0xFF"
abbreviation CO_MODULE_MAX_COFS :: nat where "CO_MODULE_MAX_COFS \<equiv> 32"

datatype co_netdev_type =
    CO_NETDEV_TYPE_BRIDGED_PCAP
  | CO_NETDEV_TYPE_TAP
  | CO_NETDEV_TYPE_SLIRP
  | CO_NETDEV_TYPE_NDIS_BRIDGE


text \<open>A network device as the user describes it; its first fields are those the kernel uses.\<close>

record co_net_conf = co_netdev_desc +
  nc_desc :: string
  nc_type :: co_netdev_type
  nc_manual_mac :: bool
  nc_redir :: string
  nc_promisc :: bool

datatype scsi_ptype =
    SCSI_PTYPE_DISK
  | SCSI_PTYPE_TAPE
  | SCSI_PTYPE_WORM
  | SCSI_PTYPE_CDDVD
  | SCSI_PTYPE_CHANGER
  | SCSI_PTYPE_PASS

record co_scsi_dev_desc =
  sd_enabled :: bool
  sd_type :: scsi_ptype
  sd_pathname :: string
  sd_is_dev :: bool
  sd_size :: int
  sd_shared :: bool

record co_cofsdev_desc =
  cd_enabled :: bool
  cd_pathname :: string

record co_serialdev_desc =
  sr_enabled :: bool
  sr_desc :: "string option"
  sr_mode :: "string option"

record co_execute_desc =
  ex_enabled :: bool
  ex_prog :: "string option"
  ex_args :: "string option"
  ex_pid :: int

record user_config =
  uc_vmlinux :: string
  uc_block_devs :: "co_block_dev_desc list"
  uc_pci :: pci_space
  uc_scsi_devs :: "co_scsi_dev_desc list"
  uc_net_devs :: "co_net_conf list"
  uc_cofs_devs :: "co_cofsdev_desc list"
  uc_serial_devs :: "co_serialdev_desc list"
  uc_executes :: "co_execute_desc list"
  uc_boot_line :: string
  uc_ram_size :: u32
  uc_initrd :: "string option"
  uc_cobd_async :: bool
  uc_console :: co_console_config
  uc_network_types :: u32



section \<open>Paths\<close>






section \<open>Numbers and lists in a parameter\<close>



definition hex_value :: "char \<Rightarrow> nat option" where
  "hex_value c =
     (if 48 \<le> ord c \<and> ord c \<le> 57 then Some (ord c - 48)
      else if 97 \<le> ord c \<and> ord c \<le> 102 then Some (ord c - 87)
      else if 65 \<le> ord c \<and> ord c \<le> 70 then Some (ord c - 55) else None)"

definition base_digit :: "nat \<Rightarrow> char \<Rightarrow> bool" where
  "base_digit base c \<longleftrightarrow> (case hex_value c of None \<Rightarrow> False | Some d \<Rightarrow> d < base)"

definition base_value :: "nat \<Rightarrow> string \<Rightarrow> nat" where
  "base_value base ds = foldl (\<lambda>n c. base * n + the (hex_value c)) 0 ds"



text \<open>Fields separated by commas. Between quotation marks a comma is a character; two of them are one. A field that is
  cut to its buffer loses a character, and the rest of it is taken for the next field.\<close>

function split_field :: "nat \<Rightarrow> bool \<Rightarrow> string \<Rightarrow> string \<times> string" where
  "split_field room quotation_marks source =
     (if room = 0 \<or> source = [] then ([], source)
      else
        let c = hd source; rest = tl source
        in if c = CHR 0x22
           then if c_char rest \<noteq> CHR 0x22 then split_field room (\<not> quotation_marks) rest
                else let (field, rest) = split_field (room - 1) quotation_marks (tl rest) in (CHR 0x22 # field, rest)
           else if c = CHR '','' \<and> \<not> quotation_marks then ([], source)
           else let (field, rest) = split_field (room - 1) quotation_marks rest in (c # field, rest))"
  by pat_completeness auto
termination
  by (relation "measure (\<lambda>(room, q, source). length source)") (auto simp: neq_Nil_conv less_Suc_eq_le)

declare split_field.simps [simp del]

fun split_comma_separated :: "string \<Rightarrow> nat list \<Rightarrow> string list" where
  "split_comma_separated source [] = []"
| "split_comma_separated source (n # ns) =
     (let (field, source) = split_field (n - 1) False source in field # split_comma_separated (tl source) ns)"




section \<open>MAC addresses\<close>

text \<open>\<open>%02x\<close>: blanks, a sign, a prefix \<open>0x\<close> and hexadecimal digits, at most two characters after the blanks.\<close>

definition scan_hex2 :: "string \<Rightarrow> (u32 \<times> string) option" where
  "scan_hex2 s =
     (let s = dropWhile is_space s; field = take 2 s; (neg, t) = number_sign field;
          t = (if length t = 2 \<and> hd t = CHR ''0'' \<and> t ! 1 \<in> {CHR ''x'', CHR ''X''} then [] else t);
          ds = takeWhile (base_digit 16) t
      in if ds = [] then None
         else Some (if neg then - of_nat (base_value 16 ds) else of_nat (base_value 16 ds), drop (length field - length t + length ds) s))"

text \<open>The fields up to the first that does not match.\<close>

fun scan_mac :: "nat \<Rightarrow> string \<Rightarrow> u32 list" where
  "scan_mac 0 s = []"
| "scan_mac (Suc n) s =
     (case scan_hex2 s of
        None \<Rightarrow> []
      | Some (m, s) \<Rightarrow> m # (if n > 0 \<and> c_char s = CHR '':'' then scan_mac n (tl s) else []))"

text \<open>The bytes are stored before the number of fields is checked: those that did not match are what the stack held.\<close>

definition co_parse_mac_address :: "(nat \<Rightarrow> u8) \<Rightarrow> string \<Rightarrow> u8 list \<Rightarrow> co_rc \<times> u8 list" where
  "co_parse_mac_address stack str binary =
     (if length str \<noteq> 17 then (RC_INVALID_PARAMETER, binary)
      else
        let mac = scan_mac 6 str; binary = map (\<lambda>i. if i < length mac then ucast (mac ! i) else stack i) [0..<6]
        in if length mac \<noteq> 6 then (RC_INVALID_PARAMETER, binary) else (RC_OK, binary))"

definition hex_digit :: "nat \<Rightarrow> char" where
  "hex_digit d = (if d < 10 then char_of (48 + d) else char_of (87 + d))"

definition hex_byte :: "u8 \<Rightarrow> string" where
  "hex_byte b = [hex_digit (unat b div 16), hex_digit (unat b mod 16)]"

fun join_colons :: "string list \<Rightarrow> string" where
  "join_colons [] = []"
| "join_colons [s] = s"
| "join_colons (s # ss) = s @ '':'' @ join_colons ss"

definition co_build_mac_address :: "nat \<Rightarrow> u8 list \<Rightarrow> string" where
  "co_build_mac_address ntext mac = take (ntext - 1) (join_colons (map hex_byte (take 6 mac)))"

section \<open>Devices\<close>










section \<open>Block devices\<close>

abbreviation cobd_slots :: nat where "cobd_slots \<equiv> 32"













section \<open>PCI places and SCSI devices\<close>







section \<open>Network devices\<close>












section \<open>File systems, serial lines and programs\<close>










section \<open>The console\<close>


definition set_console :: "(co_console_config \<Rightarrow> co_console_config) \<Rightarrow> user_config \<Rightarrow> user_config" where
  "set_console f conf = conf\<lparr>uc_console := f (uc_console conf)\<rparr>"







section \<open>The whole configuration\<close>








section \<open>What is printed into the buffers\<close>

text \<open>Strings of C whose length an \<open>int\<close> counts.\<close>

definition text_ok :: "string \<Rightarrow> bool" where
  "text_ok s \<longleftrightarrow> c_string s \<and> length s < 2 ^ 29"

definition params_ok :: "command_line \<Rightarrow> bool" where
  "params_ok cl \<longleftrightarrow> (\<forall>arg. Some arg \<in> set (cl_argv cl) \<longrightarrow> text_ok arg)"












section \<open>A configuration is valid\<close>

text \<open>What holds of every configuration, also when a parser fails: the tables keep their sizes, texts fit their buffers,
  an alias belongs to a device that is enabled, and so does each place in the PCI space.\<close>

definition cobd_ok :: "co_block_dev_desc \<Rightarrow> bool" where
  "cobd_ok b \<longleftrightarrow> length (bd_pathname b) < sizeof_pathname \<and> length (bd_alias b) < 20 \<and> (bd_alias_used b \<longrightarrow> bd_enabled b)"

definition net_ok :: "co_net_conf \<Rightarrow> bool" where
  "net_ok n \<longleftrightarrow> length (nd_mac_address n) = 6 \<and> length (nc_desc n) < CO_NETDEV_DESC_STR_SIZE \<and>
     length (nc_redir n) < CO_NETDEV_REDIRDIR_STR_SIZE"

definition place_ok :: "user_config \<Rightarrow> pci_place \<Rightarrow> bool" where
  "place_ok conf p \<longleftrightarrow> pp_type p = 0 \<or> (pp_type p = CO_DEVICE_SCSI \<and> list_ex sd_enabled (uc_scsi_devs conf)) \<or>
     (pp_type p = CO_DEVICE_NETWORK \<and> unat (pp_unit p) < CO_MODULE_MAX_CONET \<and> nd_enabled (uc_net_devs conf ! unat (pp_unit p)))"

definition config_ok :: "user_config \<Rightarrow> bool" where
  "config_ok conf \<longleftrightarrow>
     length (uc_block_devs conf) = cobd_slots \<and> length (uc_scsi_devs conf) = CO_MODULE_MAX_COSCSI \<and>
     length (uc_net_devs conf) = CO_MODULE_MAX_CONET \<and> length (uc_cofs_devs conf) = CO_MODULE_MAX_COFS \<and>
     list_all cobd_ok (uc_block_devs conf) \<and> list_all (\<lambda>s. length (sd_pathname s) < sizeof_pathname) (uc_scsi_devs conf) \<and>
     list_all net_ok (uc_net_devs conf) \<and> list_all (\<lambda>c. length (cd_pathname c) < sizeof_pathname) (uc_cofs_devs conf) \<and>
     list_all (\<lambda>(x, y). place_ok conf (uc_pci conf x y)) pci_places \<and> length (uc_vmlinux conf) < sizeof_pathname"

text \<open>What holds when no parser fails: each serial line and each program has its name.\<close>

definition names_given :: "user_config \<Rightarrow> bool" where
  "names_given conf \<longleftrightarrow> list_all (\<lambda>s. sr_enabled s \<longrightarrow> sr_desc s \<noteq> None) (uc_serial_devs conf) \<and>
     list_all (\<lambda>e. ex_enabled e \<longrightarrow> ex_prog e \<noteq> None) (uc_executes conf)"

definition config_valid :: "bool \<Rightarrow> user_config \<Rightarrow> bool" where
  "config_valid ok conf \<longleftrightarrow> config_ok conf \<and> (ok \<longrightarrow> names_given conf)"






lemma params_ok_mallocs [simp]: "params_ok (cl\<lparr>cl_mallocs := bs\<rparr>) = params_ok cl"
  by (simp add: params_ok_def)













lemma split_comma_two: "split_comma_separated source [m, n] =
    (let (a, r) = split_field (m - 1) False source; (b, r) = split_field (n - 1) False (tl r) in [a, b])"
  by (simp add: split_beta Let_def)

lemma split_comma_lengths: "length (split_comma_separated source ns) = length ns"
  by (induction ns arbitrary: source) (auto split: prod.splits)






declare split_comma_separated.simps [simp del]


























lemma console_valid [simp]: "config_valid ok (set_console f conf) = config_valid ok conf"
  by (simp add: config_valid_def config_ok_def names_given_def place_ok_def set_console_def)


















section \<open>Which parameters are left\<close>

text \<open>A parameter \<open>prefix...=...\<close>. Of those with the first prefixes a parser takes the first only, of those with the
  others each one.\<close>

definition matches :: "string \<Rightarrow> string \<Rightarrow> bool" where
  "matches pre arg \<longleftrightarrow> CHR ''='' \<in> set arg \<and> take (length pre) arg = pre"





definition none_left :: "string list \<Rightarrow> string option list \<Rightarrow> bool" where
  "none_left pres argv \<longleftrightarrow> (\<forall>arg. Some arg \<in> set argv \<longrightarrow> \<not> list_ex (\<lambda>pre. matches pre arg) pres)"
















lemma none_left_simps [simp]: "none_left [] argv" "none_left (ps @ qs) argv \<longleftrightarrow> none_left ps argv \<and> none_left qs argv"
  by (auto simp: none_left_def)
















section \<open>What is configured\<close>









section \<open>MAC addresses are read back\<close>

lemma hex_value_digit: "d < 16 \<Longrightarrow> hex_value (hex_digit d) = Some d"
  by (auto simp: hex_value_def hex_digit_def)

lemma hex_digit_facts:
  assumes "d < 16"
  shows "\<not> is_space (hex_digit d)" "hex_digit d \<noteq> CHR ''-''" "hex_digit d \<noteq> CHR ''+''" "hex_digit d \<noteq> CHR ''x''" "hex_digit d \<noteq> CHR ''X''"
    "base_digit 16 (hex_digit d)" "hex_digit d \<noteq> CHR '':''"
proof -
  have "d \<in> {0, 1, 2, 3, 4, 5, 6, 7, 8, 9, 10, 11, 12, 13, 14, 15}" using assms by (simp add: numeral_eq_Suc less_Suc_eq)
  then show "\<not> is_space (hex_digit d)" "hex_digit d \<noteq> CHR ''-''" "hex_digit d \<noteq> CHR ''+''" "hex_digit d \<noteq> CHR ''x''" "hex_digit d \<noteq> CHR ''X''"
    "base_digit 16 (hex_digit d)" "hex_digit d \<noteq> CHR '':''"
    by (elim insertE emptyE; hypsubst; code_simp)+
qed

lemma scan_hex_byte: "scan_hex2 (hex_byte b @ rest) = Some (ucast b, rest)"
proof -
  have d: "unat b div 16 < 16" "unat b mod 16 < 16" using unsigned_less [of b, where 'a = nat] by simp_all
  let ?c = "hex_digit (unat b div 16)" and ?d = "hex_digit (unat b mod 16)"
  note f = hex_digit_facts [OF d(1)] hex_digit_facts [OF d(2)]
  have v: "base_value 16 [?c, ?d] = unat b" using d by (simp add: base_value_def hex_value_digit)
  have "word_of_nat (unat b) = (ucast b :: u32)" by (simp add: word_unat_eq_iff unsigned_ucast_eq unat_of_nat take_bit_eq_mod)
  with f v show ?thesis by (simp add: scan_hex2_def hex_byte_def number_sign_def Let_def)
qed

lemma scan_mac_build:
  "bs \<noteq> [] \<Longrightarrow> scan_mac (length bs) (join_colons (map hex_byte bs)) = map ucast bs"
proof (induction bs)
  case (Cons b bs)
  show ?case
  proof (cases bs)
    case Nil
    then show ?thesis using scan_hex_byte [of b "[]"] by simp
  next
    case (Cons b2 bs2)
    have "scan_mac (length bs) (join_colons (map hex_byte bs)) = map ucast bs" using Cons.IH Cons by simp
    then show ?thesis using scan_hex_byte [of b "'':'' @ join_colons (map hex_byte bs)"] Cons by simp
  qed
qed simp

lemma join_colons_length: "ss \<noteq> [] \<Longrightarrow> \<forall>s \<in> set ss. length s = 2 \<Longrightarrow> length (join_colons ss) + 1 = 3 * length ss"
  by (induction ss rule: join_colons.induct) auto

text \<open>C21: The text of a MAC address is read back: the 17 characters \<open>co_build_mac_address\<close> prints for six bytes, into a
  buffer that takes them and the NUL, are an address for \<open>co_parse_mac_address\<close>, and it is the same one, whatever the
  stack and the old address were.\<close>

theorem co_mac_address_roundtrip:
  assumes "length mac = 6" "18 \<le> ntext"
  shows "co_parse_mac_address stack (co_build_mac_address ntext mac) binary = (RC_OK, mac)"
proof -
  let ?s = "join_colons (map hex_byte mac)"
  have len: "length ?s = 17" using join_colons_length [of "map hex_byte mac"] assms(1) by (cases mac) (auto simp: hex_byte_def)
  then have b: "co_build_mac_address ntext mac = ?s" using assms by (simp add: co_build_mac_address_def)
  have m: "scan_mac 6 ?s = map ucast mac" using scan_mac_build [of mac, unfolded assms(1)] assms(1) by fastforce
  have "map (\<lambda>i. if i < length (map ucast mac :: u32 list) then ucast ((map ucast mac :: u32 list) ! i) else stack i) [0..<6] = mac"
    using assms(1) by (intro nth_equalityI) (simp_all add: ucast_up_ucast_id is_up)
  with len b m assms(1) show ?thesis by (simp add: co_parse_mac_address_def)
qed

theorem co_mac_address_roundtrip_witness:
  "co_parse_mac_address (\<lambda>i. 7) (co_build_mac_address 18 [0x00, 0xFF, 0x4E, 0xA0, 0x09, 0xC1]) (replicate 6 0) =
     (RC_OK, [0x00, 0xFF, 0x4E, 0xA0, 0x09, 0xC1]) \<and>
   co_build_mac_address 18 [0x00, 0xFF, 0x4E, 0xA0, 0x09, 0xC1] = ''00:ff:4e:a0:09:c1''"
proof
  show "co_parse_mac_address (\<lambda>i. 7) (co_build_mac_address 18 [0x00, 0xFF, 0x4E, 0xA0, 0x09, 0xC1]) (replicate 6 0) =
     (RC_OK, [0x00, 0xFF, 0x4E, 0xA0, 0x09, 0xC1])"
    by (rule co_mac_address_roundtrip) simp_all
  show "co_build_mac_address 18 [0x00, 0xFF, 0x4E, 0xA0, 0x09, 0xC1] = ''00:ff:4e:a0:09:c1''" by code_simp
qed

end
