(* ===== verification/Spec2Isabelle.thy ===== *)
theory Spec2Isabelle
  imports CoErrors CoLibc CoList CoQueue CoMessages CoSnprintf CoNames CoConsole CoPages CoUnicode CoWinNt CoBlock CoFsInvariant CoManagerSteps CoDevices CoLifecycleSteps CoPassagePage CoConfig
begin

text \<open>Cooperative Linux: the components of \<open>src/colinux\<close>, see the theories.\<close>

end
